(* ===== verification/Py_Prelude.thy ===== *)
theory Py_Prelude
  imports Main "HOL-Library.AList" "HOL-Library.List_Lexorder" "HOL-Library.Product_Lexorder"
    "HOL-Library.Char_ord" "HOL-Library.Multiset" "HOL-Library.Sublist"
begin

section \<open>Prelude: Python exceptions, control flow, strings, dictionaries, sorting\<close>

text \<open>
  The part of the Python language that every component shares.
  \<^item> An exception is a value \<open>Exn class message\<close>. The classes are the built-in ones the code can
    run into and the ones the modelled modules declare. The text of a built-in error is not modelled (\<open>''''\<close>), except
    that a \<^verbatim>\<open>KeyError\<close> carries the key.
  \<^item> A computation that may raise is a \<open>'a result\<close>: \<open>Inl\<close> the exception, \<open>Inr\<close> the value.
    \<open>bnd\<close> sequences two of them; \<open>mapM\<close> and \<open>foldM\<close> are a comprehension and a loop
    whose body may raise. A method that mutates its object is a function from the old state to a
    pair of a result and the new state, so that what was written before a \<^verbatim>\<open>raise\<close> stays written.
  \<^item> A Python \<^verbatim>\<open>str\<close> is its UTF-8 byte sequence, an Isabelle \<open>string\<close>. Concatenation,
    equality, prefix tests, and ordering (byte order is code-point order) agree with Python on all
    text; \<open>py_lower\<close> and \<open>py_upper\<close> agree on ASCII text.
  \<^item> A \<^verbatim>\<open>dict\<close> is an association list in insertion order, updated by \<open>AList.update\<close>, which
    replaces in place or appends, as Python does.
  \<^item> \<^verbatim>\<open>sorted(xs, key=f)\<close> is \<open>sort_key f xs\<close>: both are stable.
\<close>

named_theorems result_simps \<open>inversion of computations that returned\<close>
named_theorems py_defs \<open>definitions of the Python operations, for evaluation\<close>

subsection \<open>Exceptions and results\<close>

datatype exn_class =
    KeyError | TypeError | ValueError | AttributeError | InvalidOperation | DivisionByZero
  | OverflowError
  | C2ESerializationError | C2EModelError | BoundaryPackError | CandidateError | DependencyError
  | StreamError | TopologyError | LifecycleError | ProjectionError | PersistenceError
  | CheckpointError | DownstreamBoundaryError | FirewallError | SourceBindingError
  | C2EHandoffError | StableSignatureError | EmpiricalBoundaryRuleError | SourceReplayError
  | AssuranceMetricError | AG2ComparatorError | InputRejected | IndexError
  | ComputabilityError | TransitionDetectorError | OccurrenceContextError

datatype exn = Exn (exn_class: exn_class) (exn_message: string)

type_synonym 'a result = "exn + 'a"

definition bnd :: "'a result \<Rightarrow> ('a \<Rightarrow> 'b result) \<Rightarrow> 'b result" where
  "bnd m f = (case m of Inl e \<Rightarrow> Inl e | Inr x \<Rightarrow> f x)"

lemma bnd_Inl [simp]: "bnd (Inl e) f = Inl e"
  by (simp add: bnd_def)

lemma bnd_Inr [simp]: "bnd (Inr x) f = f x"
  by (simp add: bnd_def)

lemma bnd_eq_Inr [result_simps]: "bnd m f = Inr y \<longleftrightarrow> (\<exists>x. m = Inr x \<and> f x = Inr y)"
  by (cases m) (simp_all add: bnd_def)

lemma bnd_eq_Inl: "bnd m f = Inl e \<longleftrightarrow> m = Inl e \<or> (\<exists>x. m = Inr x \<and> f x = Inl e)"
  by (cases m) (simp_all add: bnd_def)

lemma bndE: "bnd m f = Inr y \<Longrightarrow> (\<And>x. m = Inr x \<Longrightarrow> f x = Inr y \<Longrightarrow> P) \<Longrightarrow> P"
  by (auto simp: bnd_eq_Inr)

lemma bnd_cong [fundef_cong]:
  "m = m' \<Longrightarrow> (\<And>x. m' = Inr x \<Longrightarrow> f x = g x) \<Longrightarrow> bnd m f = bnd m' g"
  by (cases m') (simp_all add: bnd_def)

lemma bnd_assoc: "bnd (bnd m f) g = bnd m (\<lambda>x. bnd (f x) g)"
  by (cases m) simp_all

text \<open>Raising unless a condition holds, the shape of every \<^verbatim>\<open>_require\<close> helper of the source.\<close>

definition req :: "exn_class \<Rightarrow> bool \<Rightarrow> string \<Rightarrow> unit result" where
  "req c b msg = (if b then Inr () else Inl (Exn c msg))"

lemma req_True [simp]: "req c True msg = Inr ()"
  by (simp add: req_def)

lemma req_False [simp]: "req c False msg = Inl (Exn c msg)"
  by (simp add: req_def)

lemma req_eq_Inr [result_simps]: "req c b msg = Inr u \<longleftrightarrow> b"
  by (simp add: req_def)

lemma bnd_req: "bnd (req c b msg) f = (if b then f () else Inl (Exn c msg))"
  by (simp add: req_def)

definition is_ok :: "'a result \<Rightarrow> bool" where
  "is_ok m = (case m of Inl _ \<Rightarrow> False | Inr _ \<Rightarrow> True)"

lemma is_ok_simps [simp]: "is_ok (Inr x)" "\<not> is_ok (Inl e)"
  by (simp_all add: is_ok_def)

lemma is_ok_iff: "is_ok m \<longleftrightarrow> (\<exists>x. m = Inr x)"
  by (cases m) (simp_all add: is_ok_def)

subsection \<open>Loops whose body may raise\<close>

fun mapM :: "('a \<Rightarrow> 'b result) \<Rightarrow> 'a list \<Rightarrow> 'b list result" where
  "mapM f [] = Inr []"
| "mapM f (x # xs) = bnd (f x) (\<lambda>y. bnd (mapM f xs) (\<lambda>ys. Inr (y # ys)))"

fun foldM :: "('s \<Rightarrow> 'a \<Rightarrow> 's result) \<Rightarrow> 's \<Rightarrow> 'a list \<Rightarrow> 's result" where
  "foldM f s [] = Inr s"
| "foldM f s (x # xs) = bnd (f s x) (\<lambda>s'. foldM f s' xs)"

lemma mapM_cong [fundef_cong]:
  "xs = ys \<Longrightarrow> (\<And>x. x \<in> set ys \<Longrightarrow> f x = g x) \<Longrightarrow> mapM f xs = mapM g ys"
  by (induction ys arbitrary: xs) auto

lemma mapM_Inr_iff [result_simps]:
  "mapM f xs = Inr ys \<longleftrightarrow> list_all2 (\<lambda>x y. f x = Inr y) xs ys"
proof (induction xs arbitrary: ys)
  case Nil
  then show ?case by auto
next
  case (Cons x xs)
  then show ?case by (cases ys) (auto simp: result_simps)
qed

lemma mapM_Inr [simp]: "mapM (\<lambda>x. Inr (f x)) xs = Inr (map f xs)"
  by (induction xs) simp_all

lemma mapM_length: "mapM f xs = Inr ys \<Longrightarrow> length ys = length xs"
  by (auto simp: mapM_Inr_iff dest: list_all2_lengthD)

lemma mapM_append: "mapM f (xs @ ys) = bnd (mapM f xs) (\<lambda>us. bnd (mapM f ys) (\<lambda>vs. Inr (us @ vs)))"
  by (induction xs) (simp_all add: bnd_assoc, cases "mapM f ys", simp_all)

lemma foldM_append: "foldM f s (xs @ ys) = bnd (foldM f s xs) (\<lambda>s'. foldM f s' ys)"
  by (induction xs arbitrary: s) (simp_all add: bnd_assoc)

lemma foldM_snoc: "foldM f s (xs @ [x]) = bnd (foldM f s xs) (\<lambda>s'. f s' x)"
  by (simp add: foldM_append bnd_def split: sum.splits)

lemma foldM_invariant:
  assumes "foldM f s xs = Inr t" and "P s"
    and "\<And>s x s'. x \<in> set xs \<Longrightarrow> P s \<Longrightarrow> f s x = Inr s' \<Longrightarrow> P s'"
  shows "P t"
  using assms by (induction xs arbitrary: s) (auto simp: result_simps)

lemma is_ok_bnd [simp]: "is_ok (bnd m f) \<longleftrightarrow> is_ok m \<and> is_ok (f (projr m))"
  by (cases m) simp_all

lemma is_ok_mapM [simp]: "is_ok (mapM f xs) \<longleftrightarrow> (\<forall>x \<in> set xs. is_ok (f x))"
  by (induction xs) auto

lemma mapM_req: "mapM (\<lambda>f. req c (P f) (m f)) fs = Inr us \<longleftrightarrow> (\<forall>f \<in> set fs. P f) \<and> us = map (\<lambda>_. ()) fs"
  by (induction fs arbitrary: us) (auto simp: result_simps list_all2_Cons1)

lemma list_all2_right_mem:
  "list_all2 P xs ys \<Longrightarrow> y \<in> set ys \<Longrightarrow> \<exists>x \<in> set xs. P x y"
  by (induction rule: list_all2_induct) auto

lemma mapM_mem: "mapM f xs = Inr ys \<Longrightarrow> y \<in> set ys \<Longrightarrow> \<exists>x \<in> set xs. f x = Inr y"
  by (simp add: mapM_Inr_iff) (rule list_all2_right_mem)

lemma mapM_list_all2:
  "list_all2 (\<lambda>x y. f x = f y) xs ys \<Longrightarrow> mapM f xs = mapM f ys"
  by (induction rule: list_all2_induct) simp_all

lemma mapM_mset:
  assumes "mapM f xs = Inr ys" and "mset (map f xs) = mset (map g zs)"
  obtains ys' where "mapM g zs = Inr ys'" and "mset ys' = mset ys"
proof -
  have eq: "map f xs = map Inr ys" using assms(1) by (simp add: mapM_Inr_iff list_all2_conv_all_nth list_eq_iff_nth_eq)
  have "mset (map Inr ys) = mset (map g zs)" using assms(2) eq by simp
  then have "set (map g zs) = set (map Inr ys)" by (metis set_mset_mset)
  then have "g z \<in> Inr ` set ys" if "z \<in> set zs" for z using that by (metis image_eqI image_set)
  then have "\<forall>z \<in> set zs. g z = Inr (projr (g z))" by force
  then have m: "mapM g zs = Inr (map (projr \<circ> g) zs)"
    by (simp add: mapM_Inr_iff list_all2_conv_all_nth)
  have "mset (map (projr \<circ> g) zs) = image_mset projr (mset (map g zs))" by (simp add: image_mset.compositionality)
  also have "\<dots> = image_mset projr (mset (map f xs))" using assms(2) by simp
  also have "\<dots> = mset ys" using eq by (simp add: comp_def flip: mset_map)
  finally show ?thesis using that m by blast
qed

subsection \<open>Methods that mutate: a state passed through, kept on a raise\<close>

type_synonym ('s, 'a) act = "'s \<Rightarrow> 'a result \<times> 's"

definition abind :: "('s, 'a) act \<Rightarrow> ('a \<Rightarrow> ('s, 'b) act) \<Rightarrow> ('s, 'b) act" where
  "abind m f = (\<lambda>s. case m s of (Inl e, s') \<Rightarrow> (Inl e, s') | (Inr x, s') \<Rightarrow> f x s')"

definition areturn :: "'a \<Rightarrow> ('s, 'a) act" where
  "areturn x = (\<lambda>s. (Inr x, s))"

text \<open>A pure computation, a state read and a state write as actions.\<close>

definition lift_r :: "'a result \<Rightarrow> ('s, 'a) act" where
  "lift_r m = (\<lambda>s. (m, s))"

definition aget :: "('s \<Rightarrow> 'a) \<Rightarrow> ('s, 'a) act" where
  "aget f = (\<lambda>s. (Inr (f s), s))"

definition amod :: "('s \<Rightarrow> 's) \<Rightarrow> ('s, unit) act" where
  "amod f = (\<lambda>s. (Inr (), f s))"

lemmas act_defs = abind_def areturn_def lift_r_def aget_def amod_def

lemma areturn_apply [simp]: "areturn x s = (Inr x, s)"
  by (simp add: areturn_def)

lemma lift_r_apply [simp]: "lift_r m s = (m, s)"
  by (simp add: lift_r_def)

lemma aget_apply [simp]: "aget f s = (Inr (f s), s)"
  by (simp add: aget_def)

lemma amod_apply [simp]: "amod f s = (Inr (), f s)"
  by (simp add: amod_def)

lemma abind_apply:
  "abind m f s = (case m s of (Inl e, s') \<Rightarrow> (Inl e, s') | (Inr x, s') \<Rightarrow> f x s')"
  by (simp add: abind_def)

text \<open>An assertion that a step keeps, whatever it returns, is kept by a sequence of steps.\<close>

definition keeps :: "('s \<Rightarrow> bool) \<Rightarrow> ('s, 'a) act \<Rightarrow> bool" where
  "keeps P m \<longleftrightarrow> (\<forall>s. P s \<longrightarrow> P (snd (m s)))"

lemma keepsI: "(\<And>s. P s \<Longrightarrow> P (snd (m s))) \<Longrightarrow> keeps P m"
  by (simp add: keeps_def)

lemma keepsD: "keeps P m \<Longrightarrow> P s \<Longrightarrow> P (snd (m s))"
  by (simp add: keeps_def)

lemma keeps_abind: "keeps P m \<Longrightarrow> (\<And>x. keeps P (f x)) \<Longrightarrow> keeps P (abind m f)"
  by (auto simp: keeps_def abind_def split: prod.splits sum.splits)

lemma keeps_pure [simp, intro]: "keeps P (areturn x)" "keeps P (lift_r r)" "keeps P (aget g)"
  by (simp_all add: keeps_def)

lemma keeps_amod: "(\<And>s. P s \<Longrightarrow> P (f s)) \<Longrightarrow> keeps P (amod f)"
  by (simp add: keeps_def)

lemma abind_Inr:
  "abind m f s = (Inr y, s') \<longleftrightarrow> (\<exists>x s1. m s = (Inr x, s1) \<and> f x s1 = (Inr y, s'))"
  by (auto simp: abind_apply split: prod.splits sum.splits)

lemma abind_Inl:
  "abind m f s = (Inl e, s') \<longleftrightarrow> m s = (Inl e, s') \<or> (\<exists>x s1. m s = (Inr x, s1) \<and> f x s1 = (Inl e, s'))"
  by (auto simp: abind_apply split: prod.splits sum.splits)

lemmas act_inv = abind_Inr abind_Inl lift_r_apply aget_apply amod_apply areturn_apply

subsection \<open>Triples: what holds after a call that returned, and after one that raised\<close>

definition triple :: "('s \<Rightarrow> bool) \<Rightarrow> ('s, 'a) act \<Rightarrow> ('a \<Rightarrow> 's \<Rightarrow> bool) \<Rightarrow> ('s \<Rightarrow> bool) \<Rightarrow> bool" where
  "triple P m Q E \<longleftrightarrow> (\<forall>s. P s \<longrightarrow> (case m s of (Inl e, s') \<Rightarrow> E s' | (Inr x, s') \<Rightarrow> Q x s'))"

lemma tripleI:
  assumes "\<And>s e s'. P s \<Longrightarrow> m s = (Inl e, s') \<Longrightarrow> E s'" and "\<And>s x s'. P s \<Longrightarrow> m s = (Inr x, s') \<Longrightarrow> Q x s'"
  shows "triple P m Q E"
  unfolding triple_def by (auto split: prod.splits sum.splits dest: assms)

lemma triple_Inl: "triple P m Q E \<Longrightarrow> P s \<Longrightarrow> m s = (Inl e, s') \<Longrightarrow> E s'"
  unfolding triple_def by (fastforce split: prod.splits sum.splits)

lemma triple_Inr: "triple P m Q E \<Longrightarrow> P s \<Longrightarrow> m s = (Inr x, s') \<Longrightarrow> Q x s'"
  unfolding triple_def by (fastforce split: prod.splits sum.splits)

lemma triple_bind: "triple P m R E \<Longrightarrow> (\<And>x. triple (R x) (f x) Q E) \<Longrightarrow> triple P (abind m f) Q E"
  by (rule tripleI) (auto simp: act_inv dest: triple_Inl triple_Inr)

lemma triple_lift: "(\<And>s e. P s \<Longrightarrow> r = Inl e \<Longrightarrow> E s) \<Longrightarrow> triple P (lift_r r) (\<lambda>x s. r = Inr x \<and> P s) E"
  by (rule tripleI) auto

lemma triple_get: "triple P (aget g) (\<lambda>x s. x = g s \<and> P s) E"
  by (rule tripleI) auto

lemma triple_mod: "(\<And>s. P s \<Longrightarrow> Q (f s)) \<Longrightarrow> triple P (amod f) (\<lambda>_. Q) E"
  by (rule tripleI) auto

lemma triple_return: "(\<And>s. P s \<Longrightarrow> Q x s) \<Longrightarrow> triple P (areturn x) Q E"
  by (rule tripleI) auto

lemma triple_pre: "triple P m Q E \<Longrightarrow> (\<And>s. P' s \<Longrightarrow> P s) \<Longrightarrow> triple P' m Q E"
  by (rule tripleI) (auto dest: triple_Inl triple_Inr)

lemma triple_post: "triple P m Q E \<Longrightarrow> (\<And>x s. Q x s \<Longrightarrow> Q' x s) \<Longrightarrow> triple P m Q' E"
  by (rule tripleI) (auto dest: triple_Inl triple_Inr)

lemma triple_snd: "triple P m (\<lambda>_. Q) Q \<Longrightarrow> P s \<Longrightarrow> Q (snd (m s))"
  unfolding triple_def by (fastforce split: prod.splits sum.splits)

lemma triple_pure: "(B \<Longrightarrow> triple P m Q E) \<Longrightarrow> triple (\<lambda>s. B \<and> P s) m Q E"
  by (rule tripleI) (auto dest: triple_Inl triple_Inr)

subsection \<open>Strings\<close>

definition lower_char :: "char \<Rightarrow> char" where
  "lower_char c = (let n = (of_char c :: nat) in if 65 \<le> n \<and> n \<le> 90 then char_of (n + 32) else c)"

definition upper_char :: "char \<Rightarrow> char" where
  "upper_char c = (let n = (of_char c :: nat) in if 97 \<le> n \<and> n \<le> 122 then char_of (n - 32) else c)"

definition py_lower :: "string \<Rightarrow> string" where
  "py_lower s = map lower_char s"

definition py_upper :: "string \<Rightarrow> string" where
  "py_upper s = map upper_char s"

text \<open>\<^verbatim>\<open>t in s\<close>, \<^verbatim>\<open>s.startswith(p)\<close> and \<^verbatim>\<open>s.endswith(p)\<close> are \<open>sublist t s\<close>, \<open>prefix p s\<close>
  and \<open>suffix p s\<close> of the library; \<^verbatim>\<open>sep.join(xs)\<close> is \<open>join\<close>.\<close>

fun join :: "string \<Rightarrow> string list \<Rightarrow> string" where
  "join sep [] = []"
| "join sep [x] = x"
| "join sep (x # y # xs) = x @ sep @ join sep (y # xs)"

definition digit_char :: "nat \<Rightarrow> char" where
  "digit_char d = char_of (48 + d)"

fun nat_str :: "nat \<Rightarrow> string" where
  "nat_str n = (if n < 10 then [digit_char n] else nat_str (n div 10) @ [digit_char (n mod 10)])"

declare nat_str.simps [simp del]

definition int_str :: "int \<Rightarrow> string" where
  "int_str i = (if i < 0 then CHR ''-'' # nat_str (nat (- i)) else nat_str (nat i))"

definition is_digit :: "char \<Rightarrow> bool" where
  "is_digit c = (let n = (of_char c :: nat) in 48 \<le> n \<and> n \<le> 57)"

definition digit_val :: "char \<Rightarrow> nat" where
  "digit_val c = (of_char c :: nat) - 48"

definition digits_val :: "string \<Rightarrow> nat" where
  "digits_val s = foldl (\<lambda>n c. 10 * n + digit_val c) 0 s"

lemma is_digit_digit_char [simp]: "d < 10 \<Longrightarrow> is_digit (digit_char d)"
  by (simp add: is_digit_def digit_char_def)

lemma digit_val_digit_char [simp]: "d < 10 \<Longrightarrow> digit_val (digit_char d) = d"
  by (simp add: digit_val_def digit_char_def)

lemma digit_char_digit_val: "is_digit c \<Longrightarrow> digit_char (digit_val c) = c"
  by (simp add: is_digit_def digit_val_def digit_char_def Let_def)

lemma digit_val_less: "is_digit c \<Longrightarrow> digit_val c < 10"
  by (auto simp: is_digit_def digit_val_def Let_def)

lemma nat_str_nonempty [simp]: "nat_str n \<noteq> []"
  by (subst nat_str.simps) simp

lemma nat_str_digits: "list_all is_digit (nat_str n)"
proof (induction n rule: nat_str.induct)
  case (1 n)
  then show ?case by (subst nat_str.simps) simp
qed

lemma digits_val_snoc: "digits_val (s @ [c]) = 10 * digits_val s + digit_val c"
  by (simp add: digits_val_def)

lemma digits_val_nat_str [simp]: "digits_val (nat_str n) = n"
proof (induction n rule: nat_str.induct)
  case (1 n)
  show ?case
  proof (cases "n < 10")
    case True
    then show ?thesis by (subst nat_str.simps) (simp add: digits_val_def)
  next
    case False
    with 1 have "digits_val (nat_str (n div 10)) = n div 10" by simp
    with False show ?thesis
      by (subst nat_str.simps) (simp add: digits_val_snoc)
  qed
qed

lemma nat_str_inj [simp]: "nat_str m = nat_str n \<longleftrightarrow> m = n"
  by (metis digits_val_nat_str)

lemma hd_nat_str_digit: "is_digit (hd (nat_str n))"
  by (metis hd_in_set list_all_iff nat_str_digits nat_str_nonempty)

lemma not_digit_minus [simp]: "\<not> is_digit CHR ''-''"
  by (simp add: is_digit_def)

lemma nat_str_not_minus: "nat_str n \<noteq> CHR ''-'' # s"
  using hd_nat_str_digit [of n] by auto

lemma int_str_nonempty [simp]: "int_str i \<noteq> []"
  by (simp add: int_str_def)

lemma int_str_inj [simp]: "int_str i = int_str j \<longleftrightarrow> i = j"
proof
  assume eq: "int_str i = int_str j"
  show "i = j"
  proof (cases "i < 0"; cases "j < 0")
    assume "i < 0" "j < 0"
    with eq show ?thesis by (simp add: int_str_def)
  next
    assume "i < 0" "\<not> j < 0"
    with eq show ?thesis using nat_str_not_minus by (metis int_str_def)
  next
    assume "\<not> i < 0" "j < 0"
    with eq show ?thesis using nat_str_not_minus by (metis int_str_def)
  next
    assume "\<not> i < 0" "\<not> j < 0"
    with eq show ?thesis by (simp add: int_str_def)
  qed
qed simp

subsection \<open>Association lists as dictionaries\<close>

text \<open>A well-formed dictionary has each key once; every operation below keeps that.\<close>

definition wf_dict :: "('k \<times> 'v) list \<Rightarrow> bool" where
  "wf_dict kvs \<longleftrightarrow> distinct (map fst kvs)"

lemma wf_dict_Nil [simp]: "wf_dict []"
  by (simp add: wf_dict_def)

lemma wf_dict_update [simp]: "wf_dict kvs \<Longrightarrow> wf_dict (AList.update k v kvs)"
  by (simp add: wf_dict_def distinct_update)

lemma wf_dict_delete [simp]: "wf_dict kvs \<Longrightarrow> wf_dict (AList.delete k kvs)"
  by (simp add: wf_dict_def distinct_delete)

lemma wf_dict_filter [simp]: "wf_dict kvs \<Longrightarrow> wf_dict (filter P kvs)"
  by (simp add: wf_dict_def distinct_map_filter)

lemma map_of_update [simp]: "map_of (AList.update k v kvs) = (map_of kvs)(k \<mapsto> v)"
  by (simp add: update_conv')

lemma map_of_delete [simp]: "map_of (AList.delete k kvs) = (map_of kvs)(k := None)"
  by (simp add: delete_conv')

lemma set_update_subset: "set (AList.update k v d) \<subseteq> insert (k, v) (set d)"
  by (induction d) auto

lemma filter_update_absent:
  "\<not> P k \<Longrightarrow> filter (\<lambda>(k, v). P k) (AList.update k v d) = filter (\<lambda>(k, v). P k) d"
  by (induction d) auto

lemma find_pair_unique:
  assumes "distinct (map f xs)" and "x \<in> set xs"
  shows "find (\<lambda>y. f y = f x) xs = Some x"
  using assms by (induction xs) (auto simp: image_iff)

lemma AList_update_same: "map_of d k = Some v \<Longrightarrow> AList.update k v d = d"
  by (induction d) auto

lemma map_of_filter_key:
  "map_of (filter (\<lambda>(k, v). P k) kvs) = (\<lambda>k. if P k then map_of kvs k else None)"
  by (induction kvs) (auto simp: fun_eq_iff)

lemma wf_dict_mset_map_of:
  assumes "wf_dict kvs" and "mset kvs = mset kvs'"
  shows "map_of kvs = map_of kvs'" and "wf_dict kvs'"
proof -
  have s: "set kvs = set kvs'" using assms(2) by (metis set_mset_mset)
  have "mset (map fst kvs) = mset (map fst kvs')" using assms(2) by simp
  with assms(1) show wf': "wf_dict kvs'"
    by (metis mset_eq_imp_distinct_iff wf_dict_def)
  show "map_of kvs = map_of kvs'"
    using assms(1) wf' s by (metis map_of_inject_set wf_dict_def)
qed

subsection \<open>Sorting\<close>

text \<open>\<^verbatim>\<open>sorted(set(xs))\<close>\<close>

definition sorted_set :: "'a::linorder list \<Rightarrow> 'a list" where
  "sorted_set xs = sort (remdups xs)"

lemma sorted_set_eq: "sorted_set xs = sorted_list_of_set (set xs)"
  by (simp add: sorted_set_def sorted_list_of_set_sort_remdups)

lemma set_sorted_set [simp]: "set (sorted_set xs) = set xs"
  by (simp add: sorted_set_def)

lemma distinct_sorted_set [simp]: "distinct (sorted_set xs)"
  by (simp add: sorted_set_def)

lemma sorted_sorted_set [simp]: "sorted (sorted_set xs)"
  by (simp add: sorted_set_def)

lemma sorted_set_cong: "set xs = set ys \<Longrightarrow> sorted_set xs = sorted_set ys"
  by (simp add: sorted_set_eq)

lemma sorted_set_idem [simp]: "sorted_set (sorted_set xs) = sorted_set xs"
  by (rule sorted_set_cong) simp

lemma filter_same_key:
  assumes "inj_on f (set xs)" and "k \<in> set xs"
  shows "filter (\<lambda>x. f k = f x) xs = replicate (count_list xs k) k"
proof -
  have "filter (\<lambda>x. f k = f x) xs = filter (\<lambda>x. x = k) xs"
    using assms by (intro filter_cong) (auto dest: inj_onD)
  also have "\<dots> = replicate (count_list xs k) k"
    by (induction xs) auto
  finally show ?thesis .
qed

lemma mset_count_list: "mset xs = mset ys \<Longrightarrow> count_list xs k = count_list ys k"
  by (metis count_mset)

text \<open>A stable sort by a key that tells the elements apart does not see the input order.\<close>

lemma sort_key_mset_cong:
  assumes "mset xs = mset ys" and "inj_on f (set xs)"
  shows "sort_key f xs = sort_key f ys"
proof (rule properties_for_sort_key)
  show "mset (sort_key f ys) = mset xs" using assms(1) by simp
  show "sorted (map f (sort_key f ys))" by simp
  fix k assume k: "k \<in> set (sort_key f ys)"
  have sets: "set xs = set ys" using assms(1) by (metis set_mset_mset)
  with assms(2) have inj: "inj_on f (set (sort_key f ys))" by simp
  have "filter (\<lambda>x. f k = f x) (sort_key f ys) = replicate (count_list (sort_key f ys) k) k"
    using inj k by (rule filter_same_key)
  also have "count_list (sort_key f ys) k = count_list xs k"
    using assms(1) by (intro mset_count_list) simp
  also have "replicate (count_list xs k) k = filter (\<lambda>x. f k = f x) xs"
    using assms(2) k sets by (intro filter_same_key [symmetric]) auto
  finally show "filter (\<lambda>x. f k = f x) (sort_key f ys) = filter (\<lambda>x. f k = f x) xs" .
qed

lemma sort_key_idem [simp]: "sort_key f (sort_key f xs) = sort_key f xs"
  by (rule sort_key_id_if_sorted) simp

subsection \<open>Keyed rows\<close>

text \<open>
  A shape the source uses for every table it accepts: rows are normalized one by one, a row whose key
  has been seen is refused, and the table is returned sorted by key. The contract is that a row is
  checked alone and then against the keys seen before; from it follow the uniqueness of keys,
  look-up by key, and independence of the order of the input.
\<close>

locale keyed_rows =
  fixes row_of :: "'k::linorder list \<Rightarrow> 'e \<Rightarrow> 'r result" and key :: "'r \<Rightarrow> 'k"
  assumes row_of_seen: "row_of seen e = Inr r \<longleftrightarrow> row_of [] e = Inr r \<and> key r \<notin> set seen"
begin

definition table :: "'e list \<Rightarrow> 'r list result" where
  "table es = bnd (foldM (\<lambda>ns e. bnd (row_of (map key ns) e) (\<lambda>r. Inr (ns @ [r]))) [] es) (\<lambda>ns. Inr (sort_key key ns))"

lemma foldM_rows:
  "foldM (\<lambda>ns e. bnd (row_of (map key ns) e) (\<lambda>r. Inr (ns @ [r]))) acc es = Inr ns \<longleftrightarrow>
    (\<exists>rows. mapM (row_of []) es = Inr rows \<and> ns = acc @ rows \<and>
       distinct (map key rows) \<and> set (map key rows) \<inter> set (map key acc) = {})"
proof (induction es arbitrary: acc)
  case Nil
  then show ?case by auto
next
  case (Cons e es)
  show ?case
  proof (cases "row_of [] e")
    case (Inl x)
    then have "\<exists>y. row_of (map key acc) e = Inl y"
      using row_of_seen [of "map key acc" e] by (cases "row_of (map key acc) e") auto
    with Inl show ?thesis by auto
  next
    case (Inr r)
    show ?thesis
    proof (cases "key r \<in> set (map key acc)")
      case True
      then have "\<exists>y. row_of (map key acc) e = Inl y"
        using row_of_seen [of "map key acc" e] Inr
        by (cases "row_of (map key acc) e") (simp, metis Inr sum.inject(2))
      with True Inr show ?thesis by (auto simp: result_simps list_all2_Cons1)
    next
      case False
      then have "row_of (map key acc) e = Inr r" using row_of_seen [of "map key acc" e] Inr by simp
      with False Inr show ?thesis by (auto simp: Cons.IH bnd_eq_Inr)
    qed
  qed
qed

lemma table_Inr:
  "table es = Inr rows \<longleftrightarrow>
    (\<exists>ns. mapM (row_of []) es = Inr ns \<and> distinct (map key ns) \<and> rows = sort_key key ns)"
  by (auto simp: table_def bnd_eq_Inr foldM_rows)

lemma table_distinct:
  assumes "table es = Inr rows"
  shows "distinct (map key rows)" and "sorted (map key rows)"
proof -
  obtain ns where ns: "distinct (map key ns)" "rows = sort_key key ns"
    using assms by (auto simp: table_Inr)
  then have "mset (map key rows) = mset (map key ns)" by simp
  then show "distinct (map key rows)" using ns(1) mset_eq_imp_distinct_iff by blast
  show "sorted (map key rows)" using ns by simp
qed

lemma table_mem: "table es = Inr rows \<Longrightarrow> r \<in> set rows \<longleftrightarrow> (\<exists>e \<in> set es. row_of [] e = Inr r)"
proof -
  assume "table es = Inr rows"
  then obtain ns where ns: "mapM (row_of []) es = Inr ns" "set rows = set ns" by (auto simp: table_Inr)
  then have "map (row_of []) es = map Inr ns"
    by (simp add: mapM_Inr_iff list_all2_conv_all_nth list_eq_iff_nth_eq)
  then have eq: "row_of [] ` set es = Inr ` set ns" by (metis set_map)
  have "r \<in> set rows \<longleftrightarrow> Inr r \<in> row_of [] ` set es" unfolding eq using ns(2) by auto
  also have "\<dots> \<longleftrightarrow> (\<exists>e \<in> set es. row_of [] e = Inr r)" by (simp add: image_iff eq_commute)
  finally show ?thesis .
qed

lemma table_find: "table es = Inr rows \<Longrightarrow> r \<in> set rows \<Longrightarrow> find (\<lambda>s. key s = key r) rows = Some r"
  using find_pair_unique [OF table_distinct(1)] by blast

lemma table_mset:
  assumes "table es = Inr rows" and "mset (map (row_of []) es) = mset (map (row_of []) es')"
  shows "table es' = Inr rows"
proof -
  obtain ns where ns: "mapM (row_of []) es = Inr ns" "distinct (map key ns)" "rows = sort_key key ns"
    using assms(1) by (auto simp: table_Inr)
  obtain ns' where ns': "mapM (row_of []) es' = Inr ns'" "mset ns' = mset ns"
    using mapM_mset [OF ns(1) assms(2)] .
  have "mset (map key ns') = mset (map key ns)" using ns'(2) by simp
  then have "distinct (map key ns')" using ns(2) by (metis mset_eq_imp_distinct_iff)
  moreover have "sort_key key ns' = sort_key key ns"
    using ns'(2) \<open>distinct (map key ns')\<close> by (intro sort_key_mset_cong) (simp_all add: distinct_map)
  ultimately show ?thesis using ns ns' by (auto simp: table_Inr)
qed

end

subsection \<open>Splitting a text at a character\<close>

text \<open>\<^verbatim>\<open>s.split(c)\<close>\<close>

fun split_on :: "char \<Rightarrow> string \<Rightarrow> string list" where
  "split_on c [] = [[]]"
| "split_on c (x # xs) =
     (if x = c then [] # split_on c xs else case split_on c xs of [] \<Rightarrow> [[x]] | w # ws \<Rightarrow> (x # w) # ws)"

end
