(* ===== verification/Py_Decimal.thy ===== *)
theory Py_Decimal
  imports Complex_Main Py_Prelude
begin

section \<open>Python's decimal.Decimal\<close>

text \<open>
  The operations of the standard \<^verbatim>\<open>decimal\<close> module that the code uses: parsing a string,
  comparison, \<^verbatim>\<open>+\<close>, \<^verbatim>\<open>-\<close>, \<^verbatim>\<open>/\<close>, \<^verbatim>\<open>abs\<close>, \<^verbatim>\<open>quantize\<close> and the \<^verbatim>\<open>f\<close> format. A finite
  number is a sign, a coefficient and an exponent; the arithmetic rounds half-even to a precision
  that is an argument (34 where the code opens a local context, 28 otherwise). Exponents are
  unbounded: the limits \<^verbatim>\<open>Emin\<close>/\<^verbatim>\<open>Emax\<close> (about a million) are not modelled, nor is the payload
  of a NaN. \<open>dec_val\<close> is the rational a finite number denotes; the lemmas relate every operation to
  it, and printing to parsing.
\<close>

datatype decimal = DFin bool nat int | DInf bool | DNaN

definition ndigits :: "nat \<Rightarrow> nat" where
  "ndigits c = length (nat_str c)"

fun dec_is_finite :: "decimal \<Rightarrow> bool" where
  "dec_is_finite (DFin s c e) = True"
| "dec_is_finite _ = False"

fun dec_val :: "decimal \<Rightarrow> rat" where
  "dec_val (DFin s c e) = (if s then - 1 else 1) * of_nat c * 10 powi e"
| "dec_val _ = 0"

subsection \<open>Parsing\<close>

definition is_space :: "char \<Rightarrow> bool" where
  "is_space c = (let n = (of_char c :: nat) in 9 \<le> n \<and> n \<le> 13 \<or> 28 \<le> n \<and> n \<le> 32)"

definition py_strip :: "string \<Rightarrow> string" where
  "py_strip s = rev (dropWhile is_space (rev (dropWhile is_space s)))"

definition split_sign :: "string \<Rightarrow> bool \<times> string" where
  "split_sign s = (case s of
      [] \<Rightarrow> (False, [])
    | c # r \<Rightarrow> if c = CHR ''-'' then (True, r) else if c = CHR ''+'' then (False, r) else (False, s))"

text \<open>The exponent part: nothing, or \<^verbatim>\<open>E\<close>, an optional sign and digits.\<close>

definition parse_exp :: "string \<Rightarrow> int option" where
  "parse_exp s = (case s of
      [] \<Rightarrow> Some 0
    | c # r \<Rightarrow>
        if c = CHR ''e'' \<or> c = CHR ''E'' then
          (let (neg, ds) = split_sign r in
           if ds \<noteq> [] \<and> list_all is_digit ds
           then Some (if neg then - int (digits_val ds) else int (digits_val ds)) else None)
        else None)"

definition is_nan_text :: "string \<Rightarrow> bool" where
  "is_nan_text s \<longleftrightarrow> (let t = py_lower s in
     prefix ''nan'' t \<and> list_all is_digit (drop 3 t) \<or> prefix ''snan'' t \<and> list_all is_digit (drop 4 t))"

definition parse_unsigned :: "bool \<Rightarrow> string \<Rightarrow> decimal option" where
  "parse_unsigned s r =
    (if py_lower r = ''inf'' \<or> py_lower r = ''infinity'' then Some (DInf s)
     else if is_nan_text r then Some DNaN
     else (let ip = takeWhile is_digit r; r1 = dropWhile is_digit r;
               fp = (case r1 of c # r2 \<Rightarrow> if c = CHR ''.'' then takeWhile is_digit r2 else [] | [] \<Rightarrow> []);
               r3 = (case r1 of c # r2 \<Rightarrow> if c = CHR ''.'' then dropWhile is_digit r2 else r1 | [] \<Rightarrow> [])
           in if ip = [] \<and> fp = [] then None
              else (case parse_exp r3 of None \<Rightarrow> None
                    | Some x \<Rightarrow> Some (DFin s (digits_val (ip @ fp)) (x - int (length fp))))))"

definition dec_parse :: "string \<Rightarrow> decimal option" where
  "dec_parse s = (let (neg, r) = split_sign (filter (\<lambda>c. c \<noteq> CHR ''_'') (py_strip s)) in parse_unsigned neg r)"

text \<open>\<^verbatim>\<open>Decimal(text)\<close> raises \<^verbatim>\<open>InvalidOperation\<close> on anything else.\<close>

definition decimal_of :: "string \<Rightarrow> decimal result" where
  "decimal_of s = (case dec_parse s of None \<Rightarrow> Inl (Exn InvalidOperation []) | Some d \<Rightarrow> Inr d)"

subsection \<open>Printing\<close>

text \<open>\<^verbatim>\<open>format(d, "f")\<close>\<close>

fun fmt_f :: "decimal \<Rightarrow> string" where
  "fmt_f (DFin s c e) =
    (let ds = nat_str c; k = nat (- e); n = length ds; sg = (if s then ''-'' else []) in
     if e \<ge> 0 then sg @ (if c = 0 then ds else ds @ replicate (nat e) CHR ''0'')
     else if k < n then sg @ take (n - k) ds @ ''.'' @ drop (n - k) ds
     else sg @ ''0.'' @ replicate (k - n) CHR ''0'' @ ds)"
| "fmt_f (DInf s) = (if s then ''-Infinity'' else ''Infinity'')"
| "fmt_f DNaN = ''NaN''"

text \<open>\<^verbatim>\<open>str(d)\<close>: plain notation for small exponents, otherwise scientific.\<close>

fun dec_str :: "decimal \<Rightarrow> string" where
  "dec_str (DFin s c e) =
    (let ds = nat_str c; n = int (length ds); left = e + n; sg = (if s then ''-'' else []);
         dot = (if e \<le> 0 \<and> left > -6 then left else 1);
         ip = (if dot \<le> 0 then ''0'' else if dot \<ge> n then ds @ replicate (nat (dot - n)) CHR ''0''
               else take (nat dot) ds);
         fp = (if dot \<le> 0 then ''.'' @ replicate (nat (- dot)) CHR ''0'' @ ds
               else if dot \<ge> n then [] else ''.'' @ drop (nat dot) ds);
         ex = (if left = dot then []
               else ''E'' @ (if left - dot \<ge> 0 then ''+'' else []) @ int_str (left - dot))
     in sg @ ip @ fp @ ex)"
| "dec_str (DInf s) = (if s then ''-Infinity'' else ''Infinity'')"
| "dec_str DNaN = ''NaN''"

subsection \<open>Rounding, arithmetic and comparison\<close>

text \<open>Half-even division of a coefficient by a power of ten.\<close>

definition round_div :: "nat \<Rightarrow> nat \<Rightarrow> nat" where
  "round_div c k = (let m = 10 ^ k; q = c div m; r = c mod m in
     if 2 * r > m \<or> 2 * r = m \<and> odd q then q + 1 else q)"

definition dec_fix :: "nat \<Rightarrow> bool \<Rightarrow> nat \<Rightarrow> int \<Rightarrow> decimal" where
  "dec_fix prec s c e =
    (let n = ndigits c in
     if n \<le> prec then DFin s c e
     else let k = n - prec; q = round_div c k in
       if ndigits q > prec then DFin s (q div 10) (e + int k + 1) else DFin s q (e + int k))"

fun scoeff :: "bool \<Rightarrow> nat \<Rightarrow> int" where
  "scoeff s c = (if s then - int c else int c)"

fun dec_add :: "nat \<Rightarrow> decimal \<Rightarrow> decimal \<Rightarrow> decimal result" where
  "dec_add prec (DFin s1 c1 e1) (DFin s2 c2 e2) =
    (let e = min e1 e2; n = scoeff s1 c1 * 10 ^ nat (e1 - e) + scoeff s2 c2 * 10 ^ nat (e2 - e)
     in Inr (dec_fix prec (if n = 0 then s1 \<and> s2 else n < 0) (nat \<bar>n\<bar>) e))"
| "dec_add prec DNaN y = Inr DNaN"
| "dec_add prec x DNaN = Inr DNaN"
| "dec_add prec (DInf s) (DInf t) = (if s = t then Inr (DInf s) else Inl (Exn InvalidOperation []))"
| "dec_add prec (DInf s) y = Inr (DInf s)"
| "dec_add prec x (DInf s) = Inr (DInf s)"

fun dec_neg_raw :: "decimal \<Rightarrow> decimal" where
  "dec_neg_raw (DFin s c e) = DFin (\<not> s) c e"
| "dec_neg_raw (DInf s) = DInf (\<not> s)"
| "dec_neg_raw DNaN = DNaN"

definition dec_sub :: "nat \<Rightarrow> decimal \<Rightarrow> decimal \<Rightarrow> decimal result" where
  "dec_sub prec x y = dec_add prec x (dec_neg_raw y)"

fun dec_abs :: "nat \<Rightarrow> decimal \<Rightarrow> decimal" where
  "dec_abs prec (DFin s c e) = dec_fix prec False c e"
| "dec_abs prec (DInf s) = DInf False"
| "dec_abs prec DNaN = DNaN"

text \<open>Drop trailing zeros of an exact quotient while the exponent is below the ideal one.\<close>

function strip_zeros :: "nat \<Rightarrow> int \<Rightarrow> int \<Rightarrow> nat \<times> int" where
  "strip_zeros c e ideal =
    (if e < ideal \<and> c mod 10 = 0 then strip_zeros (c div 10) (e + 1) ideal else (c, e))"
  by pat_completeness auto
termination
  by (relation "measure (\<lambda>(c, e, ideal). nat (ideal - e))") auto

declare strip_zeros.simps [simp del]

fun dec_div :: "nat \<Rightarrow> decimal \<Rightarrow> decimal \<Rightarrow> decimal result" where
  "dec_div prec (DFin s1 c1 e1) (DFin s2 c2 e2) =
    (let s = (s1 \<noteq> s2) in
     if c2 = 0 then Inl (Exn (if c1 = 0 then InvalidOperation else DivisionByZero) [])
     else if c1 = 0 then Inr (dec_fix prec s 0 (e1 - e2))
     else
       (let shift = int (ndigits c2) - int (ndigits c1) + int prec + 1;
            e = e1 - e2 - shift;
            num = (if shift \<ge> 0 then c1 * 10 ^ nat shift else c1);
            den = (if shift \<ge> 0 then c2 else c2 * 10 ^ nat (- shift));
            q = num div den
        in if num mod den \<noteq> 0 then Inr (dec_fix prec s (if q mod 5 = 0 then q + 1 else q) e)
           else (let (q', e') = strip_zeros q e (e1 - e2) in Inr (dec_fix prec s q' e'))))"
| "dec_div prec DNaN y = Inr DNaN"
| "dec_div prec x DNaN = Inr DNaN"
| "dec_div prec (DInf s) (DInf t) = Inl (Exn InvalidOperation [])"
| "dec_div prec (DInf s) (DFin t c e) = Inr (DInf (s \<noteq> t))"
| "dec_div prec (DFin s c e) (DInf t) = Inr (DFin (s \<noteq> t) 0 (- 999998 - int prec))"

text \<open>Order comparisons raise on a NaN; equality with a NaN is false.\<close>

fun dec_cmp_lt :: "decimal \<Rightarrow> decimal \<Rightarrow> bool" where
  "dec_cmp_lt (DFin s1 c1 e1) (DFin s2 c2 e2) =
    (let e = min e1 e2 in scoeff s1 c1 * 10 ^ nat (e1 - e) < scoeff s2 c2 * 10 ^ nat (e2 - e))"
| "dec_cmp_lt (DInf s) (DInf t) = (s \<and> \<not> t)"
| "dec_cmp_lt (DInf s) y = s"
| "dec_cmp_lt x (DInf t) = (\<not> t)"
| "dec_cmp_lt x y = False"

definition dec_lt :: "decimal \<Rightarrow> decimal \<Rightarrow> bool result" where
  "dec_lt x y = (if x = DNaN \<or> y = DNaN then Inl (Exn InvalidOperation []) else Inr (dec_cmp_lt x y))"

fun dec_eq :: "decimal \<Rightarrow> decimal \<Rightarrow> bool" where
  "dec_eq (DFin s1 c1 e1) (DFin s2 c2 e2) =
    (let e = min e1 e2 in scoeff s1 c1 * 10 ^ nat (e1 - e) = scoeff s2 c2 * 10 ^ nat (e2 - e))"
| "dec_eq (DInf s) (DInf t) = (s = t)"
| "dec_eq x y = False"

text \<open>\<^verbatim>\<open>d.quantize(Decimal(1).scaleb(-p))\<close> in the default context of 28 digits.\<close>

definition rescale :: "nat \<Rightarrow> int \<Rightarrow> int \<Rightarrow> nat" where
  "rescale c e target = (if e \<ge> target then c * 10 ^ nat (e - target) else round_div c (nat (target - e)))"

definition default_prec :: nat where
  "default_prec = 28"

fun dec_quantize :: "decimal \<Rightarrow> nat \<Rightarrow> decimal result" where
  "dec_quantize (DFin s c e) p =
    (let target = - int p in
     if c = 0 then Inr (DFin s 0 target)
     else if e + int (ndigits c) - target > int default_prec then Inl (Exn InvalidOperation [])
     else let q = rescale c e target in
       if ndigits q > default_prec then Inl (Exn InvalidOperation []) else Inr (DFin s q target))"
| "dec_quantize (DInf s) p = Inl (Exn InvalidOperation [])"
| "dec_quantize DNaN p = Inr DNaN"

subsection \<open>The denoted value\<close>

lemma scoeff_of_rat: "of_int (scoeff s c) = ((if s then - 1 else 1) * of_nat c :: rat)"
  by simp

lemma power_nat_diff: "e' \<le> e \<Longrightarrow> (10::rat) ^ nat (e - e') * 10 powi e' = 10 powi e"
proof -
  assume "e' \<le> e"
  then obtain n where "e = e' + int n" using zle_iff_zadd by blast
  then show ?thesis by (simp add: power_int_add)
qed

lemma dec_val_scaled:
  assumes "e' \<le> e"
  shows "dec_val (DFin s c e) = of_int (scoeff s c * 10 ^ nat (e - e')) * 10 powi e'"
proof -
  have "dec_val (DFin s c e) = of_int (scoeff s c) * 10 powi e"
    by (simp del: scoeff.simps add: scoeff_of_rat)
  also have "10 powi e = (10::rat) ^ nat (e - e') * 10 powi e'"
    using assms by (simp add: power_nat_diff)
  finally show ?thesis by (simp del: scoeff.simps add: mult.assoc)
qed

lemma powi_pos_rat: "(0::rat) < 10 powi e"
  by simp

lemma dec_eq_val:
  assumes "dec_is_finite x" and "dec_is_finite y"
  shows "dec_eq x y \<longleftrightarrow> dec_val x = dec_val y"
proof -
  obtain s1 c1 e1 where x: "x = DFin s1 c1 e1" using assms(1) by (cases x) auto
  obtain s2 c2 e2 where y: "y = DFin s2 c2 e2" using assms(2) by (cases y) auto
  let ?e = "min e1 e2"
  have "dec_val x = dec_val y \<longleftrightarrow>
    (of_int (scoeff s1 c1 * 10 ^ nat (e1 - ?e)) :: rat) = of_int (scoeff s2 c2 * 10 ^ nat (e2 - ?e))"
    unfolding x y by (simp only: dec_val_scaled [of ?e e1] dec_val_scaled [of ?e e2] min.cobounded1
        min.cobounded2) (simp del: scoeff.simps)
  then show ?thesis unfolding x y by (simp del: scoeff.simps of_int_mult add: Let_def)
qed

lemma dec_cmp_lt_val:
  assumes "dec_is_finite x" and "dec_is_finite y"
  shows "dec_cmp_lt x y \<longleftrightarrow> dec_val x < dec_val y"
proof -
  obtain s1 c1 e1 where x: "x = DFin s1 c1 e1" using assms(1) by (cases x) auto
  obtain s2 c2 e2 where y: "y = DFin s2 c2 e2" using assms(2) by (cases y) auto
  let ?e = "min e1 e2"
  have "dec_val x < dec_val y \<longleftrightarrow>
    (of_int (scoeff s1 c1 * 10 ^ nat (e1 - ?e)) :: rat) < of_int (scoeff s2 c2 * 10 ^ nat (e2 - ?e))"
    unfolding x y by (simp only: dec_val_scaled [of ?e e1] dec_val_scaled [of ?e e2] min.cobounded1
        min.cobounded2) (simp del: scoeff.simps)
  then show ?thesis unfolding x y by (simp del: scoeff.simps of_int_mult add: Let_def)
qed

subsection \<open>Parsing what was printed\<close>

lemma digits_val_append: "digits_val (a @ b) = digits_val a * 10 ^ length b + digits_val b"
proof (induction b rule: rev_induct)
  case Nil
  then show ?case by (simp add: digits_val_def)
next
  case (snoc x xs)
  then show ?case
    by (simp add: digits_val_snoc algebra_simps flip: append_assoc)
qed

lemma digits_val_zeros [simp]: "digits_val (replicate n CHR ''0'') = 0"
proof (induction n)
  case (Suc n)
  have "digits_val (''0'' @ replicate n CHR ''0'') = digits_val ''0'' * 10 ^ n + 0"
    using Suc by (subst digits_val_append) simp
  then show ?case by (simp add: digits_val_def digit_val_def)
qed (simp add: digits_val_def)

lemma digit_ascii:
  assumes "is_digit c"
  shows "\<not> is_space c" "c \<noteq> CHR ''_''" "c \<noteq> CHR ''-''" "c \<noteq> CHR ''+''" "c \<noteq> CHR ''.''"
    "lower_char c = c" "c \<noteq> CHR ''i''" "c \<noteq> CHR ''n''" "c \<noteq> CHR ''s''"
  using assms by (auto simp: is_digit_def is_space_def lower_char_def Let_def)

lemma zero_is_digit [simp]: "is_digit CHR ''0''"
  by (simp add: is_digit_def)

lemma py_strip_id: "s \<noteq> [] \<Longrightarrow> \<not> is_space (hd s) \<Longrightarrow> \<not> is_space (last s) \<Longrightarrow> py_strip s = s"
proof -
  assume "s \<noteq> []" "\<not> is_space (hd s)" "\<not> is_space (last s)"
  then have "dropWhile is_space s = s" "dropWhile is_space (rev s) = rev s"
    by (auto simp: dropWhile_eq_self_iff hd_rev)
  then show ?thesis by (simp add: py_strip_def)
qed

lemma takeWhile_digits: "list_all is_digit ds \<Longrightarrow> takeWhile is_digit ds = ds"
  and dropWhile_digits: "list_all is_digit ds \<Longrightarrow> dropWhile is_digit ds = []"
  by (simp_all add: list_all_iff takeWhile_eq_all_conv)

lemma digit_head_not_special:
  assumes "is_digit c"
  shows "py_lower (c # r) \<noteq> ''inf''" "py_lower (c # r) \<noteq> ''infinity''" "\<not> is_nan_text (c # r)"
  using digit_ascii [OF assms] by (simp_all add: py_lower_def is_nan_text_def)

lemma parse_unsigned_int:
  assumes "list_all is_digit ds" and "ds \<noteq> []"
  shows "parse_unsigned s ds = Some (DFin s (digits_val ds) 0)"
proof -
  obtain c r where ds: "ds = c # r" "is_digit c" using assms by (cases ds) auto
  have "\<not> (py_lower ds = ''inf'' \<or> py_lower ds = ''infinity'')" "\<not> is_nan_text ds"
    using digit_head_not_special [OF ds(2)] ds(1) by auto
  then show ?thesis
    using assms by (simp add: parse_unsigned_def takeWhile_digits dropWhile_digits parse_exp_def)
qed

lemma parse_unsigned_frac:
  assumes "list_all is_digit ip" and "ip \<noteq> []" and "list_all is_digit fp"
  shows "parse_unsigned s (ip @ ''.'' @ fp) = Some (DFin s (digits_val (ip @ fp)) (- int (length fp)))"
proof -
  obtain c r where ip: "ip = c # r" "is_digit c" using assms by (cases ip) auto
  let ?t = "ip @ ''.'' @ fp"
  have sp: "\<not> (py_lower ?t = ''inf'' \<or> py_lower ?t = ''infinity'')" "\<not> is_nan_text ?t"
    using digit_head_not_special [OF ip(2)] ip(1) by auto
  have nd: "\<not> is_digit CHR ''.''" by (simp add: is_digit_def)
  have "takeWhile is_digit ?t = ip" "dropWhile is_digit ?t = ''.'' @ fp"
    using assms(1) nd by (simp_all add: list_all_iff takeWhile_append dropWhile_append)
  then show ?thesis
    using sp assms by (simp add: parse_unsigned_def takeWhile_digits dropWhile_digits parse_exp_def)
qed

lemma dec_parse_signed:
  assumes "t \<noteq> []" and "is_digit (hd t)" and "is_digit (last t)" and "CHR ''_'' \<notin> set t"
  shows "dec_parse ((if s then ''-'' else []) @ t) = parse_unsigned s t"
proof -
  let ?u = "(if s then ''-'' else []) @ t"
  have "\<not> is_space (hd ?u)" "\<not> is_space (last ?u)"
    using assms digit_ascii(1) by (auto simp: is_space_def)
  then have st: "py_strip ?u = ?u" using assms(1) by (intro py_strip_id) auto
  have fl: "filter (\<lambda>c. c \<noteq> CHR ''_'') ?u = ?u"
    using assms(4) by (auto simp: filter_id_conv)
  have "split_sign ?u = (s, t)"
    using assms(1,2) digit_ascii(3,4) by (cases t) (auto simp: split_sign_def)
  then show ?thesis unfolding dec_parse_def st fl by (simp only: Let_def prod.case)
qed

lemma dec_parse_fmt_f_neg:
  assumes "e < 0"
  shows "dec_parse (fmt_f (DFin s c e)) = Some (DFin s c e)"
proof -
  let ?ds = "nat_str c" and ?k = "nat (- e)"
  let ?n = "length ?ds"
  define ip where "ip = (if ?k < ?n then take (?n - ?k) ?ds else ''0'')"
  define fp where "fp = (if ?k < ?n then drop (?n - ?k) ?ds else replicate (?k - ?n) CHR ''0'' @ ?ds)"
  have dig: "list_all is_digit ip" "list_all is_digit fp"
    using nat_str_digits [of c] by (auto simp: ip_def fp_def list_all_iff dest: in_set_takeD in_set_dropD)
  have ne: "ip \<noteq> []" "fp \<noteq> []" using assms by (auto simp: ip_def fp_def)
  have len: "length fp = ?k" using assms by (auto simp: fp_def)
  have val: "digits_val (ip @ fp) = c"
  proof (cases "?k < ?n")
    case True
    then show ?thesis by (simp add: ip_def fp_def)
  next
    case False
    have "digits_val (replicate (Suc (?k - ?n)) CHR ''0'' @ ?ds) = c"
      by (subst digits_val_append) (simp del: replicate_Suc)
    with False show ?thesis by (simp add: ip_def fp_def)
  qed
  have tx: "fmt_f (DFin s c e) = (if s then ''-'' else []) @ (ip @ ''.'' @ fp)"
    using assms by (simp add: ip_def fp_def Let_def)
  have "dec_parse (fmt_f (DFin s c e)) = parse_unsigned s (ip @ ''.'' @ fp)"
    unfolding tx
  proof (rule dec_parse_signed)
    show "is_digit (hd (ip @ ''.'' @ fp))" using dig ne by (cases ip) auto
    show "is_digit (last (ip @ ''.'' @ fp))" using dig ne by (auto simp: list_all_iff)
    show "CHR ''_'' \<notin> set (ip @ ''.'' @ fp)"
      using dig digit_ascii(2) by (fastforce simp: list_all_iff)
  qed simp
  also have "\<dots> = Some (DFin s c e)"
    using parse_unsigned_frac [OF dig(1) ne(1) dig(2)] len val assms by simp
  finally show ?thesis .
qed

lemma dec_parse_fmt_f_nonneg:
  assumes "e \<ge> 0"
  shows "dec_parse (fmt_f (DFin s c e)) = Some (DFin s (c * 10 ^ nat e) 0)"
proof -
  define t where "t = (if c = 0 then nat_str c else nat_str c @ replicate (nat e) CHR ''0'')"
  have dig: "\<forall>x \<in> set t. is_digit x" and ne: "t \<noteq> []"
    using nat_str_digits [of c] by (auto simp: t_def list_all_iff)
  have tx: "fmt_f (DFin s c e) = (if s then ''-'' else []) @ t"
    using assms by (simp add: t_def Let_def)
  have "dec_parse (fmt_f (DFin s c e)) = parse_unsigned s t"
    unfolding tx
  proof (rule dec_parse_signed)
    show "is_digit (hd t)" using dig ne by simp
    show "is_digit (last t)" using dig ne by simp
    show "CHR ''_'' \<notin> set t" using dig digit_ascii(2) by blast
  qed (rule ne)
  also have "\<dots> = Some (DFin s (digits_val t) 0)"
    using dig ne by (simp add: parse_unsigned_int list_all_iff)
  also have "digits_val t = c * 10 ^ nat e"
    by (auto simp: t_def digits_val_append)
  finally show ?thesis .
qed

lemma dec_parse_fmt_f_val:
  assumes "dec_is_finite d"
  shows "\<exists>d'. dec_parse (fmt_f d) = Some d' \<and> dec_is_finite d' \<and> dec_val d' = dec_val d"
proof -
  obtain s c e where d: "d = DFin s c e" using assms by (cases d) auto
  show ?thesis
  proof (cases "e < 0")
    case True
    then show ?thesis unfolding d by (simp del: fmt_f.simps dec_val.simps add: dec_parse_fmt_f_neg)
  next
    case False
    then have "(10::rat) ^ nat e = 10 powi e" by (simp add: power_int_def)
    with False show ?thesis
      unfolding d by (simp del: fmt_f.simps add: dec_parse_fmt_f_nonneg mult.assoc)
  qed
qed

lemma dec_quantize_finite:
  assumes "dec_quantize d p = Inr q" and "dec_is_finite d"
  shows "\<exists>s c. q = DFin s c (- int p)"
  using assms by (cases d) (auto simp: Let_def split: if_splits)

end
