(* ===== verification/Py_Value.thy ===== *)
theory Py_Value
  imports Py_Prelude Py_Decimal
begin

section \<open>Python values\<close>

text \<open>
  The values that flow through the program: what \<^verbatim>\<open>json.loads\<close> produces (with numbers kept as
  text or \<^verbatim>\<open>int\<close>), plus tuples, sets and \<^verbatim>\<open>Decimal\<close>. Dictionary keys are strings. A \<^verbatim>\<open>float\<close>
  is represented by its \<^verbatim>\<open>repr\<close>: the code never computes with one, it only refuses it. Objects
  are immutable here; the code deep-copies whatever it stores. The operations below are the ones the
  code applies to values of unknown shape, each with the exception it raises on a wrong shape.
\<close>

datatype pyval =
    VNone
  | VBool bool
  | VInt int
  | VFloat string
  | VDec decimal
  | VStr string
  | VList "pyval list"
  | VTuple "pyval list"
  | VSet "pyval list"
  | VDict "(string \<times> pyval) list"

type_synonym pydict = "(string \<times> pyval) list"

subsection \<open>Type tests and truth\<close>

fun is_str :: "pyval \<Rightarrow> bool" where
  "is_str (VStr s) = True"
| "is_str _ = False"

fun is_list :: "pyval \<Rightarrow> bool" where
  "is_list (VList xs) = True"
| "is_list _ = False"

fun is_mapping :: "pyval \<Rightarrow> bool" where
  "is_mapping (VDict kvs) = True"
| "is_mapping _ = False"

text \<open>\<^verbatim>\<open>isinstance(x, int)\<close>: a \<^verbatim>\<open>bool\<close> is an \<^verbatim>\<open>int\<close>.\<close>

fun is_int :: "pyval \<Rightarrow> bool" where
  "is_int (VInt i) = True"
| "is_int (VBool b) = True"
| "is_int _ = False"

fun is_float :: "pyval \<Rightarrow> bool" where
  "is_float (VFloat t) = True"
| "is_float _ = False"

fun py_bool :: "pyval \<Rightarrow> bool" where
  "py_bool VNone = False"
| "py_bool (VBool b) = b"
| "py_bool (VInt i) = (i \<noteq> 0)"
| "py_bool (VFloat t) = (t \<noteq> ''0.0'' \<and> t \<noteq> ''-0.0'')"
| "py_bool (VDec d) = (case d of DFin s c e \<Rightarrow> c \<noteq> 0 | _ \<Rightarrow> True)"
| "py_bool (VStr s) = (s \<noteq> [])"
| "py_bool (VList xs) = (xs \<noteq> [])"
| "py_bool (VTuple xs) = (xs \<noteq> [])"
| "py_bool (VSet xs) = (xs \<noteq> [])"
| "py_bool (VDict kvs) = (kvs \<noteq> [])"

text \<open>\<^verbatim>\<open>a or b\<close>\<close>

definition py_or :: "pyval \<Rightarrow> pyval \<Rightarrow> pyval" where
  "py_or a b = (if py_bool a then a else b)"

subsection \<open>str and repr\<close>

definition hex2 :: "nat \<Rightarrow> string" where
  "hex2 n = (let h = (\<lambda>d. if d < 10 then digit_char d else char_of (87 + d)) in [h (n div 16 mod 16), h (n mod 16)])"

definition repr_char :: "char \<Rightarrow> char \<Rightarrow> string" where
  "repr_char q c =
    (if c = q \<or> c = CHR 0x5C then [CHR 0x5C, c]
     else if c = CHR 0x0A then [CHR 0x5C, CHR ''n'']
     else if c = CHR 0x0D then [CHR 0x5C, CHR ''r'']
     else if c = CHR 0x09 then [CHR 0x5C, CHR ''t'']
     else if (of_char c :: nat) < 32 \<or> (of_char c :: nat) = 127 then [CHR 0x5C, CHR ''x''] @ hex2 (of_char c)
     else [c])"

definition repr_str :: "string \<Rightarrow> string" where
  "repr_str s =
    (let q = (if CHR 0x27 \<in> set s \<and> CHR 0x22 \<notin> set s then CHR 0x22 else CHR 0x27)
     in [q] @ concat (map (repr_char q) s) @ [q])"

fun py_repr :: "pyval \<Rightarrow> string" where
  "py_repr VNone = ''None''"
| "py_repr (VBool b) = (if b then ''True'' else ''False'')"
| "py_repr (VInt i) = int_str i"
| "py_repr (VFloat t) = t"
| "py_repr (VDec d) = ''Decimal('' @ [CHR 0x27] @ dec_str d @ [CHR 0x27] @ '')''"
| "py_repr (VStr s) = repr_str s"
| "py_repr (VList xs) = ''['' @ join '', '' (map py_repr xs) @ '']''"
| "py_repr (VTuple xs) =
     (case xs of [x] \<Rightarrow> ''('' @ py_repr x @ '',)'' | _ \<Rightarrow> ''('' @ join '', '' (map py_repr xs) @ '')'')"
| "py_repr (VSet xs) = (if xs = [] then ''set()'' else ''{'' @ join '', '' (map py_repr xs) @ ''}'')"
| "py_repr (VDict kvs) =
     ''{'' @ join '', '' (map (\<lambda>(k, v). repr_str k @ '': '' @ py_repr v) kvs) @ ''}''"

fun py_str :: "pyval \<Rightarrow> string" where
  "py_str (VStr s) = s"
| "py_str (VDec d) = dec_str d"
| "py_str v = py_repr v"

subsection \<open>Equality and membership\<close>

text \<open>\<^verbatim>\<open>==\<close>: \<^verbatim>\<open>True == 1\<close>; dictionaries compare as maps, sets as sets; a list never equals a
  tuple.\<close>

fun as_num :: "pyval \<Rightarrow> int option" where
  "as_num (VInt i) = Some i"
| "as_num (VBool b) = Some (if b then 1 else 0)"
| "as_num _ = None"

function py_eq :: "pyval \<Rightarrow> pyval \<Rightarrow> bool" where
  "py_eq v w =
    (case (v, w) of
      (VNone, VNone) \<Rightarrow> True
    | (VStr s, VStr t) \<Rightarrow> s = t
    | (VFloat s, VFloat t) \<Rightarrow> s = t
    | (VDec s, VDec t) \<Rightarrow> dec_eq s t
    | (VList xs, VList ys) \<Rightarrow> list_all2 py_eq xs ys
    | (VTuple xs, VTuple ys) \<Rightarrow> list_all2 py_eq xs ys
    | (VSet xs, VSet ys) \<Rightarrow> length xs = length ys \<and> (\<forall>x \<in> set xs. \<exists>y \<in> set ys. py_eq x y)
    | (VDict kvs, VDict kws) \<Rightarrow> length kvs = length kws \<and>
        (\<forall>p \<in> set kvs. \<exists>q \<in> set kws. fst p = fst q \<and> py_eq (snd p) (snd q))
    | _ \<Rightarrow> (case (as_num v, as_num w) of (Some i, Some j) \<Rightarrow> i = j | _ \<Rightarrow> False))"
  by pat_completeness auto
termination
proof (relation "measure (\<lambda>(v, w). size v)", goal_cases)
  case (5 v w a b kvs kws p q)
  then have "size_prod (\<lambda>_. 0) size p \<le> size_list (size_prod (\<lambda>_. 0) size) kvs"
    by (intro size_list_estimation') auto
  with 5 show ?case by (cases p) auto
qed (auto intro: size_list_estimation' order.strict_trans1 simp: less_Suc_eq_le)

declare py_eq.simps [simp del]

lemma py_eq_VStr [simp]: "py_eq v (VStr s) \<longleftrightarrow> v = VStr s"
  by (subst py_eq.simps) (cases v; simp split: option.split)

lemma py_eq_VStr_left [simp]: "py_eq (VStr s) v \<longleftrightarrow> v = VStr s"
  by (subst py_eq.simps) (cases v; auto)

lemma py_eq_VNone [simp]: "py_eq v VNone \<longleftrightarrow> v = VNone"
  by (subst py_eq.simps) (cases v; simp split: option.split)

lemma py_eq_VNone_left [simp]: "py_eq VNone v \<longleftrightarrow> v = VNone"
  by (subst py_eq.simps) (cases v; simp)

lemma py_eq_VBool [simp]: "py_eq (VBool a) (VBool b) \<longleftrightarrow> a = b"
  by (subst py_eq.simps) simp

text \<open>Since \<open>py_eq v (VStr s)\<close> is \<open>v = VStr s\<close>, a comparison with a string constant is written as
  an equation in the models below; \<^verbatim>\<open>x is True\<close> and \<^verbatim>\<open>x is None\<close> are equations too.\<close>

fun hashable :: "pyval \<Rightarrow> bool" where
  "hashable (VList xs) = False"
| "hashable (VDict kvs) = False"
| "hashable (VSet xs) = False"
| "hashable (VTuple xs) = list_all hashable xs"
| "hashable _ = True"

text \<open>\<^verbatim>\<open>v in {"A", "B"}\<close> for a set of string constants: an unhashable value raises.\<close>

definition in_strs :: "pyval \<Rightarrow> string list \<Rightarrow> bool result" where
  "in_strs v ss = (if hashable v then Inr (case v of VStr s \<Rightarrow> s \<in> set ss | _ \<Rightarrow> False)
                   else Inl (Exn TypeError []))"

lemma in_strs_VStr [simp]: "in_strs (VStr s) ss = Inr (s \<in> set ss)"
  by (simp add: in_strs_def)

lemma in_strs_True [result_simps]: "in_strs v ss = Inr True \<longleftrightarrow> (\<exists>s \<in> set ss. v = VStr s)"
  by (cases v) (auto simp: in_strs_def)

text \<open>\<^verbatim>\<open>s in v\<close> for a string \<open>s\<close> and a container \<open>v\<close> of unknown type.\<close>

fun contains :: "pyval \<Rightarrow> string \<Rightarrow> bool result" where
  "contains (VList xs) s = Inr (VStr s \<in> set xs)"
| "contains (VTuple xs) s = Inr (VStr s \<in> set xs)"
| "contains (VSet xs) s = Inr (VStr s \<in> set xs)"
| "contains (VDict kvs) s = Inr (s \<in> fst ` set kvs)"
| "contains (VStr t) s = Inr (sublist s t)"
| "contains _ s = Inl (Exn TypeError [])"

subsection \<open>Dictionary access\<close>

text \<open>\<^verbatim>\<open>d.get(k, default)\<close>, \<^verbatim>\<open>d[k]\<close> and \<^verbatim>\<open>k in d\<close> on a dictionary.\<close>

definition dget :: "pydict \<Rightarrow> string \<Rightarrow> pyval \<Rightarrow> pyval" where
  "dget d k dflt = (case map_of d k of None \<Rightarrow> dflt | Some v \<Rightarrow> v)"

definition ditem :: "pydict \<Rightarrow> string \<Rightarrow> pyval result" where
  "ditem d k = (case map_of d k of None \<Rightarrow> Inl (Exn KeyError k) | Some v \<Rightarrow> Inr v)"

definition dhas :: "pydict \<Rightarrow> string \<Rightarrow> bool" where
  "dhas d k \<longleftrightarrow> map_of d k \<noteq> None"

text \<open>The same on a value that should be a mapping.\<close>

definition vitem :: "pyval \<Rightarrow> string \<Rightarrow> pyval result" where
  "vitem v k = (case v of VDict d \<Rightarrow> ditem d k | _ \<Rightarrow> Inl (Exn TypeError []))"

definition vget :: "pyval \<Rightarrow> string \<Rightarrow> pyval \<Rightarrow> pyval result" where
  "vget v k dflt = (case v of VDict d \<Rightarrow> Inr (dget d k dflt) | _ \<Rightarrow> Inl (Exn AttributeError []))"

lemma vitem_VDict [simp]: "vitem (VDict d) k = ditem d k"
  by (simp add: vitem_def)

lemma vget_VDict [simp]: "vget (VDict d) k x = Inr (dget d k x)"
  by (simp add: vget_def)

lemma ditem_Inr [result_simps]: "ditem d k = Inr v \<longleftrightarrow> map_of d k = Some v"
  by (auto simp: ditem_def split: option.split)

lemma vitem_Inr [result_simps]: "vitem x k = Inr v \<longleftrightarrow> (\<exists>d. x = VDict d \<and> map_of d k = Some v)"
  by (cases x) (auto simp: vitem_def result_simps)

lemma vget_Inr [result_simps]: "vget x k dflt = Inr v \<longleftrightarrow> (\<exists>d. x = VDict d \<and> v = dget d k dflt)"
  by (cases x) (auto simp: vget_def)

lemma mapM_ditem:
  "mapM (\<lambda>f. bnd (ditem d f) (\<lambda>v. Inr (f, v))) fs = Inr ps \<longleftrightarrow>
    (\<forall>f \<in> set fs. map_of d f \<noteq> None) \<and> ps = map (\<lambda>f. (f, the (map_of d f))) fs"
  by (induction fs arbitrary: ps) (auto simp: ditem_def result_simps list_all2_Cons1 split: option.splits)

lemma dget_Some: "map_of d k = Some v \<Longrightarrow> dget d k x = v"
  by (simp add: dget_def)

lemma dhas_iff: "dhas d k \<longleftrightarrow> k \<in> fst ` set d"
  by (auto simp: dhas_def map_of_eq_None_iff)

subsection \<open>Iteration, int() and sorting of values\<close>

fun iter_of :: "pyval \<Rightarrow> pyval list result" where
  "iter_of (VList xs) = Inr xs"
| "iter_of (VTuple xs) = Inr xs"
| "iter_of (VSet xs) = Inr xs"
| "iter_of (VDict kvs) = Inr (map (\<lambda>p. VStr (fst p)) kvs)"
| "iter_of (VStr s) = Inr (map (\<lambda>c. VStr [c]) s)"
| "iter_of _ = Inl (Exn TypeError [])"

text \<open>\<^verbatim>\<open>dict(v)\<close>: a mapping, or an iterable of pairs; a key that is not a string is outside the
  model and counts as a type error.\<close>

definition as_dict :: "pyval \<Rightarrow> pydict result" where
  "as_dict v = (case v of
      VDict kvs \<Rightarrow> Inr kvs
    | _ \<Rightarrow> bnd (iter_of v) (\<lambda>xs. foldM (\<lambda>d x. bnd (iter_of x) (\<lambda>p.
        if length p \<noteq> 2 then Inl (Exn ValueError [])
        else case p ! 0 of VStr k \<Rightarrow> Inr (AList.update k (p ! 1) d) | _ \<Rightarrow> Inl (Exn TypeError []))) [] xs))"

lemma as_dict_VDict [simp]: "as_dict (VDict d) = Inr d"
  by (simp add: as_dict_def)

definition int_parse :: "string \<Rightarrow> int option" where
  "int_parse s = (let (neg, r) = split_sign (py_strip s) in
     if r \<noteq> [] \<and> list_all is_digit r
     then Some (if neg then - int (digits_val r) else int (digits_val r)) else None)"

fun dec_trunc :: "decimal \<Rightarrow> int result" where
  "dec_trunc (DFin s c e) =
     Inr (scoeff s (if e \<ge> 0 then c * 10 ^ nat e else c div 10 ^ nat (- e)))"
| "dec_trunc (DInf s) = Inl (Exn OverflowError [])"
| "dec_trunc DNaN = Inl (Exn ValueError [])"

text \<open>\<^verbatim>\<open>int(v)\<close>: truncation of a float goes through its \<^verbatim>\<open>repr\<close>, exact below \<open>2\<^sup>5\<^sup>3\<close>.\<close>

fun py_int :: "pyval \<Rightarrow> int result" where
  "py_int (VInt i) = Inr i"
| "py_int (VBool b) = Inr (if b then 1 else 0)"
| "py_int (VStr s) = (case int_parse s of Some i \<Rightarrow> Inr i | None \<Rightarrow> Inl (Exn ValueError []))"
| "py_int (VFloat t) = (case dec_parse t of Some d \<Rightarrow> dec_trunc d | None \<Rightarrow> Inl (Exn ValueError []))"
| "py_int (VDec d) = dec_trunc d"
| "py_int _ = Inl (Exn TypeError [])"

definition str_of :: "pyval \<Rightarrow> string" where
  "str_of v = (case v of VStr s \<Rightarrow> s | _ \<Rightarrow> [])"

definition num_of :: "pyval \<Rightarrow> int" where
  "num_of v = (case as_num v of Some i \<Rightarrow> i | None \<Rightarrow> 0)"

text \<open>\<^verbatim>\<open>sorted(xs, key=f)\<close> for keys of unknown type: strings with strings, integers with
  integers; a mixture raises as soon as two elements are compared. (Orderings of floats, lists and
  tuples, which the code never asks for, count as a mixture.)\<close>

definition py_sort_on :: "('a \<Rightarrow> pyval) \<Rightarrow> 'a list \<Rightarrow> 'a list result" where
  "py_sort_on f xs =
    (if list_all (\<lambda>x. is_str (f x)) xs then Inr (sort_key (\<lambda>x. str_of (f x)) xs)
     else if list_all (\<lambda>x. is_int (f x)) xs then Inr (sort_key (\<lambda>x. num_of (f x)) xs)
     else if length xs \<le> 1 then Inr xs
     else Inl (Exn TypeError []))"

definition py_sorted :: "pyval list \<Rightarrow> pyval list result" where
  "py_sorted vs = py_sort_on (\<lambda>v. v) vs"

text \<open>\<^verbatim>\<open>max(a, b)\<close> of two strings returns the first when they are equal.\<close>

definition str_max :: "string \<Rightarrow> string \<Rightarrow> string" where
  "str_max a b = (if b > a then b else a)"

lemma py_sort_on_strs:
  "list_all (\<lambda>x. is_str (f x)) xs \<Longrightarrow> py_sort_on f xs = Inr (sort_key (\<lambda>x. str_of (f x)) xs)"
  by (simp add: py_sort_on_def)

lemma str_of_VStr [simp]: "str_of (VStr s) = s"
  by (simp add: str_of_def)

lemma is_str_iff: "is_str v \<longleftrightarrow> (\<exists>s. v = VStr s)"
  by (cases v) simp_all

lemma inj_on_str_of: "list_all is_str vs \<Longrightarrow> inj_on str_of (set vs)"
  by (rule inj_onI) (metis list_all_iff is_str_iff str_of_VStr)

end
