(* ===== verification/Py_Json.thy ===== *)
theory Py_Json
  imports Py_Value
begin

section \<open>json.dumps\<close>

text \<open>
  The JSON printer with sorted keys, as the code calls it. \<open>json_gen isep ksep nan dflt\<close> is
  \<^verbatim>\<open>json.dumps(v, sort_keys=True, separators=(isep, ksep), allow_nan=nan)\<close>, with \<^verbatim>\<open>default=str\<close>
  when \<open>dflt\<close>; text is printed as UTF-8 (\<^verbatim>\<open>ensure_ascii=False\<close>).

  The main result is that the compact form is unambiguous: \<open>jtext_prefix_code\<close> says that two
  canonical values whose texts agree up to a delimiter are equal, so a text determines the value it
  was printed from (\<open>jtext_inj\<close>). It is what makes an identifier computed from this text speak about
  the value and not only about its text.
\<close>

definition esc_char :: "char \<Rightarrow> string" where
  "esc_char c =
    (if c = CHR 0x22 \<or> c = CHR 0x5C then [CHR 0x5C, c]
     else if c = CHR 0x0A then [CHR 0x5C, CHR ''n'']
     else if c = CHR 0x0D then [CHR 0x5C, CHR ''r'']
     else if c = CHR 0x09 then [CHR 0x5C, CHR ''t'']
     else if c = CHR 0x0C then [CHR 0x5C, CHR ''f'']
     else if c = CHR 0x08 then [CHR 0x5C, CHR ''b'']
     else if (of_char c :: nat) < 32 then [CHR 0x5C, CHR ''u'', CHR ''0'', CHR ''0''] @ hex2 (of_char c)
     else [c])"

definition json_str :: "string \<Rightarrow> string" where
  "json_str s = [CHR 0x22] @ concat (map esc_char s) @ [CHR 0x22]"

definition is_nonfinite_repr :: "string \<Rightarrow> bool" where
  "is_nonfinite_repr t \<longleftrightarrow> t = ''nan'' \<or> t = ''inf'' \<or> t = ''-inf''"

definition nonfinite_json :: "string \<Rightarrow> string" where
  "nonfinite_json t = (if t = ''nan'' then ''NaN'' else if t = ''inf'' then ''Infinity'' else ''-Infinity'')"

fun json_gen :: "string \<Rightarrow> string \<Rightarrow> bool \<Rightarrow> bool \<Rightarrow> pyval \<Rightarrow> string result" where
  "json_gen isep ksep nan dflt VNone = Inr ''null''"
| "json_gen isep ksep nan dflt (VBool b) = Inr (if b then ''true'' else ''false'')"
| "json_gen isep ksep nan dflt (VInt i) = Inr (int_str i)"
| "json_gen isep ksep nan dflt (VFloat t) =
     (if is_nonfinite_repr t then (if nan then Inr (nonfinite_json t) else Inl (Exn ValueError []))
      else Inr t)"
| "json_gen isep ksep nan dflt (VDec d) =
     (if dflt then Inr (json_str (dec_str d)) else Inl (Exn TypeError []))"
| "json_gen isep ksep nan dflt (VStr s) = Inr (json_str s)"
| "json_gen isep ksep nan dflt (VList xs) =
     bnd (mapM (json_gen isep ksep nan dflt) xs) (\<lambda>ss. Inr (''['' @ join isep ss @ '']''))"
| "json_gen isep ksep nan dflt (VTuple xs) =
     bnd (mapM (json_gen isep ksep nan dflt) xs) (\<lambda>ss. Inr (''['' @ join isep ss @ '']''))"
| "json_gen isep ksep nan dflt (VSet xs) =
     (if dflt then Inr (json_str (py_str (VSet xs))) else Inl (Exn TypeError []))"
| "json_gen isep ksep nan dflt (VDict kvs) =
     bnd (mapM (\<lambda>(k, v). bnd (json_gen isep ksep nan dflt v) (\<lambda>s. Inr (json_str k @ ksep @ s)))
       (sort_key fst kvs))
       (\<lambda>ss. Inr (''{'' @ join isep ss @ ''}''))"

text \<open>\<^verbatim>\<open>json.dumps(v, sort_keys=True, separators=(",", ":"), ensure_ascii=False, allow_nan=False)\<close>\<close>

definition json_compact :: "pyval \<Rightarrow> string result" where
  "json_compact v = json_gen '','' '':'' False False v"

lemma json_dict_ok:
  assumes "\<forall>(k, v) \<in> set kvs. is_ok (json_gen i s n d v)"
  shows "is_ok (json_gen i s n d (VDict kvs))"
  using assms by (auto simp: case_prod_unfold)

subsection \<open>Canonical values and their text\<close>

fun canonical :: "pyval \<Rightarrow> bool" where
  "canonical VNone = True"
| "canonical (VBool b) = True"
| "canonical (VInt i) = True"
| "canonical (VStr s) = True"
| "canonical (VList xs) = list_all canonical xs"
| "canonical (VDict kvs) =
     (list_all (\<lambda>(k, v). canonical v) kvs \<and> sorted (map fst kvs) \<and> distinct (map fst kvs))"
| "canonical _ = False"

fun jtext :: "pyval \<Rightarrow> string" where
  "jtext VNone = ''null''"
| "jtext (VBool b) = (if b then ''true'' else ''false'')"
| "jtext (VInt i) = int_str i"
| "jtext (VStr s) = json_str s"
| "jtext (VList xs) = ''['' @ join '','' (map jtext xs) @ '']''"
| "jtext (VDict kvs) = ''{'' @ join '','' (map (\<lambda>(k, v). json_str k @ '':'' @ jtext v) kvs) @ ''}''"
| "jtext _ = []"

lemma mapM_eq_map: "(\<And>x. x \<in> set xs \<Longrightarrow> f x = Inr (g x)) \<Longrightarrow> mapM f xs = Inr (map g xs)"
  by (induction xs) simp_all

lemma json_gen_canonical: "canonical v \<Longrightarrow> json_gen '','' '':'' nan dflt v = Inr (jtext v)"
proof (induction v rule: canonical.induct)
  case (5 xs)
  then have "mapM (json_gen '','' '':'' nan dflt) xs = Inr (map jtext xs)"
    by (intro mapM_eq_map) (auto simp: list_all_iff)
  then show ?case by simp
next
  case (6 kvs)
  have sk: "sort_key fst kvs = kvs" using 6 by (simp add: sort_key_id_if_sorted)
  have "mapM (\<lambda>(k, v). bnd (json_gen '','' '':'' nan dflt v) (\<lambda>s. Inr (json_str k @ '':'' @ s))) kvs
     = Inr (map (\<lambda>(k, v). json_str k @ '':'' @ jtext v) kvs)"
    using 6 by (intro mapM_eq_map) (auto simp: list_all_iff)
  then show ?case by (simp add: sk)
qed simp_all

lemma json_compact_canonical: "canonical v \<Longrightarrow> json_compact v = Inr (jtext v)"
  by (simp add: json_compact_def json_gen_canonical)

subsection \<open>The text is unambiguous\<close>

lemma hex2_inj: "m < 32 \<Longrightarrow> n < 32 \<Longrightarrow> hex2 m = hex2 n \<Longrightarrow> m = n"
proof -
  have d: "d < 16 \<Longrightarrow> e < 16 \<Longrightarrow>
     (if d < 10 then digit_char d else char_of (87 + d :: nat)) =
     (if e < 10 then digit_char e else char_of (87 + e :: nat)) \<Longrightarrow> d = e" for d e :: nat
    by (auto simp: digit_char_def char_of_eq_iff take_bit_eq_mod split: if_splits)
  assume "m < 32" "n < 32" "hex2 m = hex2 n"
  then have "m div 16 mod 16 = n div 16 mod 16" "m mod 16 = n mod 16"
    by (auto simp: hex2_def Let_def intro: d)
  then show "m = n" using \<open>m < 32\<close> \<open>n < 32\<close> by (simp add: mod_div_mult_eq) (metis div_mult_mod_eq)
qed


lemma esc_char_prefix_code:
  assumes "esc_char c @ x = esc_char d @ y"
  shows "c = d \<and> x = y"
proof -
  have low: "(of_char c :: nat) < 32 \<Longrightarrow> (of_char d :: nat) < 32 \<Longrightarrow>
      hex2 (of_char c) = hex2 (of_char d) \<Longrightarrow> c = d"
    using hex2_inj by (metis char_of_char)
  have len: "length (hex2 n) = 2" for n by (simp add: hex2_def)
  show ?thesis
    using assms low len by (auto simp: esc_char_def split: if_splits)
qed

lemma esc_char_not_quote: "esc_char c @ x \<noteq> CHR 0x22 # y"
  by (simp add: esc_char_def)

lemma json_str_prefix_code: "json_str s @ a = json_str t @ b \<Longrightarrow> s = t \<and> a = b"
proof -
  have "concat (map esc_char s) @ CHR 0x22 # a = concat (map esc_char t) @ CHR 0x22 # b
    \<Longrightarrow> s = t \<and> a = b"
  proof (induction s arbitrary: t)
    case Nil
    then show ?case using esc_char_not_quote by (cases t) (auto dest: sym)
  next
    case (Cons c s)
    show ?case
    proof (cases t)
      case Nil
      with Cons.prems show ?thesis using esc_char_not_quote by auto
    next
      case (Cons d t')
      with Cons.prems have "c = d \<and>
          concat (map esc_char s) @ CHR 0x22 # a = concat (map esc_char t') @ CHR 0x22 # b"
        using esc_char_prefix_code by fastforce
      with Cons.IH [of t'] Cons show ?thesis by simp
    qed
  qed
  then show "json_str s @ a = json_str t @ b \<Longrightarrow> s = t \<and> a = b"
    by (simp add: json_str_def)
qed

text \<open>What may follow a printed value: nothing, or one of the three closing characters.\<close>

definition delim :: "string \<Rightarrow> bool" where
  "delim a \<longleftrightarrow> a = [] \<or> hd a \<in> {CHR '','', CHR '']'', CHR ''}''}"

lemma delim_simps [simp]: "delim []" "delim (CHR '','' # a)" "delim (CHR '']'' # a)" "delim (CHR ''}'' # a)"
  by (simp_all add: delim_def)

lemma delim_not_digit: "delim a \<Longrightarrow> a \<noteq> [] \<Longrightarrow> \<not> is_digit (hd a)"
  by (auto simp: delim_def is_digit_def)

lemma takeWhile_nat_str: "delim a \<Longrightarrow> takeWhile is_digit (nat_str n @ a) = nat_str n"
  using nat_str_digits [of n] delim_not_digit [of a]
  by (cases a) (auto simp: list_all_iff takeWhile_append)

lemma nat_str_prefix_code:
  assumes "nat_str m @ a = nat_str n @ b" and "delim a" and "delim b"
  shows "m = n \<and> a = b"
proof -
  note tw = takeWhile_nat_str [OF assms(2), of m] takeWhile_nat_str [OF assms(3), of n]
  have "nat_str m = nat_str n" using tw assms(1) by metis
  with assms(1) show ?thesis by simp
qed

lemma int_str_prefix_code:
  assumes "int_str i @ a = int_str j @ b" and "delim a" and "delim b"
  shows "i = j \<and> a = b"
proof (cases "i < 0"; cases "j < 0")
  assume neg: "i < 0" "j < 0"
  then have "nat_str (nat (- i)) @ a = nat_str (nat (- j)) @ b" using assms(1) by (simp add: int_str_def)
  from nat_str_prefix_code [OF this assms(2,3)] neg show ?thesis by auto
next
  assume "i < 0" "\<not> j < 0"
  with assms(1) have "CHR ''-'' = hd (nat_str (nat j))"
    by (simp add: int_str_def) (metis append_is_Nil_conv hd_append2 list.sel(1) nat_str_nonempty)
  then show ?thesis using hd_nat_str_digit [of "nat j"] by (metis not_digit_minus)
next
  assume "\<not> i < 0" "j < 0"
  with assms(1) have "CHR ''-'' = hd (nat_str (nat i))"
    by (simp add: int_str_def) (metis hd_append2 list.sel(1) nat_str_nonempty)
  then show ?thesis using hd_nat_str_digit [of "nat i"] by (metis not_digit_minus)
next
  assume pos: "\<not> i < 0" "\<not> j < 0"
  then have "nat_str (nat i) @ a = nat_str (nat j) @ b" using assms(1) by (simp add: int_str_def)
  from nat_str_prefix_code [OF this assms(2,3)] pos show ?thesis by auto
qed


text \<open>A bracketed, comma-separated list of items that are themselves unambiguous.\<close>

fun items_tail :: "('a \<Rightarrow> string) \<Rightarrow> string \<Rightarrow> 'a list \<Rightarrow> string" where
  "items_tail f close [] = close"
| "items_tail f close (x # xs) = CHR '','' # f x @ items_tail f close xs"

lemma join_items: "join '','' (map f (x # xs)) @ close = f x @ items_tail f close xs"
  by (induction xs arbitrary: x) simp_all

lemma delim_items_tail: "delim close \<Longrightarrow> delim (items_tail f close xs)"
  by (cases xs) simp_all

lemma items_tail_code:
  assumes "\<And>x y a b. x \<in> set xs \<Longrightarrow> ok y \<Longrightarrow> delim a \<Longrightarrow> delim b \<Longrightarrow> f x @ a = f y @ b \<Longrightarrow> x = y \<and> a = b"
    and "list_all ok ys" and "c \<noteq> CHR '',''" and "delim [c]"
    and "items_tail f (c # a) xs = items_tail f (c # b) ys"
  shows "xs = ys \<and> a = b"
  using assms
proof (induction xs arbitrary: ys)
  case Nil
  then show ?case by (cases ys) auto
next
  case (Cons x xs)
  show ?case
  proof (cases ys)
    case Nil
    with Cons.prems show ?thesis by auto
  next
    case (Cons y ys')
    have d: "delim (items_tail f (c # z) zs)" for z zs
      using Cons.prems(4) by (intro delim_items_tail) (simp add: delim_def)
    have "x = y \<and> items_tail f (c # a) xs = items_tail f (c # b) ys'"
      using Cons.prems(1) [of x y, OF _ _ d d] Cons.prems(2,5) Cons by simp
    moreover from this have "xs = ys' \<and> a = b"
      using Cons.prems Cons by (intro Cons.IH) auto
    ultimately show ?thesis using Cons by simp
  qed
qed

lemma items_code:
  assumes code: "\<And>x y a b. x \<in> set xs \<Longrightarrow> ok y \<Longrightarrow> delim a \<Longrightarrow> delim b \<Longrightarrow> f x @ a = f y @ b \<Longrightarrow> x = y \<and> a = b"
    and start: "\<And>x. ok x \<Longrightarrow> f x \<noteq> [] \<and> \<not> delim (f x)"
    and ok: "list_all ok xs" "list_all ok ys" and c: "c \<noteq> CHR '',''" "delim [c]"
    and eq: "join '','' (map f xs) @ c # a = join '','' (map f ys) @ c # b"
  shows "xs = ys \<and> a = b"
proof (cases xs; cases ys)
  assume "xs = []" "ys = []"
  with eq show ?thesis by simp
next
  fix y ys' assume xs: "xs = []" and ys: "ys = y # ys'"
  have "c # a = f y @ items_tail f (c # b) ys'"
    using eq unfolding xs ys join_items by simp
  moreover have "f y \<noteq> []" "\<not> delim (f y)" using start ok ys by auto
  ultimately show ?thesis using c by (cases "f y") (auto simp: delim_def)
next
  fix x xs' assume xs: "xs = x # xs'" and ys: "ys = []"
  have "c # b = f x @ items_tail f (c # a) xs'"
    using eq unfolding xs ys join_items by simp
  moreover have "f x \<noteq> []" "\<not> delim (f x)" using start ok xs by auto
  ultimately show ?thesis using c by (cases "f x") (auto simp: delim_def)
next
  fix x xs' y ys' assume xs: "xs = x # xs'" and ys: "ys = y # ys'"
  have "items_tail f (c # a) xs = items_tail f (c # b) ys"
    using eq unfolding xs ys join_items by simp
  then show ?thesis using items_tail_code [of xs ok f ys c a b] code ok c by blast
qed

lemma jtext_start: "canonical v \<Longrightarrow> jtext v \<noteq> [] \<and> \<not> delim (jtext v)"
proof (cases v)
  case (VInt i)
  have "\<not> delim (nat_str n)" for n using delim_not_digit hd_nat_str_digit by force
  with VInt show ?thesis by (simp add: int_str_def) (simp add: delim_def)
qed (simp_all add: delim_def json_str_def)

lemma int_str_lead: "int_str i @ b = c # r \<Longrightarrow> c = CHR ''-'' \<or> is_digit c"
  using hd_nat_str_digit [of "nat i"] nat_str_nonempty [of "nat i"]
  by (cases "nat_str (nat i)") (auto simp: int_str_def split: if_splits)

text \<open>Each constructor has its own leading characters.\<close>

lemmas lead_simps = int_str_lead is_digit_def json_str_def

lemma jtext_eq_VList:
  assumes "canonical w" and "jtext w @ b = CHR ''['' # r"
  obtains ys where "w = VList ys"
  using assms by (cases w) (auto simp: lead_simps split: if_splits dest!: int_str_lead)

lemma jtext_eq_VDict:
  assumes "canonical w" and "jtext w @ b = CHR ''{'' # r"
  obtains kws where "w = VDict kws"
  using assms by (cases w) (auto simp: lead_simps split: if_splits dest!: int_str_lead)

lemma jtext_eq_VStr:
  assumes "canonical w" and "jtext w @ b = CHR 0x22 # r"
  obtains s where "w = VStr s"
  using assms by (cases w) (auto simp: lead_simps split: if_splits dest!: int_str_lead)

lemma jtext_eq_VInt:
  assumes "canonical w" and "jtext w @ b = int_str i @ r"
  obtains j where "w = VInt j"
  using assms by (cases w) (auto simp: lead_simps split: if_splits dest!: sym [THEN int_str_lead])

lemma jtext_eq_lit:
  assumes "canonical w" and "jtext w @ b = c # r" and "c \<in> {CHR ''n'', CHR ''t'', CHR ''f''}"
  shows "w = VNone \<or> (\<exists>x. w = VBool x)"
  using assms by (cases w) (auto simp: lead_simps split: if_splits dest!: int_str_lead)

theorem jtext_prefix_code:
  assumes "canonical v" and "canonical w" and "delim a" and "delim b" and "jtext v @ a = jtext w @ b"
  shows "v = w \<and> a = b"
  using assms
proof (induction v arbitrary: w a b rule: canonical.induct)
  case 1
  then show ?case using jtext_eq_lit [of w b "CHR ''n''" "''ull'' @ a"] by (auto split: if_splits)
next
  case (2 x)
  then show ?case
    using jtext_eq_lit [of w b "CHR ''t''" "''rue'' @ a"] jtext_eq_lit [of w b "CHR ''f''" "''alse'' @ a"]
    by (cases x) (auto split: if_splits)
next
  case (3 i)
  obtain j where w: "w = VInt j" using 3 jtext_eq_VInt [of w b i a] by auto
  show ?case using int_str_prefix_code [of i a j b] 3(3-5) unfolding w by simp
next
  case (4 s)
  have "jtext w @ b = CHR 0x22 # concat (map esc_char s) @ [CHR 0x22] @ a"
    using 4(5) by (simp add: json_str_def)
  with 4(2) obtain t where w: "w = VStr t" by (rule jtext_eq_VStr)
  show ?case using json_str_prefix_code [of s a t b] 4(5) unfolding w by simp
next
  case (5 xs)
  have "jtext w @ b = CHR ''['' # join '','' (map jtext xs) @ '']'' @ a" using 5(6) by simp
  with 5(3) obtain ys where w: "w = VList ys" by (rule jtext_eq_VList)
  have "join '','' (map jtext xs) @ CHR '']'' # a = join '','' (map jtext ys) @ CHR '']'' # b"
    using 5(6) w by simp
  moreover have "list_all canonical xs" "list_all canonical ys" using 5(2,3) w by simp_all
  moreover have "\<And>x y a b. x \<in> set xs \<Longrightarrow> canonical y \<Longrightarrow> delim a \<Longrightarrow> delim b \<Longrightarrow>
      jtext x @ a = jtext y @ b \<Longrightarrow> x = y \<and> a = b"
    using 5(1) \<open>list_all canonical xs\<close> by (auto simp: list_all_iff)
  ultimately have "xs = ys \<and> a = b"
    using jtext_start by (intro items_code [where ok = canonical and f = jtext]) auto
  with w show ?case by simp
next
  case (6 kvs)
  let ?f = "\<lambda>(k, v). json_str k @ '':'' @ jtext v" and ?ok = "\<lambda>(k :: string, v). canonical v"
  have "jtext w @ b = CHR ''{'' # join '','' (map ?f kvs) @ ''}'' @ a" using 6(6) by simp
  with 6(3) obtain kws where w: "w = VDict kws" by (rule jtext_eq_VDict)
  have eq: "join '','' (map ?f kvs) @ CHR ''}'' # a = join '','' (map ?f kws) @ CHR ''}'' # b"
    using 6(6) w by simp
  have ok: "list_all ?ok kvs" "list_all ?ok kws" using 6(2,3) w by simp_all
  have code: "\<And>x y a b. x \<in> set kvs \<Longrightarrow> ?ok y \<Longrightarrow> delim a \<Longrightarrow> delim b \<Longrightarrow>
      ?f x @ a = ?f y @ b \<Longrightarrow> x = y \<and> a = b"
  proof -
    fix x y a b assume h: "x \<in> set kvs" "?ok y" "delim a" "delim b" "?f x @ a = ?f y @ b"
    obtain k v l u where xy: "x = (k, v)" "y = (l, u)" by (cases x, cases y) auto
    have "k = l \<and> '':'' @ jtext v @ a = '':'' @ jtext u @ b"
      using h(5) json_str_prefix_code [of k "'':'' @ jtext v @ a" l "'':'' @ jtext u @ b"] xy by simp
    moreover from this have "v = u \<and> a = b"
      using 6(1) [of x k v u a b] h xy ok(1) by (auto simp: list_all_iff)
    ultimately show "x = y \<and> a = b" using xy by simp
  qed
  have start: "\<And>x. ?ok x \<Longrightarrow> ?f x \<noteq> [] \<and> \<not> delim (?f x)"
    by (auto simp: delim_def json_str_def)
  have "kvs = kws \<and> a = b"
    by (rule items_code [of kvs ?ok ?f kws "CHR ''}''", OF code start ok _ _ eq]) simp_all
  with w show ?case by simp
qed simp_all

corollary jtext_inj: "canonical v \<Longrightarrow> canonical w \<Longrightarrow> jtext v = jtext w \<Longrightarrow> v = w"
  using jtext_prefix_code [of v w "[]" "[]"] by simp

text \<open>A value of plain data always has a text.\<close>

fun plain_data :: "pyval \<Rightarrow> bool" where
  "plain_data (VFloat t) = False"
| "plain_data (VDec d) = False"
| "plain_data (VSet xs) = False"
| "plain_data (VList xs) = list_all plain_data xs"
| "plain_data (VTuple xs) = list_all plain_data xs"
| "plain_data (VDict kvs) = list_all (\<lambda>(k, v). plain_data v) kvs"
| "plain_data _ = True"

lemma plain_json: "plain_data v \<Longrightarrow> is_ok (json_gen i s n d v)"
proof (induction v rule: plain_data.induct)
  case (6 kvs)
  then show ?case by (auto simp: list_all_iff case_prod_unfold)
qed (auto simp: list_all_iff)

end
