(* ===== verification/Py_Sha256.thy ===== *)
theory Py_Sha256
  imports Py_Prelude "HOL-Library.Word"
begin

unbundle bit_operations_syntax

section \<open>hashlib.sha256\<close>

text \<open>
  The hash behind every identifier of the program, written out on 32-bit words: padding to 64-byte
  blocks, the message schedule, the 64 rounds, and the lower-case hexadecimal digest. Nothing is
  assumed about collisions; the lemmas give the shape of a digest (64 hexadecimal characters), and
  the theorems of the components that compare identifiers carry an explicit collision as the
  alternative.
\<close>

type_synonym u32 = "32 word"
type_synonym sha_state = "u32 \<times> u32 \<times> u32 \<times> u32 \<times> u32 \<times> u32 \<times> u32 \<times> u32"

definition sha_k :: "u32 list" where
  "sha_k =
    [1116352408, 1899447441, 3049323471, 3921009573, 961987163, 1508970993, 2453635748, 2870763221,
     3624381080, 310598401, 607225278, 1426881987, 1925078388, 2162078206, 2614888103, 3248222580,
     3835390401, 4022224774, 264347078, 604807628, 770255983, 1249150122, 1555081692, 1996064986,
     2554220882, 2821834349, 2952996808, 3210313671, 3336571891, 3584528711, 113926993, 338241895,
     666307205, 773529912, 1294757372, 1396182291, 1695183700, 1986661051, 2177026350, 2456956037,
     2730485921, 2820302411, 3259730800, 3345764771, 3516065817, 3600352804, 4094571909, 275423344,
     430227734, 506948616, 659060556, 883997877, 958139571, 1322822218, 1537002063, 1747873779,
     1955562222, 2024104815, 2227730452, 2361852424, 2428436474, 2756734187, 3204031479, 3329325298]"

definition sha_init :: sha_state where
  "sha_init =
    (1779033703, 3144134277, 1013904242, 2773480762, 1359893119, 2600822924, 528734635, 1541459225)"

definition small0 :: "u32 \<Rightarrow> u32" where
  "small0 x = word_rotr 7 x XOR word_rotr 18 x XOR drop_bit 3 x"

definition small1 :: "u32 \<Rightarrow> u32" where
  "small1 x = word_rotr 17 x XOR word_rotr 19 x XOR drop_bit 10 x"

definition big0 :: "u32 \<Rightarrow> u32" where
  "big0 x = word_rotr 2 x XOR word_rotr 13 x XOR word_rotr 22 x"

definition big1 :: "u32 \<Rightarrow> u32" where
  "big1 x = word_rotr 6 x XOR word_rotr 11 x XOR word_rotr 25 x"

subsection \<open>Padding and blocks\<close>

fun be_bytes :: "nat \<Rightarrow> nat \<Rightarrow> nat list" where
  "be_bytes 0 n = []"
| "be_bytes (Suc k) n = be_bytes k (n div 256) @ [n mod 256]"

definition sha_pad :: "nat list \<Rightarrow> nat list" where
  "sha_pad m = (let l = length m in
     m @ [128] @ replicate ((119 - l mod 64) mod 64) 0 @ be_bytes 8 (8 * l))"

fun words_of :: "nat list \<Rightarrow> u32 list" where
  "words_of (a # b # c # d # r) = of_nat (((a * 256 + b) * 256 + c) * 256 + d) # words_of r"
| "words_of _ = []"

fun blocks_of :: "u32 list \<Rightarrow> u32 list list" where
  "blocks_of [] = []"
| "blocks_of (w # ws) = take 16 (w # ws) # blocks_of (drop 15 ws)"

subsection \<open>Schedule and rounds\<close>

text \<open>The schedule is kept newest word first.\<close>

fun sha_extend :: "nat \<Rightarrow> u32 list \<Rightarrow> u32 list" where
  "sha_extend 0 ws = ws"
| "sha_extend (Suc n) ws =
     sha_extend n ((small1 (ws ! 1) + ws ! 6 + small0 (ws ! 14) + ws ! 15) # ws)"

definition sha_round :: "sha_state \<Rightarrow> u32 \<times> u32 \<Rightarrow> sha_state" where
  "sha_round st kw = (case st of (a, b, c, d, e, f, g, h) \<Rightarrow>
     let t1 = h + big1 e + ((e AND f) XOR (NOT e AND g)) + fst kw + snd kw;
         t2 = big0 a + ((a AND b) XOR (a AND c) XOR (b AND c))
     in (t1 + t2, a, b, c, d + t1, e, f, g))"

definition sha_block :: "sha_state \<Rightarrow> u32 list \<Rightarrow> sha_state" where
  "sha_block st blk =
    (case (st, foldl sha_round st (zip sha_k (rev (sha_extend 48 (rev blk))))) of
       ((a, b, c, d, e, f, g, h), (a', b', c', d', e', f', g', h')) \<Rightarrow>
         (a + a', b + b', c + c', d + d', e + e', f + f', g + g', h + h'))"

subsection \<open>The digest\<close>

definition hex_char :: "nat \<Rightarrow> char" where
  "hex_char n = (if n < 10 then digit_char n else char_of (87 + n))"

fun hex_str :: "nat \<Rightarrow> nat \<Rightarrow> string" where
  "hex_str 0 n = []"
| "hex_str (Suc k) n = hex_str k (n div 16) @ [hex_char (n mod 16)]"

definition state_hex :: "sha_state \<Rightarrow> string" where
  "state_hex st = (case st of (a, b, c, d, e, f, g, h) \<Rightarrow>
     concat (map (\<lambda>w. hex_str 8 (unat w)) [a, b, c, d, e, f, g, h]))"

definition sha256 :: "string \<Rightarrow> string" where
  "sha256 s = state_hex (foldl sha_block sha_init (blocks_of (words_of (sha_pad (map of_char s)))))"

subsection \<open>The shape of a digest\<close>

definition is_hex :: "char \<Rightarrow> bool" where
  "is_hex c = (is_digit c \<or> (let n = (of_char c :: nat) in 97 \<le> n \<and> n \<le> 102))"

lemma is_hex_hex_char: "n < 16 \<Longrightarrow> is_hex (hex_char n)"
  by (auto simp: is_hex_def hex_char_def Let_def)

lemma length_hex_str [simp]: "length (hex_str k n) = k"
  by (induction k arbitrary: n) simp_all

lemma list_all_hex_str: "list_all is_hex (hex_str k n)"
  by (induction k arbitrary: n) (simp_all add: is_hex_hex_char)

lemma length_sha256 [simp]: "length (sha256 s) = 64"
  by (simp add: sha256_def state_hex_def split: prod.splits)

lemma sha256_is_hex: "list_all is_hex (sha256 s)"
proof -
  have "list_all is_hex (state_hex st)" for st
    using list_all_hex_str by (simp add: state_hex_def split: prod.split)
  then show ?thesis by (simp add: sha256_def)
qed

lemma sha256_nonempty [simp]: "sha256 s \<noteq> []"
  using length_sha256 [of s] by (metis list.size(3) zero_neq_numeral)

lemma take_sha256_nonempty [simp]: "0 < n \<Longrightarrow> take n (sha256 s) \<noteq> []"
  by simp

text \<open>Padding completes the last block: the padded length is a multiple of 64 bytes.\<close>

lemma length_be_bytes [simp]: "length (be_bytes k n) = k"
  by (induction k arbitrary: n) simp_all

lemma sha_pad_length: "length (sha_pad m) mod 64 = 0"
proof -
  define r where "r = length m mod 64"
  have "r < 64" by (simp add: r_def)
  have "(r + 1 + (119 - r) mod 64 + 8) mod 64 = 0"
  proof (cases "r \<le> 55")
    case True
    then have shift: "119 - r = 64 + (55 - r)" by simp
    have "(119 - r) mod 64 = 55 - r" unfolding shift by simp
    with True show ?thesis by simp
  next
    case False
    with \<open>r < 64\<close> show ?thesis by simp
  qed
  then have "(length m + (1 + (119 - r) mod 64 + 8)) mod 64 = 0"
    unfolding r_def by (metis (no_types, lifting) add.assoc mod_add_left_eq)
  then show ?thesis by (simp add: sha_pad_def Let_def r_def add.assoc)
qed

end
