(* ===== verification/Py_Time.thy ===== *)
theory Py_Time
  imports Py_Value
begin

section \<open>Python datetimes\<close>

text \<open>
  \<^verbatim>\<open>datetime.fromisoformat\<close>, comparison, \<^verbatim>\<open>astimezone(UTC)\<close> and \<^verbatim>\<open>isoformat\<close>, as the code uses them. A
  datetime is its wall-clock time in microseconds since 0001-01-01 with the offset from UTC in
  microseconds, when it has one. The parser accepts the calendar forms of ISO 8601 that Python 3.11
  documents, extended and basic, with fractions and offsets. ISO week dates are refused, which Python
  accepts, and so is a stray character between the time and the offset, which CPython 3.11 tolerates; no
  producer in the repository emits either. The main result is that the text \<open>isoformat\<close> prints denotes
  the instant it was printed from (\<open>from_iso_isoformat\<close>).
\<close>

datatype dt = DT (wall: int) (offset: "int option")

subsection \<open>The calendar\<close>

definition is_leap :: "int \<Rightarrow> bool" where
  "is_leap y \<longleftrightarrow> y mod 4 = 0 \<and> (y mod 100 \<noteq> 0 \<or> y mod 400 = 0)"

definition days_before_year :: "int \<Rightarrow> int" where
  "days_before_year y = (let p = y - 1 in p * 365 + p div 4 - p div 100 + p div 400)"

text \<open>Days before the month, in a year that is leap or not.\<close>

definition month_starts :: "bool \<Rightarrow> int list" where
  "month_starts leap = (let l = (if leap then 1 else 0) in
     [0, 31, 59 + l, 90 + l, 120 + l, 151 + l, 181 + l, 212 + l, 243 + l, 273 + l, 304 + l, 334 + l, 365 + l])"

definition valid_date :: "int \<Rightarrow> nat \<Rightarrow> int \<Rightarrow> bool" where
  "valid_date y m d \<longleftrightarrow> 1 \<le> y \<and> y \<le> 9999 \<and> 1 \<le> m \<and> m \<le> 12 \<and> 1 \<le> d \<and>
     d \<le> month_starts (is_leap y) ! m - month_starts (is_leap y) ! (m - 1)"

definition ymd2ord :: "int \<Rightarrow> nat \<Rightarrow> int \<Rightarrow> int" where
  "ymd2ord y m d = days_before_year y + month_starts (is_leap y) ! (m - 1) + d"

text \<open>The month of a day of the year counted from 0.\<close>

definition month_of_day :: "bool \<Rightarrow> int \<Rightarrow> nat" where
  "month_of_day leap r = length (takeWhile (\<lambda>s. s \<le> r) (month_starts leap))"

definition ord2ymd :: "int \<Rightarrow> int \<times> nat \<times> int" where
  "ord2ymd n =
    (let n0 = n - 1; n400 = n0 div 146097; r = n0 mod 146097;
         n100 = r div 36524; r1 = r mod 36524;
         n4 = r1 div 1461; r2 = r1 mod 1461;
         n1 = r2 div 365; r3 = r2 mod 365;
         year = n400 * 400 + 1 + n100 * 100 + n4 * 4 + n1 in
     if n1 = 4 \<or> n100 = 4 then (year - 1, 12, 31)
     else (let m = month_of_day (is_leap year) r3 in (year, m, r3 - month_starts (is_leap year) ! (m - 1) + 1)))"

definition max_ord :: int where
  "max_ord = 3652059"

definition day_us :: int where
  "day_us = 86400000000"

subsection \<open>Parsing\<close>

definition parse2 :: "string \<Rightarrow> (int \<times> string) option" where
  "parse2 s = (case s of a # b # r \<Rightarrow> if is_digit a \<and> is_digit b then Some (int (digits_val [a, b]), r) else None | _ \<Rightarrow> None)"

definition parse_frac :: "string \<Rightarrow> int option" where
  "parse_frac r = (if r \<noteq> [] \<and> list_all is_digit r then Some (int (digits_val (take 6 (r @ ''000000'')))) else None)"

definition is_point :: "char \<Rightarrow> bool" where
  "is_point c \<longleftrightarrow> c = CHR ''.'' \<or> c = CHR '',''"

text \<open>\<open>HH[:MM[:SS[.f]]]\<close> or \<open>HH[MM[SS[.f]]]\<close>\<close>

definition parse_hms :: "string \<Rightarrow> (int \<times> int \<times> int \<times> int) option" where
  "parse_hms t =
    (case parse2 t of None \<Rightarrow> None
     | Some (h, t1) \<Rightarrow>
       if t1 = [] then Some (h, 0, 0, 0)
       else if is_point (hd t1) then map_option (\<lambda>us. (h, 0, 0, us)) (parse_frac (tl t1))
       else (let sep = (hd t1 = CHR '':'') in
         case parse2 (if sep then tl t1 else t1) of None \<Rightarrow> None
         | Some (m, t2) \<Rightarrow>
           if t2 = [] then Some (h, m, 0, 0)
           else if is_point (hd t2) then map_option (\<lambda>us. (h, m, 0, us)) (parse_frac (tl t2))
           else if sep \<and> hd t2 \<noteq> CHR '':'' then None
           else case parse2 (if sep then tl t2 else t2) of None \<Rightarrow> None
             | Some (s, t3) \<Rightarrow>
               if t3 = [] then Some (h, m, s, 0)
               else if length t3 = 1 then None
               else if is_point (hd t3) \<or> sep \<and> hd t3 = CHR '':'' then map_option (\<lambda>us. (h, m, s, us)) (parse_frac (tl t3))
               else if sep then None
               else map_option (\<lambda>us. (h, m, s, us)) (parse_frac t3)))"

definition is_zone :: "char \<Rightarrow> bool" where
  "is_zone c \<longleftrightarrow> c = CHR ''+'' \<or> c = CHR ''-'' \<or> c = CHR ''Z''"

text \<open>The offset text after the time: none, \<open>Z\<close>, or a sign and a time of less than a day.\<close>

definition parse_zone :: "string \<Rightarrow> int option option" where
  "parse_zone z = (case z of
      [] \<Rightarrow> Some None
    | c # r \<Rightarrow>
        if c = CHR ''Z'' then (if r = [] then Some (Some 0) else None)
        else (case parse_hms r of None \<Rightarrow> None
          | Some (h, m, s, us) \<Rightarrow>
            (let secs = h * 3600 + m * 60 + s; o' = (if secs = 0 then 0 else secs * 1000000 + us) in
             if o' \<ge> day_us then None else Some (Some (if c = CHR ''-'' then - o' else o')))))"

text \<open>The date in front: its fields, and what follows the one separator character.\<close>

definition parse_date :: "string \<Rightarrow> (int \<times> nat \<times> int \<times> string option) option" where
  "parse_date s =
    (if length s < 8 then None
     else (let ext = (s ! 4 = CHR ''-''); n = (if ext then 10 else 8);
               ds = (if ext then take 4 s @ take 2 (drop 5 s) @ take 2 (drop 8 s) else take 8 s) in
       if length s < n \<or> ext \<and> s ! 7 \<noteq> CHR ''-'' \<or> \<not> list_all is_digit ds then None
       else Some (int (digits_val (take 4 ds)), digits_val (take 2 (drop 4 ds)), int (digits_val (drop 6 ds)),
         (case drop n s of [] \<Rightarrow> None
          | c # r \<Rightarrow> Some (if (of_char c :: nat) < 128 then r else dropWhile (\<lambda>d. 128 \<le> (of_char d :: nat) \<and> (of_char d :: nat) < 192) r)))))"

definition from_iso :: "string \<Rightarrow> dt option" where
  "from_iso s =
    (case parse_date s of None \<Rightarrow> None
     | Some (y, mo, d, tm) \<Rightarrow>
       (case (case tm of None \<Rightarrow> Some ((0, 0, 0, 0), None)
              | Some t \<Rightarrow> (case (parse_hms (takeWhile (\<lambda>c. \<not> is_zone c) t), parse_zone (dropWhile (\<lambda>c. \<not> is_zone c) t)) of
                  (Some hms, Some z) \<Rightarrow> Some (hms, z) | _ \<Rightarrow> None)) of
          None \<Rightarrow> None
        | Some ((h, mi, se, us), z) \<Rightarrow>
            if valid_date y mo d \<and> h < 24 \<and> mi < 60 \<and> se < 60
            then Some (DT ((ymd2ord y mo d - 1) * day_us + (h * 3600 + mi * 60 + se) * 1000000 + us) z)
            else None))"

definition fromisoformat :: "string \<Rightarrow> dt result" where
  "fromisoformat s = (case from_iso s of None \<Rightarrow> Inl (Exn ValueError []) | Some d \<Rightarrow> Inr d)"

subsection \<open>Comparison and conversion\<close>

text \<open>\<^verbatim>\<open>a <= b\<close>, \<^verbatim>\<open>a < b\<close> and \<^verbatim>\<open>a == b\<close>: ordering an aware against a naive datetime raises.\<close>

definition instant :: "dt \<Rightarrow> int" where
  "instant d = wall d - (case offset d of None \<Rightarrow> 0 | Some z \<Rightarrow> z)"

definition dt_cmp :: "(int \<Rightarrow> int \<Rightarrow> bool) \<Rightarrow> dt \<Rightarrow> dt \<Rightarrow> bool result" where
  "dt_cmp R a b = (if (offset a = None) = (offset b = None) then Inr (R (instant a) (instant b)) else Inl (Exn TypeError []))"

definition dt_eq :: "dt \<Rightarrow> dt \<Rightarrow> bool" where
  "dt_eq a b \<longleftrightarrow> (offset a = None) = (offset b = None) \<and> instant a = instant b"

text \<open>\<^verbatim>\<open>d.astimezone(UTC)\<close> of an aware datetime; leaving the years 1 to 9999 raises.\<close>

definition astimezone_utc :: "dt \<Rightarrow> int result" where
  "astimezone_utc d = (if 0 \<le> instant d \<and> instant d < max_ord * day_us then Inr (instant d) else Inl (Exn OverflowError []))"

definition pad2 :: "int \<Rightarrow> string" where
  "pad2 n = [digit_char (nat (n div 10 mod 10)), digit_char (nat (n mod 10))]"

definition pad4 :: "int \<Rightarrow> string" where
  "pad4 n = pad2 (n div 100) @ pad2 (n mod 100)"

definition pad6 :: "int \<Rightarrow> string" where
  "pad6 n = pad2 (n div 10000) @ pad2 (n div 100 mod 100) @ pad2 (n mod 100)"

text \<open>\<^verbatim>\<open>isoformat()\<close> of a datetime in UTC, without the offset.\<close>

definition iso_base :: "int \<Rightarrow> string" where
  "iso_base t =
    (let (y, mo, d) = ord2ymd (t div day_us + 1); r = t mod day_us; us = r mod 1000000; secs = r div 1000000 in
     pad4 y @ ''-'' @ pad2 (int mo) @ ''-'' @ pad2 d @ ''T'' @
     pad2 (secs div 3600) @ '':'' @ pad2 (secs div 60 mod 60) @ '':'' @ pad2 (secs mod 60) @
     (if us = 0 then [] else ''.'' @ pad6 us))"

definition isoformat_utc :: "int \<Rightarrow> string" where
  "isoformat_utc t = iso_base t @ ''+00:00''"

text \<open>\<^verbatim>\<open>s.replace(old, new)\<close> for a nonempty \<open>old\<close>.\<close>

function str_replace :: "string \<Rightarrow> string \<Rightarrow> string \<Rightarrow> string" where
  "str_replace old new s =
    (if s = [] \<or> old = [] then s
     else if prefix old s then new @ str_replace old new (drop (length old) s)
     else hd s # str_replace old new (tl s))"
  by pat_completeness auto
termination by (relation "measure (\<lambda>(old, new, s). length s)") auto

declare str_replace.simps [simp del]

subsection \<open>The calendar is right\<close>

lemma div_unique: "(x :: int) = k * q + s \<Longrightarrow> 0 \<le> s \<Longrightarrow> s < k \<Longrightarrow> x div k = q"
  by (rule int_div_pos_eq)

lemma succ_mod:
  assumes "(x :: int) = k * q + s" and "0 \<le> s" and "s < k"
  shows "(x + 1) mod k = 0 \<longleftrightarrow> s = k - 1"
proof (cases "s = k - 1")
  case True
  then have "x + 1 = k * (q + 1)" using assms(1) by (simp add: algebra_simps)
  then show ?thesis using True by simp
next
  case False
  then have "(x + 1) mod k = s + 1" using assms by (intro int_mod_pos_eq [where q = q]) auto
  with False assms(2) show ?thesis by simp
qed

lemma month_of_day:
  assumes "0 \<le> r" and "r < 365 + (if leap then 1 else 0)"
  shows "1 \<le> month_of_day leap r \<and> month_of_day leap r \<le> 12 \<and>
    month_starts leap ! (month_of_day leap r - 1) \<le> r \<and> r < month_starts leap ! month_of_day leap r"
proof -
  let ?xs = "month_starts leap" let ?P = "\<lambda>s. s \<le> r"
  let ?k = "length (takeWhile ?P ?xs)"
  have len: "length ?xs = 13" by (simp add: month_starts_def)
  have in_take: "?P (?xs ! i)" if "i < ?k" for i
    using that takeWhile_nth [of i ?P ?xs] nth_mem [of i "takeWhile ?P ?xs"] by (auto dest: set_takeWhileD)
  have "\<not> ?P (?xs ! 12)" using assms(2) by (cases leap) (simp_all add: month_starts_def)
  with in_take [of 12] have k: "?k \<le> 12" by linarith
  have "takeWhile ?P ?xs \<noteq> []" using assms(1) by (simp add: month_starts_def)
  then have k0: "1 \<le> ?k" by (cases "takeWhile ?P ?xs") simp_all
  have "\<not> ?P (?xs ! ?k)" using k len nth_length_takeWhile [of ?P ?xs] by linarith
  moreover have "?P (?xs ! (?k - 1))" using in_take [of "?k - 1"] k0 by linarith
  ultimately show ?thesis using k k0 unfolding month_of_day_def not_le by blast
qed

text \<open>A year as cycles of 400, 100, 4 and 1 years.\<close>

lemma year_cycles:
  assumes "0 \<le> b" "b \<le> 3" "0 \<le> c" "c \<le> 24" "0 \<le> e" "e \<le> 3"
  shows "days_before_year (400 * a + 100 * b + 4 * c + e + 1) = 146097 * a + 36524 * b + 1461 * c + 365 * e"
    and "is_leap (400 * a + 100 * b + 4 * c + e + 1) \<longleftrightarrow> e = 3 \<and> (c = 24 \<longrightarrow> b = 3)"
proof -
  let ?p = "400 * a + 100 * b + 4 * c + e"
  have d: "?p div 4 = 100 * a + 25 * b + c" "?p div 100 = 4 * a + b" "?p div 400 = a"
    using assms by (intro div_unique [where s = e] div_unique [where s = "4 * c + e"] div_unique [where s = "100 * b + 4 * c + e"]; simp)+
  show "days_before_year (?p + 1) = 146097 * a + 36524 * b + 1461 * c + 365 * e"
    by (simp add: days_before_year_def d)
  have m4: "(?p + 1) mod 4 = 0 \<longleftrightarrow> e = 3" using succ_mod [of ?p 4 "100 * a + 25 * b + c" e] assms by simp
  have m100: "(?p + 1) mod 100 = 0 \<longleftrightarrow> c = 24 \<and> e = 3"
  proof -
    have "4 * c + e = 99 \<longleftrightarrow> c = 24 \<and> e = 3" using assms by presburger
    then show ?thesis using succ_mod [of ?p 100 "4 * a + b" "4 * c + e"] assms by simp
  qed
  have m400: "(?p + 1) mod 400 = 0 \<longleftrightarrow> b = 3 \<and> c = 24 \<and> e = 3"
  proof -
    have "100 * b + 4 * c + e = 399 \<longleftrightarrow> b = 3 \<and> c = 24 \<and> e = 3" using assms by presburger
    then show ?thesis using succ_mod [of ?p 400 a "100 * b + 4 * c + e"] assms by simp
  qed
  show "is_leap (?p + 1) \<longleftrightarrow> e = 3 \<and> (c = 24 \<longrightarrow> b = 3)" unfolding is_leap_def m4 m100 m400 by blast
qed

lemma ord2ymd_correct:
  assumes "1 \<le> n" and "n \<le> max_ord" and "ord2ymd n = (y, m, d)"
  shows "valid_date y m d" and "ymd2ord y m d = n"
proof -
  define a where "a = (n - 1) div 146097" define r where "r = (n - 1) mod 146097"
  define b where "b = r div 36524" define r1 where "r1 = r mod 36524"
  define c where "c = r1 div 1461" define r2 where "r2 = r1 mod 1461"
  define e where "e = r2 div 365" define r3 where "r3 = r2 mod 365"
  note defs = a_def r_def b_def r1_def c_def r2_def e_def r3_def
  have n: "n - 1 = 146097 * a + r" "r = 36524 * b + r1" "r1 = 1461 * c + r2" "r2 = 365 * e + r3" by (simp_all add: defs)
  have ge: "0 \<le> a" "0 \<le> b" "0 \<le> c" "0 \<le> e" "0 \<le> r3" "0 \<le> r2" "0 \<le> r1"
    using assms(1) by (simp_all add: defs pos_imp_zdiv_nonneg_iff)
  have lt: "r < 146097" "r1 < 36524" "r2 < 1461" "r3 < 365" by (simp_all add: defs)
  have le: "b \<le> 4" "c \<le> 24" "e \<le> 4" "b = 4 \<longrightarrow> r1 = 0" "c = 24 \<longrightarrow> e \<le> 3" "e = 4 \<longrightarrow> r3 = 0" "a \<le> 24" "a = 24 \<longrightarrow> b \<le> 3"
    using n ge lt assms(2) by (auto simp: max_ord_def)
  have o: "ord2ymd n = (let year = a * 400 + 1 + b * 100 + c * 4 + e in
     if e = 4 \<or> b = 4 then (year - 1, 12, 31)
     else (let m = month_of_day (is_leap year) r3 in (year, m, r3 - month_starts (is_leap year) ! (m - 1) + 1)))"
    by (simp add: ord2ymd_def Let_def defs)
  consider (b4) "b = 4" | (e4) "b \<le> 3" "e = 4" | (reg) "b \<le> 3" "e \<le> 3" using le by linarith
  then have "valid_date y m d \<and> ymd2ord y m d = n"
  proof cases
    case b4
    with le n ge have z: "r1 = 0" "c = 0" "e = 0" "a \<le> 23" by auto
    have y: "y = 400 * a + 100 * 3 + 4 * 24 + 3 + 1" "m = 12" "d = 31" using assms(3) b4 z by (simp_all add: o)
    have l: "is_leap y" and db: "days_before_year y = 146097 * a + 36524 * 3 + 1461 * 24 + 365 * 3"
      unfolding y(1) using year_cycles [of 3 24 3 a] by simp_all
    have "valid_date y m d" using l y z(4) ge(1) by (simp add: valid_date_def month_starts_def)
    moreover have "ymd2ord y m d = n" using l db y n z b4 by (simp add: ymd2ord_def month_starts_def)
    ultimately show ?thesis ..
  next
    case e4
    with le have z: "r3 = 0" "c \<le> 23" by auto
    have y: "y = 400 * a + 100 * b + 4 * c + 3 + 1" "m = 12" "d = 31" using assms(3) e4 by (simp_all add: o)
    have l: "is_leap y" and db: "days_before_year y = 146097 * a + 36524 * b + 1461 * c + 365 * 3"
      unfolding y(1) using year_cycles [of b c 3 a] e4 ge z by simp_all
    have "valid_date y m d" using l y z ge le(7) e4 by (simp add: valid_date_def month_starts_def)
    moreover have "ymd2ord y m d = n" using l db y n z e4 by (simp add: ymd2ord_def month_starts_def)
    ultimately show ?thesis ..
  next
    case reg
    have y: "y = 400 * a + 100 * b + 4 * c + e + 1" "m = month_of_day (is_leap y) r3" "d = r3 - month_starts (is_leap y) ! (m - 1) + 1"
      using assms(3) reg by (auto simp: o Let_def algebra_simps)
    have db: "days_before_year y = 146097 * a + 36524 * b + 1461 * c + 365 * e"
      unfolding y(1) using year_cycles [of b c e a] reg ge le by simp
    have "1 \<le> m \<and> m \<le> 12 \<and> month_starts (is_leap y) ! (m - 1) \<le> r3 \<and> r3 < month_starts (is_leap y) ! m"
      unfolding y(2) using ge(5) lt(4) by (intro month_of_day) auto
    moreover have "1 \<le> y" "y \<le> 9999" using y(1) ge reg le(2,7,8) n lt assms(2) by (auto simp: max_ord_def)
    ultimately have "valid_date y m d" using y(3) by (auto simp: valid_date_def)
    moreover have "ymd2ord y m d = n" using db y(3) n by (simp add: ymd2ord_def)
    ultimately show ?thesis ..
  qed
  then show "valid_date y m d" and "ymd2ord y m d = n" by simp_all
qed

subsection \<open>Printing and parsing\<close>

lemma pad2_parse: "0 \<le> n \<Longrightarrow> n < 100 \<Longrightarrow> parse2 (pad2 n @ r) = Some (n, r)"
proof -
  assume n: "0 \<le> n" "n < 100"
  have d: "nat (n div 10 mod 10) < 10" "nat (n mod 10) < 10" by (simp_all add: nat_less_iff)
  have "n div 10 < 10" using n by (simp add: int_div_less_self)
  then have "int (10 * nat (n div 10 mod 10) + nat (n mod 10)) = n" using n by (simp add: pos_imp_zdiv_nonneg_iff)
  then show ?thesis using d n by (simp add: parse2_def pad2_def digits_val_def)
qed

lemma pad2_digits [simp]: "list_all is_digit (pad2 n)"
  by (simp add: pad2_def nat_less_iff)

lemma length_pad [simp]: "length (pad2 n) = 2" "length (pad4 n) = 4" "length (pad6 n) = 6"
  by (simp_all add: pad2_def pad4_def pad6_def)

lemma digits_val_pad2: "0 \<le> n \<Longrightarrow> n < 100 \<Longrightarrow> int (digits_val (pad2 n)) = n"
  using pad2_parse [of n "[]"] by (simp add: parse2_def pad2_def split: if_splits)

lemma digits_val_pad4: "0 \<le> n \<Longrightarrow> n < 10000 \<Longrightarrow> int (digits_val (pad4 n)) = n"
  by (simp add: pad4_def digits_val_append digits_val_pad2)

lemma digits_val_pad6: "0 \<le> n \<Longrightarrow> n < 1000000 \<Longrightarrow> int (digits_val (pad6 n)) = n"
proof -
  assume n: "0 \<le> n" "n < 1000000"
  have e: "n div 10000 = n div 100 div 100" using zdiv_zmult2_eq [of 100 n 100] by simp
  have "n div 100 div 100 * 100 + n div 100 mod 100 = n div 100" "n div 100 * 100 + n mod 100 = n" by simp_all
  then have "n div 10000 * 10000 + n div 100 mod 100 * 100 + n mod 100 = n" unfolding e by linarith
  then show ?thesis using n by (simp add: pad6_def digits_val_append digits_val_pad2)
qed

lemma parse_date_printed:
  assumes "0 \<le> y" "y < 10000" "mo < 100" "0 \<le> d" "d < 100"
  shows "parse_date (pad4 y @ ''-'' @ pad2 (int mo) @ ''-'' @ pad2 d @ CHR ''T'' # r) = Some (y, mo, d, Some r)"
proof -
  let ?s = "pad4 y @ ''-'' @ pad2 (int mo) @ ''-'' @ pad2 d @ CHR ''T'' # r"
  have s: "?s ! 4 = CHR ''-''" "?s ! 7 = CHR ''-''" "take 4 ?s = pad4 y" "take 2 (drop 5 ?s) = pad2 (int mo)"
    "take 2 (drop 8 ?s) = pad2 d" "drop 10 ?s = CHR ''T'' # r" "\<not> length ?s < 8" "\<not> length ?s < 10"
    by (simp_all add: nth_append)
  have dg: "list_all is_digit (pad4 y @ pad2 (int mo) @ pad2 d)" by (simp add: pad4_def)
  have v: "int (digits_val (pad4 y)) = y" "digits_val (pad2 (int mo)) = mo" "int (digits_val (pad2 d)) = d"
    using assms digits_val_pad4 [of y] digits_val_pad2 [of "int mo"] digits_val_pad2 [of d] by linarith+
  show ?thesis unfolding parse_date_def Let_def s using dg v by (simp add: s)
qed

lemma not_zone_digit [simp]: "is_digit c \<Longrightarrow> \<not> is_zone c"
  by (auto simp: is_zone_def is_digit_def)

lemma time_chars: "list_all (\<lambda>c. \<not> is_zone c) (pad2 a)" "list_all (\<lambda>c. \<not> is_zone c) (pad6 a)"
  by (simp_all add: pad2_def pad6_def nat_less_iff)

lemma parse_frac_pad6: "0 \<le> us \<Longrightarrow> us < 1000000 \<Longrightarrow> parse_frac (pad6 us) = Some us"
  by (simp add: parse_frac_def digits_val_pad6) (simp add: pad6_def pad2_def)

lemma parse_hms_printed:
  assumes "0 \<le> h" "h < 100" "0 \<le> mi" "mi < 100" "0 \<le> s" "s < 100" "0 \<le> us" "us < 1000000"
  shows "parse_hms (pad2 h @ '':'' @ pad2 mi @ '':'' @ pad2 s @ (if us = 0 then [] else ''.'' @ pad6 us)) = Some (h, mi, s, us)"
  using assms by (simp add: parse_hms_def pad2_parse is_point_def parse_frac_pad6)

lemma takeWhile_until: "list_all P xs \<Longrightarrow> \<not> P c \<Longrightarrow> takeWhile P (xs @ c # r) = xs \<and> dropWhile P (xs @ c # r) = c # r"
  by (induction xs) auto

lemma utc_fields:
  assumes "0 \<le> r" "r < day_us"
  shows "0 \<le> r div 1000000 div 3600" "r div 1000000 div 3600 < 24"
    and "(r div 1000000 div 3600 * 3600 + r div 1000000 div 60 mod 60 * 60 + r div 1000000 mod 60) * 1000000 + r mod 1000000 = r"
proof -
  show "0 \<le> r div 1000000 div 3600" using assms by (simp add: pos_imp_zdiv_nonneg_iff)
  show "r div 1000000 div 3600 < 24" using assms by (simp add: day_us_def div_mult2_eq [symmetric] zdiv_zmult2_eq [symmetric])
  define s where "s = r div 1000000"
  have e: "s div 3600 = s div 60 div 60" using zdiv_zmult2_eq [of 60 s 60] by simp
  have "s div 60 div 60 * 60 + s div 60 mod 60 = s div 60" "s div 60 * 60 + s mod 60 = s" by simp_all
  then have "s div 3600 * 3600 + s div 60 mod 60 * 60 + s mod 60 = s" unfolding e by linarith
  then show "(r div 1000000 div 3600 * 3600 + r div 1000000 div 60 mod 60 * 60 + r div 1000000 mod 60) * 1000000 + r mod 1000000 = r"
    unfolding s_def [symmetric] by (simp add: s_def)
qed

theorem from_iso_isoformat:
  assumes "0 \<le> t" and "t < max_ord * day_us"
  shows "from_iso (isoformat_utc t) = Some (DT t (Some 0))"
proof -
  define n where "n = t div day_us + 1"
  obtain y mo d where ymd: "ord2ymd n = (y, mo, d)" by (cases "ord2ymd n") auto
  have n: "1 \<le> n" "n \<le> max_ord"
    using assms by (auto simp: n_def day_us_def max_ord_def)
  note ok = ord2ymd_correct [OF n ymd]
  have rg: "0 \<le> y" "y < 10000" "mo < 100" "0 \<le> d"
    using ok(1) by (auto simp: valid_date_def)
  have "d \<le> 31"
  proof -
    have "1 \<le> mo" "mo \<le> 12" "d \<le> month_starts (is_leap y) ! mo - month_starts (is_leap y) ! (mo - 1)"
      using ok(1) by (auto simp: valid_date_def)
    moreover have "\<forall>m \<in> set [1..<13]. month_starts True ! m - month_starts True ! (m - 1) \<le> 31"
      "\<forall>m \<in> set [1..<13]. month_starts False ! m - month_starts False ! (m - 1) \<le> 31"
      by code_simp+
    moreover have "mo \<in> set [1..<13]" using ok(1) by (auto simp: valid_date_def)
    ultimately show ?thesis by (cases "is_leap y") (force dest: bspec [of _ _ mo])+
  qed
  then have rd: "d < 100" by simp
  define r where "r = t mod day_us"
  have r: "0 \<le> r" "r < day_us" by (simp_all add: r_def day_us_def)
  define h where "h = r div 1000000 div 3600"
  define mi where "mi = r div 1000000 div 60 mod 60"
  define se where "se = r div 1000000 mod 60"
  define us where "us = r mod 1000000"
  have f: "0 \<le> h" "h < 24" "0 \<le> mi" "mi < 60" "0 \<le> se" "se < 60" "0 \<le> us" "us < 1000000"
    and sum: "(h * 3600 + mi * 60 + se) * 1000000 + us = r"
    using utc_fields [OF r] by (simp_all add: h_def mi_def se_def us_def)
  let ?tm = "pad2 h @ '':'' @ pad2 mi @ '':'' @ pad2 se @ (if us = 0 then [] else ''.'' @ pad6 us)"
  have iso: "isoformat_utc t = pad4 y @ ''-'' @ pad2 (int mo) @ ''-'' @ pad2 d @ CHR ''T'' # ?tm @ ''+00:00''"
    unfolding isoformat_utc_def iso_base_def Let_def n_def [symmetric] ymd
    by (simp add: r_def [symmetric] h_def [symmetric] mi_def [symmetric] se_def [symmetric] us_def [symmetric])
  have "list_all (\<lambda>c. \<not> is_zone c) ?tm" using time_chars by (simp add: is_zone_def)
  from takeWhile_until [OF this, of "CHR ''+''" "''00:00''"]
  have tz: "takeWhile (\<lambda>c. \<not> is_zone c) (?tm @ ''+00:00'') = ?tm" "dropWhile (\<lambda>c. \<not> is_zone c) (?tm @ ''+00:00'') = ''+00:00''"
    by (simp_all add: is_zone_def)
  have z: "parse_zone ''+00:00'' = Some (Some 0)" by code_simp
  have hms: "parse_hms ?tm = Some (h, mi, se, us)" using f by (intro parse_hms_printed) auto
  have "(ymd2ord y mo d - 1) * day_us + (h * 3600 + mi * 60 + se) * 1000000 + us = t"
  proof -
    have "(ymd2ord y mo d - 1) * day_us + r = t" unfolding ok(2) n_def r_def by simp
    then show ?thesis using sum by linarith
  qed
  then show ?thesis
    unfolding from_iso_def iso parse_date_printed [OF rg(1-3) rg(4) rd] option.case prod.case tz z hms
    using ok(1) f by simp
qed

text \<open>Replacing the offset by \<open>Z\<close> and back.\<close>

lemma str_replace_skip:
  "\<forall>c \<in> set b. c \<noteq> hd old \<Longrightarrow> old \<noteq> [] \<Longrightarrow> str_replace old new (b @ s) = b @ str_replace old new s"
proof (induction b)
  case (Cons c b)
  then have "\<not> prefix old (c # b @ s)" by (cases old) auto
  with Cons show ?case by (subst str_replace.simps) simp
qed simp

lemma str_replace_whole: "old \<noteq> [] \<Longrightarrow> str_replace old new old = new"
  by (subst str_replace.simps) (simp add: str_replace.simps)

lemma iso_base_chars: "c \<in> set (iso_base t) \<Longrightarrow> is_digit c \<or> c = CHR ''-'' \<or> c = CHR ''T'' \<or> c = CHR '':'' \<or> c = CHR ''.''"
proof -
  have p: "c \<in> set (pad2 n) \<Longrightarrow> is_digit c" for n using pad2_digits [of n] by (simp add: list_all_iff)
  show "c \<in> set (iso_base t) \<Longrightarrow> is_digit c \<or> c = CHR ''-'' \<or> c = CHR ''T'' \<or> c = CHR '':'' \<or> c = CHR ''.''"
    using p by (auto simp: iso_base_def pad4_def pad6_def Let_def split: prod.splits if_splits)
qed

lemma not_digit_syms [simp]: "\<not> is_digit CHR ''+''" "\<not> is_digit CHR ''Z''"
  by (simp_all add: is_digit_def)

lemma iso_zulu: "str_replace ''+00:00'' ''Z'' (isoformat_utc t) = iso_base t @ ''Z''"
proof -
  have "\<forall>c \<in> set (iso_base t). c \<noteq> hd ''+00:00''" using iso_base_chars by fastforce
  from str_replace_skip [OF this] show ?thesis by (simp add: isoformat_utc_def str_replace_whole)
qed

lemma zulu_iso: "str_replace ''Z'' ''+00:00'' (iso_base t @ ''Z'') = isoformat_utc t"
proof -
  have "\<forall>c \<in> set (iso_base t). c \<noteq> hd ''Z''" using iso_base_chars by fastforce
  from str_replace_skip [OF this] show ?thesis by (simp add: isoformat_utc_def str_replace_whole)
qed
end
