(* ===== verification/C1_Bars.thy ===== *)
theory C1_Bars
  imports Py_Json Py_Sha256 Py_Time
begin

section \<open>C1: primitive measurements of a price bar\<close>

text \<open>
  \<^verbatim>\<open>src/src/ovc/opt_b/c1/\<close>: \<^verbatim>\<open>adapter.py\<close> admits a bar of an OPT-A release or of a prospective replay,
  \<^verbatim>\<open>formulas.py\<close> measures it in decimal arithmetic of 34 digits, \<^verbatim>\<open>builder.py\<close> resolves the prior bar and
  builds the result, \<^verbatim>\<open>validation.py\<close> checks it and \<^verbatim>\<open>serialization.py\<close> prints it. The fields of a bar that are
  copied without a test are values of unknown shape. Exponents stay far inside the limits of the
  decimal context, which are not modelled. The lemmas show what an admitted bar satisfies and that every
  built result passes the validation.
\<close>

definition rejected :: "string \<Rightarrow> 'a result" where
  "rejected marker = Inl (Exn InputRejected marker)"

definition reject_if :: "bool \<Rightarrow> string \<Rightarrow> unit result" where
  "reject_if b marker = req InputRejected (\<not> b) marker"

subsection \<open>Admission\<close>

record source_bar =
  sb_release_id :: pyval
  sb_manifest_id :: pyval
  sb_research_role :: pyval
  sb_instrument_id :: pyval
  sb_clock_id :: pyval
  sb_price_side :: pyval
  sb_source_bar_id :: pyval
  sb_open_time :: pyval
  sb_close_time :: pyval
  sb_first_valid_time :: pyval
  sb_open :: decimal
  sb_high :: decimal
  sb_low :: decimal
  sb_close :: decimal
  sb_price_increment :: "decimal option"
  sb_admissibility :: pyval
  sb_quality_state :: pyval
  sb_synthetic :: bool
  sb_selector_state :: pyval
  sb_authority_state :: pyval
  sb_validation_consumption_state :: pyval
  sb_parent_source_object_ids :: "pyval list"
  sb_parent_m1_bar_ids :: "pyval list"

definition ALLOWED_RELEASES :: "string list" where
  "ALLOWED_RELEASES = [''OPT-A.GBPUSD.DISCOVERY.2021_2023.v2'', ''OPT-A.GBPUSD.DEVELOPMENT.2024.v2'', ''OPT-A.GBPUSD.VALIDATION.2025.v2'']"

definition ALLOWED_CLOCKS :: "string list" where
  "ALLOWED_CLOCKS = [''15M'', ''2H_A_L'']"

definition ALLOWED_SIDES :: "string list" where
  "ALLOWED_SIDES = [''BID'', ''ASK'']"

definition PROSPECTIVE_MODE :: string where
  "PROSPECTIVE_MODE = ''TIME_GATED_REPLAY''"

definition PROSPECTIVE_AUTHORITY :: string where
  "PROSPECTIVE_AUTHORITY = ''TIME_GATED_REPLAY_DERIVED''"

definition bar_time :: "pyval \<Rightarrow> dt result" where
  "bar_time v = (case v of VStr s \<Rightarrow> fromisoformat (str_replace ''Z'' ''+00:00'' s) | _ \<Rightarrow> Inl (Exn AttributeError []))"

text \<open>\<^verbatim>\<open>max(a, b)\<close> and \<^verbatim>\<open>min(a, b)\<close> of decimals: the first argument unless the second is strictly beyond.\<close>

definition dec_max :: "decimal \<Rightarrow> decimal \<Rightarrow> decimal result" where
  "dec_max a b = bnd (dec_lt a b) (\<lambda>lt. Inr (if lt then b else a))"

definition dec_min :: "decimal \<Rightarrow> decimal \<Rightarrow> decimal result" where
  "dec_min a b = bnd (dec_lt b a) (\<lambda>lt. Inr (if lt then b else a))"

definition dec_zero :: decimal where
  "dec_zero = DFin False 0 0"

text \<open>The three errors of a conversion become \<^verbatim>\<open>INVALID_DECIMAL\<close>.\<close>

definition price :: "pydict \<Rightarrow> string \<Rightarrow> decimal result" where
  "price payload name = bnd (ditem payload name) (\<lambda>v.
     case dec_parse (py_str v) of Some d \<Rightarrow> Inr d | None \<Rightarrow> rejected ''INVALID_DECIMAL'')"

definition increment_of :: "pydict \<Rightarrow> decimal option result" where
  "increment_of payload =
    (let v = dget payload ''price_increment'' VNone in
     if v = VNone \<or> v = VStr [] then Inr None
     else case dec_parse (py_str v) of Some d \<Rightarrow> Inr (Some d) | None \<Rightarrow> rejected ''INVALID_DECIMAL'')"

text \<open>\<^verbatim>\<open>h < max(o, c) or l > min(o, c) or h < l\<close>\<close>

definition ohlc_disordered :: "decimal \<Rightarrow> decimal \<Rightarrow> decimal \<Rightarrow> decimal \<Rightarrow> bool result" where
  "ohlc_disordered o' h l c =
    bnd (dec_max o' c) (\<lambda>top. bnd (dec_lt h top) (\<lambda>b1. if b1 then Inr True else
    bnd (dec_min o' c) (\<lambda>bottom. bnd (dec_lt bottom l) (\<lambda>b2. if b2 then Inr True else dec_lt h l))))"

definition decimal_values :: "pydict \<Rightarrow> (decimal \<times> decimal \<times> decimal \<times> decimal \<times> decimal option) result" where
  "decimal_values payload =
    bnd (price payload ''open'') (\<lambda>op.
    bnd (price payload ''high'') (\<lambda>hi.
    bnd (price payload ''low'') (\<lambda>lo.
    bnd (price payload ''close'') (\<lambda>cl.
    bnd (increment_of payload) (\<lambda>inc.
    bnd (ohlc_disordered op hi lo cl) (\<lambda>bad.
    bnd (reject_if bad ''INVALID_OHLC_ORDER'') (\<lambda>_.
    bnd (case inc of None \<Rightarrow> Inr False | Some p \<Rightarrow> bnd (dec_lt dec_zero p) (\<lambda>b. Inr (\<not> b))) (\<lambda>bad_pi.
    bnd (reject_if bad_pi ''INVALID_PRICE_INCREMENT'') (\<lambda>_.
    Inr (op, hi, lo, cl, inc))))))))))"

definition C1_REQUIRED :: "string list" where
  "C1_REQUIRED =
    [''release_id'', ''manifest_id'', ''research_role'', ''instrument_id'', ''clock_id'', ''price_side'', ''source_bar_id'',
     ''open_time'', ''close_time'', ''first_valid_time'', ''open'', ''high'', ''low'', ''close'', ''admissibility'',
     ''quality_state'', ''synthetic'', ''selector_state'', ''authority_state'', ''validation_consumption_state'',
     ''parent_source_object_ids'', ''parent_m1_bar_ids'']"

definition c1_required :: "pydict \<Rightarrow> unit result" where
  "c1_required payload =
    (let missing = filter (\<lambda>name. \<not> dhas payload name) C1_REQUIRED in
     reject_if (missing \<noteq> []) (''UPSTREAM_IDENTITY_UNRESOLVED:'' @ join '','' missing))"

definition field_time :: "pydict \<Rightarrow> string \<Rightarrow> dt result" where
  "field_time payload name = bnd (ditem payload name) bar_time"

definition c1_common :: "pydict \<Rightarrow> (decimal \<times> decimal \<times> decimal \<times> decimal \<times> decimal option) result" where
  "c1_common payload =
    bnd (ditem payload ''instrument_id'') (\<lambda>inst.
    bnd (reject_if (inst \<noteq> VStr ''GBPUSD'') ''INSTRUMENT_NOT_AUTHORISED'') (\<lambda>_.
    bnd (bnd (ditem payload ''clock_id'') (\<lambda>v. in_strs v ALLOWED_CLOCKS)) (\<lambda>clock_ok.
    bnd (reject_if (\<not> clock_ok) ''CONTROL_CLOCK_NOT_AUTHORISED'') (\<lambda>_.
    bnd (bnd (ditem payload ''price_side'') (\<lambda>v. in_strs v ALLOWED_SIDES)) (\<lambda>side_ok.
    bnd (reject_if (\<not> side_ok) ''PRICE_SIDE_NOT_AUTHORISED'') (\<lambda>_.
    bnd (ditem payload ''admissibility'') (\<lambda>adm.
    bnd (reject_if (adm \<noteq> VStr ''HANDOFF_ELIGIBLE'') ''SOURCE_BAR_INADMISSIBLE'') (\<lambda>_.
    bnd (field_time payload ''close_time'') (\<lambda>ct.
    bnd (field_time payload ''open_time'') (\<lambda>ot.
    bnd (dt_cmp (\<le>) ct ot) (\<lambda>empty.
    bnd (reject_if empty ''INVALID_INTERVAL'') (\<lambda>_.
    bnd (field_time payload ''first_valid_time'') (\<lambda>fvt.
    bnd (dt_cmp (>) fvt ct) (\<lambda>late.
    bnd (reject_if late ''FUTURE_FIRST_VALID_TIME'') (\<lambda>_.
    decimal_values payload)))))))))))))))"

text \<open>\<^verbatim>\<open>payload[name] != value\<close> raises the marker.\<close>

definition must_be :: "pydict \<Rightarrow> string \<times> string \<times> string \<Rightarrow> unit result" where
  "must_be payload = (\<lambda>(name, v, marker). bnd (ditem payload name) (\<lambda>x. reject_if (x \<noteq> VStr v) marker))"

definition must_start :: "pydict \<Rightarrow> string \<times> string \<times> string \<Rightarrow> unit result" where
  "must_start payload = (\<lambda>(name, pre, marker). bnd (ditem payload name) (\<lambda>x. reject_if (\<not> prefix pre (py_str x)) marker))"

text \<open>The bar both branches build; they differ in the last states.\<close>

definition make_bar :: "pydict \<Rightarrow> decimal \<times> decimal \<times> decimal \<times> decimal \<times> decimal option \<Rightarrow> bool \<Rightarrow> pyval \<Rightarrow> pyval \<Rightarrow> pyval \<Rightarrow> source_bar result" where
  "make_bar payload prices synth selector authority consumption =
    (case prices of (op, hi, lo, cl, inc) \<Rightarrow>
     bnd (mapM (ditem payload) [''release_id'', ''manifest_id'', ''research_role'', ''instrument_id'', ''clock_id'', ''price_side'',
       ''source_bar_id'', ''open_time'', ''close_time'', ''first_valid_time'', ''admissibility'', ''quality_state'']) (\<lambda>vs.
     bnd (bnd (ditem payload ''parent_source_object_ids'') iter_of) (\<lambda>pso.
     bnd (bnd (ditem payload ''parent_m1_bar_ids'') iter_of) (\<lambda>pm1.
     Inr \<lparr>sb_release_id = vs ! 0, sb_manifest_id = vs ! 1, sb_research_role = vs ! 2, sb_instrument_id = vs ! 3,
          sb_clock_id = vs ! 4, sb_price_side = vs ! 5, sb_source_bar_id = vs ! 6, sb_open_time = vs ! 7,
          sb_close_time = vs ! 8, sb_first_valid_time = vs ! 9, sb_open = op, sb_high = hi, sb_low = lo, sb_close = cl,
          sb_price_increment = inc, sb_admissibility = vs ! 10, sb_quality_state = vs ! 11, sb_synthetic = synth,
          sb_selector_state = selector, sb_authority_state = authority, sb_validation_consumption_state = consumption,
          sb_parent_source_object_ids = pso, sb_parent_m1_bar_ids = pm1\<rparr>))))"

definition prospective :: "pydict \<Rightarrow> source_bar result" where
  "prospective payload =
    bnd (reject_if (dget payload ''operation_mode'' VNone \<noteq> VStr PROSPECTIVE_MODE) ''PROSPECTIVE_OPERATION_MODE_REQUIRED'') (\<lambda>_.
    bnd (must_start payload (''release_id'', ''RPS.PRICESET.'', ''PROSPECTIVE_PRICE_SET_ID_REQUIRED'')) (\<lambda>_.
    bnd (must_start payload (''manifest_id'', ''RPS.SOURCE-MANIFEST.'', ''PROSPECTIVE_SOURCE_MANIFEST_ID_REQUIRED'')) (\<lambda>_.
    bnd (must_be payload (''research_role'', ''DISCOVERY'', ''PROSPECTIVE_DISCOVERY_ROLE_REQUIRED'')) (\<lambda>_.
    bnd (must_be payload (''quality_state'', ''COMPLETE'', ''PROSPECTIVE_INCOMPLETE_PARENT'')) (\<lambda>_.
    bnd (ditem payload ''synthetic'') (\<lambda>synth.
    bnd (reject_if (py_bool synth) ''PROSPECTIVE_SOURCE_CANNOT_BE_SYNTHETIC'') (\<lambda>_.
    bnd (must_be payload (''selector_state'', ''NONE'', ''PROSPECTIVE_SELECTOR_AUTHORITY_DENIED'')) (\<lambda>_.
    bnd (must_be payload (''authority_state'', PROSPECTIVE_AUTHORITY, ''PROSPECTIVE_AUTHORITY_MISMATCH'')) (\<lambda>_.
    bnd (must_be payload (''validation_consumption_state'', ''DENIED'', ''PROSPECTIVE_VALIDATION_CONSUMPTION_DENIED'')) (\<lambda>_.
    bnd (reject_if (dget payload ''release_membership'' VNone \<noteq> VBool False) ''PROSPECTIVE_RELEASE_MEMBERSHIP_DENIED'') (\<lambda>_.
    bnd (field_time payload ''first_valid_time'') (\<lambda>fvt.
    bnd (field_time payload ''close_time'') (\<lambda>ct.
    bnd (reject_if (\<not> dt_eq fvt ct) ''PROSPECTIVE_FIRST_VALID_MUST_EQUAL_CLOSE'') (\<lambda>_.
    bnd (c1_common payload) (\<lambda>prices.
    make_bar payload prices False (VStr ''NONE'') (VStr PROSPECTIVE_AUTHORITY) (VStr ''DENIED''))))))))))))))))"

definition adapt :: "pydict \<Rightarrow> source_bar result" where
  "adapt payload =
    bnd (c1_required payload) (\<lambda>_.
    if dget payload ''operation_mode'' VNone = VStr PROSPECTIVE_MODE then prospective payload
    else
      bnd (bnd (ditem payload ''release_id'') (\<lambda>v. in_strs v ALLOWED_RELEASES)) (\<lambda>release_ok.
      bnd (reject_if (\<not> release_ok) ''PROHIBITED_PARENT_RELEASE'') (\<lambda>_.
      bnd (ditem payload ''research_role'') (\<lambda>rrole.
      bnd (ditem payload ''validation_consumption_state'') (\<lambda>consumption.
      bnd (reject_if (rrole = VStr ''VALIDATION'' \<and> consumption = VStr ''LOCKED_UNCONSUMED'') ''VALIDATION_LOCKED'') (\<lambda>_.
      bnd (ditem payload ''synthetic'') (\<lambda>synth.
      bnd (ditem payload ''selector_state'') (\<lambda>selector.
      bnd (ditem payload ''authority_state'') (\<lambda>authority.
      bnd (reject_if (\<not> py_bool synth \<and> (selector \<noteq> VStr ''ACTIVE'' \<or> \<not> prefix ''ACTIVE_'' (py_str authority)))
        ''UPSTREAM_SELECTOR_NOT_ACTIVE'') (\<lambda>_.
      bnd (c1_common payload) (\<lambda>prices.
      make_bar payload prices (py_bool synth) selector authority consumption)))))))))))"

subsection \<open>Formulas\<close>

definition FORMULA_REGISTRY_ID :: string where
  "FORMULA_REGISTRY_ID = ''C1.FORMULAS.v0.1''"

definition c1_prec :: nat where
  "c1_prec = 34"

definition PRIOR_FIELDS :: "string list" where
  "PRIOR_FIELDS = [''true_range_abs'', ''true_range_ticks'', ''close_change'', ''open_gap'']"

definition ZERO_RANGE_NULL_FIELDS :: "string list" where
  "ZERO_RANGE_NULL_FIELDS = [''body_utilisation'', ''upper_wick_share'', ''lower_wick_share'', ''wick_balance'',
     ''open_location'', ''close_location'', ''signed_efficiency'']"

text \<open>\<^verbatim>\<open>s.rstrip(c)\<close> for one character.\<close>

definition rstrip_char :: "char \<Rightarrow> string \<Rightarrow> string" where
  "rstrip_char c s = rev (dropWhile (\<lambda>x. x = c) (rev s))"

definition render :: "decimal \<Rightarrow> string" where
  "render value =
    (if dec_eq value dec_zero then ''0''
     else let rendered = fmt_f value in
       if CHR ''.'' \<in> set rendered then rstrip_char (CHR ''.'') (rstrip_char (CHR ''0'') rendered) else rendered)"

definition truthy :: "decimal \<Rightarrow> bool" where
  "truthy d = py_bool (VDec d)"

text \<open>\<^verbatim>\<open>_s(x / y) if y else None\<close>\<close>

definition ratio :: "decimal \<Rightarrow> decimal \<Rightarrow> string option result" where
  "ratio x y = (if truthy y then bnd (dec_div c1_prec x y) (\<lambda>q. Inr (Some (render q))) else Inr None)"

definition calculate_wick_balance :: "decimal \<Rightarrow> decimal \<Rightarrow> decimal \<Rightarrow> decimal option result" where
  "calculate_wick_balance upper lower range_abs =
    (if dec_eq range_abs dec_zero then Inr None
     else bnd (dec_sub c1_prec upper lower) (\<lambda>d. bnd (dec_div c1_prec d range_abs) (\<lambda>q. Inr (Some q))))"

definition in_ticks :: "decimal \<Rightarrow> decimal option \<Rightarrow> string option result" where
  "in_ticks x inc = (case inc of None \<Rightarrow> Inr None | Some p \<Rightarrow> ratio x p)"

record bar_shape =
  bs_range :: decimal
  bs_body :: decimal
  bs_upper :: decimal
  bs_lower :: decimal

definition shape_of :: "source_bar \<Rightarrow> bar_shape result" where
  "shape_of bar =
    bnd (dec_sub c1_prec (sb_high bar) (sb_low bar)) (\<lambda>r.
    bnd (dec_sub c1_prec (sb_close bar) (sb_open bar)) (\<lambda>body.
    bnd (bnd (dec_max (sb_open bar) (sb_close bar)) (dec_sub c1_prec (sb_high bar))) (\<lambda>upper.
    bnd (bnd (dec_min (sb_open bar) (sb_close bar)) (\<lambda>m. dec_sub c1_prec m (sb_low bar))) (\<lambda>lower.
    Inr \<lparr>bs_range = r, bs_body = body, bs_upper = upper, bs_lower = lower\<rparr>))))"

type_synonym measurements = "(string \<times> string option) list"

text \<open>The measurements of the bar alone, in the order of the code.\<close>

definition own_values :: "source_bar \<Rightarrow> bar_shape \<Rightarrow> measurements result" where
  "own_values bar sh =
    (let r = bs_range sh; body = bs_body sh; upper = bs_upper sh; lower = bs_lower sh in
     bnd (in_ticks r (sb_price_increment bar)) (\<lambda>ticks.
     bnd (ratio (dec_abs c1_prec body) r) (\<lambda>utilisation.
     bnd (ratio upper r) (\<lambda>upper_share.
     bnd (ratio lower r) (\<lambda>lower_share.
     bnd (calculate_wick_balance upper lower r) (\<lambda>balance.
     bnd (if truthy r then bnd (dec_sub c1_prec (sb_open bar) (sb_low bar)) (\<lambda>d. ratio d r) else Inr None) (\<lambda>open_location.
     bnd (if truthy r then bnd (dec_sub c1_prec (sb_close bar) (sb_low bar)) (\<lambda>d. ratio d r) else Inr None) (\<lambda>close_location.
     bnd (ratio body r) (\<lambda>efficiency.
     Inr [(''range_abs'', Some (render r)), (''range_ticks'', ticks), (''body_signed'', Some (render body)),
          (''body_abs'', Some (render (dec_abs c1_prec body))), (''body_utilisation'', utilisation),
          (''upper_wick_abs'', Some (render upper)), (''lower_wick_abs'', Some (render lower)),
          (''upper_wick_share'', upper_share), (''lower_wick_share'', lower_share),
          (''wick_balance'', map_option render balance), (''open_location'', open_location),
          (''close_location'', close_location), (''signed_efficiency'', efficiency), (''true_range_abs'', None),
          (''true_range_ticks'', None), (''close_change'', None), (''open_gap'', None)])))))))))"

text \<open>The measurements against the close of the prior bar.\<close>

definition prior_values :: "source_bar \<Rightarrow> bar_shape \<Rightarrow> source_bar \<Rightarrow> measurements result" where
  "prior_values bar sh prior_bar =
    (let pc = sb_close prior_bar in
     bnd (dec_sub c1_prec (sb_high bar) pc) (\<lambda>hd'.
     bnd (dec_sub c1_prec (sb_low bar) pc) (\<lambda>ld.
     bnd (bnd (dec_max (bs_range sh) (dec_abs c1_prec hd')) (\<lambda>m. dec_max m (dec_abs c1_prec ld))) (\<lambda>tr.
     bnd (in_ticks tr (sb_price_increment bar)) (\<lambda>ticks.
     bnd (dec_sub c1_prec (sb_close bar) pc) (\<lambda>change.
     bnd (dec_sub c1_prec (sb_open bar) pc) (\<lambda>gap.
     Inr [(''true_range_abs'', Some (render tr)), (''true_range_ticks'', ticks), (''close_change'', Some (render change)),
          (''open_gap'', Some (render gap))])))))))"

definition null_reasons_of :: "source_bar \<Rightarrow> bar_shape \<Rightarrow> source_bar option \<Rightarrow> string option \<Rightarrow> (string \<times> string) list" where
  "null_reasons_of bar sh prior_bar prior_reason =
    (if sb_price_increment bar = None then [(''range_ticks'', ''PRICE_INCREMENT_UNAVAILABLE'')] else []) @
    (if truthy (bs_range sh) then [] else map (\<lambda>f. (f, ''ZERO_RANGE'')) ZERO_RANGE_NULL_FIELDS) @
    (case prior_bar of
       None \<Rightarrow> map (\<lambda>f. (f, case prior_reason of Some s \<Rightarrow> if s = [] then ''NO_PRIOR_BAR'' else s | None \<Rightarrow> ''NO_PRIOR_BAR'')) PRIOR_FIELDS
     | Some p \<Rightarrow> if sb_price_increment bar = None then [(''true_range_ticks'', ''PRICE_INCREMENT_UNAVAILABLE'')] else [])"

definition direction_of :: "decimal \<Rightarrow> string result" where
  "direction_of body =
    bnd (dec_lt dec_zero body) (\<lambda>up. if up then Inr ''UP'' else
    bnd (dec_lt body dec_zero) (\<lambda>down. Inr (if down then ''DOWN'' else ''FLAT'')))"

definition calculate :: "source_bar \<Rightarrow> source_bar option \<Rightarrow> string option \<Rightarrow>
    (measurements \<times> (string \<times> string) list \<times> (string \<times> string) list) result" where
  "calculate current prior_bar prior_reason =
    bnd (shape_of current) (\<lambda>sh.
    bnd (own_values current sh) (\<lambda>own.
    bnd (case prior_bar of None \<Rightarrow> Inr [] | Some p \<Rightarrow> prior_values current sh p) (\<lambda>against.
    bnd (direction_of (bs_body sh)) (\<lambda>direction.
    Inr (fold (\<lambda>(k, v) m. AList.update k v m) against own, [(''direction'', direction)],
         null_reasons_of current sh prior_bar prior_reason)))))"

subsection \<open>Building, checking and printing a result\<close>

definition PRIOR_IDENTITY :: "(source_bar \<Rightarrow> pyval) list" where
  "PRIOR_IDENTITY = [sb_release_id, sb_manifest_id, sb_instrument_id, sb_clock_id, sb_price_side]"

text \<open>The prior bar, if it is lawful, or the reason why there is none.\<close>

definition resolve_prior :: "source_bar \<Rightarrow> source_bar option \<Rightarrow> (source_bar option \<times> string option) result" where
  "resolve_prior current prior_bar =
    (case prior_bar of
       None \<Rightarrow> Inr (None, Some ''NO_PRIOR_BAR'')
     | Some p \<Rightarrow>
         if list_ex (\<lambda>f. \<not> py_eq (f current) (f p)) PRIOR_IDENTITY then Inr (None, Some ''PRIOR_IDENTITY_MISMATCH'')
         else if sb_admissibility p \<noteq> VStr ''HANDOFF_ELIGIBLE'' then Inr (None, Some ''NO_CONTIGUOUS_PRIOR_BAR'')
         else
           bnd (bar_time (sb_close_time p)) (\<lambda>pc. bnd (bar_time (sb_open_time current)) (\<lambda>co.
           if \<not> dt_eq pc co then Inr (None, Some ''NO_CONTIGUOUS_PRIOR_BAR'')
           else
             bnd (bar_time (sb_first_valid_time p)) (\<lambda>pf. bnd (bar_time (sb_close_time current)) (\<lambda>cc.
             bnd (dt_cmp (>) pf cc) (\<lambda>late.
             Inr (if late then (None, Some ''PRIOR_NOT_FIRST_VALID'') else (Some p, None))))))))"

record c1_result =
  c1_record_id :: string
  c1_source_bar_id :: pyval
  c1_release_id :: pyval
  c1_manifest_id :: pyval
  c1_research_role :: pyval
  c1_instrument_id :: pyval
  c1_clock_id :: pyval
  c1_price_side :: pyval
  c1_open_time :: pyval
  c1_close_time :: pyval
  c1_first_valid_time :: pyval
  c1_formula_registry_id :: string
  c1_measurements :: measurements
  c1_categorical :: "(string \<times> string) list"
  c1_null_reasons :: "(string \<times> string) list"
  c1_source_quality_state :: pyval
  c1_synthetic :: bool
  c1_authority_state :: string

definition canonical_hash :: "pyval \<Rightarrow> string result" where
  "canonical_hash payload = bnd (json_gen '','' '':'' True False payload) (\<lambda>b. Inr (sha256 b))"

definition c1_id :: "pyval \<Rightarrow> string result" where
  "c1_id payload = bnd (canonical_hash payload) (\<lambda>h. Inr (''c1:'' @ h))"

definition opt_val :: "string option \<Rightarrow> pyval" where
  "opt_val x = (case x of None \<Rightarrow> VNone | Some s \<Rightarrow> VStr s)"

definition measurements_val :: "measurements \<Rightarrow> pyval" where
  "measurements_val ms = VDict (map (\<lambda>(k, v). (k, opt_val v)) ms)"

definition strs_dict :: "(string \<times> string) list \<Rightarrow> pyval" where
  "strs_dict kvs = VDict (map (\<lambda>(k, v). (k, VStr v)) kvs)"

definition c1_build :: "pydict \<Rightarrow> pydict option \<Rightarrow> c1_result result" where
  "c1_build current_payload prior_payload =
    bnd (adapt current_payload) (\<lambda>current.
    bnd (case prior_payload of None \<Rightarrow> Inr None | Some p \<Rightarrow> bnd (adapt p) (\<lambda>b. Inr (Some b))) (\<lambda>prior_bar.
    bnd (resolve_prior current prior_bar) (\<lambda>(lawful_prior, reason).
    bnd (calculate current lawful_prior reason) (\<lambda>(ms, categorical, nulls).
    bnd (c1_id (VDict
      [(''source_bar_id'', sb_source_bar_id current), (''release_id'', sb_release_id current),
       (''manifest_id'', sb_manifest_id current), (''clock_id'', sb_clock_id current), (''price_side'', sb_price_side current),
       (''formula_registry_id'', VStr FORMULA_REGISTRY_ID), (''measurements'', measurements_val ms),
       (''categorical'', strs_dict categorical), (''null_reasons'', strs_dict nulls)])) (\<lambda>rid.
    Inr \<lparr>c1_record_id = rid, c1_source_bar_id = sb_source_bar_id current, c1_release_id = sb_release_id current,
         c1_manifest_id = sb_manifest_id current, c1_research_role = sb_research_role current,
         c1_instrument_id = sb_instrument_id current, c1_clock_id = sb_clock_id current, c1_price_side = sb_price_side current,
         c1_open_time = sb_open_time current, c1_close_time = sb_close_time current,
         c1_first_valid_time = sb_first_valid_time current, c1_formula_registry_id = FORMULA_REGISTRY_ID,
         c1_measurements = ms, c1_categorical = categorical, c1_null_reasons = nulls,
         c1_source_quality_state = sb_quality_state current, c1_synthetic = sb_synthetic current,
         c1_authority_state = ''NONE''\<rparr>)))))"

text \<open>The fields of a result, and its \<^verbatim>\<open>repr\<close>.\<close>

definition c1_fields :: "c1_result \<Rightarrow> pydict" where
  "c1_fields r =
    [(''record_id'', VStr (c1_record_id r)), (''source_bar_id'', c1_source_bar_id r), (''release_id'', c1_release_id r),
     (''manifest_id'', c1_manifest_id r), (''research_role'', c1_research_role r), (''instrument_id'', c1_instrument_id r),
     (''clock_id'', c1_clock_id r), (''price_side'', c1_price_side r), (''open_time'', c1_open_time r),
     (''close_time'', c1_close_time r), (''first_valid_time'', c1_first_valid_time r),
     (''formula_registry_id'', VStr (c1_formula_registry_id r)), (''measurements'', measurements_val (c1_measurements r)),
     (''categorical'', strs_dict (c1_categorical r)), (''null_reasons'', strs_dict (c1_null_reasons r)),
     (''source_quality_state'', c1_source_quality_state r), (''synthetic'', VBool (c1_synthetic r)),
     (''authority_state'', VStr (c1_authority_state r))]"

definition c1_repr :: "c1_result \<Rightarrow> string" where
  "c1_repr r = ''C1Result('' @ join '', '' (map (\<lambda>(k, v). k @ ''='' @ py_repr v) (c1_fields r)) @ '')''"

definition ALLOWED_NULL_REASONS :: "string list" where
  "ALLOWED_NULL_REASONS = [''ZERO_RANGE'', ''NO_PRIOR_BAR'', ''NO_CONTIGUOUS_PRIOR_BAR'', ''PRIOR_IDENTITY_MISMATCH'',
     ''PRIOR_NOT_FIRST_VALID'', ''PRICE_INCREMENT_UNAVAILABLE'']"

definition FORBIDDEN_WORDS :: "string list" where
  "FORBIDDEN_WORDS = [''threshold'', ''semantic'', ''outcome'', ''probability'', ''trade'']"

definition c1_validate :: "c1_result \<Rightarrow> unit result" where
  "c1_validate r =
    (let ensure = req ValueError in
     bnd (ensure (prefix ''c1:'' (c1_record_id r) \<and> length (c1_record_id r) = 67) ''INVALID_RECORD_ID'') (\<lambda>_.
     bnd (ensure (c1_formula_registry_id r = ''C1.FORMULAS.v0.1'') ''FORMULA_REGISTRY_MISMATCH'') (\<lambda>_.
     bnd (in_strs (c1_clock_id r) [''15M'', ''2H_A_L'']) (\<lambda>clock_ok.
     bnd (ensure clock_ok ''CLOCK_NOT_AUTHORISED'') (\<lambda>_.
     bnd (in_strs (c1_price_side r) [''BID'', ''ASK'']) (\<lambda>side_ok.
     bnd (ensure side_ok ''SIDE_NOT_AUTHORISED'') (\<lambda>_.
     bnd (ensure (list_all (\<lambda>p. snd p \<in> set ALLOWED_NULL_REASONS) (c1_null_reasons r)) ''UNKNOWN_NULL_REASON'') (\<lambda>_.
     bnd (mapM (\<lambda>(field, v). ensure ((v = None) = (map_of (c1_null_reasons r) field \<noteq> None)) (''NULL_REASON_MISMATCH:'' @ field))
       (c1_measurements r)) (\<lambda>_.
     bnd (ensure (map_of (c1_categorical r) ''direction'' \<in> {Some ''UP'', Some ''DOWN'', Some ''FLAT''}) ''INVALID_DIRECTION'') (\<lambda>_.
     ensure (\<not> list_ex (\<lambda>w. sublist w (py_lower (c1_repr r))) FORBIDDEN_WORDS) ''FORBIDDEN_SEMANTIC_FIELD''))))))))))"

definition c1_to_dict :: "c1_result \<Rightarrow> pydict" where
  "c1_to_dict r = c1_fields r @
    [(''schema'', VStr ''ovc-opt-b-c1-bar-primitives/v1''), (''record_version'', VStr ''0.1''),
     (''lifecycle_state'', VStr (if c1_synthetic r then ''FIXTURE_VERIFIED'' else ''IMPLEMENTED'')), (''qa_state'', VStr ''PASS'')]"

definition c1_dumps :: "c1_result \<Rightarrow> string result" where
  "c1_dumps r = bnd (json_gen '','' '':'' True False (VDict (c1_to_dict r))) (\<lambda>s. Inr (s @ [CHR 0x0A]))"

subsection \<open>What an admitted bar satisfies\<close>

lemma rejected_simps [simp]: "rejected m \<noteq> Inr x"
  by (simp add: rejected_def)

lemma reject_if_Inr [result_simps]: "reject_if b m = Inr u \<longleftrightarrow> \<not> b"
  by (simp add: reject_if_def req_eq_Inr)

lemma dec_lt_Inr: "dec_lt x y = Inr b \<longleftrightarrow> x \<noteq> DNaN \<and> y \<noteq> DNaN \<and> b = dec_cmp_lt x y"
  by (auto simp: dec_lt_def)

lemma c1_common_Inr:
  assumes "c1_common payload = Inr prices"
  obtains ct ot fvt clock side where "field_time payload ''close_time'' = Inr ct" "field_time payload ''open_time'' = Inr ot"
    "field_time payload ''first_valid_time'' = Inr fvt" "dt_cmp (\<le>) ct ot = Inr False" "dt_cmp (>) fvt ct = Inr False"
    "ditem payload ''clock_id'' = Inr (VStr clock)" "clock \<in> set ALLOWED_CLOCKS"
    "ditem payload ''price_side'' = Inr (VStr side)" "side \<in> set ALLOWED_SIDES"
    "ditem payload ''admissibility'' = Inr (VStr ''HANDOFF_ELIGIBLE'')" "decimal_values payload = Inr prices"
  using assms unfolding c1_common_def
proof (elim bndE, goal_cases)
  case (1 inst u1 clock_ok cv u2 side_ok sv u3 adm u4 ct ot emp u5 fvt late u6)
  then obtain clock side where "cv = VStr clock" "clock \<in> set ALLOWED_CLOCKS" "sv = VStr side" "side \<in> set ALLOWED_SIDES"
    by (auto simp: reject_if_Inr in_strs_True)
  with 1 show ?case by (intro 1(1) [of ct ot fvt clock side]) (simp_all add: reject_if_Inr)
qed

text \<open>The order of decimals without NaN, infinities included.\<close>

definition dec_rank :: "decimal \<Rightarrow> int \<times> rat" where
  "dec_rank d = (case d of DInf s \<Rightarrow> (if s then - 1 else 1, 0) | DNaN \<Rightarrow> (2, 0) | DFin s c e \<Rightarrow> (0, dec_val d))"

lemma dec_cmp_lt_rank: "x \<noteq> DNaN \<Longrightarrow> y \<noteq> DNaN \<Longrightarrow> dec_cmp_lt x y \<longleftrightarrow> dec_rank x < dec_rank y"
proof (cases x; cases y)
  fix s c e t d f assume xy: "x = DFin s c e" "y = DFin t d f"
  have "dec_cmp_lt x y \<longleftrightarrow> dec_val x < dec_val y" unfolding xy by (rule dec_cmp_lt_val) simp_all
  then show "dec_cmp_lt x y \<longleftrightarrow> dec_rank x < dec_rank y" by (simp add: dec_rank_def xy del: dec_cmp_lt.simps dec_val.simps)
qed (auto simp: dec_rank_def)

lemma ohlc_ordered:
  assumes "ohlc_disordered op hi lo cl = Inr False"
  shows "op \<noteq> DNaN \<and> hi \<noteq> DNaN \<and> lo \<noteq> DNaN \<and> cl \<noteq> DNaN \<and> dec_rank op \<le> dec_rank hi \<and> dec_rank cl \<le> dec_rank hi \<and>
    dec_rank lo \<le> dec_rank op \<and> dec_rank lo \<le> dec_rank cl"
proof -
  from assms obtain top bottom where m: "dec_max op cl = Inr top" "dec_lt hi top = Inr False" "dec_min op cl = Inr bottom"
    "dec_lt bottom lo = Inr False" "dec_lt hi lo = Inr False"
    unfolding ohlc_disordered_def by (auto simp: bnd_eq_Inr split: if_splits)
  have nan: "op \<noteq> DNaN" "cl \<noteq> DNaN" "hi \<noteq> DNaN" "lo \<noteq> DNaN"
    using m by (auto simp: dec_max_def bnd_eq_Inr dec_lt_Inr)
  have top: "dec_rank op \<le> dec_rank top" "dec_rank cl \<le> dec_rank top" "top \<noteq> DNaN"
    and bottom: "dec_rank bottom \<le> dec_rank op" "dec_rank bottom \<le> dec_rank cl" "bottom \<noteq> DNaN"
    using m(1,3) nan by (auto simp: dec_max_def dec_min_def bnd_eq_Inr dec_lt_Inr dec_cmp_lt_rank split: if_splits)
  have "dec_rank top \<le> dec_rank hi" "dec_rank lo \<le> dec_rank bottom"
    using m(2,4) nan top(3) bottom(3) by (auto simp: dec_lt_Inr dec_cmp_lt_rank)
  then show ?thesis using nan top bottom by (meson order_trans)
qed

definition prices_ordered :: "source_bar \<Rightarrow> bool" where
  "prices_ordered bar \<longleftrightarrow>
    sb_open bar \<noteq> DNaN \<and> sb_high bar \<noteq> DNaN \<and> sb_low bar \<noteq> DNaN \<and> sb_close bar \<noteq> DNaN \<and>
    dec_rank (sb_open bar) \<le> dec_rank (sb_high bar) \<and> dec_rank (sb_close bar) \<le> dec_rank (sb_high bar) \<and>
    dec_rank (sb_low bar) \<le> dec_rank (sb_open bar) \<and> dec_rank (sb_low bar) \<le> dec_rank (sb_close bar) \<and>
    (case sb_price_increment bar of None \<Rightarrow> True | Some inc \<Rightarrow> inc \<noteq> DNaN \<and> dec_rank dec_zero < dec_rank inc)"

lemma decimal_values_ok:
  assumes "decimal_values payload = Inr (op, hi, lo, cl, inc)"
  shows "ohlc_disordered op hi lo cl = Inr False"
    and "case inc of None \<Rightarrow> True | Some p \<Rightarrow> p \<noteq> DNaN \<and> dec_rank dec_zero < dec_rank p"
proof -
  from assms obtain bad bad_pi where b: "ohlc_disordered op hi lo cl = Inr bad" "reject_if bad ''INVALID_OHLC_ORDER'' = Inr ()"
    "(case inc of None \<Rightarrow> Inr False | Some p \<Rightarrow> bnd (dec_lt dec_zero p) (\<lambda>b. Inr (\<not> b))) = Inr bad_pi" "\<not> bad_pi"
    unfolding decimal_values_def bnd_eq_Inr reject_if_Inr sum.inject prod.inject by blast
  then show "ohlc_disordered op hi lo cl = Inr False" by (simp add: reject_if_Inr)
  show "case inc of None \<Rightarrow> True | Some p \<Rightarrow> p \<noteq> DNaN \<and> dec_rank dec_zero < dec_rank p"
    using b(3,4) by (auto simp: bnd_eq_Inr dec_lt_Inr dec_cmp_lt_rank dec_zero_def split: option.splits)
qed

lemma mapM_nth: "mapM f xs = Inr ys \<Longrightarrow> i < length xs \<Longrightarrow> f (xs ! i) = Inr (ys ! i)"
  by (simp add: mapM_Inr_iff list_all2_conv_all_nth)

lemma make_bar_Inr:
  assumes "make_bar payload (op, hi, lo, cl, inc) synth selector authority consumption = Inr bar"
  shows "ditem payload ''release_id'' = Inr (sb_release_id bar)" "ditem payload ''research_role'' = Inr (sb_research_role bar)"
    "ditem payload ''clock_id'' = Inr (sb_clock_id bar)" "ditem payload ''price_side'' = Inr (sb_price_side bar)"
    "ditem payload ''open_time'' = Inr (sb_open_time bar)" "ditem payload ''close_time'' = Inr (sb_close_time bar)"
    "ditem payload ''first_valid_time'' = Inr (sb_first_valid_time bar)"
    "ditem payload ''admissibility'' = Inr (sb_admissibility bar)"
    "sb_open bar = op" "sb_high bar = hi" "sb_low bar = lo" "sb_close bar = cl" "sb_price_increment bar = inc"
    "sb_synthetic bar = synth" "sb_selector_state bar = selector" "sb_authority_state bar = authority"
    "sb_validation_consumption_state bar = consumption"
proof -
  obtain vs pso pm where v: "mapM (ditem payload) [''release_id'', ''manifest_id'', ''research_role'', ''instrument_id'', ''clock_id'',
      ''price_side'', ''source_bar_id'', ''open_time'', ''close_time'', ''first_valid_time'', ''admissibility'', ''quality_state''] = Inr vs"
    and bar: "bar = \<lparr>sb_release_id = vs ! 0, sb_manifest_id = vs ! 1, sb_research_role = vs ! 2, sb_instrument_id = vs ! 3,
          sb_clock_id = vs ! 4, sb_price_side = vs ! 5, sb_source_bar_id = vs ! 6, sb_open_time = vs ! 7,
          sb_close_time = vs ! 8, sb_first_valid_time = vs ! 9, sb_open = op, sb_high = hi, sb_low = lo, sb_close = cl,
          sb_price_increment = inc, sb_admissibility = vs ! 10, sb_quality_state = vs ! 11, sb_synthetic = synth,
          sb_selector_state = selector, sb_authority_state = authority, sb_validation_consumption_state = consumption,
          sb_parent_source_object_ids = pso, sb_parent_m1_bar_ids = pm\<rparr>"
    using assms unfolding make_bar_def prod.case by (elim bndE) (simp only: sum.inject, blast)
  note n = mapM_nth [OF v]
  show "ditem payload ''release_id'' = Inr (sb_release_id bar)" "ditem payload ''research_role'' = Inr (sb_research_role bar)"
    "ditem payload ''clock_id'' = Inr (sb_clock_id bar)" "ditem payload ''price_side'' = Inr (sb_price_side bar)"
    "ditem payload ''open_time'' = Inr (sb_open_time bar)" "ditem payload ''close_time'' = Inr (sb_close_time bar)"
    "ditem payload ''first_valid_time'' = Inr (sb_first_valid_time bar)"
    "ditem payload ''admissibility'' = Inr (sb_admissibility bar)"
    using n [of 0] n [of 2] n [of 4] n [of 5] n [of 7] n [of 8] n [of 9] n [of 10] by (simp_all add: bar)
  show "sb_open bar = op" "sb_high bar = hi" "sb_low bar = lo" "sb_close bar = cl" "sb_price_increment bar = inc"
    "sb_synthetic bar = synth" "sb_selector_state bar = selector" "sb_authority_state bar = authority"
    "sb_validation_consumption_state bar = consumption" by (simp_all add: bar)
qed

text \<open>What both branches of \<^verbatim>\<open>adapt\<close> guarantee of the bar they build.\<close>

definition bar_sound :: "source_bar \<Rightarrow> bool" where
  "bar_sound bar \<longleftrightarrow> prices_ordered bar \<and> sb_admissibility bar = VStr ''HANDOFF_ELIGIBLE'' \<and>
    (\<exists>clock \<in> set ALLOWED_CLOCKS. sb_clock_id bar = VStr clock) \<and> (\<exists>side \<in> set ALLOWED_SIDES. sb_price_side bar = VStr side) \<and>
    (\<exists>ot ct fvt. bar_time (sb_open_time bar) = Inr ot \<and> bar_time (sb_close_time bar) = Inr ct \<and>
       bar_time (sb_first_valid_time bar) = Inr fvt \<and> instant ot < instant ct \<and> instant fvt \<le> instant ct \<and>
       (offset ot = None) = (offset ct = None) \<and> (offset fvt = None) = (offset ct = None))"

lemma bar_sound_of:
  assumes "c1_common payload = Inr prices" and "make_bar payload prices synth selector authority consumption = Inr bar"
  shows "bar_sound bar"
proof -
  obtain op hi lo cl inc where p: "prices = (op, hi, lo, cl, inc)" by (cases prices)
  note f = make_bar_Inr [OF assms(2) [unfolded p]]
  obtain ct ot fvt clock side where c: "field_time payload ''close_time'' = Inr ct" "field_time payload ''open_time'' = Inr ot"
    "field_time payload ''first_valid_time'' = Inr fvt" "dt_cmp (\<le>) ct ot = Inr False" "dt_cmp (>) fvt ct = Inr False"
    "ditem payload ''clock_id'' = Inr (VStr clock)" "clock \<in> set ALLOWED_CLOCKS"
    "ditem payload ''price_side'' = Inr (VStr side)" "side \<in> set ALLOWED_SIDES"
    "ditem payload ''admissibility'' = Inr (VStr ''HANDOFF_ELIGIBLE'')" "decimal_values payload = Inr prices"
    using c1_common_Inr [OF assms(1)] .
  have "prices_ordered bar" unfolding prices_ordered_def f(9-13)
    using ohlc_ordered [OF decimal_values_ok(1)] decimal_values_ok(2) c(11) p by blast
  moreover have "bar_time (sb_open_time bar) = Inr ot" "bar_time (sb_close_time bar) = Inr ct" "bar_time (sb_first_valid_time bar) = Inr fvt"
    using c(1-3) f(5-7) by (simp_all add: field_time_def)
  moreover have "instant ot < instant ct" "instant fvt \<le> instant ct"
    "(offset ot = None) = (offset ct = None)" "(offset fvt = None) = (offset ct = None)" using c(4,5) by (auto simp: dt_cmp_def split: if_splits)
  moreover have "sb_clock_id bar = VStr clock" "sb_price_side bar = VStr side" "sb_admissibility bar = VStr ''HANDOFF_ELIGIBLE''"
    using c(6,8,10) f(3,4,8) by simp_all
  ultimately show ?thesis unfolding bar_sound_def using c(7,9) by simp
qed

lemma must_be_Inr: "must_be payload (name, v, m) = Inr u \<longleftrightarrow> ditem payload name = Inr (VStr v)"
  by (auto simp: must_be_def bnd_eq_Inr reject_if_Inr)

lemma must_start_Inr: "must_start payload (name, v, m) = Inr u \<longleftrightarrow> (\<exists>x. ditem payload name = Inr x \<and> prefix v (py_str x))"
  by (auto simp: must_start_def bnd_eq_Inr reject_if_Inr)

definition released :: "source_bar \<Rightarrow> bool" where
  "released bar \<longleftrightarrow> (\<exists>r \<in> set ALLOWED_RELEASES. sb_release_id bar = VStr r) \<and>
    (sb_synthetic bar \<or> sb_selector_state bar = VStr ''ACTIVE'' \<and> prefix ''ACTIVE_'' (py_str (sb_authority_state bar))) \<and>
    (sb_research_role bar, sb_validation_consumption_state bar) \<noteq> (VStr ''VALIDATION'', VStr ''LOCKED_UNCONSUMED'')"

definition replayed :: "source_bar \<Rightarrow> bool" where
  "replayed bar \<longleftrightarrow> \<not> sb_synthetic bar \<and> sb_research_role bar = VStr ''DISCOVERY'' \<and> sb_selector_state bar = VStr ''NONE'' \<and>
    sb_authority_state bar = VStr PROSPECTIVE_AUTHORITY \<and> sb_validation_consumption_state bar = VStr ''DENIED'' \<and>
    prefix ''RPS.PRICESET.'' (py_str (sb_release_id bar)) \<and>
    (\<exists>fvt ct. bar_time (sb_first_valid_time bar) = Inr fvt \<and> bar_time (sb_close_time bar) = Inr ct \<and> dt_eq fvt ct)"

lemma prospective_ok:
  assumes "prospective payload = Inr bar"
  shows "bar_sound bar \<and> replayed bar"
proof -
  obtain x fvt ct prices where q: "ditem payload ''release_id'' = Inr x" "prefix ''RPS.PRICESET.'' (py_str x)"
      "ditem payload ''research_role'' = Inr (VStr ''DISCOVERY'')"
      "field_time payload ''first_valid_time'' = Inr fvt" "field_time payload ''close_time'' = Inr ct" "dt_eq fvt ct"
      "c1_common payload = Inr prices"
      "make_bar payload prices False (VStr ''NONE'') (VStr PROSPECTIVE_AUTHORITY) (VStr ''DENIED'') = Inr bar"
    using assms unfolding prospective_def
  proof (elim bndE, goal_cases)
    case (1 u0 u1 u2 u3 u4 synth u5 u6 u7 u8 u9 fvt ct u10 prices)
    then obtain x where "ditem payload ''release_id'' = Inr x" "prefix ''RPS.PRICESET.'' (py_str x)" by (auto simp: must_start_Inr)
    with 1 show ?case by (intro 1(1) [of x fvt ct prices]) (simp_all add: reject_if_Inr must_be_Inr)
  qed
  obtain op hi lo cl inc where p: "prices = (op, hi, lo, cl, inc)" by (cases prices)
  note f = make_bar_Inr [OF q(8) [unfolded p]]
  have t: "bar_time (sb_first_valid_time bar) = Inr fvt" "bar_time (sb_close_time bar) = Inr ct"
    using q(4,5) f(6,7) by (simp_all add: field_time_def)
  have "replayed bar" unfolding replayed_def using t q(1-3,6) f by auto
  then show ?thesis using bar_sound_of [OF q(7,8)] by blast
qed

lemma c1_admitted:
  assumes "adapt payload = Inr bar"
  shows "bar_sound bar \<and> (released bar \<or> replayed bar)"
proof (cases "dget payload ''operation_mode'' VNone = VStr PROSPECTIVE_MODE")
  case True
  then have "prospective payload = Inr bar" using assms by (auto simp: adapt_def bnd_eq_Inr)
  then show ?thesis using prospective_ok by blast
next
  case False
  obtain rv rrole consumption synth selector authority prices where q: "ditem payload ''release_id'' = Inr rv"
      "in_strs rv ALLOWED_RELEASES = Inr True" "ditem payload ''research_role'' = Inr rrole"
      "\<not> (rrole = VStr ''VALIDATION'' \<and> consumption = VStr ''LOCKED_UNCONSUMED'')"
      "\<not> (\<not> py_bool synth \<and> (selector \<noteq> VStr ''ACTIVE'' \<or> \<not> prefix ''ACTIVE_'' (py_str authority)))"
      "c1_common payload = Inr prices" "make_bar payload prices (py_bool synth) selector authority consumption = Inr bar"
    using assms unfolding adapt_def if_not_P [OF False]
  proof (elim bndE, goal_cases)
    case (1 u release_ok rv u1 rrole consumption u2 synth selector authority u3 prices)
    then show ?case by (intro 1(1) [of rv rrole consumption synth selector authority prices]) (simp_all add: reject_if_Inr)
  qed
  obtain op hi lo cl inc where p: "prices = (op, hi, lo, cl, inc)" by (cases prices)
  note f = make_bar_Inr [OF q(7) [unfolded p]]
  have "released bar" unfolding released_def using q(1-5) f by (auto simp: in_strs_True)
  then show ?thesis using bar_sound_of [OF q(6,7)] by blast
qed

text \<open>C9: only admissible bars are measured. An admitted bar has a positive duration, was valid no later
  than its close (all its times naive or all with an offset), trades on an authorised clock and side, and its open and close lie between its low and
  its high; it comes either from an allowed release, with an active selector unless it is synthetic
  and never from locked validation data, or from the prospective replay under its own authority, never
  synthetic and valid exactly at its close.\<close>

theorem c1_admission:
  assumes "adapt payload = Inr bar"
  shows "bar_sound bar \<and> (released bar \<or> replayed bar)"
  using c1_admitted [OF assms] .

subsection \<open>Every built result is valid\<close>

lemma truthy_iff: "truthy d = (\<not> dec_eq d dec_zero)"
  by (cases d) (auto simp: truthy_def dec_zero_def Let_def)

lemma ratio_None: "ratio x y = Inr v \<Longrightarrow> v = None \<longleftrightarrow> \<not> truthy y"
  by (auto simp: ratio_def bnd_eq_Inr split: if_splits)

lemma positive_truthy: "p \<noteq> DNaN \<Longrightarrow> dec_rank dec_zero < dec_rank p \<Longrightarrow> truthy p"
  by (rule ccontr) (cases p; auto simp: dec_rank_def dec_zero_def truthy_def split: if_splits)

lemma in_ticks_None:
  assumes "in_ticks x inc = Inr v" and "case inc of None \<Rightarrow> True | Some p \<Rightarrow> p \<noteq> DNaN \<and> dec_rank dec_zero < dec_rank p"
  shows "v = None \<longleftrightarrow> inc = None"
  using assms ratio_None positive_truthy by (cases inc) (auto simp: in_ticks_def)

lemma balance_None: "calculate_wick_balance u l r = Inr v \<Longrightarrow> v = None \<longleftrightarrow> \<not> truthy r"
  by (auto simp: calculate_wick_balance_def truthy_iff bnd_eq_Inr split: if_splits)

lemma location_None:
  "(if truthy r then bnd m (\<lambda>d. ratio d r) else Inr None) = Inr v \<Longrightarrow> v = None \<longleftrightarrow> \<not> truthy r"
  by (auto simp: bnd_eq_Inr dest: ratio_None split: if_splits)

lemma own_values_shape:
  assumes "own_values bar sh = Inr own" and "prices_ordered bar"
  obtains rt bu us ls wb ol cl' se where "own =
     [(''range_abs'', Some (render (bs_range sh))), (''range_ticks'', rt), (''body_signed'', Some (render (bs_body sh))),
      (''body_abs'', Some (render (dec_abs c1_prec (bs_body sh)))), (''body_utilisation'', bu),
      (''upper_wick_abs'', Some (render (bs_upper sh))), (''lower_wick_abs'', Some (render (bs_lower sh))),
      (''upper_wick_share'', us), (''lower_wick_share'', ls), (''wick_balance'', wb), (''open_location'', ol),
      (''close_location'', cl'), (''signed_efficiency'', se), (''true_range_abs'', None),
      (''true_range_ticks'', None), (''close_change'', None), (''open_gap'', None)]"
    "rt = None \<longleftrightarrow> sb_price_increment bar = None"
    "\<forall>v \<in> {bu, us, ls, wb, ol, cl', se}. v = None \<longleftrightarrow> \<not> truthy (bs_range sh)"
proof -
  obtain rt bu us ls b ol cl' se where q: "in_ticks (bs_range sh) (sb_price_increment bar) = Inr rt"
      "ratio (dec_abs c1_prec (bs_body sh)) (bs_range sh) = Inr bu" "ratio (bs_upper sh) (bs_range sh) = Inr us"
      "ratio (bs_lower sh) (bs_range sh) = Inr ls" "calculate_wick_balance (bs_upper sh) (bs_lower sh) (bs_range sh) = Inr b"
      "(if truthy (bs_range sh) then bnd (dec_sub c1_prec (sb_open bar) (sb_low bar)) (\<lambda>d. ratio d (bs_range sh)) else Inr None) = Inr ol"
      "(if truthy (bs_range sh) then bnd (dec_sub c1_prec (sb_close bar) (sb_low bar)) (\<lambda>d. ratio d (bs_range sh)) else Inr None) = Inr cl'"
      "ratio (bs_body sh) (bs_range sh) = Inr se"
    and own: "own =
     [(''range_abs'', Some (render (bs_range sh))), (''range_ticks'', rt), (''body_signed'', Some (render (bs_body sh))),
      (''body_abs'', Some (render (dec_abs c1_prec (bs_body sh)))), (''body_utilisation'', bu),
      (''upper_wick_abs'', Some (render (bs_upper sh))), (''lower_wick_abs'', Some (render (bs_lower sh))),
      (''upper_wick_share'', us), (''lower_wick_share'', ls), (''wick_balance'', map_option render b), (''open_location'', ol),
      (''close_location'', cl'), (''signed_efficiency'', se), (''true_range_abs'', None),
      (''true_range_ticks'', None), (''close_change'', None), (''open_gap'', None)]"
    using assms(1) unfolding own_values_def Let_def
  proof (elim bndE, goal_cases)
    case (1 rt bu us ls b ol cl' se)
    then show ?case by (intro 1(1) [of rt bu us ls b ol cl' se]) (assumption | simp)+
  qed
  have t: "rt = None \<longleftrightarrow> sb_price_increment bar = None"
    using in_ticks_None [OF q(1)] assms(2) by (auto simp: prices_ordered_def)
  have z: "\<forall>v \<in> {bu, us, ls, map_option render b, ol, cl', se}. v = None \<longleftrightarrow> \<not> truthy (bs_range sh)"
    using ratio_None [OF q(2)] ratio_None [OF q(3)] ratio_None [OF q(4)] balance_None [OF q(5)] location_None [OF q(6)]
      location_None [OF q(7)] ratio_None [OF q(8)] by simp
  show ?thesis by (rule that [OF own t z])
qed

lemma prior_values_shape:
  assumes "prior_values bar sh p = Inr ps" and "prices_ordered bar"
  obtains tr tt cc og where "ps = [(''true_range_abs'', Some tr), (''true_range_ticks'', tt), (''close_change'', Some cc), (''open_gap'', Some og)]"
    "tt = None \<longleftrightarrow> sb_price_increment bar = None"
proof -
  from assms(1) obtain tr tt cc og where "in_ticks tr (sb_price_increment bar) = Inr tt"
    "ps = [(''true_range_abs'', Some (render tr)), (''true_range_ticks'', tt), (''close_change'', Some (render cc)), (''open_gap'', Some (render og))]"
    unfolding prior_values_def Let_def by (auto simp: bnd_eq_Inr)
  then show ?thesis using that in_ticks_None [of tr "sb_price_increment bar" tt] assms(2) by (auto simp: prices_ordered_def)
qed

definition measured :: "measurements \<Rightarrow> (string \<times> string) list \<Rightarrow> bool" where
  "measured ms nulls \<longleftrightarrow> (\<forall>(f, v) \<in> set ms. v = None \<longleftrightarrow> map_of nulls f \<noteq> None)"

lemma null_reason_given:
  "map_of (null_reasons_of bar sh prior_bar reason) f \<noteq> None \<longleftrightarrow>
    (sb_price_increment bar = None \<and> f = ''range_ticks'') \<or>
    (\<not> truthy (bs_range sh) \<and> f \<in> set ZERO_RANGE_NULL_FIELDS) \<or>
    (prior_bar = None \<and> f \<in> set PRIOR_FIELDS) \<or>
    (prior_bar \<noteq> None \<and> sb_price_increment bar = None \<and> f = ''true_range_ticks'')"
  unfolding null_reasons_of_def map_of_eq_None_iff set_append image_Un
  by (cases prior_bar; cases "truthy (bs_range sh)") (auto simp: image_image)

lemma measured_fields:
  assumes "rt = None \<longleftrightarrow> sb_price_increment bar = None"
    and "\<forall>v \<in> {bu, us, ls, wb, ol, cl', se}. v = None \<longleftrightarrow> \<not> truthy (bs_range sh)"
    and "tr = None \<longleftrightarrow> prior_bar = None" "cc = None \<longleftrightarrow> prior_bar = None" "og = None \<longleftrightarrow> prior_bar = None"
    and "tt = None \<longleftrightarrow> prior_bar = None \<or> sb_price_increment bar = None"
  shows "measured
     [(''range_abs'', Some ra), (''range_ticks'', rt), (''body_signed'', Some bs), (''body_abs'', Some ba),
      (''body_utilisation'', bu), (''upper_wick_abs'', Some ua), (''lower_wick_abs'', Some la),
      (''upper_wick_share'', us), (''lower_wick_share'', ls), (''wick_balance'', wb), (''open_location'', ol),
      (''close_location'', cl'), (''signed_efficiency'', se), (''true_range_abs'', tr),
      (''true_range_ticks'', tt), (''close_change'', cc), (''open_gap'', og)] (null_reasons_of bar sh prior_bar reason)"
  unfolding measured_def null_reason_given ZERO_RANGE_NULL_FIELDS_def PRIOR_FIELDS_def using assms by (cases prior_bar) simp_all

lemma calculate_measured:
  assumes "calculate bar prior_bar reason = Inr (ms, cat, nulls)" and "prices_ordered bar"
  shows "measured ms nulls"
proof -
  from assms(1) obtain sh own against where o: "own_values bar sh = Inr own"
    and a: "(case prior_bar of None \<Rightarrow> Inr [] | Some p \<Rightarrow> prior_values bar sh p) = Inr against"
    and ms: "ms = fold (\<lambda>(k, v) m. AList.update k v m) against own" and n: "nulls = null_reasons_of bar sh prior_bar reason"
    by (auto simp: calculate_def bnd_eq_Inr)
  show ?thesis using o assms(2)
  proof (cases rule: own_values_shape)
    case (1 rt bu us ls wb ol cl' se)
    show ?thesis
    proof (cases prior_bar)
      case None
      then show ?thesis using a ms n 1(2,3) unfolding 1(1) by (simp add: measured_fields)
    next
      case (Some p)
      then have "prior_values bar sh p = Inr against" using a by simp
      then show ?thesis using assms(2)
      proof (cases rule: prior_values_shape)
        case ps: (1 tr tt cc og)
        show ?thesis using 1(2,3) ps(2) Some unfolding ms n 1(1) ps(1) by (simp add: measured_fields)
      qed
    qed
  qed
qed

definition PRIOR_REASONS :: "string list" where
  "PRIOR_REASONS = [''NO_PRIOR_BAR'', ''PRIOR_IDENTITY_MISMATCH'', ''NO_CONTIGUOUS_PRIOR_BAR'', ''PRIOR_NOT_FIRST_VALID'']"

lemma prior_reasons_allowed: "list_all (\<lambda>s. s \<noteq> [] \<and> s \<in> set ALLOWED_NULL_REASONS) PRIOR_REASONS"
  by code_simp

lemma prior_reasons:
  "''NO_PRIOR_BAR'' \<in> set PRIOR_REASONS" "''PRIOR_IDENTITY_MISMATCH'' \<in> set PRIOR_REASONS"
  "''NO_CONTIGUOUS_PRIOR_BAR'' \<in> set PRIOR_REASONS" "''PRIOR_NOT_FIRST_VALID'' \<in> set PRIOR_REASONS"
  by (simp_all add: PRIOR_REASONS_def)

lemma resolve_prior_reason:
  assumes "resolve_prior current prior_bar = Inr (lawful, reason)"
  shows "lawful \<noteq> None \<or> reason \<in> Some ` set PRIOR_REASONS"
proof (cases prior_bar)
  case None
  then show ?thesis using assms prior_reasons by (auto simp: resolve_prior_def)
next
  case (Some p)
  show ?thesis
  proof (cases "list_ex (\<lambda>f. \<not> py_eq (f current) (f p)) PRIOR_IDENTITY \<or> sb_admissibility p \<noteq> VStr ''HANDOFF_ELIGIBLE''")
    case True
    then show ?thesis using assms Some prior_reasons unfolding resolve_prior_def by (auto split: if_splits)
  next
    case False
    then obtain pc co where "bar_time (sb_close_time p) = Inr pc" "bar_time (sb_open_time current) = Inr co"
      "(if \<not> dt_eq pc co then Inr (None, Some ''NO_CONTIGUOUS_PRIOR_BAR'')
        else bnd (bar_time (sb_first_valid_time p)) (\<lambda>pf. bnd (bar_time (sb_close_time current)) (\<lambda>cc.
          bnd (dt_cmp (>) pf cc) (\<lambda>late. Inr (if late then (None, Some ''PRIOR_NOT_FIRST_VALID'') else (Some p, None))))))
        = Inr (lawful, reason)"
      using assms Some unfolding resolve_prior_def by (auto elim!: bndE)
    then show ?thesis using prior_reasons by (auto elim!: bndE split: if_splits)
  qed
qed

lemma null_reasons_allowed:
  assumes "prior_bar \<noteq> None \<or> reason \<in> Some ` set PRIOR_REASONS"
  shows "list_all (\<lambda>p. snd p \<in> set ALLOWED_NULL_REASONS) (null_reasons_of bar sh prior_bar reason)"
proof -
  have a: "set ALLOWED_NULL_REASONS = {''ZERO_RANGE'', ''NO_PRIOR_BAR'', ''NO_CONTIGUOUS_PRIOR_BAR'', ''PRIOR_IDENTITY_MISMATCH'',
     ''PRIOR_NOT_FIRST_VALID'', ''PRICE_INCREMENT_UNAVAILABLE''}" by (simp add: ALLOWED_NULL_REASONS_def)
  have z: "list_all (\<lambda>p. snd p \<in> set ALLOWED_NULL_REASONS) (map (\<lambda>f. (f, ''ZERO_RANGE'')) fs)" for fs by (simp add: a list_all_iff)
  have i: "''PRICE_INCREMENT_UNAVAILABLE'' \<in> set ALLOWED_NULL_REASONS" by (simp add: a)
  show ?thesis
  proof (cases prior_bar)
    case None
    then obtain s where s: "reason = Some s" "s \<in> set PRIOR_REASONS" using assms by blast
    then have s: "reason = Some s" "s \<noteq> []" "s \<in> set ALLOWED_NULL_REASONS"
      using prior_reasons_allowed by (simp_all add: list_all_iff)
    then have "list_all (\<lambda>p. snd p \<in> set ALLOWED_NULL_REASONS) (map (\<lambda>f. (f, s)) PRIOR_FIELDS)" by (simp add: list_all_iff)
    then show ?thesis using None s z [of ZERO_RANGE_NULL_FIELDS] i by (simp add: null_reasons_of_def)
  next
    case (Some p)
    then show ?thesis using z [of ZERO_RANGE_NULL_FIELDS] i by (simp add: null_reasons_of_def)
  qed
qed

lemma direction_known:
  assumes "direction_of body = Inr d"
  shows "d \<in> {''UP'', ''DOWN'', ''FLAT''}"
proof -
  obtain up where up: "(if up then Inr ''UP'' else bnd (dec_lt body dec_zero) (\<lambda>down. Inr (if down then ''DOWN'' else ''FLAT''))) = Inr d"
    using assms unfolding direction_of_def by (rule bndE)
  show ?thesis
  proof (cases up)
    case True
    then have "d = ''UP''" using up by simp
    then show ?thesis by simp
  next
    case False
    then have "bnd (dec_lt body dec_zero) (\<lambda>down. Inr (if down then ''DOWN'' else ''FLAT'')) = Inr d" using up by simp
    then obtain down where "d = (if down then ''DOWN'' else ''FLAT'')" by (elim bndE) (drule sym, simp)
    then show ?thesis by (cases down) simp_all
  qed
qed

lemma c1_build_parts:
  assumes "c1_build current_payload prior_payload = Inr r"
  obtains current prior_bar lawful reason ms cat nulls h where
    "adapt current_payload = Inr current" "resolve_prior current prior_bar = Inr (lawful, reason)"
    "calculate current lawful reason = Inr (ms, cat, nulls)"
    "c1_record_id r = ''c1:'' @ sha256 h" "c1_formula_registry_id r = FORMULA_REGISTRY_ID"
    "c1_clock_id r = sb_clock_id current" "c1_price_side r = sb_price_side current" "c1_measurements r = ms"
    "c1_categorical r = cat" "c1_null_reasons r = nulls"
  using assms unfolding c1_build_def c1_id_def canonical_hash_def case_prod_unfold
proof (elim bndE, goal_cases)
  case (1 current prior_bar lr mcn rid h b)
  note r = 1(6) [unfolded sum.inject, symmetric] and h = 1(7,9) [unfolded sum.inject, symmetric]
  show ?case
  proof (rule 1(1) [of current prior_bar "fst lr" "snd lr" "fst mcn" "fst (snd mcn)" "snd (snd mcn)" b])
    show "adapt current_payload = Inr current" by (rule 1(2))
    show "resolve_prior current prior_bar = Inr (fst lr, snd lr)" by (simp only: 1(4) prod.collapse)
    show "calculate current (fst lr) (snd lr) = Inr (fst mcn, fst (snd mcn), snd (snd mcn))" by (simp only: 1(5) prod.collapse)
  qed (simp_all only: r h c1_result.simps)
qed

text \<open>C10: every built result is valid. Its identifier is well formed, its clock and side are authorised, a
  measurement is missing exactly when a reason is given for it, and the reasons and the direction are
  among the known ones; the only objection the validation can still raise is a forbidden word in the
  text of the result.\<close>

theorem c1_build_valid:
  assumes "c1_build current_payload prior_payload = Inr r"
  shows "c1_validate r = (if list_ex (\<lambda>w. sublist w (py_lower (c1_repr r))) FORBIDDEN_WORDS
      then Inl (Exn ValueError ''FORBIDDEN_SEMANTIC_FIELD'') else Inr ()) \<and>
    measured (c1_measurements r) (c1_null_reasons r)"
proof -
  obtain current prior_bar lawful reason ms cat nulls h where
      ad: "adapt current_payload = Inr current" and rp: "resolve_prior current prior_bar = Inr (lawful, reason)"
    and ca: "calculate current lawful reason = Inr (ms, cat, nulls)"
    and rid: "c1_record_id r = ''c1:'' @ sha256 h" and reg: "c1_formula_registry_id r = FORMULA_REGISTRY_ID"
    and f: "c1_clock_id r = sb_clock_id current" "c1_price_side r = sb_price_side current" "c1_measurements r = ms"
      "c1_categorical r = cat" "c1_null_reasons r = nulls"
    using c1_build_parts [OF assms] .
  have b: "bar_sound current" using c1_admitted [OF ad] by blast
  have m: "measured ms nulls" using calculate_measured [OF ca] b by (simp add: bar_sound_def)
  obtain sh d where n: "nulls = null_reasons_of current sh lawful reason" and d: "cat = [(''direction'', d)]" "d \<in> {''UP'', ''DOWN'', ''FLAT''}"
    using ca direction_known by (auto simp: calculate_def bnd_eq_Inr)
  have al: "list_all (\<lambda>p. snd p \<in> set ALLOWED_NULL_REASONS) nulls"
    unfolding n by (rule null_reasons_allowed [OF resolve_prior_reason [OF rp]])
  have "\<exists>clock \<in> set ALLOWED_CLOCKS. sb_clock_id current = VStr clock" "\<exists>side \<in> set ALLOWED_SIDES. sb_price_side current = VStr side"
    using b by (simp_all add: bar_sound_def)
  then have cs: "in_strs (sb_clock_id current) [''15M'', ''2H_A_L''] = Inr True" "in_strs (sb_price_side current) [''BID'', ''ASK''] = Inr True"
    unfolding in_strs_True by (simp_all add: ALLOWED_CLOCKS_def ALLOWED_SIDES_def)
  have ch: "mapM (\<lambda>(field, v). req ValueError ((v = None) = (map_of nulls field \<noteq> None)) (''NULL_REASON_MISMATCH:'' @ field)) ms
      = Inr (map (\<lambda>_. ()) ms)"
    using m unfolding measured_def by (induction ms) auto
  have di: "map_of cat ''direction'' \<in> {Some ''UP'', Some ''DOWN'', Some ''FLAT''}" using d by simp
  have id: "prefix ''c1:'' (c1_record_id r) \<and> length (c1_record_id r) = 67" by (simp add: rid)
  have rg: "c1_formula_registry_id r = ''C1.FORMULAS.v0.1''" by (simp add: reg FORMULA_REGISTRY_ID_def)
  have ok: "P \<Longrightarrow> req ValueError P msg = Inr ()" for P msg by simp
  have "c1_validate r = req ValueError (\<not> list_ex (\<lambda>w. sublist w (py_lower (c1_repr r))) FORBIDDEN_WORDS) ''FORBIDDEN_SEMANTIC_FIELD''"
    unfolding c1_validate_def Let_def f cs ok [OF id] ok [OF rg] ok [OF al] ok [OF di] ok [OF TrueI] ch bnd_Inr ..
  then show ?thesis using m f by (simp add: req_def)
qed

subsection \<open>Finite bars are always measured\<close>

definition finite_dec :: "decimal \<Rightarrow> bool" where
  "finite_dec d \<longleftrightarrow> (\<exists>s c e. d = DFin s c e)"

definition finite_prices :: "source_bar \<Rightarrow> bool" where
  "finite_prices bar \<longleftrightarrow> finite_dec (sb_open bar) \<and> finite_dec (sb_high bar) \<and> finite_dec (sb_low bar) \<and>
    finite_dec (sb_close bar) \<and> pred_option finite_dec (sb_price_increment bar)"

lemma finite_fin [simp]: "finite_dec (DFin s c e)"
  by (simp add: finite_dec_def)

lemma finite_fix [simp]: "finite_dec (dec_fix prec s c e)"
  by (simp add: finite_dec_def dec_fix_def Let_def)

lemma finite_sub: "finite_dec x \<Longrightarrow> finite_dec y \<Longrightarrow> is_ok (dec_sub prec x y) \<and> finite_dec (projr (dec_sub prec x y))"
  by (auto simp: finite_dec_def [of x] finite_dec_def [of y] dec_sub_def Let_def)

lemma finite_abs: "finite_dec x \<Longrightarrow> finite_dec (dec_abs prec x)"
  by (auto simp: finite_dec_def [of x])

lemma finite_lt: "finite_dec x \<Longrightarrow> finite_dec y \<Longrightarrow> is_ok (dec_lt x y)"
  by (auto simp: finite_dec_def dec_lt_def)

lemma finite_max: "finite_dec x \<Longrightarrow> finite_dec y \<Longrightarrow> is_ok (dec_max x y) \<and> finite_dec (projr (dec_max x y))"
  using finite_lt [of x y] by (auto simp: dec_max_def is_ok_iff)

lemma finite_min: "finite_dec x \<Longrightarrow> finite_dec y \<Longrightarrow> is_ok (dec_min x y) \<and> finite_dec (projr (dec_min x y))"
  using finite_lt [of y x] by (auto simp: dec_min_def is_ok_iff)

lemma truthy_fin [simp]: "truthy (DFin s c e) \<longleftrightarrow> c \<noteq> 0"
  by (simp add: truthy_def)

lemma finite_div: "finite_dec x \<Longrightarrow> finite_dec y \<Longrightarrow> truthy y \<Longrightarrow> is_ok (dec_div prec x y)"
  by (auto simp: finite_dec_def Let_def split: prod.splits)

lemma finite_ratio: "finite_dec x \<Longrightarrow> finite_dec y \<Longrightarrow> is_ok (ratio x y)"
  using finite_div by (simp add: ratio_def)

lemma finite_ticks: "finite_dec x \<Longrightarrow> pred_option finite_dec inc \<Longrightarrow> is_ok (in_ticks x inc)"
  using finite_ratio by (cases inc) (simp_all add: in_ticks_def)

lemma finite_balance: "finite_dec u \<Longrightarrow> finite_dec l \<Longrightarrow> finite_dec r \<Longrightarrow> is_ok (calculate_wick_balance u l r)"
  using finite_sub [of u l] finite_div [of "projr (dec_sub c1_prec u l)" r] by (simp add: calculate_wick_balance_def truthy_iff)

lemma finite_location: "finite_dec x \<Longrightarrow> finite_dec y \<Longrightarrow> finite_dec r \<Longrightarrow>
   is_ok (if truthy r then bnd (dec_sub c1_prec x y) (\<lambda>d. ratio d r) else Inr None)"
  using finite_sub [of x y] finite_ratio by simp

definition finite_shape :: "bar_shape \<Rightarrow> bool" where
  "finite_shape sh \<longleftrightarrow> finite_dec (bs_range sh) \<and> finite_dec (bs_body sh) \<and> finite_dec (bs_upper sh) \<and> finite_dec (bs_lower sh)"

lemma projr_bnd: "is_ok m \<Longrightarrow> projr (bnd m f) = projr (f (projr m))"
  by (cases m) simp_all

lemma finite_shape_of: "finite_prices bar \<Longrightarrow> is_ok (shape_of bar) \<and> finite_shape (projr (shape_of bar))"
  unfolding finite_prices_def shape_of_def finite_shape_def
  by (simp add: projr_bnd finite_sub finite_max finite_min)

lemma finite_own: "finite_prices bar \<Longrightarrow> finite_shape sh \<Longrightarrow> is_ok (own_values bar sh)"
  unfolding finite_prices_def finite_shape_def own_values_def Let_def
  by (simp del: if_split add: finite_ticks finite_ratio finite_balance finite_abs finite_location)

lemma finite_against:
  assumes "finite_prices bar" "finite_shape sh" "finite_prices p"
  shows "is_ok (prior_values bar sh p)"
proof -
  have f: "finite_dec (sb_high bar)" "finite_dec (sb_low bar)" "finite_dec (sb_close bar)" "finite_dec (sb_open bar)"
    "finite_dec (sb_close p)" "finite_dec (bs_range sh)" "pred_option finite_dec (sb_price_increment bar)"
    using assms by (simp_all add: finite_prices_def finite_shape_def)
  note s = finite_sub [OF f(1,5)] finite_sub [OF f(2,5)] finite_sub [OF f(3,5)] finite_sub [OF f(4,5)]
  show ?thesis unfolding prior_values_def Let_def
    by (simp add: projr_bnd s f finite_max finite_abs finite_ticks)
qed

lemma finite_direction: "finite_dec d \<Longrightarrow> is_ok (direction_of d)"
proof -
  assume d: "finite_dec d"
  have z: "finite_dec dec_zero" unfolding finite_dec_def dec_zero_def by blast
  show ?thesis using finite_lt [OF z d] finite_lt [OF d z] by (simp add: direction_of_def)
qed

lemma finite_calculate:
  assumes "finite_prices bar" and "pred_option finite_prices prior_bar"
  shows "is_ok (calculate bar prior_bar reason)"
proof -
  have sh: "is_ok (shape_of bar)" "finite_shape (projr (shape_of bar))" using finite_shape_of [OF assms(1)] by blast+
  then have "is_ok (direction_of (bs_body (projr (shape_of bar))))" by (simp add: finite_direction finite_shape_def)
  then show ?thesis unfolding calculate_def using sh finite_own [OF assms(1) sh(2)] finite_against [OF assms(1) sh(2)] assms(2)
    by (cases prior_bar) simp_all
qed

text \<open>On admitted bars the prior bar is resolved without an error: their times are all naive or all aware.\<close>

lemma resolve_prior_total:
  assumes "bar_sound current" and "pred_option bar_sound prior_bar"
  shows "is_ok (resolve_prior current prior_bar)"
proof (cases prior_bar)
  case None
  then show ?thesis by (simp add: resolve_prior_def)
next
  case (Some p)
  then obtain po pc pf where p: "bar_time (sb_close_time p) = Inr pc" "bar_time (sb_first_valid_time p) = Inr pf"
    "(offset pf = None) = (offset pc = None)" using assms(2) by (auto simp: bar_sound_def)
  obtain co cc where c: "bar_time (sb_open_time current) = Inr co" "bar_time (sb_close_time current) = Inr cc"
    "(offset co = None) = (offset cc = None)" using assms(1) by (auto simp: bar_sound_def)
  have "dt_eq pc co \<Longrightarrow> is_ok (dt_cmp (>) pf cc)" using p(3) c(3) by (simp add: dt_eq_def dt_cmp_def)
  then show ?thesis using Some p c by (simp add: resolve_prior_def)
qed

lemma resolve_prior_lawful: "resolve_prior current prior_bar = Inr (lawful, reason) \<Longrightarrow> lawful = None \<or> lawful = prior_bar"
  unfolding resolve_prior_def by (cases prior_bar) (auto elim!: bndE split: if_splits)

lemma measurements_printable: "is_ok (json_gen i s n d (measurements_val ms))"
  unfolding measurements_val_def by (rule json_dict_ok) (auto simp: opt_val_def split: option.splits)

lemma strs_printable: "is_ok (json_gen i s n d (strs_dict kvs))"
  unfolding strs_dict_def by (rule json_dict_ok) auto

lemma c1_built:
  assumes "adapt current_payload = Inr current" and "finite_prices current"
    and "list_all (\<lambda>v. is_ok (json_gen '','' '':'' True False v)) [sb_source_bar_id current, sb_release_id current, sb_manifest_id current]"
    and "\<forall>p. prior_payload = Some p \<longrightarrow> (\<exists>bar. adapt p = Inr bar \<and> finite_prices bar)"
  shows "is_ok (c1_build current_payload prior_payload)"
proof -
  obtain prior_bar where pb: "(case prior_payload of None \<Rightarrow> Inr None | Some p \<Rightarrow> bnd (adapt p) (\<lambda>b. Inr (Some b))) = Inr prior_bar"
    and pf: "pred_option finite_prices prior_bar" and ps: "pred_option bar_sound prior_bar"
  proof (cases prior_payload)
    case None
    then show ?thesis using that by simp
  next
    case (Some p)
    then obtain bar where "adapt p = Inr bar" "finite_prices bar" using assms(4) by blast
    then show ?thesis using that [of "Some bar"] Some c1_admitted by simp
  qed
  have b: "bar_sound current" using c1_admitted [OF assms(1)] by blast
  obtain lawful reason where rp: "resolve_prior current prior_bar = Inr (lawful, reason)"
    using resolve_prior_total [OF b ps] by (auto simp: is_ok_iff)
  have "pred_option finite_prices lawful" using resolve_prior_lawful [OF rp] pf by auto
  then obtain ms cat nulls where ca: "calculate current lawful reason = Inr (ms, cat, nulls)"
    using finite_calculate [OF assms(2), of lawful reason] by (auto simp: is_ok_iff)
  have "is_ok (json_gen '','' '':'' True False (VDict
      [(''source_bar_id'', sb_source_bar_id current), (''release_id'', sb_release_id current),
       (''manifest_id'', sb_manifest_id current), (''clock_id'', sb_clock_id current), (''price_side'', sb_price_side current),
       (''formula_registry_id'', VStr FORMULA_REGISTRY_ID), (''measurements'', measurements_val ms),
       (''categorical'', strs_dict cat), (''null_reasons'', strs_dict nulls)]))"
    by (rule json_dict_ok) (use assms(3) b in \<open>auto simp: bar_sound_def measurements_printable strs_printable simp del: json_gen.simps(10)\<close>)
  then show ?thesis unfolding c1_build_def assms(1) pb bnd_Inr rp ca prod.case
    by (simp add: c1_id_def canonical_hash_def del: json_gen.simps)
qed


definition example_bar :: pydict where
  "example_bar =
    [(''release_id'', VStr ''OPT-A.GBPUSD.DISCOVERY.2021_2023.v2''), (''manifest_id'', VStr ''m''), (''research_role'', VStr ''DISCOVERY''),
     (''instrument_id'', VStr ''GBPUSD''), (''clock_id'', VStr ''15M''), (''price_side'', VStr ''BID''), (''source_bar_id'', VStr ''b1''),
     (''open_time'', VStr ''2021-01-04T00:00:00Z''), (''close_time'', VStr ''2021-01-04T00:15:00Z''),
     (''first_valid_time'', VStr ''2021-01-04T00:15:00Z''), (''open'', VStr ''6''), (''high'', VStr ''8''),
     (''low'', VStr ''5''), (''close'', VStr ''7''), (''price_increment'', VStr ''2''),
     (''admissibility'', VStr ''HANDOFF_ELIGIBLE''), (''quality_state'', VStr ''COMPLETE''), (''synthetic'', VBool False),
     (''selector_state'', VStr ''ACTIVE''), (''authority_state'', VStr ''ACTIVE_RELEASE''),
     (''validation_consumption_state'', VStr ''NONE''), (''parent_source_object_ids'', VList []), (''parent_m1_bar_ids'', VList [])]"

definition example_adapted :: source_bar where
  "example_adapted = \<lparr>sb_release_id = VStr ''OPT-A.GBPUSD.DISCOVERY.2021_2023.v2'', sb_manifest_id = VStr ''m'',
     sb_research_role = VStr ''DISCOVERY'', sb_instrument_id = VStr ''GBPUSD'', sb_clock_id = VStr ''15M'', sb_price_side = VStr ''BID'',
     sb_source_bar_id = VStr ''b1'', sb_open_time = VStr ''2021-01-04T00:00:00Z'', sb_close_time = VStr ''2021-01-04T00:15:00Z'',
     sb_first_valid_time = VStr ''2021-01-04T00:15:00Z'', sb_open = DFin False 6 0, sb_high = DFin False 8 0,
     sb_low = DFin False 5 0, sb_close = DFin False 7 0, sb_price_increment = Some (DFin False 2 0),
     sb_admissibility = VStr ''HANDOFF_ELIGIBLE'', sb_quality_state = VStr ''COMPLETE'', sb_synthetic = False,
     sb_selector_state = VStr ''ACTIVE'', sb_authority_state = VStr ''ACTIVE_RELEASE'',
     sb_validation_consumption_state = VStr ''NONE'', sb_parent_source_object_ids = [], sb_parent_m1_bar_ids = []\<rparr>"

lemma example_bar_times:
  "field_time example_bar ''close_time'' = Inr (DT 63745316100000000 (Some 0))"
  "field_time example_bar ''open_time'' = Inr (DT 63745315200000000 (Some 0))"
  "field_time example_bar ''first_valid_time'' = Inr (DT 63745316100000000 (Some 0))"
proof -
  have h: "parse_hms ''00:15:00'' = Some (0, 15, 0, 0)" "parse_hms ''00:00:00'' = Some (0, 0, 0, 0)" "parse_hms ''00:00'' = Some (0, 0, 0, 0)"
    by (simp_all add: parse_hms_def parse2_def is_digit_def digits_val_def digit_val_def is_point_def parse_frac_def Let_def)
  have d: "parse_date ''2021-01-04T00:15:00+00:00'' = Some (2021, 1, 4, Some ''00:15:00+00:00'')"
    "parse_date ''2021-01-04T00:00:00+00:00'' = Some (2021, 1, 4, Some ''00:00:00+00:00'')" by code_simp+
  have t: "takeWhile (\<lambda>c. \<not> is_zone c) ''00:15:00+00:00'' = ''00:15:00''" "dropWhile (\<lambda>c. \<not> is_zone c) ''00:15:00+00:00'' = ''+00:00''"
    "takeWhile (\<lambda>c. \<not> is_zone c) ''00:00:00+00:00'' = ''00:00:00''" "dropWhile (\<lambda>c. \<not> is_zone c) ''00:00:00+00:00'' = ''+00:00''" by code_simp+
  have z: "parse_zone ''+00:00'' = Some (Some 0)" by (simp add: parse_zone_def h day_us_def)
  have v: "valid_date 2021 1 4" "ymd2ord 2021 1 4 = 737794" by code_simp+
  note v = v v(1) [unfolded One_nat_def]
  have r: "str_replace ''Z'' ''+00:00'' ''2021-01-04T00:15:00Z'' = ''2021-01-04T00:15:00+00:00''"
    "str_replace ''Z'' ''+00:00'' ''2021-01-04T00:00:00Z'' = ''2021-01-04T00:00:00+00:00''" by code_simp+
  have i: "from_iso ''2021-01-04T00:15:00+00:00'' = Some (DT 63745316100000000 (Some 0))"
    "from_iso ''2021-01-04T00:00:00+00:00'' = Some (DT 63745315200000000 (Some 0))"
    unfolding from_iso_def d option.case prod.case t h z v by (simp_all add: v day_us_def)
  have g: "ditem example_bar ''close_time'' = Inr (VStr ''2021-01-04T00:15:00Z'')"
    "ditem example_bar ''open_time'' = Inr (VStr ''2021-01-04T00:00:00Z'')"
    "ditem example_bar ''first_valid_time'' = Inr (VStr ''2021-01-04T00:15:00Z'')" by code_simp+
  show "field_time example_bar ''close_time'' = Inr (DT 63745316100000000 (Some 0))"
    "field_time example_bar ''open_time'' = Inr (DT 63745315200000000 (Some 0))"
    "field_time example_bar ''first_valid_time'' = Inr (DT 63745316100000000 (Some 0))"
    by (simp_all add: field_time_def g bar_time_def r fromisoformat_def i)
qed

lemma example_bar_prices:
  "decimal_values example_bar = Inr (DFin False 6 0, DFin False 8 0, DFin False 5 0, DFin False 7 0, Some (DFin False 2 0))"
proof -
  have p: "dec_parse ''6'' = Some (DFin False 6 0)" "dec_parse ''8'' = Some (DFin False 8 0)"
    "dec_parse ''5'' = Some (DFin False 5 0)" "dec_parse ''7'' = Some (DFin False 7 0)" "dec_parse ''2'' = Some (DFin False 2 0)" by code_simp+
  have g: "ditem example_bar ''open'' = Inr (VStr ''6'')" "ditem example_bar ''high'' = Inr (VStr ''8'')"
    "ditem example_bar ''low'' = Inr (VStr ''5'')" "ditem example_bar ''close'' = Inr (VStr ''7'')"
    "dget example_bar ''price_increment'' VNone = VStr ''2''" by code_simp+
  have o: "ohlc_disordered (DFin False 6 0) (DFin False 8 0) (DFin False 5 0) (DFin False 7 0) = Inr False"
    "dec_lt dec_zero (DFin False 2 0) = Inr True" by code_simp+
  show ?thesis by (simp add: decimal_values_def price_def increment_of_def g p o reject_if_def)
qed

lemma example_bar_common:
  "c1_common example_bar = Inr (DFin False 6 0, DFin False 8 0, DFin False 5 0, DFin False 7 0, Some (DFin False 2 0))"
proof -
  have g: "ditem example_bar ''instrument_id'' = Inr (VStr ''GBPUSD'')" "bnd (ditem example_bar ''clock_id'') (\<lambda>v. in_strs v ALLOWED_CLOCKS) = Inr True"
    "bnd (ditem example_bar ''price_side'') (\<lambda>v. in_strs v ALLOWED_SIDES) = Inr True"
    "ditem example_bar ''admissibility'' = Inr (VStr ''HANDOFF_ELIGIBLE'')" by code_simp+
  have t: "dt_cmp (\<le>) (DT 63745316100000000 (Some 0)) (DT 63745315200000000 (Some 0)) = Inr False"
    "dt_cmp (>) (DT 63745316100000000 (Some 0)) (DT 63745316100000000 (Some 0)) = Inr False" by code_simp+
  show ?thesis unfolding c1_common_def g example_bar_times bnd_Inr t example_bar_prices by (simp add: reject_if_def)
qed

lemma example_bar_adapt: "adapt example_bar = Inr example_adapted"
proof -
  have g: "c1_required example_bar = Inr ()" "dget example_bar ''operation_mode'' VNone = VNone"
    "bnd (ditem example_bar ''release_id'') (\<lambda>v. in_strs v ALLOWED_RELEASES) = Inr True"
    "ditem example_bar ''research_role'' = Inr (VStr ''DISCOVERY'')"
    "ditem example_bar ''validation_consumption_state'' = Inr (VStr ''NONE'')"
    "ditem example_bar ''synthetic'' = Inr (VBool False)" "ditem example_bar ''selector_state'' = Inr (VStr ''ACTIVE'')"
    "ditem example_bar ''authority_state'' = Inr (VStr ''ACTIVE_RELEASE'')" "prefix ''ACTIVE_'' (py_str (VStr ''ACTIVE_RELEASE''))"
    by (code_simp, simp add: example_bar_def dget_def, code_simp, code_simp, code_simp, code_simp, code_simp, code_simp, simp)
  have m: "make_bar example_bar (DFin False 6 0, DFin False 8 0, DFin False 5 0, DFin False 7 0, Some (DFin False 2 0))
      False (VStr ''ACTIVE'') (VStr ''ACTIVE_RELEASE'') (VStr ''NONE'') = Inr example_adapted"
    by (simp add: make_bar_def example_bar_def example_adapted_def ditem_def)
  show ?thesis unfolding adapt_def g bnd_Inr example_bar_common using g(9) m by (simp add: reject_if_def)
qed

theorem c1_admission_witness: "bar_sound example_adapted \<and> (released example_adapted \<or> replayed example_adapted)"
  by (rule c1_admission [OF example_bar_adapt])

lemma example_finite: "finite_prices example_adapted"
  by (simp add: finite_prices_def example_adapted_def)

lemma example_printable: "list_all (\<lambda>v. is_ok (json_gen '','' '':'' True False v))
    [sb_source_bar_id example_adapted, sb_release_id example_adapted, sb_manifest_id example_adapted]"
  by (simp add: example_adapted_def)


theorem c1_build_valid_witness: "\<exists>r. c1_build example_bar None = Inr r \<and>
    c1_validate r = (if list_ex (\<lambda>w. sublist w (py_lower (c1_repr r))) FORBIDDEN_WORDS
      then Inl (Exn ValueError ''FORBIDDEN_SEMANTIC_FIELD'') else Inr ()) \<and>
    measured (c1_measurements r) (c1_null_reasons r)"
proof -
  obtain r where r: "c1_build example_bar None = Inr r"
    using c1_built [OF example_bar_adapt example_finite example_printable, of None] by (auto simp: is_ok_iff)
  from c1_build_valid [OF r] r show ?thesis by blast
qed
end
