(* ===== verification/C2E_Serialization.thy ===== *)
theory C2E_Serialization
  imports Py_Json Py_Sha256
begin

section \<open>C2E v0.2: canonical serialization\<close>

text \<open>
  \<^verbatim>\<open>src/src/ovc/opt_b/c2e_v2/serialization.py\<close>: the canonical form of a value, its bytes, the
  hashes and identifiers every other component derives from them, and fixed-point decimals.
  The lemmas show that the canonical form is canonical and that the bytes determine it, that the
  order of dictionary keys is invisible, and that a decimal text denotes exactly the number it was
  made from. The locale \<open>identity_text\<close> is the contract of an identifier scheme; it is
  interpreted here on \<open>canonical_bytes\<close>. \<^verbatim>\<open>quantize\<close> raises \<^verbatim>\<open>InvalidOperation\<close>, not the
  module's own error, on a value of more than 28 digits; the model keeps that branch.
\<close>

definition has_exponent :: "string \<Rightarrow> bool" where
  "has_exponent s \<longleftrightarrow> CHR ''e'' \<in> set s \<or> CHR ''E'' \<in> set s"

definition canonical_decimal :: "pyval \<Rightarrow> pyval \<Rightarrow> bool \<Rightarrow> string result" where
  "canonical_decimal value precision allow_exponent =
    (let err = (\<lambda>m. Inl (Exn C2ESerializationError m)) in
     if (case value of VBool b \<Rightarrow> True | VFloat t \<Rightarrow> True | _ \<Rightarrow> False) then err ''RUNTIME_FLOAT_IDENTITY_DENIED''
     else if \<not> is_int precision \<or> num_of precision < 0 then err ''DECIMAL_PRECISION_INVALID''
     else
       (let text = py_str value; p = nat (num_of precision) in
        if \<not> allow_exponent \<and> has_exponent text then err ''DECIMAL_EXPONENT_FORM_DENIED''
        else case dec_parse text of
          None \<Rightarrow> err ''DECIMAL_INVALID''
        | Some dec \<Rightarrow>
            if \<not> dec_is_finite dec then err ''DECIMAL_NONFINITE_DENIED''
            else bnd (dec_quantize dec p) (\<lambda>quantized.
              if \<not> dec_eq quantized dec then err ''DECIMAL_PRECISION_MISMATCH''
              else (let q = (if dec_eq quantized (DFin False 0 0) then dec_abs default_prec quantized else quantized)
                    in case precision of VBool b \<Rightarrow> Inl (Exn ValueError []) | _ \<Rightarrow> Inr (fmt_f q)))))"

text \<open>The sort key of a set element: \<^verbatim>\<open>json.dumps(item, sort_keys=True, default=str)\<close>.\<close>

definition set_item_key :: "pyval \<Rightarrow> string" where
  "set_item_key item = (case json_gen '', '' '': '' True True item of Inr s \<Rightarrow> s | Inl e \<Rightarrow> [])"

fun canonicalize :: "pyval \<Rightarrow> pyval result" where
  "canonicalize (VDict kvs) =
     bnd (mapM (\<lambda>(k, v). bnd (canonicalize v) (\<lambda>w. Inr (k, w))) (sort_key fst kvs)) (\<lambda>ps. Inr (VDict ps))"
| "canonicalize (VList xs) = bnd (mapM canonicalize xs) (\<lambda>ys. Inr (VList ys))"
| "canonicalize (VTuple xs) = bnd (mapM canonicalize xs) (\<lambda>ys. Inr (VList ys))"
| "canonicalize (VSet xs) = bnd (mapM canonicalize (sort_key set_item_key xs)) (\<lambda>ys. Inr (VList ys))"
| "canonicalize (VDec d) = Inl (Exn C2ESerializationError ''DECIMAL_REQUIRES_FIELD_PRECISION_CONTRACT'')"
| "canonicalize (VFloat t) = Inl (Exn C2ESerializationError ''RUNTIME_FLOAT_IDENTITY_DENIED'')"
| "canonicalize v = Inr v"

definition canonical_bytes :: "pyval \<Rightarrow> string result" where
  "canonical_bytes value =
    (case bnd (canonicalize value) json_compact of
       Inr s \<Rightarrow> Inr s
     | Inl (Exn c m) \<Rightarrow>
         if c = TypeError \<or> c = ValueError then Inl (Exn C2ESerializationError ''NON_CANONICAL_JSON_VALUE'')
         else Inl (Exn c m))"

definition sha256_hex :: "pyval \<Rightarrow> string result" where
  "sha256_hex value = bnd (canonical_bytes value) (\<lambda>b. Inr (sha256 b))"

definition digest :: "string \<Rightarrow> pyval \<Rightarrow> nat \<Rightarrow> string result" where
  "digest pre value len = bnd (sha256_hex value) (\<lambda>h. Inr (pre @ ''.'' @ take len h))"

definition logical_record_hash :: "pydict \<Rightarrow> string result" where
  "logical_record_hash record =
    sha256_hex (VDict (filter (\<lambda>(key, value). key \<noteq> ''logical_hash'') record))"

definition logical_stream_hash :: "pydict list \<Rightarrow> string result" where
  "logical_stream_hash records =
    bnd (mapM (\<lambda>record. canonical_bytes (VDict record)) records)
      (\<lambda>bs. Inr (sha256 (concat (map (\<lambda>b. b @ [CHR 0x0A]) bs))))"

subsection \<open>Canonical form\<close>

text \<open>Every dictionary inside a value has each key once, as in Python.\<close>

fun wf_val :: "pyval \<Rightarrow> bool" where
  "wf_val (VDict kvs) = (wf_dict kvs \<and> list_all (\<lambda>(k, v). wf_val v) kvs)"
| "wf_val (VList xs) = list_all wf_val xs"
| "wf_val (VTuple xs) = list_all wf_val xs"
| "wf_val (VSet xs) = list_all wf_val xs"
| "wf_val _ = True"

lemma canonical_wf: "canonical v \<Longrightarrow> wf_val v"
  by (induction v rule: canonical.induct) (auto simp: list_all_iff wf_dict_def)

lemma mapM_keys:
  assumes "mapM (\<lambda>(k, v). bnd (f v) (\<lambda>w. Inr (k, w))) kvs = Inr ps"
  shows "list_all2 (\<lambda>p q. fst p = fst q \<and> f (snd p) = Inr (snd q)) kvs ps"
    and "map fst ps = map fst kvs"
proof -
  from assms have "list_all2 (\<lambda>p q. (case p of (k, v) \<Rightarrow> bnd (f v) (\<lambda>w. Inr (k, w))) = Inr q) kvs ps"
    by (simp only: mapM_Inr_iff)
  then show l: "list_all2 (\<lambda>p q. fst p = fst q \<and> f (snd p) = Inr (snd q)) kvs ps"
    by (rule list_all2_mono) (auto simp: bnd_eq_Inr split: prod.splits)
  then show "map fst ps = map fst kvs"
    by (induction rule: list_all2_induct) auto
qed

lemma canonicalize_canonical: "wf_val v \<Longrightarrow> canonicalize v = Inr w \<Longrightarrow> canonical w"
proof (induction v arbitrary: w rule: canonicalize.induct)
  case (1 kvs)
  from 1(3) obtain ps where
    m: "mapM (\<lambda>(k, v). bnd (canonicalize v) (\<lambda>w. Inr (k, w))) (sort_key fst kvs) = Inr ps"
    and w: "w = VDict ps" by (auto simp: bnd_eq_Inr)
  note ks = mapM_keys [OF m]
  have "canonical u" if "(l, u) \<in> set ps" for l u
  proof -
    from list_all2_right_mem [OF ks(1) that]
    obtain v where v: "(l, v) \<in> set kvs" "canonicalize v = Inr u" by auto
    then show ?thesis using 1(1) [of "(l, v)" l v u] 1(2) by (auto simp: list_all_iff)
  qed
  then have "list_all (\<lambda>(k, v). canonical v) ps" by (auto simp: list_all_iff)
  moreover have "distinct (map fst ps)" using ks(2) 1(2)
    by (simp add: wf_dict_def) (metis distinct_map distinct_sort mset_map mset_sort mset_eq_imp_distinct_iff)
  moreover have "sorted (map fst ps)" using ks(2) by simp
  ultimately show ?case using w by simp
next
  case (2 xs)
  then obtain ys where "mapM canonicalize xs = Inr ys" "w = VList ys" by (auto simp: bnd_eq_Inr)
  with 2 show ?case by (auto simp: list_all_iff dest: mapM_mem)
next
  case (3 xs)
  then obtain ys where "mapM canonicalize xs = Inr ys" "w = VList ys" by (auto simp: bnd_eq_Inr)
  with 3 show ?case by (auto simp: list_all_iff dest: mapM_mem)
next
  case (4 xs)
  from 4(3) obtain ys where m: "mapM canonicalize (sort_key set_item_key xs) = Inr ys" and w: "w = VList ys"
    by (auto simp: bnd_eq_Inr)
  have "canonical y" if y: "y \<in> set ys" for y
  proof -
    obtain x where x: "x \<in> set (sort_key set_item_key xs)" "canonicalize x = Inr y"
      using mapM_mem [OF m y] by auto
    then show ?thesis using 4(1) [of x] 4(2) by (auto simp: list_all_iff)
  qed
  then show ?case using w by (simp add: list_all_iff)
qed auto

lemma canonicalize_id: "canonical v \<Longrightarrow> canonicalize v = Inr v"
proof (induction v rule: canonical.induct)
  case (5 xs)
  then have "mapM canonicalize xs = Inr (map id xs)" by (intro mapM_eq_map) (auto simp: list_all_iff)
  then show ?case by simp
next
  case (6 kvs)
  have sk: "sort_key fst kvs = kvs" using 6 by (simp add: sort_key_id_if_sorted)
  have "mapM (\<lambda>(k, v). bnd (canonicalize v) (\<lambda>w. Inr (k, w))) kvs = Inr (map id kvs)"
    using 6 by (intro mapM_eq_map) (auto simp: list_all_iff)
  then show ?case by (simp add: sk)
qed simp_all

lemma canonical_bytes_jtext:
  assumes "wf_val v" and "canonicalize v = Inr w"
  shows "canonical_bytes v = Inr (jtext w)"
  using assms canonicalize_canonical [OF assms] by (simp add: canonical_bytes_def json_compact_canonical)

lemma canonical_bytes_Inr:
  assumes "wf_val v" and "canonical_bytes v = Inr b"
  obtains w where "canonicalize v = Inr w" and "canonical w" and "b = jtext w"
proof -
  from assms(2) obtain w where w: "canonicalize v = Inr w"
    by (cases "canonicalize v") (auto simp: canonical_bytes_def split: exn.splits if_splits)
  with assms canonical_bytes_jtext [OF assms(1) w] canonicalize_canonical [OF assms(1) w] that
  show ?thesis by simp
qed

lemma canonical_bytes_eq_canonicalize:
  "canonicalize v = canonicalize w \<Longrightarrow> canonical_bytes v = canonical_bytes w"
  by (simp add: canonical_bytes_def)

text \<open>A dictionary is read as a map: the order in which its keys were inserted does not reach the
  canonical form, at any depth, and neither does the difference between a tuple and a list.\<close>

inductive reorder :: "pyval \<Rightarrow> pyval \<Rightarrow> bool" where
  reorder_refl: "reorder v v"
| reorder_list: "list_all2 reorder xs ys \<Longrightarrow> reorder (VList xs) (VList ys)"
| reorder_tuple: "list_all2 reorder xs ys \<Longrightarrow> reorder (VTuple xs) (VList ys)"
| reorder_dict: "mset (map fst kvs) = mset (map fst kws) \<Longrightarrow>
    (\<And>k v. map_of kvs k = Some v \<Longrightarrow> \<exists>w. map_of kws k = Some w \<and> reorder v w) \<Longrightarrow>
    reorder (VDict kvs) (VDict kws)"

lemma sort_key_fst_unique:
  assumes "wf_dict kvs"
  shows "sort_key fst kvs = map (\<lambda>k. (k, the (map_of kvs k))) (sort (map fst kvs))"
proof -
  have "sort (map fst kvs) = map fst (sort_key fst kvs)"
    by (intro properties_for_sort) simp_all
  then have "map (\<lambda>k. (k, the (map_of kvs k))) (sort (map fst kvs)) =
      map (\<lambda>p. (fst p, the (map_of kvs (fst p)))) (sort_key fst kvs)"
    by simp
  also have "\<dots> = sort_key fst kvs"
    using assms by (intro map_idI) (auto simp: wf_dict_def)
  finally show ?thesis by simp
qed

lemma canonicalize_reorder:
  "reorder v w \<Longrightarrow> wf_val v \<Longrightarrow> wf_val w \<Longrightarrow> canonicalize v = canonicalize w"
proof (induction rule: reorder.induct)
  case (reorder_refl v)
  then show ?case by simp
next
  case (reorder_list xs ys)
  then have "list_all2 (\<lambda>x y. canonicalize x = canonicalize y) xs ys"
    by (auto simp: list_all2_conv_all_nth list_all_length)
  then show ?case by (simp add: mapM_list_all2)
next
  case (reorder_tuple xs ys)
  then have "list_all2 (\<lambda>x y. canonicalize x = canonicalize y) xs ys"
    by (auto simp: list_all2_conv_all_nth list_all_length)
  then show ?case by (simp add: mapM_list_all2)
next
  case (reorder_dict kvs kws)
  let ?f = "\<lambda>(k, v). bnd (canonicalize v) (\<lambda>w. Inr (k, w))"
  have wf: "wf_dict kvs" "wf_dict kws" using reorder_dict by auto
  have keys: "sort (map fst kvs) = sort (map fst kws)"
    using reorder_dict.hyps(1) by (intro properties_for_sort) simp_all
  have "?f (k, the (map_of kvs k)) = ?f (k, the (map_of kws k))" if k: "k \<in> fst ` set kvs" for k
  proof -
    from k obtain v where v: "map_of kvs k = Some v" by (metis map_of_eq_None_iff option.exhaust)
    from reorder_dict.IH [OF this] obtain w where w: "map_of kws k = Some w"
      "wf_val v \<longrightarrow> wf_val w \<longrightarrow> canonicalize v = canonicalize w" by auto
    have "wf_val v" "wf_val w"
      using v w reorder_dict.prems by (auto simp: list_all_iff dest!: map_of_SomeD)
    with v w show ?thesis by simp
  qed
  then have "mapM ?f (map (\<lambda>k. (k, the (map_of kvs k))) (sort (map fst kvs))) =
      mapM ?f (map (\<lambda>k. (k, the (map_of kws k))) (sort (map fst kws)))"
    unfolding keys [symmetric]
    by (intro mapM_list_all2) (auto simp: list.rel_map intro!: list.rel_refl_strong)
  then show ?case by (simp add: sort_key_fst_unique wf)
qed

subsection \<open>Identifiers from canonical text\<close>

text \<open>
  What an identifier scheme needs: a text for each value that two values share exactly when they
  have the same canonical form. Then equal (truncated) hashes mean equal canonical forms, unless the
  two texts at hand collide.
\<close>

locale identity_text =
  fixes text_of :: "'a \<Rightarrow> string result" and norm :: "'a \<Rightarrow> 'a result" and good :: "'a \<Rightarrow> bool"
  assumes text_of_norm: "good v \<Longrightarrow> good w \<Longrightarrow> norm v = norm w \<Longrightarrow> text_of v = text_of w"
    and norm_of_text: "good v \<Longrightarrow> good w \<Longrightarrow> text_of v = Inr b \<Longrightarrow> text_of w = Inr b \<Longrightarrow> norm v = norm w"
begin

definition ident :: "string \<Rightarrow> nat \<Rightarrow> 'a \<Rightarrow> string result" where
  "ident pre n v = bnd (text_of v) (\<lambda>b. Inr (pre @ ''.'' @ take n (sha256 b)))"

lemma ident_norm: "good v \<Longrightarrow> good w \<Longrightarrow> norm v = norm w \<Longrightarrow> ident pre n v = ident pre n w"
  by (simp add: ident_def text_of_norm [of v w])

lemma ident_inj:
  assumes "good v" and "good w" and "ident pre n v = Inr i" and "ident pre n w = Inr i"
    and "text_of v = Inr b" and "text_of w = Inr c"
    and "inj_on (\<lambda>b. take n (sha256 b)) {b, c}"
  shows "norm v = norm w"
proof -
  have "take n (sha256 b) = take n (sha256 c)" using assms(3-6) by (auto simp: ident_def)
  then have "b = c" using assms(7) by (auto dest: inj_onD)
  then show ?thesis using assms norm_of_text by blast
qed

end

interpretation c2e_identity: identity_text canonical_bytes canonicalize wf_val
proof unfold_locales
  fix v w :: pyval and b
  assume wf: "wf_val v" "wf_val w" and eqs: "canonical_bytes v = Inr b" "canonical_bytes w = Inr b"
  obtain v' where v': "canonicalize v = Inr v'" "canonical v'" "b = jtext v'"
    using canonical_bytes_Inr [OF wf(1) eqs(1)] .
  obtain w' where w': "canonicalize w = Inr w'" "canonical w'" "b = jtext w'"
    using canonical_bytes_Inr [OF wf(2) eqs(2)] .
  show "canonicalize v = canonicalize w" using v' w' jtext_inj by simp
qed (rule canonical_bytes_eq_canonicalize)

lemma digest_ident: "digest pre v n = c2e_identity.ident pre n v"
  by (simp add: digest_def sha256_hex_def c2e_identity.ident_def bnd_assoc)

lemma digest_Inr [result_simps]:
  "digest pre v n = Inr i \<longleftrightarrow> (\<exists>b. canonical_bytes v = Inr b \<and> i = pre @ ''.'' @ take n (sha256 b))"
  by (auto simp: digest_def sha256_hex_def bnd_eq_Inr)

subsection \<open>Decimals\<close>

lemma fmt_f_no_exponent: "dec_is_finite d \<Longrightarrow> \<not> has_exponent (fmt_f d)"
proof -
  assume "dec_is_finite d"
  then obtain s c e where d: "d = DFin s c e" by (cases d) auto
  have "set (nat_str c) \<subseteq> {x. is_digit x}" using nat_str_digits [of c] by (auto simp: list_all_iff)
  then have n: "CHR ''e'' \<notin> set (nat_str c)" "CHR ''E'' \<notin> set (nat_str c)" by (auto simp: is_digit_def)
  show ?thesis unfolding d has_exponent_def using n
    by (auto simp: Let_def dest!: in_set_takeD in_set_dropD)
qed

lemma canonical_decimal_Inr:
  assumes "canonical_decimal value (VInt p) ae = Inr s"
  obtains d c sg where "p \<ge> 0" and "dec_parse (py_str value) = Some d" and "dec_is_finite d"
    and "dec_val (DFin sg c (- p)) = dec_val d" and "s = fmt_f (DFin sg c (- p))"
    and "c \<noteq> 0 \<longrightarrow> ndigits c \<le> default_prec" and "c = 0 \<longrightarrow> \<not> sg"
proof -
  from assms have p: "p \<ge> 0" by (auto simp: canonical_decimal_def num_of_def Let_def split: if_splits)
  from assms obtain d where d: "dec_parse (py_str value) = Some d" "dec_is_finite d"
    by (auto simp: canonical_decimal_def num_of_def Let_def split: if_splits option.splits)
  with assms p obtain q where q: "dec_quantize d (nat p) = Inr q" "dec_eq q d"
      "s = fmt_f (if dec_eq q (DFin False 0 0) then dec_abs default_prec q else q)"
    by (auto simp: canonical_decimal_def num_of_def Let_def bnd_eq_Inr split: if_splits)
  obtain t c where qf: "q = DFin t c (- p)"
    using dec_quantize_finite [OF q(1) d(2)] p by auto
  have val: "dec_val q = dec_val d" using q(2) d(2) qf by (simp add: dec_eq_val del: dec_eq.simps)
  have nd: "c \<noteq> 0 \<longrightarrow> ndigits c \<le> default_prec"
    using q(1) qf d(2) by (cases d) (auto simp: Let_def split: if_splits)
  have zero: "dec_eq q (DFin False 0 0) \<longleftrightarrow> c = 0" by (simp add: qf Let_def)
  show ?thesis
  proof (cases "c = 0")
    case True
    then have "dec_abs default_prec q = DFin False 0 (- p)"
      by (simp add: qf dec_fix_def ndigits_def default_prec_def nat_str.simps)
    then show ?thesis using that [of d False 0] p d val True qf zero q(3) by simp
  next
    case False
    then show ?thesis using that [of d t c] p d val nd qf zero q(3) by simp
  qed
qed

lemma dec_parse_fmt_fixed:
  assumes "p \<ge> 0"
  shows "dec_parse (fmt_f (DFin sg c (- p))) = Some (DFin sg c (- p))"
  using assms dec_parse_fmt_f_neg [of "- p" sg c] dec_parse_fmt_f_nonneg [of "- p" sg c]
  by (cases "p = 0") auto

lemma dec_eq_refl: "dec_is_finite d \<Longrightarrow> dec_eq d d"
  by (simp add: dec_eq_val)

subsection \<open>Properties\<close>

text \<open>C34: canonical bytes are an injective encoding of canonical forms. Of two well-formed values, the
  second serializes to the bytes of the first exactly when the two have the same canonical form; in
  particular no two different canonical values ever share an identifier text.\<close>

theorem canonical_bytes_injective:
  assumes "wf_val v" and "wf_val w" and "canonical_bytes v = Inr b"
  shows "canonical_bytes w = Inr b \<longleftrightarrow> canonicalize w = canonicalize v"
  using assms c2e_identity.norm_of_text [of w v b] canonical_bytes_eq_canonicalize [of w v] by auto

theorem canonical_bytes_injective_witness:
  "canonical_bytes (VDict [(''b'', VTuple [VInt 1]), (''a'', VNone)]) = Inr ''{\"a\":null,\"b\":[1]}'' \<and>
   canonicalize (VDict [(''a'', VNone), (''b'', VList [VInt 1])]) =
     canonicalize (VDict [(''b'', VTuple [VInt 1]), (''a'', VNone)])"
proof -
  let ?v = "VDict [(''b'', VTuple [VInt 1]), (''a'', VNone)]"
  let ?w = "VDict [(''a'', VNone), (''b'', VList [VInt 1])]"
  let ?b = "''{\"a\":null,\"b\":[1]}''"
  have v: "wf_val ?v" "wf_val ?w" by code_simp+
  have b: "canonical_bytes ?v = Inr ?b" "canonical_bytes ?w = Inr ?b" by code_simp+
  show ?thesis using canonical_bytes_injective [OF v b(1)] b by blast
qed

text \<open>The insertion order of dictionary keys, at any depth, and the difference between tuple and
  list do not reach the canonical bytes or any identifier derived from them.\<close>

theorem key_order_invisible:
  assumes "reorder v w" and "wf_val v" and "wf_val w"
  shows "canonical_bytes v = canonical_bytes w \<and> digest pre v n = digest pre w n"
  using canonical_bytes_eq_canonicalize [OF canonicalize_reorder [OF assms]]
  by (simp add: digest_def sha256_hex_def)

theorem key_order_invisible_witness:
  "digest ''X'' (VDict [(''b'', VTuple [VInt 1]), (''a'', VNone)]) 24 =
   digest ''X'' (VDict [(''a'', VNone), (''b'', VList [VInt 1])]) 24"
proof -
  let ?v = "VDict [(''b'', VTuple [VInt 1]), (''a'', VNone)]"
  let ?w = "VDict [(''a'', VNone), (''b'', VList [VInt 1])]"
  have "reorder ?v ?w"
    by (rule reorder_dict) (auto intro: reorder_refl reorder_tuple split: if_splits)
  moreover have "wf_val ?v" "wf_val ?w" by code_simp+
  ultimately show ?thesis using key_order_invisible by blast
qed

text \<open>C35: a decimal text denotes exactly the number it was made from, with the precision asked for,
  and is a fixed point of the function: nothing is rounded.\<close>

theorem canonical_decimal_exact:
  assumes "canonical_decimal value (VInt p) allow_exponent = Inr s"
  shows "(\<exists>d sg c. dec_parse (py_str value) = Some d \<and> dec_parse s = Some (DFin sg c (- p)) \<and>
           dec_val (DFin sg c (- p)) = dec_val d) \<and>
         canonical_decimal (VStr s) (VInt p) False = Inr s"
proof -
  obtain d c sg where h: "p \<ge> 0" "dec_parse (py_str value) = Some d" "dec_is_finite d"
    "dec_val (DFin sg c (- p)) = dec_val d" "s = fmt_f (DFin sg c (- p))"
    "c \<noteq> 0 \<longrightarrow> ndigits c \<le> default_prec" "c = 0 \<longrightarrow> \<not> sg"
    using canonical_decimal_Inr [OF assms] .
  note parse = dec_parse_fmt_fixed [OF h(1), of sg c]
  have q: "dec_quantize (DFin sg c (- p)) (nat p) = Inr (DFin sg c (- p))"
    using h(1,6) by (auto simp: Let_def rescale_def)
  have "\<not> has_exponent s" using fmt_f_no_exponent [of "DFin sg c (- p)"] h(5) by (simp del: fmt_f.simps)
  moreover have "fmt_f (if dec_eq (DFin sg c (- p)) (DFin False 0 0)
      then dec_abs default_prec (DFin sg c (- p)) else DFin sg c (- p)) = s"
    using h(5,7) by (auto simp: dec_fix_def ndigits_def default_prec_def nat_str.simps Let_def
        simp del: fmt_f.simps)
  ultimately have "canonical_decimal (VStr s) (VInt p) False = Inr s"
    using h(1) parse q dec_eq_refl [of "DFin sg c (- p)"] unfolding h(5)
    by (simp add: canonical_decimal_def num_of_def Let_def del: fmt_f.simps dec_eq.simps dec_abs.simps
        dec_quantize.simps)
  then show ?thesis using h parse by (auto simp del: dec_val.simps fmt_f.simps)
qed

theorem canonical_decimal_exact_witness:
  "canonical_decimal (VStr ''-01.50'') (VInt 3) False = Inr ''-1.500'' \<and>
   canonical_decimal (VStr ''-1.500'') (VInt 3) False = Inr ''-1.500''"
proof -
  have "canonical_decimal (VStr ''-01.50'') (VInt 3) False = Inr ''-1.500''" by code_simp
  with canonical_decimal_exact [OF this] show ?thesis by blast
qed

end
