(* ===== verification/C2E_Models.thy ===== *)
theory C2E_Models
  imports C2E_Serialization
begin

section \<open>C2E v0.2: semantic records\<close>

text \<open>
  \<^verbatim>\<open>src/src/ovc/opt_b/c2e_v2/models.py\<close>: the ten record kinds, the builder that checks a payload and
  derives the identifier and the hash of the record, and the validator that rebuilds a record and
  compares. A record is a dictionary, as in the source; \<^verbatim>\<open>copy.deepcopy\<close> is the identity on values.
  The lemmas invert \<open>build_record\<close> once, for every component that emits records: what a built
  record holds, that it is accepted by \<open>validate_record\<close> unchanged, and that its identifier
  stands for its identity fields.
\<close>

record record_spec =
  schema_of :: string
  id_field :: string
  prefix_of :: string
  required :: "string list"
  identity :: "string list"
  forbidden_identity :: "string list"

definition RECORD_SPECS :: "(string \<times> record_spec) list" where
  "RECORD_SPECS =
    [(''episode_genesis'', \<lparr>schema_of = ''c2e_episode_genesis/v0_2'', id_field = ''episode_id'', prefix_of = ''C2E.EPISODE'',
       required = [''boundary_pack_id'', ''source_release_id'', ''instrument_id'', ''side'',
                   ''scope_id'', ''scale_id'', ''birth_frame_id'',
                   ''birth_boundary_rule_id'', ''birth_effective_time'',
                   ''first_valid_time'', ''authority''],
       identity = [''boundary_pack_id'', ''source_release_id'', ''instrument_id'', ''side'',
                   ''scope_id'', ''scale_id'', ''birth_frame_id'',
                   ''birth_boundary_rule_id'', ''birth_effective_time'',
                   ''first_valid_time''],
       forbidden_identity = [''member_ids'', ''end_time'', ''status'',
                             ''terminal_boundary_id'', ''snapshot_ids'', ''family_id'',
                             ''semantic_label'', ''outcome'']\<rparr>),
     (''episode_snapshot'', \<lparr>schema_of = ''c2e_episode_snapshot/v0_2'', id_field = ''snapshot_id'', prefix_of = ''C2E.SNAPSHOT'',
       required = [''episode_id'', ''as_of_time'', ''first_valid_time'', ''status'',
                   ''member_ids'', ''phase_segment_ids'', ''boundary_event_ids'',
                   ''authority''],
       identity = [''episode_id'', ''as_of_time'', ''first_valid_time'', ''status'',
                   ''member_ids'', ''phase_segment_ids'', ''boundary_event_ids''],
       forbidden_identity = []\<rparr>),
     (''phase_segment'', \<lparr>schema_of = ''c2e_phase_segment/v0_2'', id_field = ''phase_segment_id'', prefix_of = ''C2E.PHASE'',
       required = [''episode_id'', ''phase_type'', ''start_time'', ''end_time'',
                   ''first_valid_time'', ''source_record_ids'', ''authority''],
       identity = [''episode_id'', ''phase_type'', ''start_time'', ''end_time'',
                   ''first_valid_time'', ''source_record_ids''],
       forbidden_identity = []\<rparr>),
     (''boundary_event'', \<lparr>schema_of = ''c2e_boundary_event/v0_2'', id_field = ''boundary_event_id'', prefix_of = ''C2E.BOUNDARY'',
       required = [''episode_ids'', ''candidate_ids'', ''lifecycle_action'',
                   ''priority_class'', ''compatibility_disposition'', ''effective_time'',
                   ''confirmation_time'', ''first_valid_time'', ''collision_disposition'',
                   ''reason_codes'', ''authority''],
       identity = [''episode_ids'', ''candidate_ids'', ''lifecycle_action'',
                   ''priority_class'', ''compatibility_disposition'', ''effective_time'',
                   ''confirmation_time'', ''first_valid_time'', ''collision_disposition'',
                   ''reason_codes''],
       forbidden_identity = []\<rparr>),
     (''lineage_edge'', \<lparr>schema_of = ''c2e_lineage_edge/v0_2'', id_field = ''lineage_edge_id'', prefix_of = ''C2E.EDGE'',
       required = [''edge_type'', ''parent_episode_id'', ''child_episode_id'',
                   ''boundary_event_id'', ''effective_time'', ''first_valid_time'',
                   ''authority''],
       identity = [''edge_type'', ''parent_episode_id'', ''child_episode_id'',
                   ''boundary_event_id'', ''effective_time'', ''first_valid_time''],
       forbidden_identity = []\<rparr>),
     (''membership_delta'', \<lparr>schema_of = ''c2e_membership_delta/v0_2'', id_field = ''membership_delta_id'', prefix_of = ''C2E.MEMBER'',
       required = [''episode_id'', ''frame_id'', ''operation'', ''boundary_event_id'',
                   ''effective_time'', ''first_valid_time'', ''authority''],
       identity = [''episode_id'', ''frame_id'', ''operation'', ''boundary_event_id'',
                   ''effective_time'', ''first_valid_time''],
       forbidden_identity = []\<rparr>),
     (''remap_record'', \<lparr>schema_of = ''c2e_remap_record/v0_2'', id_field = ''remap_record_id'', prefix_of = ''C2E.REMAP'',
       required = [''from_boundary_pack_id'', ''to_boundary_pack_id'', ''from_episode_ids'',
                   ''to_episode_ids'', ''mapping_type'', ''comparison_only'',
                   ''first_valid_time'', ''authority''],
       identity = [''from_boundary_pack_id'', ''to_boundary_pack_id'', ''from_episode_ids'',
                   ''to_episode_ids'', ''mapping_type'', ''comparison_only'',
                   ''first_valid_time''],
       forbidden_identity = []\<rparr>),
     (''stream_manifest'', \<lparr>schema_of = ''c2e_stream_manifest/v0_2'', id_field = ''stream_manifest_id'', prefix_of = ''C2E.STREAM'',
       required = [''source_binding'', ''boundary_pack_id'', ''schema_ids'',
                   ''code_hashes'', ''ordered_record_ids'', ''ordered_record_hashes'',
                   ''counts'', ''missingness'', ''authority''],
       identity = [''source_binding'', ''boundary_pack_id'', ''schema_ids'',
                   ''code_hashes'', ''ordered_record_ids'', ''ordered_record_hashes'',
                   ''counts'', ''missingness'', ''authority''],
       forbidden_identity = []\<rparr>),
     (''checkpoint'', \<lparr>schema_of = ''c2e_checkpoint/v0_2'', id_field = ''checkpoint_id'', prefix_of = ''C2E.CHECKPOINT'',
       required = [''stream_manifest_id'', ''completed_partitions'', ''logical_cursor'',
                   ''semantic_prefix_hash'', ''replaceable'', ''authority''],
       identity = [''stream_manifest_id'', ''completed_partitions'', ''logical_cursor'',
                   ''semantic_prefix_hash''],
       forbidden_identity = []\<rparr>),
     (''sri_handoff'', \<lparr>schema_of = ''c2e_sri_handoff/v0_1'', id_field = ''handoff_id'', prefix_of = ''C2E.SRI.HANDOFF'',
       required = [''episode_id'', ''boundary_pack_id'', ''source_release_id'',
                   ''scope_id'', ''scale_id'', ''side'', ''status'', ''genesis_ref'',
                   ''snapshot_ref'', ''phase_refs'', ''boundary_refs'', ''lineage_refs'',
                   ''membership_refs'', ''availability'', ''first_valid_time'',
                   ''authority''],
       identity = [''episode_id'', ''boundary_pack_id'', ''source_release_id'',
                   ''scope_id'', ''scale_id'', ''side'', ''status'', ''genesis_ref'',
                   ''snapshot_ref'', ''phase_refs'', ''boundary_refs'', ''lineage_refs'',
                   ''membership_refs'', ''availability'', ''first_valid_time''],
       forbidden_identity = []\<rparr>)]"

definition SORTED_LIST_FIELDS :: "string list" where
  "SORTED_LIST_FIELDS =
    [''member_ids'', ''phase_segment_ids'', ''boundary_event_ids'', ''episode_ids'',
      ''candidate_ids'', ''reason_codes'', ''source_record_ids'', ''from_episode_ids'',
      ''to_episode_ids'', ''schema_ids'', ''code_hashes'', ''completed_partitions'',
      ''phase_refs'', ''boundary_refs'', ''lineage_refs'', ''membership_refs'']"

definition canonical_field_value :: "string \<Rightarrow> pyval \<Rightarrow> pyval result" where
  "canonical_field_value key value =
    (if key \<in> set SORTED_LIST_FIELDS then
       (case value of VList xs \<Rightarrow> Inr (VList (sort_key py_str xs))
        | _ \<Rightarrow> Inl (Exn C2EModelError (''LIST_REQUIRED:'' @ key)))
     else Inr value)"

text \<open>The checks that only some kinds have.\<close>

definition SRI_FORBIDDEN :: "string list" where
  "SRI_FORBIDDEN = [''representation'', ''normalization'', ''distance'', ''family'', ''medoid'', ''cluster'',
     ''sensitivity'', ''semantic_label'', ''outcome'']"

definition kind_checks :: "string \<Rightarrow> record_spec \<Rightarrow> pydict \<Rightarrow> unit result" where
  "kind_checks kind spec rec =
    (let rq = req C2EModelError in
     bnd (if kind = ''episode_genesis'' then
            bnd (mapM (\<lambda>f. rq (\<not> dhas rec f) (''GENESIS_FUTURE_FIELD_DENIED:'' @ f)) (forbidden_identity spec)) (\<lambda>_. Inr ())
          else Inr ()) (\<lambda>_.
     bnd (if kind = ''remap_record'' then
            bnd (ditem rec ''comparison_only'') (\<lambda>c. bnd (rq (c = VBool True) ''REMAP_COMPARISON_ONLY_REQUIRED'') (\<lambda>_.
            bnd (ditem rec ''authority'') (\<lambda>a. rq (a = VStr ''COMPARISON_ONLY'') ''REMAP_AUTHORITY_INVALID'')))
          else Inr ()) (\<lambda>_.
     bnd (if kind = ''checkpoint'' then
            bnd (ditem rec ''replaceable'') (\<lambda>c. bnd (rq (c = VBool True) ''CHECKPOINT_MUST_BE_REPLACEABLE'') (\<lambda>_.
            bnd (ditem rec ''authority'') (\<lambda>a. rq (a = VStr ''OPERATIONAL_NON_SEMANTIC'') ''CHECKPOINT_SEMANTIC_AUTHORITY_DENIED'')))
          else Inr ()) (\<lambda>_.
     if kind = ''sri_handoff'' then
       bnd (rq (\<not> list_ex (dhas rec) SRI_FORBIDDEN) ''SRI_PRODUCER_OWNERSHIP_BREACH'') (\<lambda>_.
       bnd (ditem rec ''authority'') (\<lambda>a. rq (a = VStr ''READ_ONLY_PRODUCER_HANDOFF'') ''SRI_HANDOFF_AUTHORITY_INVALID''))
     else Inr ()))))"

definition build_record :: "string \<Rightarrow> pydict \<Rightarrow> pydict result" where
  "build_record kind payload =
    (case map_of RECORD_SPECS kind of
       None \<Rightarrow> Inl (Exn C2EModelError (''UNKNOWN_RECORD_KIND:'' @ kind))
     | Some spec \<Rightarrow>
       bnd (mapM (\<lambda>(key, value). bnd (canonical_field_value key value) (\<lambda>w. Inr (key, w))) payload) (\<lambda>rec.
       bnd (mapM (\<lambda>field. req C2EModelError
              (case map_of rec field of None \<Rightarrow> False | Some v \<Rightarrow> v \<noteq> VNone \<and> v \<noteq> VStr [])
              (''REQUIRED_FIELD:'' @ kind @ '':'' @ field)) (required spec)) (\<lambda>_.
       bnd (kind_checks kind spec rec) (\<lambda>_.
       bnd (mapM (\<lambda>field. bnd (ditem rec field) (\<lambda>v. Inr (field, v))) (identity spec)) (\<lambda>identity_payload.
       let rec1 = AList.update ''schema'' (VStr (schema_of spec)) rec in
       bnd (digest (prefix_of spec) (VDict identity_payload) 32) (\<lambda>i.
       let rec2 = AList.update (id_field spec) (VStr i) rec1 in
       bnd (logical_record_hash rec2) (\<lambda>h.
       Inr (AList.update ''logical_hash'' (VStr h) rec2))))))))"

definition validate_record :: "string \<Rightarrow> pydict \<Rightarrow> pydict result" where
  "validate_record kind rec =
    (case map_of RECORD_SPECS kind of
       None \<Rightarrow> Inl (Exn C2EModelError (''UNKNOWN_RECORD_KIND:'' @ kind))
     | Some spec \<Rightarrow>
       bnd (build_record kind
              (filter (\<lambda>(key, value). key \<notin> {''schema'', id_field spec, ''logical_hash''}) rec)) (\<lambda>expected.
       bnd (ditem expected ''schema'') (\<lambda>s.
       bnd (req C2EModelError (py_eq (dget rec ''schema'' VNone) s) ''SCHEMA_ID_MISMATCH'') (\<lambda>_.
       bnd (ditem expected (id_field spec)) (\<lambda>i.
       bnd (req C2EModelError (py_eq (dget rec (id_field spec) VNone) i) ''RECORD_ID_MISMATCH'') (\<lambda>_.
       bnd (ditem expected ''logical_hash'') (\<lambda>h.
       bnd (req C2EModelError (py_eq (dget rec ''logical_hash'' VNone) h) ''LOGICAL_HASH_MISMATCH'') (\<lambda>_.
       Inr expected))))))))"

definition identity_fields :: "string \<Rightarrow> string list result" where
  "identity_fields kind =
    (case map_of RECORD_SPECS kind of
       None \<Rightarrow> Inl (Exn C2EModelError (''UNKNOWN_RECORD_KIND:'' @ kind))
     | Some spec \<Rightarrow> Inr (identity spec))"

subsection \<open>What a built record holds\<close>

text \<open>The value a field ends up with, when the builder accepts it.\<close>

definition norm_field :: "string \<Rightarrow> pyval \<Rightarrow> pyval" where
  "norm_field k v = (case v of VList xs \<Rightarrow> if k \<in> set SORTED_LIST_FIELDS then VList (sort_key py_str xs) else v | _ \<Rightarrow> v)"

definition field_ok :: "string \<Rightarrow> pyval \<Rightarrow> bool" where
  "field_ok k v \<longleftrightarrow> k \<in> set SORTED_LIST_FIELDS \<longrightarrow> is_list v"

abbreviation norm_payload :: "pydict \<Rightarrow> pydict" where
  "norm_payload p \<equiv> map (\<lambda>(k, v). (k, norm_field k v)) p"

definition present :: "pydict \<Rightarrow> string \<Rightarrow> bool" where
  "present d f \<longleftrightarrow> (case map_of d f of None \<Rightarrow> False | Some v \<Rightarrow> v \<noteq> VNone \<and> v \<noteq> VStr [])"

abbreviation identity_payload :: "record_spec \<Rightarrow> pydict \<Rightarrow> pydict" where
  "identity_payload spec d \<equiv> map (\<lambda>f. (f, the (map_of d f))) (identity spec)"

lemma canonical_field_value_norm:
  "canonical_field_value k v = (if field_ok k v then Inr (norm_field k v) else Inl (Exn C2EModelError (''LIST_REQUIRED:'' @ k)))"
  by (cases v) (simp_all add: canonical_field_value_def norm_field_def field_ok_def)

lemma norm_field_idem [simp]: "norm_field k (norm_field k v) = norm_field k v"
  by (simp add: norm_field_def split: pyval.split)

lemma field_ok_norm [simp]: "field_ok k (norm_field k v) = field_ok k v"
  by (simp add: norm_field_def field_ok_def split: pyval.split)

lemma norm_field_plain [simp]: "k \<notin> set SORTED_LIST_FIELDS \<Longrightarrow> norm_field k v = v"
  by (simp add: norm_field_def split: pyval.split)

lemma norm_field_not_list: "\<not> is_list v \<Longrightarrow> norm_field k v = v"
  by (cases v) (simp_all add: norm_field_def)

lemma mapM_canonical_field_value:
  "mapM (\<lambda>(k, v). bnd (canonical_field_value k v) (\<lambda>w. Inr (k, w))) p = Inr rec \<longleftrightarrow>
    (\<forall>(k, v) \<in> set p. field_ok k v) \<and> rec = norm_payload p"
  by (induction p arbitrary: rec) (auto simp: canonical_field_value_norm result_simps list_all2_Cons1 split: if_splits)

lemma map_of_norm_payload: "map_of (norm_payload p) k = map_option (norm_field k) (map_of p k)"
  by (induction p) auto

definition spec_wf :: "record_spec \<Rightarrow> bool" where
  "spec_wf spec \<longleftrightarrow> id_field spec \<noteq> ''schema'' \<and> id_field spec \<noteq> ''logical_hash'' \<and>
     list_all (\<lambda>f. f \<in> set (required spec)) (identity spec) \<and> distinct (identity spec) \<and>
     ''schema'' \<notin> set (identity spec) \<and> ''logical_hash'' \<notin> set (identity spec) \<and>
     id_field spec \<notin> set (identity spec) \<and> id_field spec \<notin> set SORTED_LIST_FIELDS"

lemma RECORD_SPECS_wf: "list_all (\<lambda>(kind, spec). spec_wf spec) RECORD_SPECS"
  by code_simp

lemma spec_shape:
  assumes "map_of RECORD_SPECS kind = Some spec"
  shows "id_field spec \<noteq> ''schema''" "id_field spec \<noteq> ''logical_hash''" "set (identity spec) \<subseteq> set (required spec)"
    and "distinct (identity spec)" and "''schema'' \<notin> set (identity spec)" "''logical_hash'' \<notin> set (identity spec)"
    and "id_field spec \<notin> set (identity spec)" "id_field spec \<notin> set SORTED_LIST_FIELDS"
proof -
  have "spec_wf spec" using RECORD_SPECS_wf map_of_SomeD [OF assms] by (auto simp: list_all_iff)
  then show "id_field spec \<noteq> ''schema''" "id_field spec \<noteq> ''logical_hash''" "set (identity spec) \<subseteq> set (required spec)"
    "distinct (identity spec)" "''schema'' \<notin> set (identity spec)" "''logical_hash'' \<notin> set (identity spec)"
    "id_field spec \<notin> set (identity spec)" "id_field spec \<notin> set SORTED_LIST_FIELDS"
    by (auto simp: spec_wf_def list_all_iff)
qed

text \<open>The builder as an equation: what it checks and what it returns.\<close>

lemma build_record_Inr:
  assumes "map_of RECORD_SPECS kind = Some spec"
  shows "build_record kind p = Inr r \<longleftrightarrow>
    (\<forall>(k, v) \<in> set p. field_ok k v) \<and> (\<forall>f \<in> set (required spec). present (norm_payload p) f) \<and>
    is_ok (kind_checks kind spec (norm_payload p)) \<and>
    (\<exists>i h. digest (prefix_of spec) (VDict (identity_payload spec (norm_payload p))) 32 = Inr i \<and>
       logical_record_hash (AList.update (id_field spec) (VStr i)
         (AList.update ''schema'' (VStr (schema_of spec)) (norm_payload p))) = Inr h \<and>
       r = AList.update ''logical_hash'' (VStr h) (AList.update (id_field spec) (VStr i)
         (AList.update ''schema'' (VStr (schema_of spec)) (norm_payload p))))"
    (is "?l \<longleftrightarrow> ?r")
proof -
  have pres: "(case map_of d f of None \<Rightarrow> False | Some v \<Rightarrow> v \<noteq> VNone \<and> v \<noteq> VStr []) = present d f" for d f
    by (simp add: present_def)
  have id: "\<forall>f \<in> set (identity spec). map_of (norm_payload p) f \<noteq> None"
    if "\<forall>f \<in> set (required spec). present (norm_payload p) f"
    using that spec_shape(3) [OF assms] by (force simp: present_def split: option.splits)
  have kc: "kind_checks kind spec d = Inr u \<longleftrightarrow> is_ok (kind_checks kind spec d)" for d u
    by (cases "kind_checks kind spec d") simp_all
  show ?thesis
    unfolding build_record_def assms option.case bnd_eq_Inr mapM_canonical_field_value pres mapM_req mapM_ditem kc
      Let_def
    using id by (auto simp del: id_apply)
qed

lemma build_record_known: "build_record kind p = Inr r \<Longrightarrow> \<exists>spec. map_of RECORD_SPECS kind = Some spec"
  by (cases "map_of RECORD_SPECS kind") (auto simp: build_record_def)

definition derived_fields :: "record_spec \<Rightarrow> string set" where
  "derived_fields spec = {''schema'', id_field spec, ''logical_hash''}"

lemma build_record_map_of:
  assumes "build_record kind p = Inr r" and "map_of RECORD_SPECS kind = Some spec"
  shows "map_of r ''schema'' = Some (VStr (schema_of spec))"
    and "k \<notin> derived_fields spec \<Longrightarrow> map_of r k = map_option (norm_field k) (map_of p k)"
    and "\<exists>i. map_of r (id_field spec) = Some (VStr i)"
    and "\<exists>h. map_of r ''logical_hash'' = Some (VStr h)"
  using assms(1) spec_shape(1,2) [OF assms(2)]
  by (auto simp: build_record_Inr [OF assms(2)] derived_fields_def map_of_norm_payload)

lemma build_record_id:
  assumes "build_record kind p = Inr r" and "map_of RECORD_SPECS kind = Some spec"
  obtains i where "map_of r (id_field spec) = Some (VStr i)"
    and "digest (prefix_of spec) (VDict (identity_payload spec r)) 32 = Inr i"
proof -
  let ?n = "norm_payload p"
  from assms(1) obtain i h where i: "digest (prefix_of spec) (VDict (identity_payload spec ?n)) 32 = Inr i"
    and r: "r = AList.update ''logical_hash'' (VStr h) (AList.update (id_field spec) (VStr i)
         (AList.update ''schema'' (VStr (schema_of spec)) ?n))"
    by (auto simp: build_record_Inr [OF assms(2)])
  note sh = spec_shape [OF assms(2)]
  have "identity_payload spec r = identity_payload spec ?n"
    using sh by (auto simp: r)
  moreover have "map_of r (id_field spec) = Some (VStr i)" using sh by (simp add: r)
  ultimately show ?thesis using that i by metis
qed

lemma build_record_identity:
  assumes "build_record kind p = Inr r" and "map_of RECORD_SPECS kind = Some spec"
  shows "identity_payload spec r = identity_payload spec (norm_payload p)"
proof -
  note sh = spec_shape [OF assms(2)]
  have "map_of r f = map_of (norm_payload p) f" if "f \<in> set (identity spec)" for f
  proof -
    have "f \<notin> derived_fields spec" using that sh(5-7) by (auto simp: derived_fields_def)
    then show ?thesis using build_record_map_of(2) [OF assms] by (simp add: map_of_norm_payload)
  qed
  then show ?thesis by simp
qed

lemma build_record_present:
  assumes "build_record kind p = Inr r" and "map_of RECORD_SPECS kind = Some spec" and "f \<in> set (required spec)"
  shows "present (norm_payload p) f" and "map_of p f \<noteq> None" and "map_of p f \<noteq> Some VNone" and "map_of p f \<noteq> Some (VStr [])"
proof -
  show pr: "present (norm_payload p) f" using assms by (auto simp: build_record_Inr [OF assms(2)])
  have n: "norm_field f VNone = VNone" "norm_field f (VStr []) = VStr []" by (simp_all add: norm_field_def)
  show "map_of p f \<noteq> None" "map_of p f \<noteq> Some VNone" "map_of p f \<noteq> Some (VStr [])"
    using pr n by (auto simp: present_def map_of_norm_payload split: option.splits)
qed

subsection \<open>When the builder succeeds\<close>

text \<open>Values that serialize: no float and no bare decimal inside, every dictionary well-formed.\<close>

definition hash_ok :: "pyval \<Rightarrow> bool" where
  "hash_ok v \<longleftrightarrow> wf_val v \<and> is_ok (canonicalize v)"

lemma hash_ok_simps [simp]:
  "hash_ok (VStr s)" "hash_ok VNone" "hash_ok (VBool b)" "hash_ok (VInt i)"
  "hash_ok (VList xs) \<longleftrightarrow> (\<forall>x \<in> set xs. hash_ok x)"
  "hash_ok (VDict kvs) \<longleftrightarrow> wf_dict kvs \<and> (\<forall>(k, v) \<in> set kvs. hash_ok v)"
  by (auto simp: hash_ok_def list_all_iff)

lemma canonical_bytes_ok: "hash_ok v \<Longrightarrow> \<exists>b. canonical_bytes v = Inr b"
  unfolding hash_ok_def is_ok_iff using canonical_bytes_jtext by blast

lemma digest_ok: "hash_ok v \<Longrightarrow> \<exists>i. digest pre v n = Inr i"
  using canonical_bytes_ok by (fastforce simp: digest_Inr)

lemma hash_ok_norm_field: "hash_ok v \<Longrightarrow> hash_ok (norm_field k v)"
  by (cases v) (simp_all add: norm_field_def)

lemma norm_field_blank [simp]: "norm_field k v = VNone \<longleftrightarrow> v = VNone" "norm_field k v = VStr s \<longleftrightarrow> v = VStr s"
  by (cases v; simp add: norm_field_def)+

lemma present_norm [simp]: "present (norm_payload p) f = present p f"
  by (simp add: present_def map_of_norm_payload split: option.splits)

lemma build_record_ok:
  assumes "map_of RECORD_SPECS kind = Some spec" and "wf_dict p"
    and "\<forall>(k, v) \<in> set p. field_ok k v \<and> hash_ok v"
    and "\<forall>f \<in> set (required spec). present p f"
    and "is_ok (kind_checks kind spec (norm_payload p))"
  shows "\<exists>r. build_record kind p = Inr r"
proof -
  let ?n = "norm_payload p"
  note sh = spec_shape [OF assms(1)]
  have wf: "wf_dict ?n" using assms(2) by (simp add: wf_dict_def comp_def case_prod_beta)
  have ok: "\<forall>(k, v) \<in> set ?n. hash_ok v" using assms(3) by (auto intro: hash_ok_norm_field)
  have pr: "present ?n f" if "f \<in> set (required spec)" for f
    using assms(4) that by simp
  have some: "\<exists>v. map_of ?n f = Some v \<and> hash_ok v" if f: "f \<in> set (identity spec)" for f
  proof -
    obtain v where v: "map_of ?n f = Some v"
      using pr [of f] f sh(3) unfolding present_def by (cases "map_of ?n f") auto
    with ok show ?thesis using map_of_SomeD [OF v] by blast
  qed
  have "hash_ok (VDict (identity_payload spec ?n))"
    using some sh(4) by (fastforce simp: wf_dict_def comp_def)
  then obtain i where i: "digest (prefix_of spec) (VDict (identity_payload spec ?n)) 32 = Inr i"
    using digest_ok by blast
  let ?d = "AList.update (id_field spec) (VStr i) (AList.update ''schema'' (VStr (schema_of spec)) ?n)"
  have "\<forall>(k, v) \<in> set ?d. hash_ok v"
    using ok by (auto dest!: set_mp [OF set_update_subset])
  moreover have "wf_dict ?d" using wf by simp
  ultimately have "hash_ok (VDict (filter (\<lambda>(key, value). key \<noteq> ''logical_hash'') ?d))" by auto
  then have "\<exists>h. logical_record_hash ?d = Inr h"
    unfolding logical_record_hash_def sha256_hex_def using canonical_bytes_ok by (fastforce simp: bnd_eq_Inr)
  then show ?thesis using assms(3,5) pr i by (auto simp: build_record_Inr [OF assms(1)])
qed

subsection \<open>Validation\<close>

lemma filter_derived_build:
  assumes "build_record kind p = Inr r" and "map_of RECORD_SPECS kind = Some spec"
    and "\<forall>k \<in> fst ` set p. k \<notin> derived_fields spec"
  shows "filter (\<lambda>(k, v). k \<notin> derived_fields spec) r = norm_payload p"
proof -
  from assms(1) obtain i h where r: "r = AList.update ''logical_hash'' (VStr h) (AList.update (id_field spec) (VStr i)
         (AList.update ''schema'' (VStr (schema_of spec)) (norm_payload p)))"
    by (auto simp: build_record_Inr [OF assms(2)])
  have "filter (\<lambda>(k, v). k \<notin> derived_fields spec) r = filter (\<lambda>(k, v). k \<notin> derived_fields spec) (norm_payload p)"
    unfolding r by (simp only: filter_update_absent derived_fields_def insert_iff simp_thms not_not)
  also have "\<dots> = norm_payload p" using assms(3) by (fastforce simp: filter_id_conv)
  finally show ?thesis .
qed

lemma norm_payload_idem [simp]: "norm_payload (norm_payload p) = norm_payload p"
  by (simp add: comp_def case_prod_beta)

lemma build_record_norm:
  assumes "build_record kind p = Inr r"
  shows "build_record kind (norm_payload p) = Inr r"
proof -
  obtain spec where s: "map_of RECORD_SPECS kind = Some spec" using build_record_known [OF assms] by blast
  have "\<forall>(k, v) \<in> set (norm_payload p). field_ok k v" if "\<forall>(k, v) \<in> set p. field_ok k v"
    using that by auto
  then show ?thesis using assms unfolding build_record_Inr [OF s] norm_payload_idem by blast
qed

text \<open>A validated record has the identifier and the hash its own fields give.\<close>

lemma validate_record_Inr:
  assumes "map_of RECORD_SPECS kind = Some spec"
  shows "validate_record kind r = Inr e \<longleftrightarrow>
    build_record kind (filter (\<lambda>(k, v). k \<notin> derived_fields spec) r) = Inr e \<and>
    (\<forall>k \<in> derived_fields spec. map_of r k = map_of e k)"
proof
  assume v: "validate_record kind r = Inr e"
  then have b: "build_record kind (filter (\<lambda>(k, v). k \<notin> derived_fields spec) r) = Inr e"
    by (auto simp: validate_record_def assms result_simps derived_fields_def)
  obtain i h where m: "map_of e ''schema'' = Some (VStr (schema_of spec))"
      "map_of e (id_field spec) = Some (VStr i)" "map_of e ''logical_hash'' = Some (VStr h)"
    using build_record_map_of [OF b assms] by auto
  have d: "dget r k VNone = VStr s \<longleftrightarrow> map_of r k = Some (VStr s)" for k s
    by (simp add: dget_def split: option.split)
  from v m b show "build_record kind (filter (\<lambda>(k, v). k \<notin> derived_fields spec) r) = Inr e \<and>
    (\<forall>k \<in> derived_fields spec. map_of r k = map_of e k)"
    by (auto simp: validate_record_def assms bnd_eq_Inr req_eq_Inr ditem_Inr derived_fields_def d)
next
  assume a: "build_record kind (filter (\<lambda>(k, v). k \<notin> derived_fields spec) r) = Inr e \<and>
    (\<forall>k \<in> derived_fields spec. map_of r k = map_of e k)"
  then have b: "build_record kind (filter (\<lambda>(k, v). k \<notin> {''schema'', id_field spec, ''logical_hash''}) r) = Inr e"
    by (simp only: derived_fields_def)
  obtain i h where m: "map_of e ''schema'' = Some (VStr (schema_of spec))"
      "map_of e (id_field spec) = Some (VStr i)" "map_of e ''logical_hash'' = Some (VStr h)"
    using build_record_map_of [OF b assms] by auto
  with a show "validate_record kind r = Inr e"
    unfolding validate_record_def assms option.case b bnd_Inr
    by (simp add: ditem_def dget_def derived_fields_def)
qed

text \<open>Records and their identifiers: equal identifiers mean equal identity fields.\<close>

lemma hash_ok_wf: "hash_ok v \<Longrightarrow> wf_val v"
  by (simp add: hash_ok_def)

lemma wf_identity_payload:
  assumes "build_record kind p = Inr r" and "map_of RECORD_SPECS kind = Some spec"
    and "\<forall>(k, v) \<in> set p. wf_val v"
  shows "wf_val (VDict (identity_payload spec r))"
proof -
  note sh = spec_shape [OF assms(2)]
  have wn: "wf_val (norm_field k v)" if "wf_val v" for k v
    using that by (cases v) (simp_all add: norm_field_def list_all_iff)
  have "wf_val (the (map_of r f))" if f: "f \<in> set (identity spec)" for f
  proof -
    have "f \<notin> derived_fields spec" using f sh by (auto simp: derived_fields_def)
    then have m: "map_of r f = map_option (norm_field f) (map_of p f)"
      using build_record_map_of(2) [OF assms(1,2)] by simp
    moreover obtain v where "map_of p f = Some v"
      using build_record_present(2) [OF assms(1,2), of f] f sh(3) by auto
    moreover from this have "wf_val v" using assms(3) by (auto dest: map_of_SomeD)
    ultimately show ?thesis using wn by simp
  qed
  then show ?thesis using sh(4) by (auto simp: list_all_iff wf_dict_def comp_def)
qed

subsection \<open>Properties\<close>

text \<open>A checkpoint payload, for the examples.\<close>

definition example_checkpoint :: pydict where
  "example_checkpoint =
    [(''stream_manifest_id'', VStr ''m''), (''completed_partitions'', VList [VStr ''b'', VStr ''a'']),
     (''logical_cursor'', VStr ''c''), (''semantic_prefix_hash'', VStr ''h''), (''replaceable'', VBool True),
     (''authority'', VStr ''OPERATIONAL_NON_SEMANTIC'')]"

definition checkpoint_spec :: record_spec where
  "checkpoint_spec = the (map_of RECORD_SPECS ''checkpoint'')"

lemma checkpoint_spec: "map_of RECORD_SPECS ''checkpoint'' = Some checkpoint_spec"
  unfolding checkpoint_spec_def by (simp add: RECORD_SPECS_def)

lemma example_checkpoint_built:
  obtains r where "build_record ''checkpoint'' example_checkpoint = Inr r"
proof -
  have 1: "wf_dict example_checkpoint" by code_simp
  have 2: "\<forall>(k, v) \<in> set example_checkpoint. field_ok k v \<and> hash_ok v"
    unfolding example_checkpoint_def by (simp add: field_ok_def SORTED_LIST_FIELDS_def)
  have 3: "\<forall>f \<in> set (required checkpoint_spec). present example_checkpoint f" by code_simp
  have 4: "is_ok (kind_checks ''checkpoint'' checkpoint_spec (norm_payload example_checkpoint))" by code_simp
  show ?thesis using build_record_ok [OF checkpoint_spec 1 2 3 4] that by blast
qed

text \<open>Two lineage edges that differ in a field outside the identity.\<close>

definition example_edge :: "string \<Rightarrow> pydict" where
  "example_edge authority =
    [(''edge_type'', VStr ''NEST''), (''parent_episode_id'', VStr ''p''), (''child_episode_id'', VStr ''c''),
     (''boundary_event_id'', VStr ''b''), (''effective_time'', VStr ''t''), (''first_valid_time'', VStr ''u''),
     (''authority'', VStr authority)]"

definition edge_spec :: record_spec where
  "edge_spec = the (map_of RECORD_SPECS ''lineage_edge'')"

lemma edge_spec: "map_of RECORD_SPECS ''lineage_edge'' = Some edge_spec"
  unfolding edge_spec_def by (simp add: RECORD_SPECS_def)

lemma example_edge_built:
  assumes "a \<noteq> []"
  obtains r where "build_record ''lineage_edge'' (example_edge a) = Inr r"
    and "identity_payload edge_spec r = identity_payload edge_spec (example_edge [])"
    and "map_of r ''authority'' = Some (VStr a)"
proof -
  note d = example_edge_def edge_spec_def RECORD_SPECS_def
  have 1: "wf_dict (example_edge a)" by (simp add: d wf_dict_def)
  have 2: "\<forall>(k, v) \<in> set (example_edge a). field_ok k v \<and> hash_ok v"
    by (simp add: d field_ok_def SORTED_LIST_FIELDS_def)
  have 3: "\<forall>f \<in> set (required edge_spec). present (example_edge a) f"
    using assms by (simp add: d present_def)
  have 4: "is_ok (kind_checks ''lineage_edge'' edge_spec (norm_payload (example_edge a)))"
    by (simp add: kind_checks_def)
  obtain r where r: "build_record ''lineage_edge'' (example_edge a) = Inr r"
    using build_record_ok [OF edge_spec 1 2 3 4] by blast
  have "identity_payload edge_spec r = identity_payload edge_spec (norm_payload (example_edge a))"
    using build_record_identity [OF r edge_spec] .
  also have "\<dots> = identity_payload edge_spec (example_edge [])"
    by (simp add: d norm_field_def)
  finally have "identity_payload edge_spec r = identity_payload edge_spec (example_edge [])" .
  moreover have "map_of r ''authority'' = Some (VStr a)"
    using build_record_map_of(2) [OF r edge_spec, of "''authority''"]
    by (simp add: d derived_fields_def norm_field_def)
  ultimately show ?thesis using that r by blast
qed

lemma built_validates:
  assumes "build_record kind p = Inr r" and "map_of RECORD_SPECS kind = Some spec"
    and "\<forall>k \<in> fst ` set p. k \<notin> derived_fields spec"
  shows "validate_record kind r = Inr r"
proof -
  obtain i h where m: "map_of r ''schema'' = Some (VStr (schema_of spec))"
      "map_of r (id_field spec) = Some (VStr i)" "map_of r ''logical_hash'' = Some (VStr h)"
    using build_record_map_of [OF assms(1,2)] by auto
  have f: "filter (\<lambda>(k, v). k \<notin> {''schema'', id_field spec, ''logical_hash''}) r = norm_payload p"
    using filter_derived_build [OF assms] by (simp only: derived_fields_def)
  show ?thesis
    unfolding validate_record_def assms(2) option.case f build_record_norm [OF assms(1)] bnd_Inr
    by (simp add: ditem_def dget_def m)
qed

text \<open>C8: a record the builder returns, from a payload that names none of the derived fields, is
  accepted by the validator, which returns it unchanged.\<close>

theorem build_validate_roundtrip:
  assumes "build_record kind p = Inr r" and "map_of RECORD_SPECS kind = Some spec"
    and "\<forall>k \<in> fst ` set p. k \<notin> derived_fields spec"
  shows "validate_record kind r = Inr r"
  by (rule built_validates [OF assms])

theorem build_validate_roundtrip_witness:
  "\<exists>r. build_record ''checkpoint'' example_checkpoint = Inr r \<and> validate_record ''checkpoint'' r = Inr r"
proof -
  obtain r where r: "build_record ''checkpoint'' example_checkpoint = Inr r"
    using example_checkpoint_built .
  have "\<forall>k \<in> fst ` set example_checkpoint. k \<notin> derived_fields checkpoint_spec"
    unfolding derived_fields_def example_checkpoint_def checkpoint_spec_def RECORD_SPECS_def by simp
  then show ?thesis using build_validate_roundtrip [OF r checkpoint_spec] r by blast
qed

text \<open>C7: the identifier of a record stands for its identity fields. Two built records of one kind
  have the same identifier exactly when their identity fields have the same canonical form, provided
  the truncated SHA-256 does not collide on the two texts at hand.\<close>

theorem record_id_determines_identity:
  assumes "map_of RECORD_SPECS kind = Some spec"
    and "build_record kind p = Inr r" and "build_record kind q = Inr s"
    and "\<forall>(k, v) \<in> set p. wf_val v" and "\<forall>(k, v) \<in> set q. wf_val v"
    and "inj_on (\<lambda>t. take 32 (sha256 t))
      {t. canonical_bytes (VDict (identity_payload spec r)) = Inr t \<or>
          canonical_bytes (VDict (identity_payload spec s)) = Inr t}"
  shows "map_of r (id_field spec) = map_of s (id_field spec) \<longleftrightarrow>
    canonicalize (VDict (identity_payload spec r)) = canonicalize (VDict (identity_payload spec s))"
proof -
  obtain i where i: "map_of r (id_field spec) = Some (VStr i)"
    "c2e_identity.ident (prefix_of spec) 32 (VDict (identity_payload spec r)) = Inr i"
    using build_record_id [OF assms(2,1)] unfolding digest_ident by blast
  obtain j where j: "map_of s (id_field spec) = Some (VStr j)"
    "c2e_identity.ident (prefix_of spec) 32 (VDict (identity_payload spec s)) = Inr j"
    using build_record_id [OF assms(3,1)] unfolding digest_ident by blast
  obtain b c where bc: "canonical_bytes (VDict (identity_payload spec r)) = Inr b"
    "canonical_bytes (VDict (identity_payload spec s)) = Inr c"
    using i(2) j(2) by (auto simp: digest_ident [symmetric] digest_Inr)
  have inj: "inj_on (\<lambda>t. take 32 (sha256 t)) {b, c}"
    using assms(6) by (rule inj_on_subset) (simp add: bc)
  note wf = wf_identity_payload [OF assms(2,1,4)] wf_identity_payload [OF assms(3,1,5)]
  show ?thesis
  proof
    assume "map_of r (id_field spec) = map_of s (id_field spec)"
    then have "i = j" using i j by simp
    then show "canonicalize (VDict (identity_payload spec r)) = canonicalize (VDict (identity_payload spec s))"
      using c2e_identity.ident_inj [OF wf i(2) _ bc inj] j(2) by blast
  next
    assume "canonicalize (VDict (identity_payload spec r)) = canonicalize (VDict (identity_payload spec s))"
    then show "map_of r (id_field spec) = map_of s (id_field spec)"
      using c2e_identity.ident_norm [OF wf, of "prefix_of spec" 32] i j by simp
  qed
qed

theorem record_id_determines_identity_witness:
  "\<exists>r s. build_record ''lineage_edge'' (example_edge ''A'') = Inr r \<and>
     build_record ''lineage_edge'' (example_edge ''B'') = Inr s \<and>
     map_of r ''authority'' \<noteq> map_of s ''authority'' \<and> map_of r (id_field edge_spec) = map_of s (id_field edge_spec)"
proof -
  obtain r where r: "build_record ''lineage_edge'' (example_edge ''A'') = Inr r"
    "identity_payload edge_spec r = identity_payload edge_spec (example_edge [])" "map_of r ''authority'' = Some (VStr ''A'')"
    by (rule example_edge_built [of "''A''"]) auto
  obtain s where s: "build_record ''lineage_edge'' (example_edge ''B'') = Inr s"
    "identity_payload edge_spec s = identity_payload edge_spec (example_edge [])" "map_of s ''authority'' = Some (VStr ''B'')"
    by (rule example_edge_built [of "''B''"]) auto
  have wf: "\<forall>(k, v) \<in> set (example_edge ''A''). wf_val v" "\<forall>(k, v) \<in> set (example_edge ''B''). wf_val v"
    by code_simp+
  have "inj_on (\<lambda>t. take 32 (sha256 t))
      {t. canonical_bytes (VDict (identity_payload edge_spec r)) = Inr t \<or>
          canonical_bytes (VDict (identity_payload edge_spec s)) = Inr t}"
    unfolding r(2) s(2) by (auto simp: inj_on_def)
  from record_id_determines_identity [OF edge_spec r(1) s(1) wf this] r s show ?thesis by auto
qed
end
