(* ===== verification/C2E_Boundary_Pack.thy ===== *)
theory C2E_Boundary_Pack
  imports C2E_Models
begin

section \<open>C2E v0.2: boundary packs\<close>

text \<open>
  \<^verbatim>\<open>src/src/ovc/opt_b/c2e_v2/boundary_pack.py\<close>: normalization of the rules and of the compatibility matrix of a boundary
  pack, the identity of the pack, and the disposition of a pair of candidate types.
  The lemmas show that dispositions are symmetric and fail closed, that the order of rules and rows
  of the matrix does not reach the identity, and that freezing a pack is idempotent.
\<close>

definition COMPATIBILITY_DISPOSITIONS :: "string list" where
  "COMPATIBILITY_DISPOSITIONS =
    [''COMPATIBLE_COMPOUND'', ''ORDERED_BY_PRIORITY'', ''MUTUALLY_EXCLUSIVE_BY_RULE'', ''INCOMPATIBLE_CONFLICT'']"

definition pack_req :: "bool \<Rightarrow> string \<Rightarrow> unit result" where
  "pack_req = req BoundaryPackError"

text \<open>\<^verbatim>\<open>sorted({str(item) for item in xs})\<close> as a list value.\<close>

definition sorted_strs :: "pyval list \<Rightarrow> pyval" where
  "sorted_strs xs = VList (map VStr (sorted_set (map py_str xs)))"

text \<open>\<^verbatim>\<open>{str(k): f(v) for k, v in sorted(x.items())}\<close>\<close>

definition sorted_items :: "(pyval \<Rightarrow> pyval result) \<Rightarrow> pyval \<Rightarrow> pyval result" where
  "sorted_items f x = (case x of
      VDict kvs \<Rightarrow> bnd (mapM (\<lambda>(k, v). bnd (f v) (\<lambda>w. Inr (k, w))) (sort_key fst kvs)) (\<lambda>ps. Inr (VDict ps))
    | _ \<Rightarrow> Inl (Exn AttributeError []))"

text \<open>The iteration \<^verbatim>\<open>for key in sorted(parameters)\<close> with \<^verbatim>\<open>parameters[key]\<close> inside: only a mapping can
  be indexed by its own elements; an empty iterable runs no iteration.\<close>

definition normalize_parameters :: "pyval \<Rightarrow> pyval \<Rightarrow> pydict result" where
  "normalize_parameters parameters registry =
    bnd (as_dict (py_or registry (VDict []))) (\<lambda>precision_registry.
    bnd (iter_of parameters) (\<lambda>keys.
    bnd (py_sorted keys) (\<lambda>sorted_keys.
      foldM (\<lambda>normalized key.
        bnd (vitem parameters (str_of key)) (\<lambda>value.
        case dget precision_registry (str_of key) VNone of
          VNone \<Rightarrow> bnd (pack_req (\<not> is_float value) (''PACK_FLOAT_WITHOUT_PRECISION:'' @ str_of key))
            (\<lambda>_. Inr (AList.update (str_of key) value normalized))
        | precision \<Rightarrow> bnd (canonical_decimal value precision False)
            (\<lambda>t. Inr (AList.update (str_of key) (VStr t) normalized)))) [] sorted_keys)))"

definition normalize_rule :: "pyval \<Rightarrow> pydict result" where
  "normalize_rule rule =
    bnd (as_dict rule) (\<lambda>result.
    bnd (mapM (\<lambda>key. pack_req (py_bool (dget result key VNone)) (''BOUNDARY_RULE_REQUIRED:'' @ key))
      [''boundary_rule_id'', ''lifecycle_action'', ''candidate_type'']) (\<lambda>_.
    let priority = dget result ''priority_class'' VNone in
    bnd (pack_req (is_int priority \<and> 1 \<le> num_of priority \<and> num_of priority \<le> 8) ''BOUNDARY_PRIORITY_INVALID'') (\<lambda>_.
    let dependencies = dget result ''dependencies'' (VDict []) in
    bnd (pack_req (is_mapping dependencies) ''BOUNDARY_DEPENDENCIES_INVALID'') (\<lambda>_.
    bnd (mapM (\<lambda>role.
        bnd (vget dependencies role (VList [])) (\<lambda>values.
        bnd (pack_req (is_list values) (''BOUNDARY_DEPENDENCY_ROLE_INVALID:'' @ role)) (\<lambda>_.
        bnd (iter_of values) (\<lambda>items. Inr (role, sorted_strs items)))))
      [''REQUIRED'', ''OPTIONAL'', ''WARNING'', ''ONE_OF'', ''PROHIBITED'']) (\<lambda>normalized_deps.
    let result = AList.update ''dependencies'' (VDict normalized_deps) result in
    bnd (normalize_parameters (dget result ''parameters'' (VDict [])) (dget result ''parameter_precisions'' (VDict []))) (\<lambda>ps.
    let result = AList.update ''parameters'' (VDict ps) result in
    bnd (sorted_items (\<lambda>v. bnd (py_int v) (\<lambda>i. Inr (VInt i))) (dget result ''parameter_precisions'' (VDict []))) (\<lambda>pp.
    Inr (AList.update ''parameter_precisions'' pp result))))))))"

definition compatibility_key :: "pyval \<Rightarrow> pyval \<Rightarrow> string \<times> string" where
  "compatibility_key a b = (min (py_str a) (py_str b), max (py_str a) (py_str b))"

record compat_row =
  candidate_type_a :: string
  candidate_type_b :: string
  disposition :: string

definition normalize_compat_row :: "pyval \<Rightarrow> (string \<times> string) list \<Rightarrow> compat_row result" where
  "normalize_compat_row raw seen =
    bnd (as_dict raw) (\<lambda>row.
    let (a, b) = compatibility_key (dget row ''candidate_type_a'' (VStr [])) (dget row ''candidate_type_b'' (VStr [])) in
    bnd (pack_req (a \<noteq> [] \<and> b \<noteq> []) ''COMPATIBILITY_TYPES_REQUIRED'') (\<lambda>_.
    bnd (pack_req (a \<noteq> b) ''COMPATIBILITY_SELF_PAIR_DENIED'') (\<lambda>_.
    bnd (pack_req ((a, b) \<notin> set seen) ''DUPLICATE_COMPATIBILITY_PAIR'') (\<lambda>_.
    let disposition = py_str (dget row ''disposition'' (VStr [])) in
    bnd (pack_req (disposition \<in> set COMPATIBILITY_DISPOSITIONS) ''COMPATIBILITY_DISPOSITION_INVALID'') (\<lambda>_.
    Inr \<lparr>candidate_type_a = a, candidate_type_b = b, disposition = disposition\<rparr>)))))"

definition compat_pair :: "compat_row \<Rightarrow> string \<times> string" where
  "compat_pair row = (candidate_type_a row, candidate_type_b row)"

definition normalize_compatibility :: "pyval list \<Rightarrow> compat_row list result" where
  "normalize_compatibility entries =
    bnd (foldM (\<lambda>normalized raw.
           bnd (normalize_compat_row raw (map compat_pair normalized)) (\<lambda>row. Inr (normalized @ [row]))) [] entries)
      (\<lambda>normalized. Inr (sort_key compat_pair normalized))"

definition compat_row_val :: "compat_row \<Rightarrow> pyval" where
  "compat_row_val row = VDict [(''candidate_type_a'', VStr (candidate_type_a row)),
     (''candidate_type_b'', VStr (candidate_type_b row)), (''disposition'', VStr (disposition row))]"

definition logical_pack_payload :: "pydict \<Rightarrow> pydict result" where
  "logical_pack_payload raw =
    bnd (iter_of (dget raw ''rules'' (VList []))) (\<lambda>raw_rules.
    bnd (mapM normalize_rule raw_rules) (\<lambda>rules0.
    bnd (py_sort_on (\<lambda>item. dget item ''boundary_rule_id'' VNone) rules0) (\<lambda>rules.
    bnd (pack_req (rules \<noteq> []) ''BOUNDARY_PACK_RULES_REQUIRED'') (\<lambda>_.
    let scope = dget raw ''population_scope'' (VDict []) in
    bnd (pack_req (py_bool scope) ''BOUNDARY_PACK_SCOPE_REQUIRED'') (\<lambda>_.
    let ownership = dget raw ''ownership'' (VDict []) in
    bnd (vget ownership ''peer_mode'' VNone) (\<lambda>peer_mode.
    bnd (pack_req (peer_mode = VStr ''SINGLE_OWNER'') ''OWNERSHIP_DEFAULT_MUST_BE_SINGLE_OWNER'') (\<lambda>_.
    let version = py_str (dget raw ''version'' (VStr [])); authority = py_str (dget raw ''authority'' (VStr [])) in
    bnd (iter_of (dget raw ''compatibility_matrix'' (VList []))) (\<lambda>entries.
    bnd (normalize_compatibility entries) (\<lambda>matrix.
    bnd (sorted_items (\<lambda>v. Inr (VStr (py_str v))) (dget raw ''implementation_hashes'' (VDict []))) (\<lambda>impl.
    bnd (sorted_items (\<lambda>v. Inr (VStr (py_str v))) (dget raw ''registry_hashes'' (VDict []))) (\<lambda>reg.
    bnd (pack_req (version \<noteq> []) ''BOUNDARY_PACK_VERSION_REQUIRED'') (\<lambda>_.
    bnd (pack_req (authority \<in> {''CANDIDATE'', ''SHADOW''}) ''BOUNDARY_PACK_ACTIVE_AUTHORITY_DENIED'') (\<lambda>_.
    Inr [(''version'', VStr version), (''supersedes'', dget raw ''supersedes'' VNone), (''population_scope'', scope),
         (''rules'', VList (map VDict rules)), (''compatibility_matrix'', VList (map compat_row_val matrix)),
         (''ownership'', ownership), (''topology'', dget raw ''topology'' (VDict [])),
         (''discontinuity'', dget raw ''discontinuity'' (VDict [])),
         (''conflict_policy'', dget raw ''conflict_policy'' (VDict [])),
         (''implementation_hashes'', impl), (''registry_hashes'', reg), (''authority'', VStr authority)])))))))))))))"

definition boundary_pack_id :: "pydict \<Rightarrow> string result" where
  "boundary_pack_id pack = bnd (logical_pack_payload pack) (\<lambda>p. digest ''C2E.BOUNDARY.PACK'' (VDict p) 32)"

definition freeze_pack :: "pydict \<Rightarrow> pydict result" where
  "freeze_pack pack =
    bnd (logical_pack_payload pack) (\<lambda>logical.
    bnd (boundary_pack_id pack) (\<lambda>i.
    let result = AList.update ''boundary_pack_id'' (VStr i) pack in
    bnd (sha256_hex (VDict logical)) (\<lambda>h.
    let result = AList.update ''logical_sha256'' (VStr h) result in
    Inr (AList.update ''canonical'' (VBool False) (AList.update ''active'' (VBool False) result)))))"

definition compatibility_disposition :: "pydict \<Rightarrow> pyval \<Rightarrow> pyval \<Rightarrow> string result" where
  "compatibility_disposition pack a b =
    (let key = compatibility_key a b in
     bnd (iter_of (dget pack ''compatibility_matrix'' (VList []))) (\<lambda>entries.
     bnd (normalize_compatibility entries) (\<lambda>rows.
     Inr (case find (\<lambda>row. compat_pair row = key) rows of
            Some row \<Rightarrow> disposition row
          | None \<Rightarrow> ''UNDECLARED_FAIL_CLOSED''))))"

subsection \<open>The compatibility matrix\<close>

lemma compatibility_key_commute: "compatibility_key a b = compatibility_key b a"
  by (simp add: compatibility_key_def min.commute max.commute)

text \<open>A row is checked alone, and then against the pairs seen before.\<close>

lemma normalize_compat_row_seen:
  "normalize_compat_row raw seen = Inr r \<longleftrightarrow> normalize_compat_row raw [] = Inr r \<and> compat_pair r \<notin> set seen"
  by (cases "as_dict raw")
    (auto simp: normalize_compat_row_def pack_req_def Let_def compat_pair_def result_simps case_prod_beta)

lemma normalize_compat_row_Inr:
  assumes "normalize_compat_row raw seen = Inr r"
  shows "candidate_type_a r < candidate_type_b r" and "candidate_type_a r \<noteq> []"
    and "disposition r \<in> set COMPATIBILITY_DISPOSITIONS"
  using assms
  by (cases "as_dict raw"; auto simp: normalize_compat_row_def pack_req_def Let_def compatibility_key_def min_def max_def
      result_simps case_prod_beta split: if_splits)+

interpretation compat: keyed_rows "\<lambda>seen raw. normalize_compat_row raw seen" compat_pair
  by unfold_locales (rule normalize_compat_row_seen)

lemma normalize_compatibility_table: "normalize_compatibility es = compat.table es"
  by (simp add: normalize_compatibility_def compat.table_def)

lemma compat_rows:
  assumes "normalize_compatibility es = Inr rows" and "r \<in> set rows"
  shows "candidate_type_a r < candidate_type_b r" and "disposition r \<in> set COMPATIBILITY_DISPOSITIONS"
    and "\<exists>e \<in> set es. normalize_compat_row e [] = Inr r"
  using assms compat.table_mem [of es rows r] normalize_compat_row_Inr
  unfolding normalize_compatibility_table by blast+

lemma compatibility_disposition_Inr:
  assumes "compatibility_disposition pack a b = Inr d"
  obtains es rows where "iter_of (dget pack ''compatibility_matrix'' (VList [])) = Inr es"
    and "normalize_compatibility es = Inr rows"
    and "\<And>r. r \<in> set rows \<Longrightarrow> compat_pair r = compatibility_key a b \<Longrightarrow> d = disposition r"
    and "(\<exists>r \<in> set rows. compat_pair r = compatibility_key a b) \<or> d = ''UNDECLARED_FAIL_CLOSED''"
proof -
  obtain es rows where es: "iter_of (dget pack ''compatibility_matrix'' (VList [])) = Inr es"
    and rows: "normalize_compatibility es = Inr rows"
    and d: "d = (case find (\<lambda>row. compat_pair row = compatibility_key a b) rows of
            Some row \<Rightarrow> disposition row | None \<Rightarrow> ''UNDECLARED_FAIL_CLOSED'')"
    using assms by (auto simp: compatibility_disposition_def Let_def result_simps)
  show ?thesis
  proof (rule that [OF es rows])
    show "d = disposition r" if "r \<in> set rows" "compat_pair r = compatibility_key a b" for r
      using compat.table_find [OF rows [unfolded normalize_compatibility_table] that(1)] d that(2) by simp
    show "(\<exists>r \<in> set rows. compat_pair r = compatibility_key a b) \<or> d = ''UNDECLARED_FAIL_CLOSED''"
      using d by (cases "find (\<lambda>row. compat_pair row = compatibility_key a b) rows")
        (auto simp: find_Some_iff)
  qed
qed

lemma disposition_commute: "compatibility_disposition pack a b = compatibility_disposition pack b a"
  by (simp add: compatibility_disposition_def compatibility_key_commute)

lemma disposition_self:
  assumes "compatibility_disposition pack a b = Inr d" and "py_str a = py_str b"
  shows "d = ''UNDECLARED_FAIL_CLOSED''"
proof -
  obtain es rows where r: "normalize_compatibility es = Inr rows"
    "(\<exists>r \<in> set rows. compat_pair r = compatibility_key a b) \<or> d = ''UNDECLARED_FAIL_CLOSED''"
    using compatibility_disposition_Inr [OF assms(1)] by metis
  have "compat_pair r \<noteq> compatibility_key a b" if "r \<in> set rows" for r
    using compat_rows(1) [OF r(1) that] assms(2) by (auto simp: compat_pair_def compatibility_key_def)
  with r(2) show ?thesis by blast
qed

lemma disposition_range:
  assumes "compatibility_disposition pack a b = Inr d"
  shows "d \<in> set COMPATIBILITY_DISPOSITIONS \<or> d = ''UNDECLARED_FAIL_CLOSED''"
  using compatibility_disposition_Inr [OF assms] compat_rows(2) by metis

text \<open>Whether the matrix is well-formed does not depend on the pair asked about.\<close>

lemma disposition_ok_any:
  "compatibility_disposition pack a b = Inr d \<Longrightarrow> is_ok (compatibility_disposition pack a' b')"
  by (auto simp: compatibility_disposition_def Let_def result_simps is_ok_iff)

subsection \<open>Pack identity\<close>

text \<open>The fields of a pack that the identity reads, other than the two lists.\<close>

definition SCALAR_PACK_FIELDS :: "string list" where
  "SCALAR_PACK_FIELDS = [''population_scope'', ''ownership'', ''version'', ''authority'', ''supersedes'', ''topology'',
     ''discontinuity'', ''conflict_policy'', ''implementation_hashes'', ''registry_hashes'']"

lemma rule_ids_sort_mset:
  assumes "py_sort_on (\<lambda>item. dget item ''boundary_rule_id'' VNone) rules = Inr sorted_rules"
    and "mset rules' = mset rules"
    and "\<forall>r \<in> set rules. is_str (dget r ''boundary_rule_id'' VNone)"
    and "distinct (map (\<lambda>r. dget r ''boundary_rule_id'' VNone) rules)"
  shows "py_sort_on (\<lambda>item. dget item ''boundary_rule_id'' VNone) rules' = Inr sorted_rules"
proof -
  let ?f = "\<lambda>r. dget r ''boundary_rule_id'' VNone"
  have sets: "set rules' = set rules" using assms(2) by (metis set_mset_mset)
  have "inj_on (\<lambda>r. str_of (?f r)) (set rules')"
  proof (rule inj_onI)
    fix r s assume r: "r \<in> set rules'" "s \<in> set rules'" and eq: "str_of (?f r) = str_of (?f s)"
    then have "?f r = ?f s" using assms(3) sets by (metis is_str_iff str_of_VStr)
    then show "r = s" using assms(4) r sets by (metis distinct_map inj_onD)
  qed
  then have "sort_key (\<lambda>r. str_of (?f r)) rules' = sort_key (\<lambda>r. str_of (?f r)) rules"
    using assms(2) by (intro sort_key_mset_cong)
  then show ?thesis
    using assms(1,3) sets by (simp add: py_sort_on_def list_all_iff)
qed

lemma logical_pack_payload_reorder:
  assumes "logical_pack_payload raw = Inr p"
    and "\<forall>k \<in> set SCALAR_PACK_FIELDS. map_of raw' k = map_of raw k"
    and "iter_of (dget raw ''rules'' (VList [])) = Inr rs" and "iter_of (dget raw' ''rules'' (VList [])) = Inr rs'"
    and "mset rs' = mset rs"
    and "mapM normalize_rule rs = Inr nrs" and "\<forall>r \<in> set nrs. is_str (dget r ''boundary_rule_id'' VNone)"
    and "distinct (map (\<lambda>r. dget r ''boundary_rule_id'' VNone) nrs)"
    and "iter_of (dget raw ''compatibility_matrix'' (VList [])) = Inr es"
    and "iter_of (dget raw' ''compatibility_matrix'' (VList [])) = Inr es'"
    and "mset (map (\<lambda>e. normalize_compat_row e []) es) = mset (map (\<lambda>e. normalize_compat_row e []) es')"
  shows "logical_pack_payload raw' = Inr p"
proof -
  have same: "dget raw' k d = dget raw k d" if "k \<in> set SCALAR_PACK_FIELDS" for k d
    using assms(2) that by (simp add: dget_def)
  obtain nrs' where n: "mapM normalize_rule rs' = Inr nrs'" "mset nrs' = mset nrs"
    using mapM_mset [OF assms(6), of normalize_rule rs'] assms(5) by auto
  obtain rules where rules: "py_sort_on (\<lambda>item. dget item ''boundary_rule_id'' VNone) nrs = Inr rules"
    using assms(1,3,6) by (auto simp: logical_pack_payload_def result_simps)
  have rules': "py_sort_on (\<lambda>item. dget item ''boundary_rule_id'' VNone) nrs' = Inr rules"
    using rule_ids_sort_mset [OF rules n(2) assms(7,8)] .
  obtain rows where rows: "normalize_compatibility es = Inr rows"
    using assms(1,9) by (auto simp: logical_pack_payload_def bnd_eq_Inr Let_def)
  have rows': "normalize_compatibility es' = Inr rows"
    using compat.table_mset rows assms(11) unfolding normalize_compatibility_table by blast
  from assms(1) show ?thesis
    unfolding logical_pack_payload_def assms(3,4,6,9,10) n(1) rules rules' rows rows' bnd_Inr
    by (simp only: same SCALAR_PACK_FIELDS_def list.set insert_iff simp_thms Let_def bnd_Inr)
qed

definition STAMPED_PACK_FIELDS :: "string list" where
  "STAMPED_PACK_FIELDS = [''boundary_pack_id'', ''logical_sha256'', ''active'', ''canonical'']"

lemma logical_pack_payload_stamp:
  assumes "k \<in> set STAMPED_PACK_FIELDS"
  shows "logical_pack_payload (AList.update k v pack) = logical_pack_payload pack"
proof -
  have same: "dget (AList.update k v pack) f d = dget pack f d"
    if "f \<in> set (''rules'' # ''compatibility_matrix'' # SCALAR_PACK_FIELDS)" for f d
  proof -
    have "f \<noteq> k" using assms that unfolding STAMPED_PACK_FIELDS_def SCALAR_PACK_FIELDS_def by auto
    then show ?thesis by (simp add: dget_def)
  qed
  show ?thesis unfolding logical_pack_payload_def
    by (simp only: same SCALAR_PACK_FIELDS_def list.set insert_iff simp_thms)
qed

subsection \<open>Properties\<close>

text \<open>A pack with two rules and a two-row matrix, and the same pack with rules and rows reordered, for
  the examples.\<close>

definition example_rule :: "string \<Rightarrow> int \<Rightarrow> pyval" where
  "example_rule i pri = VDict [(''boundary_rule_id'', VStr i), (''lifecycle_action'', VStr i), (''candidate_type'', VStr i),
     (''priority_class'', VInt pri), (''dependencies'', VDict [(''REQUIRED'', VList [VStr ''C2''])])]"

definition example_row :: "string \<Rightarrow> string \<Rightarrow> pyval" where
  "example_row a b = VDict [(''candidate_type_a'', VStr a), (''candidate_type_b'', VStr b),
     (''disposition'', VStr ''ORDERED_BY_PRIORITY'')]"

definition example_pack :: "pyval list \<Rightarrow> pyval list \<Rightarrow> pydict" where
  "example_pack rules rows = [(''version'', VStr ''1''), (''population_scope'', VDict [(''scope'', VStr ''s'')]),
     (''rules'', VList rules), (''compatibility_matrix'', VList rows),
     (''ownership'', VDict [(''peer_mode'', VStr ''SINGLE_OWNER'')]), (''authority'', VStr ''SHADOW'')]"

definition example_pack_a :: pydict where
  "example_pack_a = example_pack [example_rule ''A'' 1, example_rule ''B'' 2] [example_row ''A'' ''B'', example_row ''B'' ''C'']"

definition example_pack_b :: pydict where
  "example_pack_b = example_pack [example_rule ''B'' 2, example_rule ''A'' 1] [example_row ''C'' ''B'', example_row ''A'' ''B'']"

text \<open>A pair of candidate types has one disposition, the same in both orders: the declared one
  when the matrix has a row for the unordered pair, and otherwise the fail-closed one; a type is never
  declared compatible with itself.\<close>

theorem compatibility_fail_closed:
  assumes "compatibility_disposition pack a b = Inr d"
    and "iter_of (dget pack ''compatibility_matrix'' (VList [])) = Inr es"
  shows "compatibility_disposition pack b a = Inr d \<and>
    (d \<noteq> ''UNDECLARED_FAIL_CLOSED'' \<longleftrightarrow>
       (\<exists>e \<in> set es. \<exists>r. normalize_compat_row e [] = Inr r \<and> compat_pair r = compatibility_key a b \<and> disposition r = d)) \<and>
    (py_str a = py_str b \<longrightarrow> d = ''UNDECLARED_FAIL_CLOSED'')"
proof -
  obtain es' rows where e: "iter_of (dget pack ''compatibility_matrix'' (VList [])) = Inr es'"
    and r: "normalize_compatibility es' = Inr rows"
    "\<And>r. r \<in> set rows \<Longrightarrow> compat_pair r = compatibility_key a b \<Longrightarrow> d = disposition r"
    "(\<exists>r \<in> set rows. compat_pair r = compatibility_key a b) \<or> d = ''UNDECLARED_FAIL_CLOSED''"
    by (rule compatibility_disposition_Inr [OF assms(1)]) blast
  have es: "es' = es" using e assms(2) by simp
  have und: "''UNDECLARED_FAIL_CLOSED'' \<notin> set COMPATIBILITY_DISPOSITIONS"
    by (simp add: COMPATIBILITY_DISPOSITIONS_def)
  have "d \<noteq> ''UNDECLARED_FAIL_CLOSED''"
    if "normalize_compat_row e [] = Inr s" "disposition s = d" for e s
    using normalize_compat_row_Inr(3) [OF that(1)] that(2) und by metis
  moreover have "\<exists>e \<in> set es. \<exists>r. normalize_compat_row e [] = Inr r \<and> compat_pair r = compatibility_key a b \<and> disposition r = d"
    if "d \<noteq> ''UNDECLARED_FAIL_CLOSED''"
    using that r(2,3) compat_rows(3) [OF r(1)] unfolding es by metis
  ultimately show ?thesis
    using assms(1) disposition_commute [of pack a b] disposition_self [OF assms(1)] by metis
qed

theorem compatibility_fail_closed_witness:
  "compatibility_disposition example_pack_a (VStr ''B'') (VStr ''A'') = Inr ''ORDERED_BY_PRIORITY'' \<and>
   compatibility_disposition example_pack_a (VStr ''A'') (VStr ''B'') = Inr ''ORDERED_BY_PRIORITY''"
proof -
  have "compatibility_disposition example_pack_a (VStr ''B'') (VStr ''A'') = Inr ''ORDERED_BY_PRIORITY''" by code_simp
  moreover have "iter_of (dget example_pack_a ''compatibility_matrix'' (VList [])) =
    Inr [example_row ''A'' ''B'', example_row ''B'' ''C'']" by code_simp
  ultimately show ?thesis using compatibility_fail_closed by blast
qed

text \<open>The identity of a pack does not depend on the order of its rules (when their identifiers are
  distinct strings), on the order of the rows of its compatibility matrix, or on the order of the two
  types in a row.\<close>

theorem pack_identity_order_free:
  assumes "logical_pack_payload raw = Inr p"
    and "\<forall>k \<in> set SCALAR_PACK_FIELDS. map_of raw' k = map_of raw k"
    and "iter_of (dget raw ''rules'' (VList [])) = Inr rs" and "iter_of (dget raw' ''rules'' (VList [])) = Inr rs'"
    and "mset rs' = mset rs"
    and "mapM normalize_rule rs = Inr nrs" and "\<forall>r \<in> set nrs. is_str (dget r ''boundary_rule_id'' VNone)"
    and "distinct (map (\<lambda>r. dget r ''boundary_rule_id'' VNone) nrs)"
    and "iter_of (dget raw ''compatibility_matrix'' (VList [])) = Inr es"
    and "iter_of (dget raw' ''compatibility_matrix'' (VList [])) = Inr es'"
    and "mset (map (\<lambda>e. normalize_compat_row e []) es) = mset (map (\<lambda>e. normalize_compat_row e []) es')"
  shows "boundary_pack_id raw' = boundary_pack_id raw"
  using logical_pack_payload_reorder [OF assms] assms(1) by (simp add: boundary_pack_id_def)

theorem pack_identity_order_free_witness: "boundary_pack_id example_pack_b = boundary_pack_id example_pack_a"
proof -
  let ?ra = "[example_rule ''A'' 1, example_rule ''B'' 2]" and ?rb = "[example_rule ''B'' 2, example_rule ''A'' 1]"
  let ?ea = "[example_row ''A'' ''B'', example_row ''B'' ''C'']" and ?eb = "[example_row ''C'' ''B'', example_row ''A'' ''B'']"
  have ok: "is_ok (logical_pack_payload example_pack_a)" "is_ok (mapM normalize_rule ?ra)" by code_simp+
  obtain p nrs where p: "logical_pack_payload example_pack_a = Inr p" and n: "mapM normalize_rule ?ra = Inr nrs"
    using ok unfolding is_ok_iff by blast
  have n': "projr (mapM normalize_rule ?ra) = nrs" using n by simp
  have 1: "\<forall>k \<in> set SCALAR_PACK_FIELDS. map_of example_pack_b k = map_of example_pack_a k" by code_simp
  have 2: "iter_of (dget example_pack_a ''rules'' (VList [])) = Inr ?ra"
    "iter_of (dget example_pack_b ''rules'' (VList [])) = Inr ?rb" by code_simp+
  have 3: "list_all (\<lambda>r. is_str (dget r ''boundary_rule_id'' VNone)) (projr (mapM normalize_rule ?ra))"
    "distinct (map (\<lambda>r. dget r ''boundary_rule_id'' VNone) (projr (mapM normalize_rule ?ra)))" by code_simp+
  have 4: "iter_of (dget example_pack_a ''compatibility_matrix'' (VList [])) = Inr ?ea"
    "iter_of (dget example_pack_b ''compatibility_matrix'' (VList [])) = Inr ?eb" by code_simp+
  have "normalize_compat_row (example_row ''C'' ''B'') [] = normalize_compat_row (example_row ''B'' ''C'') []" by code_simp
  then have 5: "mset (map (\<lambda>e. normalize_compat_row e []) ?ea) = mset (map (\<lambda>e. normalize_compat_row e []) ?eb)" by simp
  show ?thesis
    by (rule pack_identity_order_free [OF p 1 2 _ n _ _ 4 5]) (use 3 in \<open>simp_all only: n' list_all_iff\<close>, simp)
qed

text \<open>A frozen pack is marked inactive and non-canonical, keeps the identity of the pack it was
  made from, and freezing it again changes nothing.\<close>

theorem freeze_pack_idempotent:
  assumes "freeze_pack pack = Inr f"
  shows "map_of f ''active'' = Some (VBool False) \<and> map_of f ''canonical'' = Some (VBool False) \<and>
    boundary_pack_id f = boundary_pack_id pack \<and>
    bnd (boundary_pack_id pack) (\<lambda>i. Inr (VStr i)) = Inr (dget f ''boundary_pack_id'' VNone) \<and>
    freeze_pack f = Inr f"
proof -
  obtain p i h where p: "logical_pack_payload pack = Inr p" and i: "boundary_pack_id pack = Inr i"
    and h: "sha256_hex (VDict p) = Inr h"
    and f: "f = AList.update ''canonical'' (VBool False) (AList.update ''active'' (VBool False)
       (AList.update ''logical_sha256'' (VStr h) (AList.update ''boundary_pack_id'' (VStr i) pack)))"
    using assms by (auto simp: freeze_pack_def Let_def bnd_eq_Inr)
  have m: "map_of f ''active'' = Some (VBool False)" "map_of f ''canonical'' = Some (VBool False)"
    "map_of f ''boundary_pack_id'' = Some (VStr i)" "map_of f ''logical_sha256'' = Some (VStr h)"
    by (simp_all add: f)
  have "logical_pack_payload f = Inr p"
    unfolding f using p by (simp add: logical_pack_payload_stamp STAMPED_PACK_FIELDS_def)
  moreover from this p i have "boundary_pack_id f = Inr i" by (simp add: boundary_pack_id_def)
  ultimately show ?thesis
    using i h m by (simp add: freeze_pack_def AList_update_same dget_def)
qed

theorem freeze_pack_idempotent_witness:
  "\<exists>f. freeze_pack example_pack_a = Inr f \<and> freeze_pack f = Inr f"
proof -
  have ok: "is_ok (logical_pack_payload example_pack_a)"
    "hash_ok (VDict (projr (logical_pack_payload example_pack_a)))"
    unfolding hash_ok_def by code_simp+
  then obtain p where p: "logical_pack_payload example_pack_a = Inr p" "hash_ok (VDict p)"
    unfolding is_ok_iff by auto
  obtain i where i: "digest ''C2E.BOUNDARY.PACK'' (VDict p) 32 = Inr i" using digest_ok [OF p(2)] by blast
  obtain b where b: "canonical_bytes (VDict p) = Inr b" using canonical_bytes_ok [OF p(2)] by blast
  have "is_ok (freeze_pack example_pack_a)"
    using p i b by (simp add: freeze_pack_def boundary_pack_id_def sha256_hex_def Let_def)
  then show ?thesis unfolding is_ok_iff using freeze_pack_idempotent by blast
qed

end
