(* ===== verification/C2E_Resolution.thy ===== *)
theory C2E_Resolution
  imports C2E_Boundary_Pack
begin

section \<open>C2E v0.2: dependencies, candidates and their resolution\<close>

text \<open>
  \<^verbatim>\<open>dependency.py\<close>, \<^verbatim>\<open>candidate.py\<close> and \<^verbatim>\<open>resolver.py\<close> of \<^verbatim>\<open>src/src/ovc/opt_b/c2e_v2/\<close>: the
  admissibility of a rule's dependencies, the construction of a boundary candidate, and the
  resolution of the candidates of one frame by priority and compatibility. A candidate is a
  dictionary, as in the source; the answer of the resolver, a dictionary with a fixed set of keys, is
  the record \<open>resolution\<close>. The lemmas characterize when a candidate is evaluable and what a
  resolved set of candidates looks like.
\<close>

subsection \<open>Dependency results\<close>

definition SUCCESS :: "string list" where
  "SUCCESS = [''AVAILABLE'', ''COMPUTABLE'', ''ASSURED'', ''ELIGIBLE'', ''AUTHORIZED'', ''PRESENT'']"

definition FAILURE :: "string list" where
  "FAILURE = [''MISSING'', ''UNAVAILABLE'', ''NOT_COMPUTABLE'', ''CENSORED'', ''CONFLICTED'', ''INELIGIBLE'', ''UNAUTHORIZED'']"

definition ROLES :: "string list" where
  "ROLES = [''REQUIRED'', ''OPTIONAL'', ''WARNING_ONLY'', ''PROHIBITED'']"

record dep_row =
  dependency_id :: string
  role :: string
  status :: string
  source_record_ids :: "string list"
  reason_codes :: "string list"

definition dep_req :: "bool \<Rightarrow> string \<Rightarrow> unit result" where
  "dep_req = req DependencyError"

definition str_set_of :: "pyval \<Rightarrow> string list result" where
  "str_set_of v = bnd (iter_of v) (\<lambda>items. Inr (sorted_set (map py_str items)))"

definition normalize_dep_row :: "string list \<Rightarrow> pyval \<Rightarrow> dep_row result" where
  "normalize_dep_row seen raw =
    bnd (as_dict raw) (\<lambda>row.
    let dependency_id = py_str (dget row ''dependency_id'' (VStr []));
        role = py_upper (py_str (dget row ''role'' (VStr [])));
        status = py_upper (py_str (dget row ''status'' (VStr []))) in
    bnd (dep_req (dependency_id \<noteq> []) ''DEPENDENCY_ID_REQUIRED'') (\<lambda>_.
    bnd (dep_req (dependency_id \<notin> set seen) ''DUPLICATE_DEPENDENCY_ID'') (\<lambda>_.
    bnd (dep_req (role \<in> set ROLES) ''DEPENDENCY_ROLE_INVALID'') (\<lambda>_.
    bnd (dep_req (status \<in> set SUCCESS \<union> set FAILURE \<union> {''NOT_APPLICABLE'', ''NOT_EVALUATED''})
      ''DEPENDENCY_STATUS_INVALID'') (\<lambda>_.
    bnd (str_set_of (dget row ''source_record_ids'' (VList []))) (\<lambda>srcs.
    bnd (str_set_of (dget row ''reason_codes'' (VList []))) (\<lambda>codes.
    Inr \<lparr>dependency_id = dependency_id, role = role, status = status, source_record_ids = srcs, reason_codes = codes\<rparr>)))))))"

definition normalize_dependency_results :: "pyval list \<Rightarrow> dep_row list result" where
  "normalize_dependency_results results =
    bnd (foldM (\<lambda>normalized raw.
           bnd (normalize_dep_row (map dependency_id normalized) raw) (\<lambda>row. Inr (normalized @ [row]))) [] results)
      (\<lambda>normalized. Inr (sort_key dependency_id normalized))"

definition by_id :: "dep_row list \<Rightarrow> string \<Rightarrow> dep_row option" where
  "by_id rows i = find (\<lambda>row. dependency_id row = i) rows"

record dep_evaluation =
  evaluable :: bool
  blocking_reason_codes :: "string list"
  warning_reason_codes :: "string list"
  dependency_results :: "dep_row list"

definition succeeded :: "dep_row list \<Rightarrow> string \<Rightarrow> bool" where
  "succeeded rows i \<longleftrightarrow> (case by_id rows i of None \<Rightarrow> False | Some row \<Rightarrow> status row \<in> set SUCCESS)"

definition evaluate_rule_dependencies :: "pyval list \<Rightarrow> pyval list \<Rightarrow> dep_evaluation result" where
  "evaluate_rule_dependencies declared_dependency_ids results =
    bnd (normalize_dependency_results results) (\<lambda>normalized.
    let declared = map py_str declared_dependency_ids;
        missing = sort (filter (\<lambda>i. by_id normalized i = None) declared) in
    bnd (dep_req (missing = []) (''DEP_UNDECLARED_RESULT_MISSING:'' @ join '','' missing)) (\<lambda>_.
    let role_of = (\<lambda>i. role (the (by_id normalized i)));
        blocked = concat (map (\<lambda>i.
          if role_of i = ''PROHIBITED'' \<and> succeeded normalized i then [''PROHIBITED_DEPENDENCY_PRESENT:'' @ i]
          else if role_of i = ''REQUIRED'' \<and> \<not> succeeded normalized i then [''DEP_REQUIRED_NOT_EVALUABLE:'' @ i]
          else []) declared);
        warnings = concat (map (\<lambda>i.
          if role_of i = ''PROHIBITED'' \<and> succeeded normalized i then []
          else if role_of i = ''REQUIRED'' \<and> \<not> succeeded normalized i then []
          else if role_of i \<in> {''OPTIONAL'', ''WARNING_ONLY''} \<and> \<not> succeeded normalized i then [''DEPENDENCY_WARNING:'' @ i]
          else []) declared) in
    Inr \<lparr>evaluable = (blocked = []), blocking_reason_codes = blocked, warning_reason_codes = warnings,
         dependency_results = normalized\<rparr>))"

subsection \<open>Candidates\<close>

definition dep_group :: "pydict \<Rightarrow> string \<Rightarrow> string list result" where
  "dep_group dependencies name = bnd (iter_of (dget dependencies name (VList []))) (\<lambda>items. Inr (map py_str items))"

definition evaluate_rule_scoped_dependencies :: "pydict \<Rightarrow> pyval list \<Rightarrow> dep_evaluation result" where
  "evaluate_rule_scoped_dependencies dependencies results =
    bnd (normalize_dependency_results results) (\<lambda>normalized.
    bnd (dep_group dependencies ''REQUIRED'') (\<lambda>required.
    bnd (dep_group dependencies ''OPTIONAL'') (\<lambda>optional.
    bnd (dep_group dependencies ''WARNING'') (\<lambda>warning.
    bnd (dep_group dependencies ''PROHIBITED'') (\<lambda>prohibited.
    let missing = sort (filter (\<lambda>i. by_id normalized i = None) (required @ optional @ warning)) in
    bnd (req CandidateError (missing = []) (''DEP_UNDECLARED_RESULT_MISSING:'' @ join '','' missing)) (\<lambda>_.
    let blocked =
          map (\<lambda>i. ''DEP_REQUIRED_NOT_EVALUABLE:'' @ i) (filter (\<lambda>i. \<not> succeeded normalized i) required) @
          map (\<lambda>i. ''PROHIBITED_DEPENDENCY_PRESENT:'' @ i) (filter (\<lambda>i. by_id normalized i \<noteq> None) prohibited);
        warnings = map (\<lambda>i. ''DEPENDENCY_WARNING:'' @ i) (filter (\<lambda>i. \<not> succeeded normalized i) (optional @ warning)) in
    Inr \<lparr>evaluable = (blocked = []), blocking_reason_codes = sorted_set blocked,
         warning_reason_codes = sorted_set warnings, dependency_results = normalized\<rparr>))))))"

text \<open>\<^verbatim>\<open>max(v, s)\<close> of a value of unknown type and a string.\<close>

definition max_time :: "pyval \<Rightarrow> string \<Rightarrow> pyval result" where
  "max_time v s = (case v of VStr t \<Rightarrow> Inr (VStr (str_max t s)) | _ \<Rightarrow> Inl (Exn TypeError []))"

definition strs_val :: "string list \<Rightarrow> pyval" where
  "strs_val xs = VList (map VStr xs)"

text \<open>The dictionary both branches of \<^verbatim>\<open>build_candidate\<close> return, from the identifier on.\<close>

definition candidate_dict :: "pydict \<Rightarrow> pydict \<Rightarrow> string \<Rightarrow> string \<Rightarrow> string list \<Rightarrow> dep_evaluation \<Rightarrow>
    string \<Rightarrow> pyval \<Rightarrow> pyval \<Rightarrow> string list \<Rightarrow> pydict \<Rightarrow> pydict result" where
  "candidate_dict rule frame effective_time confirmation invalidated dep_result candidate_id rule_id ctype reasons source =
    bnd (ditem rule ''lifecycle_action'') (\<lambda>action.
    bnd (ditem rule ''priority_class'') (\<lambda>pc. bnd (py_int pc) (\<lambda>priority.
    bnd (ditem frame ''frame_id'') (\<lambda>frame_id.
    bnd (ditem frame ''chronology'') (\<lambda>chron. bnd (vitem chron ''first_valid_time'') (\<lambda>fvt.
    bnd (max_time fvt confirmation) (\<lambda>first_valid.
    Inr ([(''candidate_id'', VStr candidate_id), (''boundary_rule_id'', rule_id), (''candidate_type'', ctype),
      (''lifecycle_action'', action), (''priority_class'', VInt priority), (''frame_id'', frame_id),
      (''effective_time'', VStr effective_time), (''confirmation_time'', VStr confirmation),
      (''first_valid_time'', first_valid), (''evaluable'', VBool (evaluable dep_result)), (''reason_codes'', strs_val reasons),
      (''warning_reason_codes'', strs_val (warning_reason_codes dep_result)),
      (''invalidated_by_actions'', strs_val (sorted_set invalidated))] @ source))))))))"

text \<open>\<^verbatim>\<open>confirmation_time or effective_time\<close>\<close>

definition confirmation_or :: "string option \<Rightarrow> string \<Rightarrow> string" where
  "confirmation_or confirmation_time effective_time =
    (case confirmation_time of Some t \<Rightarrow> if t = [] then effective_time else t | None \<Rightarrow> effective_time)"

definition build_candidate ::
  "pydict \<Rightarrow> pydict \<Rightarrow> bool \<Rightarrow> string \<Rightarrow> string option \<Rightarrow> string list option \<Rightarrow> pydict option result" where
  "build_candidate rule frame matched effective_time confirmation_time invalidated_by_actions =
    (if \<not> matched then Inr None else
     let confirmation = confirmation_or confirmation_time effective_time;
         invalidated = (case invalidated_by_actions of Some xs \<Rightarrow> xs | None \<Rightarrow> []) in
     bnd (as_dict (dget rule ''dependencies'' (VDict []))) (\<lambda>dependencies.
     bnd (ditem frame ''evidence'') (\<lambda>evidence.
     bnd (vget evidence ''dependency_results'' (VList [])) (\<lambda>dr.
     bnd (iter_of dr) (\<lambda>results.
     bnd (evaluate_rule_scoped_dependencies dependencies results) (\<lambda>dep_result.
     bnd (ditem rule ''boundary_rule_id'') (\<lambda>rule_id.
     if \<not> evaluable dep_result then
       bnd (ditem frame ''frame_id'') (\<lambda>frame_id.
       bnd (digest ''C2E.CANDIDATE.BLOCKED''
              (VDict [(''rule'', rule_id), (''frame'', frame_id), (''effective_time'', VStr effective_time)]) 24) (\<lambda>i.
       bnd (ditem rule ''candidate_type'') (\<lambda>ctype.
       bnd (candidate_dict rule frame effective_time confirmation invalidated dep_result i rule_id ctype
              (blocking_reason_codes dep_result) []) (\<lambda>c. Inr (Some c)))))
     else
       bnd (ditem rule ''candidate_type'') (\<lambda>ctype.
       bnd (ditem frame ''frame_id'') (\<lambda>frame_id.
       let identity = VDict [(''rule'', rule_id), (''candidate_type'', ctype), (''frame'', frame_id),
             (''effective_time'', VStr effective_time), (''confirmation_time'', VStr confirmation)] in
       bnd (digest ''C2E.CANDIDATE'' identity 32) (\<lambda>i.
       bnd (candidate_dict rule frame effective_time confirmation invalidated dep_result i rule_id ctype []
              [(''source'', identity)]) (\<lambda>c. Inr (Some c))))))))))))"

subsection \<open>Resolution\<close>

record resolution =
  res_status :: string
  res_reasons :: "string list"
  resolved :: "pydict list"
  suppressed :: "pydict list"
  res_candidates :: "pydict list"

text \<open>\<^verbatim>\<open>combinations(group, 2)\<close>\<close>

fun pairs :: "'a list \<Rightarrow> ('a \<times> 'a) list" where
  "pairs [] = []"
| "pairs (x # xs) = map (Pair x) xs @ pairs xs"

definition CONFLICTING :: "string list" where
  "CONFLICTING = [''UNDECLARED_FAIL_CLOSED'', ''INCOMPATIBLE_CONFLICT'', ''MUTUALLY_EXCLUSIVE_BY_RULE'']"

definition pair_conflict :: "pydict \<Rightarrow> pydict \<times> pydict \<Rightarrow> string list result" where
  "pair_conflict pack = (\<lambda>(left, right).
    bnd (ditem left ''candidate_type'') (\<lambda>lt. bnd (ditem right ''candidate_type'') (\<lambda>rt.
    bnd (compatibility_disposition pack lt rt) (\<lambda>disposition.
    if disposition \<in> set CONFLICTING then Inr [py_str lt @ ''::'' @ py_str rt @ ''::'' @ disposition]
    else bnd (ditem left ''priority_class'') (\<lambda>lp. bnd (ditem right ''priority_class'') (\<lambda>rp.
      if py_eq lp rp \<and> disposition = ''ORDERED_BY_PRIORITY''
      then Inr [py_str lt @ ''::'' @ py_str rt @ ''::EQUAL_PRIORITY_NOT_ORDERABLE''] else Inr []))))))"

definition semantic_conflict :: "pydict \<Rightarrow> pydict list \<Rightarrow> (bool \<times> string list) result" where
  "semantic_conflict pack grp =
    bnd (mapM (pair_conflict pack) (pairs grp)) (\<lambda>rss. Inr (concat rss \<noteq> [], sort (concat rss)))"

definition priority_of :: "pydict \<Rightarrow> int result" where
  "priority_of row = bnd (ditem row ''priority_class'') py_int"

text \<open>The sort key of a candidate.\<close>

definition candidate_key :: "pydict \<Rightarrow> (int \<times> string) result" where
  "candidate_key row = bnd (priority_of row) (\<lambda>p. bnd (ditem row ''candidate_id'') (\<lambda>i. Inr (p, py_str i)))"

text \<open>The loop over priority classes: the first class with a conflict decides.\<close>

fun priority_conflict :: "pydict \<Rightarrow> pydict list \<Rightarrow> int list \<Rightarrow> string list option result" where
  "priority_conflict pack normalized [] = Inr None"
| "priority_conflict pack normalized (p # ps) =
    bnd (semantic_conflict pack (filter (\<lambda>row. priority_of row = Inr p) normalized)) (\<lambda>(conflict, reasons).
    if conflict then Inr (Some reasons) else priority_conflict pack normalized ps)"

fun closure_conflict :: "pydict \<Rightarrow> pydict \<Rightarrow> pydict list \<Rightarrow> bool result" where
  "closure_conflict pack candidate [] = Inr False"
| "closure_conflict pack candidate (earlier # es) =
    bnd (ditem earlier ''candidate_type'') (\<lambda>et. bnd (ditem candidate ''candidate_type'') (\<lambda>ct.
    bnd (compatibility_disposition pack et ct) (\<lambda>disposition.
    if disposition \<in> set CONFLICTING then Inr True else closure_conflict pack candidate es)))"

text \<open>\<^verbatim>\<open>applied_actions.intersection(xs)\<close> as a truth value: every element must be hashable.\<close>

definition intersects :: "pyval list \<Rightarrow> pyval \<Rightarrow> bool result" where
  "intersects applied xs = bnd (iter_of xs) (\<lambda>items.
    if list_all hashable items then Inr (list_ex (\<lambda>a. list_ex (py_eq a) items) applied)
    else Inl (Exn TypeError []))"

text \<open>The loop over the candidates, in priority order; it stops at the first conflict.\<close>

fun resolve_loop :: "pydict \<Rightarrow> pydict list \<Rightarrow> pydict list \<Rightarrow> pyval list \<Rightarrow> pydict list \<Rightarrow>
    (bool \<times> pydict list \<times> pydict list) result" where
  "resolve_loop pack res supp applied [] = Inr (False, res, supp)"
| "resolve_loop pack res supp applied (candidate # cs) =
    bnd (intersects applied (dget candidate ''invalidated_by_actions'' (VList []))) (\<lambda>invalidated.
    if invalidated then
      resolve_loop pack res
        (supp @ [AList.update ''suppression_reason'' (VStr ''HIGHER_PRIORITY_EFFECT_INVALIDATED'') candidate]) applied cs
    else
      bnd (closure_conflict pack candidate res) (\<lambda>conflict.
      if conflict then Inr (True, res, supp)
      else bnd (ditem candidate ''lifecycle_action'') (\<lambda>action.
        if \<not> hashable action then Inl (Exn TypeError [])
        else resolve_loop pack (res @ [candidate]) supp (action # applied) cs)))"

definition resolve_candidates :: "pydict \<Rightarrow> pydict option list \<Rightarrow> resolution result" where
  "resolve_candidates pack candidates =
    (let items = filter (\<lambda>item. py_bool (dget item ''evaluable'' (VBool True))) (map the (filter (\<lambda>c. c \<noteq> None) candidates)) in
     bnd (mapM candidate_key items) (\<lambda>_.
     let normalized = sort_key (\<lambda>row. projr (candidate_key row)) items in
     bnd (priority_conflict pack normalized (sorted_set (map (\<lambda>row. projr (priority_of row)) normalized))) (\<lambda>pc.
     case pc of
       Some reasons \<Rightarrow>
         bnd (py_sort_on (\<lambda>row. dget row ''candidate_id'' VNone) normalized) (\<lambda>by_candidate_id.
         Inr \<lparr>res_status = ''CONFLICT'', res_reasons = ''C2E_EQUAL_PRIORITY_INCOMPATIBLE'' # reasons, resolved = [],
              suppressed = [], res_candidates = by_candidate_id\<rparr>)
     | None \<Rightarrow>
         bnd (resolve_loop pack [] [] [] normalized) (\<lambda>(conflict, resolved, suppressed).
         if conflict then
           Inr \<lparr>res_status = ''CONFLICT'', res_reasons = [''C2E_COMPATIBILITY_CLOSURE_FAILED''], resolved = resolved,
                suppressed = suppressed, res_candidates = normalized\<rparr>
         else
           bnd (semantic_conflict pack resolved) (\<lambda>(conflict, reasons).
           if conflict then
             Inr \<lparr>res_status = ''CONFLICT'', res_reasons = ''C2E_COMPATIBILITY_CLOSURE_FAILED'' # reasons, resolved = [],
                  suppressed = suppressed, res_candidates = normalized\<rparr>
           else
             Inr \<lparr>res_status = ''RESOLVED'', res_reasons = [], resolved = resolved, suppressed = suppressed,
                  res_candidates = normalized\<rparr>)))))"

subsection \<open>Lemmas on dependencies and candidates\<close>

lemma normalize_dep_row_seen:
  "normalize_dep_row seen raw = Inr r \<longleftrightarrow> normalize_dep_row [] raw = Inr r \<and> dependency_id r \<notin> set seen"
  by (cases "as_dict raw") (auto simp: normalize_dep_row_def dep_req_def Let_def result_simps)

interpretation deps: keyed_rows normalize_dep_row dependency_id
  by unfold_locales (rule normalize_dep_row_seen)

lemma normalize_dependency_table: "normalize_dependency_results es = deps.table es"
  by (simp add: normalize_dependency_results_def deps.table_def)

lemma by_id_Some:
  assumes "normalize_dependency_results es = Inr rows"
  shows "by_id rows i = Some row \<longleftrightarrow> row \<in> set rows \<and> dependency_id row = i"
proof
  assume "by_id rows i = Some row"
  then show "row \<in> set rows \<and> dependency_id row = i"
    by (auto simp: by_id_def find_Some_iff)
next
  assume r: "row \<in> set rows \<and> dependency_id row = i"
  then show "by_id rows i = Some row"
    using deps.table_find [OF assms [unfolded normalize_dependency_table], of row] by (auto simp: by_id_def)
qed

lemma by_id_None: "by_id rows i = None \<longleftrightarrow> (\<forall>row \<in> set rows. dependency_id row \<noteq> i)"
  by (auto simp: by_id_def find_None_iff)

lemma succeeded_iff:
  assumes "normalize_dependency_results es = Inr rows"
  shows "succeeded rows i \<longleftrightarrow> (\<exists>row \<in> set rows. dependency_id row = i \<and> status row \<in> set SUCCESS)"
proof (cases "by_id rows i")
  case None
  then show ?thesis by (auto simp: succeeded_def) (auto simp: by_id_None)
next
  case (Some row)
  then show ?thesis unfolding succeeded_def using by_id_Some [OF assms]
    by (metis option.inject option.simps(5))
qed

lemma str_max_ge: "a \<le> str_max a b" "b \<le> str_max a b"
  by (auto simp: str_max_def)

text \<open>The candidate that is built, on both branches.\<close>

lemma candidate_dict_Inr:
  assumes "candidate_dict rule frame eff conf ia de i rule_id ctype reasons source = Inr c"
  shows "map_of c ''evaluable'' = Some (VBool (evaluable de))" "map_of c ''reason_codes'' = Some (strs_val reasons)"
    "map_of c ''candidate_type'' = Some ctype" "map_of c ''candidate_id'' = Some (VStr i)"
    "\<exists>chron fvt. map_of frame ''chronology'' = Some chron \<and> vitem chron ''first_valid_time'' = Inr (VStr fvt) \<and>
       map_of c ''first_valid_time'' = Some (VStr (str_max fvt conf))"
proof -
  obtain action p frame_id chron fvt fv where f: "ditem frame ''chronology'' = Inr chron"
    "vitem chron ''first_valid_time'' = Inr fvt" "max_time fvt conf = Inr fv"
    and c: "c = [(''candidate_id'', VStr i), (''boundary_rule_id'', rule_id), (''candidate_type'', ctype),
      (''lifecycle_action'', action), (''priority_class'', VInt p), (''frame_id'', frame_id),
      (''effective_time'', VStr eff), (''confirmation_time'', VStr conf),
      (''first_valid_time'', fv), (''evaluable'', VBool (evaluable de)), (''reason_codes'', strs_val reasons),
      (''warning_reason_codes'', strs_val (warning_reason_codes de)),
      (''invalidated_by_actions'', strs_val (sorted_set ia))] @ source"
    using assms unfolding candidate_dict_def bnd_eq_Inr by blast
  show "map_of c ''evaluable'' = Some (VBool (evaluable de))" "map_of c ''reason_codes'' = Some (strs_val reasons)"
    "map_of c ''candidate_type'' = Some ctype" "map_of c ''candidate_id'' = Some (VStr i)"
    unfolding c by simp_all
  have "map_of c ''first_valid_time'' = Some fv" unfolding c by simp
  with f show "\<exists>chron fvt. map_of frame ''chronology'' = Some chron \<and> vitem chron ''first_valid_time'' = Inr (VStr fvt) \<and>
       map_of c ''first_valid_time'' = Some (VStr (str_max fvt conf))"
    by (auto simp: ditem_Inr max_time_def split: pyval.splits)
qed

lemma build_candidate_Some:
  assumes "build_candidate rule frame True eff conf ia = Inr (Some c)"
  obtains dependencies results de i rule_id ctype reasons source where
    "as_dict (dget rule ''dependencies'' (VDict [])) = Inr dependencies"
    "bnd (bnd (ditem frame ''evidence'') (\<lambda>e. vget e ''dependency_results'' (VList []))) iter_of = Inr results"
    "evaluate_rule_scoped_dependencies dependencies results = Inr de"
    "reasons = (if evaluable de then [] else blocking_reason_codes de)"
    "candidate_dict rule frame eff (confirmation_or conf eff) (case ia of Some xs \<Rightarrow> xs | None \<Rightarrow> []) de i rule_id ctype
       reasons source = Inr c"
proof -
  from assms obtain dependencies evidence dr results de rule_id where
    d: "as_dict (dget rule ''dependencies'' (VDict [])) = Inr dependencies"
      "ditem frame ''evidence'' = Inr evidence" "vget evidence ''dependency_results'' (VList []) = Inr dr"
      "iter_of dr = Inr results" "evaluate_rule_scoped_dependencies dependencies results = Inr de"
    and r: "ditem rule ''boundary_rule_id'' = Inr rule_id"
    unfolding build_candidate_def Let_def bnd_eq_Inr by (auto simp: bnd_eq_Inr)
  have e: "bnd (bnd (ditem frame ''evidence'') (\<lambda>e. vget e ''dependency_results'' (VList []))) iter_of = Inr results"
    using d by simp
  show ?thesis
  proof (cases "evaluable de")
    case True
    with assms d r show ?thesis using that [OF d(1) e d(5)]
      unfolding build_candidate_def Let_def by (auto simp: bnd_eq_Inr)
  next
    case False
    with assms d r show ?thesis using that [OF d(1) e d(5)]
      unfolding build_candidate_def Let_def by (auto simp: bnd_eq_Inr)
  qed
qed

lemma evaluate_scoped_Inr:
  assumes "evaluate_rule_scoped_dependencies dependencies results = Inr de"
  obtains required prohibited where "normalize_dependency_results results = Inr (dependency_results de)"
    "dep_group dependencies ''REQUIRED'' = Inr required" "dep_group dependencies ''PROHIBITED'' = Inr prohibited"
    "evaluable de \<longleftrightarrow> (\<forall>i \<in> set required. succeeded (dependency_results de) i) \<and>
       (\<forall>i \<in> set prohibited. by_id (dependency_results de) i = None)"
proof -
  from assms obtain normalized required optional warning prohibited where
    n: "normalize_dependency_results results = Inr normalized" and r: "dep_group dependencies ''REQUIRED'' = Inr required"
    and p: "dep_group dependencies ''PROHIBITED'' = Inr prohibited"
    and de: "dependency_results de = normalized" "evaluable de \<longleftrightarrow>
      map (\<lambda>i. ''DEP_REQUIRED_NOT_EVALUABLE:'' @ i) (filter (\<lambda>i. \<not> succeeded normalized i) required) @
      map (\<lambda>i. ''PROHIBITED_DEPENDENCY_PRESENT:'' @ i) (filter (\<lambda>i. by_id normalized i \<noteq> None) prohibited) = []"
    unfolding evaluate_rule_scoped_dependencies_def Let_def bnd_eq_Inr req_eq_Inr by auto
  have "evaluable de \<longleftrightarrow> (\<forall>i \<in> set required. succeeded normalized i) \<and> (\<forall>i \<in> set prohibited. by_id normalized i = None)"
    unfolding de(2) by (auto simp: filter_empty_conv)
  then show ?thesis using that [of required prohibited] n r p de(1) by simp
qed

subsection \<open>Lemmas on resolution\<close>

lemma set_pairs: "sorted_wrt P xs \<longleftrightarrow> (\<forall>(x, y) \<in> set (pairs xs). P x y)"
  by (induction xs) auto

lemma pairs_mem: "(x, y) \<in> set (pairs xs) \<Longrightarrow> x \<in> set xs \<and> y \<in> set xs"
  by (induction xs) auto

text \<open>Two candidates may both take effect: declared compatible, or ordered by different priorities.\<close>

definition jointly_lawful :: "pydict \<Rightarrow> pydict \<Rightarrow> pydict \<Rightarrow> bool" where
  "jointly_lawful pack l r \<longleftrightarrow>
    (\<exists>lt rt lp rp d. map_of l ''candidate_type'' = Some lt \<and> map_of r ''candidate_type'' = Some rt \<and>
       map_of l ''priority_class'' = Some lp \<and> map_of r ''priority_class'' = Some rp \<and>
       compatibility_disposition pack lt rt = Inr d \<and>
       (d = ''COMPATIBLE_COMPOUND'' \<or> d = ''ORDERED_BY_PRIORITY'' \<and> \<not> py_eq lp rp))"

lemma pair_conflict_Nil: "pair_conflict pack (l, r) = Inr [] \<Longrightarrow> jointly_lawful pack l r"
  using disposition_range [of pack]
  by (fastforce simp: pair_conflict_def jointly_lawful_def bnd_eq_Inr ditem_Inr CONFLICTING_def
      COMPATIBILITY_DISPOSITIONS_def split: if_splits)

lemma jointly_lawful_pair_conflict: "jointly_lawful pack l r \<Longrightarrow> pair_conflict pack (l, r) = Inr []"
  by (auto simp: pair_conflict_def jointly_lawful_def ditem_def CONFLICTING_def)

lemma jointly_lawful_types:
  assumes "jointly_lawful pack l r"
  shows "py_str (the (map_of l ''candidate_type'')) \<noteq> py_str (the (map_of r ''candidate_type''))"
  using assms disposition_self [of pack] by (fastforce simp: jointly_lawful_def)

lemma semantic_conflict_False:
  "semantic_conflict pack grp = Inr (False, rs) \<longleftrightarrow> sorted_wrt (jointly_lawful pack) grp \<and> rs = []"
proof
  assume "semantic_conflict pack grp = Inr (False, rs)"
  then obtain rss where m: "mapM (pair_conflict pack) (pairs grp) = Inr rss" and n: "concat rss = []" "rs = sort (concat rss)"
    by (auto simp: semantic_conflict_def bnd_eq_Inr)
  have "pair_conflict pack q = Inr []" if q: "q \<in> set (pairs grp)" for q
  proof -
    from m q obtain ys where "ys \<in> set rss" "pair_conflict pack q = Inr ys"
      by (auto simp: mapM_Inr_iff list_all2_conv_all_nth in_set_conv_nth) metis
    with n show ?thesis by auto
  qed
  then show "sorted_wrt (jointly_lawful pack) grp \<and> rs = []"
    using n pair_conflict_Nil unfolding set_pairs n(2) n(1) by auto
next
  assume l: "sorted_wrt (jointly_lawful pack) grp \<and> rs = []"
  then have "mapM (pair_conflict pack) (pairs grp) = Inr (map (\<lambda>_. []) (pairs grp))"
    unfolding set_pairs by (intro mapM_eq_map) (auto intro: jointly_lawful_pair_conflict)
  moreover have "concat (map (\<lambda>_. [] :: string list) (pairs grp)) = []" by simp
  ultimately show "semantic_conflict pack grp = Inr (False, rs)"
    unfolding semantic_conflict_def using l by (simp del: concat_eq_Nil_conv)
qed

lemma semantic_conflict_True:
  assumes "semantic_conflict pack grp = Inr (True, rs)"
  shows "\<not> sorted_wrt (jointly_lawful pack) grp"
  using assms semantic_conflict_False [of pack grp "[]"] by auto

definition invalidates :: "pydict \<Rightarrow> pydict \<Rightarrow> bool" where
  "invalidates e c \<longleftrightarrow> (\<exists>a items. map_of e ''lifecycle_action'' = Some a \<and>
     iter_of (dget c ''invalidated_by_actions'' (VList [])) = Inr items \<and> list_ex (py_eq a) items)"

definition suppress :: "pydict \<Rightarrow> pydict" where
  "suppress c = AList.update ''suppression_reason'' (VStr ''HIGHER_PRIORITY_EFFECT_INVALIDATED'') c"

lemma intersects_Inr:
  assumes "intersects applied (dget c ''invalidated_by_actions'' (VList [])) = Inr b"
    and "set applied = (\<lambda>e. the (map_of e ''lifecycle_action'')) ` set res"
    and "\<forall>e \<in> set res. map_of e ''lifecycle_action'' \<noteq> None"
  shows "b \<longleftrightarrow> (\<exists>e \<in> set res. invalidates e c)"
  using assms by (fastforce simp: intersects_def invalidates_def bnd_eq_Inr list_ex_iff split: if_splits)

text \<open>The loop splits the candidates into those that take effect and those an earlier effect
  invalidated, and stops only at a pair that is not jointly lawful.\<close>

lemma resolve_loop_split:
  assumes "resolve_loop pack res supp applied cs = Inr (False, r, s)"
    and "set applied = (\<lambda>e. the (map_of e ''lifecycle_action'')) ` set res"
    and "\<forall>e \<in> set res. map_of e ''lifecycle_action'' \<noteq> None"
  shows "\<exists>keep drop. r = res @ keep \<and> s = supp @ map suppress drop \<and> mset keep + mset drop = mset cs \<and>
    subseq keep cs \<and>
    (\<forall>c \<in> set drop. \<exists>e \<in> set r. invalidates e c \<and> (e \<in> set res \<or> subseq [e, c] cs)) \<and>
    (\<forall>e \<in> set res. \<forall>c \<in> set keep. \<not> invalidates e c) \<and> sorted_wrt (\<lambda>e c. \<not> invalidates e c) keep"
  using assms
proof (induction cs arbitrary: res supp applied)
  case Nil
  then show ?case by auto
next
  case (Cons c cs)
  from Cons.prems(1) obtain b where b: "intersects applied (dget c ''invalidated_by_actions'' (VList [])) = Inr b"
    by (cases "intersects applied (dget c ''invalidated_by_actions'' (VList []))") simp_all
  note bi = intersects_Inr [OF b Cons.prems(2,3)]
  show ?case
  proof (cases b)
    case True
    then have l: "resolve_loop pack res (supp @ [suppress c]) applied cs = Inr (False, r, s)"
      using Cons.prems(1) b by (simp add: suppress_def)
    obtain keep drop where k: "r = res @ keep" "s = (supp @ [suppress c]) @ map suppress drop"
      "mset keep + mset drop = mset cs" "subseq keep cs"
      "\<forall>d \<in> set drop. \<exists>e \<in> set r. invalidates e d \<and> (e \<in> set res \<or> subseq [e, d] cs)"
      "\<forall>e \<in> set res. \<forall>c \<in> set keep. \<not> invalidates e c" "sorted_wrt (\<lambda>e c. \<not> invalidates e c) keep"
      using Cons.IH [OF l Cons.prems(2,3)] by blast
    have "\<forall>d \<in> set (c # drop). \<exists>e \<in> set r. invalidates e d \<and> (e \<in> set res \<or> subseq [e, d] (c # cs))"
    proof
      fix d assume "d \<in> set (c # drop)"
      then consider "d = c" | "d \<in> set drop" by auto
      then show "\<exists>e \<in> set r. invalidates e d \<and> (e \<in> set res \<or> subseq [e, d] (c # cs))"
      proof cases
        case 1
        obtain e where "e \<in> set res" "invalidates e c" using bi True by blast
        moreover from this have "e \<in> set r" using k(1) by simp
        ultimately show ?thesis using 1 by blast
      next
        case 2
        then show ?thesis using k(5) by (meson list_emb_Cons)
      qed
    qed
    moreover have "mset keep + mset (c # drop) = mset (c # cs)" using k(3) by simp
    moreover have "subseq keep (c # cs)" using k(4) by (rule list_emb_Cons)
    ultimately show ?thesis using k(1,2,6,7) by (intro exI [of _ keep] exI [of _ "c # drop"]) simp
  next
    case False
    then obtain action where a: "map_of c ''lifecycle_action'' = Some action"
      and l: "resolve_loop pack (res @ [c]) supp (action # applied) cs = Inr (False, r, s)"
      using Cons.prems(1) b by (auto simp: bnd_eq_Inr ditem_Inr split: if_splits)
    have p: "set (action # applied) = (\<lambda>e. the (map_of e ''lifecycle_action'')) ` set (res @ [c])"
      "\<forall>e \<in> set (res @ [c]). map_of e ''lifecycle_action'' \<noteq> None"
      using Cons.prems(2,3) a by auto
    obtain keep drop where k: "r = (res @ [c]) @ keep" "s = supp @ map suppress drop"
      "mset keep + mset drop = mset cs" "subseq keep cs"
      "\<forall>d \<in> set drop. \<exists>e \<in> set r. invalidates e d \<and> (e \<in> set (res @ [c]) \<or> subseq [e, d] cs)"
      "\<forall>e \<in> set (res @ [c]). \<forall>c \<in> set keep. \<not> invalidates e c" "sorted_wrt (\<lambda>e c. \<not> invalidates e c) keep"
      using Cons.IH [OF l p] by blast
    have dr: "\<exists>e \<in> set r. invalidates e d \<and> (e \<in> set res \<or> subseq [e, d] (c # cs))" if d: "d \<in> set drop" for d
    proof -
      have "d \<in> set cs" using d k(3) by (metis Un_iff set_mset_mset set_mset_union)
      then have "subseq [c, d] (c # cs)" by (simp add: subseq_singleton_left)
      moreover obtain e where "e \<in> set r" "invalidates e d" "e \<in> set res \<or> e = c \<or> subseq [e, d] cs"
        using k(5) d by auto
      ultimately show ?thesis using list_emb_Cons [of "(=)" "[e, d]" cs c] by blast
    qed
    have "mset (c # keep) + mset drop = mset (c # cs)" using k(3) by simp
    moreover have "\<forall>e \<in> set res. \<forall>d \<in> set (c # keep). \<not> invalidates e d" using bi False k(6) by simp
    moreover have "sorted_wrt (\<lambda>e c. \<not> invalidates e c) (c # keep)" using k(6,7) by simp
    moreover have "subseq (c # keep) (c # cs)" using k(4) by simp
    moreover have "r = res @ (c # keep)" using k(1) by simp
    ultimately show ?thesis using k(2) dr by blast
  qed
qed

text \<open>When the loop, or the closure check, reports a conflict, some pair of candidates is not jointly
  lawful.\<close>

lemma closure_conflict_True:
  "closure_conflict pack c es = Inr True \<Longrightarrow> \<exists>e \<in> set es. \<not> jointly_lawful pack e c"
  by (induction es) (auto simp: bnd_eq_Inr ditem_Inr jointly_lawful_def CONFLICTING_def split: if_splits)

lemma resolve_loop_conflict:
  assumes "resolve_loop pack res supp applied cs = Inr (True, r, s)"
  shows "\<exists>e \<in> set (res @ cs). \<exists>c \<in> set cs. \<not> jointly_lawful pack e c"
  using assms
proof (induction cs arbitrary: res supp applied)
  case Nil
  then show ?case by simp
next
  case (Cons c cs)
  then obtain b where b: "intersects applied (dget c ''invalidated_by_actions'' (VList [])) = Inr b"
    by (cases "intersects applied (dget c ''invalidated_by_actions'' (VList []))") simp_all
  show ?case
  proof (cases b)
    case True
    then show ?thesis using Cons.IH Cons.prems b by fastforce
  next
    case False
    with Cons.prems b obtain cc where cc: "closure_conflict pack c res = Inr cc" by (auto simp: bnd_eq_Inr)
    show ?thesis
    proof (cases cc)
      case True
      then show ?thesis using closure_conflict_True cc by fastforce
    next
      case False
      with Cons.prems b \<open>\<not> b\<close> cc obtain a where "resolve_loop pack (res @ [c]) supp (a # applied) cs = Inr (True, r, s)"
        by (auto simp: bnd_eq_Inr split: if_splits)
      from Cons.IH [OF this] show ?thesis by auto
    qed
  qed
qed

lemma priority_conflict_Some:
  "priority_conflict pack ns ps = Inr (Some rs) \<Longrightarrow> \<exists>e \<in> set ns. \<exists>c \<in> set ns. \<not> jointly_lawful pack e c"
proof (induction ps)
  case Nil
  then show ?case by simp
next
  case (Cons p ps)
  let ?g = "filter (\<lambda>row. priority_of row = Inr p) ns"
  obtain b rs' where s: "semantic_conflict pack ?g = Inr (b, rs')"
    using Cons.prems by (auto simp: bnd_eq_Inr)
  show ?case
  proof (cases b)
    case True
    then have "\<not> sorted_wrt (jointly_lawful pack) ?g" using s semantic_conflict_True [of pack ?g rs'] by simp
    then obtain x y where "(x, y) \<in> set (pairs ?g)" "\<not> jointly_lawful pack x y" unfolding set_pairs by auto
    then show ?thesis using pairs_mem [of x y ?g] by auto
  next
    case False
    then show ?thesis using Cons s by simp
  qed
qed

lemma priority_conflict_None:
  "priority_conflict pack ns ps = Inr None \<Longrightarrow> p \<in> set ps \<Longrightarrow>
    sorted_wrt (jointly_lawful pack) (filter (\<lambda>row. priority_of row = Inr p) ns)"
  by (induction ps) (auto simp: bnd_eq_Inr semantic_conflict_False split: if_splits)

text \<open>The candidates the resolver considers, and their order.\<close>

definition evaluable_items :: "pydict option list \<Rightarrow> pydict list" where
  "evaluable_items candidates =
    filter (\<lambda>item. py_bool (dget item ''evaluable'' (VBool True))) (map the (filter (\<lambda>c. c \<noteq> None) candidates))"

abbreviation ordered_items :: "pydict option list \<Rightarrow> pydict list" where
  "ordered_items cs \<equiv> sort_key (\<lambda>row. projr (candidate_key row)) (evaluable_items cs)"

lemma resolve_candidates_items:
  "resolve_candidates pack cs = resolve_candidates pack (map Some (evaluable_items cs))"
  unfolding resolve_candidates_def evaluable_items_def by (simp add: comp_def)

lemma resolve_candidates_Inr:
  assumes "resolve_candidates pack cs = Inr res"
  obtains (equal_priority) reasons where "is_ok (mapM candidate_key (evaluable_items cs))"
      and "priority_conflict pack (ordered_items cs)
        (sorted_set (map (\<lambda>row. projr (priority_of row)) (ordered_items cs))) = Inr (Some reasons)"
      and "res_status res = ''CONFLICT''" and "resolved res = []"
  | (closure) r s where "is_ok (mapM candidate_key (evaluable_items cs))"
      and "resolve_loop pack [] [] [] (ordered_items cs) = Inr (True, r, s)"
      and "res_status res = ''CONFLICT''" and "resolved res = r"
  | (compound) r s reasons where "is_ok (mapM candidate_key (evaluable_items cs))"
      and "resolve_loop pack [] [] [] (ordered_items cs) = Inr (False, r, s)"
      and "semantic_conflict pack r = Inr (True, reasons)"
      and "res_status res = ''CONFLICT''" and "resolved res = []"
  | (lawful) r s where "is_ok (mapM candidate_key (evaluable_items cs))"
      and "priority_conflict pack (ordered_items cs)
        (sorted_set (map (\<lambda>row. projr (priority_of row)) (ordered_items cs))) = Inr None"
      and "resolve_loop pack [] [] [] (ordered_items cs) = Inr (False, r, s)"
      and "semantic_conflict pack r = Inr (False, [])"
      and "res_status res = ''RESOLVED''" and "resolved res = r" and "suppressed res = s"
proof -
  obtain ks pc where k: "mapM candidate_key (evaluable_items cs) = Inr ks"
    and pc: "priority_conflict pack (ordered_items cs)
      (sorted_set (map (\<lambda>row. projr (priority_of row)) (ordered_items cs))) = Inr pc"
    using assms unfolding resolve_candidates_def evaluable_items_def Let_def bnd_eq_Inr by blast
  have ok: "is_ok (mapM candidate_key (evaluable_items cs))" using k by simp
  note rest = assms [unfolded resolve_candidates_def evaluable_items_def [symmetric] Let_def k bnd_Inr pc]
  show ?thesis
  proof (cases pc)
    case (Some reasons)
    with rest show ?thesis using equal_priority [OF ok] pc by (auto simp: bnd_eq_Inr)
  next
    case None
    with rest obtain b r s where l: "resolve_loop pack [] [] [] (ordered_items cs) = Inr (b, r, s)"
      by (auto simp: bnd_eq_Inr)
    show ?thesis
    proof (cases b)
      case True
      with rest None l show ?thesis using closure [OF ok, of r s] by auto
    next
      case False
      then have eqFalse: "b = False" by simp
      from False rest None l obtain b2 reasons where s2: "semantic_conflict pack r = Inr (b2, reasons)"
        by (auto simp: bnd_eq_Inr)
      show ?thesis
      proof (cases b2)
        case True
        with rest None l False s2 show ?thesis using compound [OF ok, of r s reasons] by auto
      next
        case F2: False
        then have eqFalse2: "b2 = False" "reasons = []" using s2 semantic_conflict_False by auto
        with rest None l False s2 F2 have "res = \<lparr>res_status = ''RESOLVED'', res_reasons = [], resolved = r,
            suppressed = s, res_candidates = ordered_items cs\<rparr>" by simp
        then show ?thesis using lawful [OF ok pc [unfolded None] l [unfolded eqFalse] s2 [unfolded eqFalse2]] by simp
      qed
    qed
  qed
qed

lemma sorted_wrt_subseq: "subseq xs ys \<Longrightarrow> sorted_wrt P ys \<Longrightarrow> sorted_wrt P xs"
  by (induction rule: list_emb.induct) (auto dest: list_emb_set)

subsection \<open>Properties\<close>

text \<open>A rule, a frame and candidates, for the examples.\<close>

definition example_frame :: "string \<Rightarrow> pydict" where
  "example_frame st = [(''frame_id'', VStr ''F1''), (''chronology'', VDict [(''first_valid_time'', VStr ''2026-01-02'')]),
     (''evidence'', VDict [(''dependency_results'', VList [VDict [(''dependency_id'', VStr ''C2''),
        (''role'', VStr ''required''), (''status'', VStr st)]])])]"

definition example_rule_dict :: pydict where
  "example_rule_dict = [(''boundary_rule_id'', VStr ''R1''), (''lifecycle_action'', VStr ''BIRTH''),
     (''candidate_type'', VStr ''A''), (''priority_class'', VInt 8), (''dependencies'', VDict [(''REQUIRED'', VList [VStr ''C2''])])]"

definition example_candidate :: "string \<Rightarrow> string \<Rightarrow> int \<Rightarrow> string list \<Rightarrow> pydict" where
  "example_candidate i ctype pri ia = [(''candidate_id'', VStr i), (''candidate_type'', VStr ctype), (''lifecycle_action'', VStr ctype),
     (''priority_class'', VInt pri), (''evaluable'', VBool True), (''invalidated_by_actions'', strs_val ia)]"



text \<open>C4: when the resolver reports RESOLVED, the candidates it lets take effect are pairwise jointly
  lawful (so no two have the same type), in priority order, and together with the suppressed ones they
  are exactly the evaluable candidates; every suppressed candidate is invalidated by the action of a
  resolved candidate that comes before it, and no resolved candidate is invalidated by an earlier one.\<close>

theorem resolver_sound:
  assumes "resolve_candidates pack cs = Inr res" and "res_status res = ''RESOLVED''"
  shows "sorted_wrt (jointly_lawful pack) (resolved res) \<and>
    sorted_wrt (\<lambda>l r. py_str (the (map_of l ''candidate_type'')) \<noteq> py_str (the (map_of r ''candidate_type''))) (resolved res) \<and>
    sorted (map (\<lambda>row. projr (candidate_key row)) (resolved res)) \<and>
    sorted_wrt (\<lambda>e c. \<not> invalidates e c) (resolved res) \<and>
    (\<exists>drop. suppressed res = map suppress drop \<and> mset (resolved res) + mset drop = mset (evaluable_items cs) \<and>
       (\<forall>c \<in> set drop. \<exists>e \<in> set (resolved res). invalidates e c \<and> subseq [e, c] (ordered_items cs)))"
  using assms(1)
proof (cases rule: resolve_candidates_Inr)
  case (lawful r s)
  have law: "sorted_wrt (jointly_lawful pack) r" using lawful(4) semantic_conflict_False by blast
  obtain keep drop where k: "r = [] @ keep" "s = [] @ map suppress drop" "mset keep + mset drop = mset (ordered_items cs)"
    "subseq keep (ordered_items cs)"
    "\<forall>c \<in> set drop. \<exists>e \<in> set r. invalidates e c \<and> (e \<in> set ([] :: pydict list) \<or> subseq [e, c] (ordered_items cs))"
    "sorted_wrt (\<lambda>e c. \<not> invalidates e c) keep"
    using resolve_loop_split [OF lawful(3)] by auto
  have "sorted (map (\<lambda>row. projr (candidate_key row)) r)"
    using sorted_wrt_subseq [OF subseq_map [OF k(4)] sorted_sort_key] k(1) by simp
  then show ?thesis
    using k law lawful(6,7) sorted_wrt_mono_rel [OF _ law, of "\<lambda>l r. py_str (the (map_of l ''candidate_type'')) \<noteq> py_str (the (map_of r ''candidate_type''))"]
      jointly_lawful_types by (auto intro!: exI [of _ drop])
qed (use assms(2) in simp_all)

definition example_resolution :: "resolution result" where
  "example_resolution = resolve_candidates example_pack_a
     [Some (example_candidate ''x'' ''B'' 2 []), None, Some (example_candidate ''y'' ''A'' 1 []), Some (example_candidate ''z'' ''C'' 3 [''A''])]"

theorem resolver_sound_witness:
  "\<exists>res. example_resolution = Inr res \<and> res_status res = ''RESOLVED'' \<and> sorted_wrt (jointly_lawful example_pack_a) (resolved res) \<and>
     resolved res = [example_candidate ''y'' ''A'' 1 [], example_candidate ''x'' ''B'' 2 []] \<and>
     suppressed res = [suppress (example_candidate ''z'' ''C'' 3 [''A''])]"
proof -
  define res where "res = \<lparr>res_status = ''RESOLVED'', res_reasons = [],
      resolved = [example_candidate ''y'' ''A'' 1 [], example_candidate ''x'' ''B'' 2 []],
      suppressed = [suppress (example_candidate ''z'' ''C'' 3 [''A''])],
      res_candidates = [example_candidate ''y'' ''A'' 1 [], example_candidate ''x'' ''B'' 2 [], example_candidate ''z'' ''C'' 3 [''A'']]\<rparr>"
  have r: "example_resolution = Inr res" unfolding res_def by code_simp
  have s: "res_status res = ''RESOLVED''" by (simp add: res_def)
  have "sorted_wrt (jointly_lawful example_pack_a) (resolved res)"
    using resolver_sound [OF r [unfolded example_resolution_def] s] by blast
  moreover have "resolved res = [example_candidate ''y'' ''A'' 1 [], example_candidate ''x'' ''B'' 2 []]"
    "suppressed res = [suppress (example_candidate ''z'' ''C'' 3 [''A''])]" by (simp_all add: res_def)
  ultimately show ?thesis using r s by blast
qed



text \<open>C6: the answer of the resolver does not depend on the order in which the candidates arrive, when
  their sort keys (priority class and identifier) are distinct.\<close>

theorem resolver_order_free:
  assumes "resolve_candidates pack cs = Inr res"
    and "mset (evaluable_items cs') = mset (evaluable_items cs)"
    and "distinct (map candidate_key (evaluable_items cs))"
  shows "resolve_candidates pack cs' = Inr res"
proof -
  have sets: "set (evaluable_items cs') = set (evaluable_items cs)" using assms(2) by (metis set_mset_mset)
  have ok: "is_ok (mapM candidate_key (evaluable_items cs))"
    using assms(1) by (cases rule: resolve_candidates_Inr) simp_all
  then have keys: "\<forall>c \<in> set (evaluable_items cs). is_ok (candidate_key c)" by simp
  have inj: "inj_on (\<lambda>row. projr (candidate_key row)) (set (evaluable_items cs'))"
    using assms(3) keys sets unfolding is_ok_iff distinct_map inj_on_def by (metis sum.sel(2))
  have ord: "ordered_items cs' = ordered_items cs"
    using assms(2) inj by (rule sort_key_mset_cong)
  have ok': "is_ok (mapM candidate_key (evaluable_items cs'))" using keys sets by simp
  obtain ks ks' where k: "mapM candidate_key (evaluable_items cs) = Inr ks" "mapM candidate_key (evaluable_items cs') = Inr ks'"
    using ok ok' unfolding is_ok_iff by blast
  show ?thesis using assms(1)
    unfolding resolve_candidates_def evaluable_items_def [symmetric] Let_def k bnd_Inr ord .
qed

theorem resolver_order_free_witness:
  "resolve_candidates example_pack_a
     [Some (example_candidate ''z'' ''C'' 3 [''A'']), Some (example_candidate ''y'' ''A'' 1 []), Some (example_candidate ''x'' ''B'' 2 [])] =
   example_resolution"
proof -
  let ?cs = "[Some (example_candidate ''x'' ''B'' 2 []), None, Some (example_candidate ''y'' ''A'' 1 []), Some (example_candidate ''z'' ''C'' 3 [''A''])]"
  let ?ds = "[Some (example_candidate ''z'' ''C'' 3 [''A'']), Some (example_candidate ''y'' ''A'' 1 []), Some (example_candidate ''x'' ''B'' 2 [])]"
  have "is_ok example_resolution" by code_simp
  then obtain res where res: "resolve_candidates example_pack_a ?cs = Inr res"
    unfolding is_ok_iff example_resolution_def by blast
  have i: "evaluable_items ?cs = [example_candidate ''x'' ''B'' 2 [], example_candidate ''y'' ''A'' 1 [], example_candidate ''z'' ''C'' 3 [''A'']]"
    "evaluable_items ?ds = [example_candidate ''z'' ''C'' 3 [''A''], example_candidate ''y'' ''A'' 1 [], example_candidate ''x'' ''B'' 2 []]"
    by code_simp+
  have "mset (evaluable_items ?ds) = mset (evaluable_items ?cs)" unfolding i by simp
  moreover have "distinct (map candidate_key (evaluable_items ?cs))" by code_simp
  ultimately show ?thesis unfolding example_resolution_def using resolver_order_free [OF res] res by simp
qed

end
