(* ===== verification/Py_Walk.thy ===== *)
theory Py_Walk
  imports Py_Value
begin

section \<open>Walking a value to refuse field names and texts\<close>

text \<open>
  Several modules of the source walk a nested value and raise on a refused field name or text. They
  share \<open>scan_tree\<close>, which takes the two tests and the two errors. The lemmas show that a walk accepts
  exactly the values with no refused field name or text anywhere inside.
\<close>

subsection \<open>Walking a value\<close>

text \<open>\<open>bad_key\<close> and \<open>bad_text\<close> are the tests, \<open>key_err\<close> and \<open>text_err\<close> the errors from the path.\<close>

fun scan_tree :: "(string \<Rightarrow> bool) \<Rightarrow> (string \<Rightarrow> bool) \<Rightarrow> (string \<Rightarrow> exn) \<Rightarrow> (string \<Rightarrow> exn) \<Rightarrow> pyval \<Rightarrow> string \<Rightarrow> unit result"
  and scan_items :: "(string \<Rightarrow> bool) \<Rightarrow> (string \<Rightarrow> bool) \<Rightarrow> (string \<Rightarrow> exn) \<Rightarrow> (string \<Rightarrow> exn) \<Rightarrow> (string \<times> pyval) list \<Rightarrow> string \<Rightarrow> unit result"
  and scan_list :: "(string \<Rightarrow> bool) \<Rightarrow> (string \<Rightarrow> bool) \<Rightarrow> (string \<Rightarrow> exn) \<Rightarrow> (string \<Rightarrow> exn) \<Rightarrow> nat \<Rightarrow> pyval list \<Rightarrow> string \<Rightarrow> unit result" where
  "scan_tree bk bt ke te (VDict kvs) path = scan_items bk bt ke te kvs path"
| "scan_tree bk bt ke te (VList xs) path = scan_list bk bt ke te 0 xs path"
| "scan_tree bk bt ke te (VTuple xs) path = scan_list bk bt ke te 0 xs path"
| "scan_tree bk bt ke te (VStr s) path = (if bt s then Inl (te path) else Inr ())"
| "scan_tree bk bt ke te v path = Inr ()"
| "scan_items bk bt ke te [] path = Inr ()"
| "scan_items bk bt ke te ((key, item) # kvs) path =
     (if bk key then Inl (ke (path @ ''.'' @ key))
      else bnd (scan_tree bk bt ke te item (path @ ''.'' @ key)) (\<lambda>_. scan_items bk bt ke te kvs path))"
| "scan_list bk bt ke te i [] path = Inr ()"
| "scan_list bk bt ke te i (item # xs) path =
     bnd (scan_tree bk bt ke te item (path @ ''['' @ nat_str i @ '']'')) (\<lambda>_. scan_list bk bt ke te (Suc i) xs path)"

subsection \<open>What a walk accepts\<close>

text \<open>The values a walk reaches.\<close>

inductive inside :: "pyval \<Rightarrow> pyval \<Rightarrow> bool" where
  here: "inside v v"
| field: "(k, w) \<in> set kvs \<Longrightarrow> inside u w \<Longrightarrow> inside u (VDict kvs)"
| item: "w \<in> set xs \<Longrightarrow> inside u w \<Longrightarrow> inside u (VList xs)"
| part: "w \<in> set xs \<Longrightarrow> inside u w \<Longrightarrow> inside u (VTuple xs)"

inductive_simps inside_simps: "inside u (VDict kvs)" "inside u (VList xs)" "inside u (VTuple xs)" "inside u (VStr s)"
  "inside u VNone" "inside u (VBool b)" "inside u (VInt i)" "inside u (VFloat t)" "inside u (VDec d)" "inside u (VSet ys)"

text \<open>A walk looks at the fields of a mapping and at a text.\<close>

definition passes :: "(string \<Rightarrow> bool) \<Rightarrow> (string \<Rightarrow> bool) \<Rightarrow> pyval \<Rightarrow> bool" where
  "passes bk bt v \<longleftrightarrow> (case v of VDict kvs \<Rightarrow> \<forall>(k, w) \<in> set kvs. \<not> bk k | VStr s \<Rightarrow> \<not> bt s | _ \<Rightarrow> True)"

definition clean :: "(string \<Rightarrow> bool) \<Rightarrow> (string \<Rightarrow> bool) \<Rightarrow> pyval \<Rightarrow> bool" where
  "clean bk bt v \<longleftrightarrow> (\<forall>u. inside u v \<longrightarrow> passes bk bt u)"

lemma clean_VDict: "clean bk bt (VDict kvs) \<longleftrightarrow> (\<forall>(k, w) \<in> set kvs. \<not> bk k \<and> clean bk bt w)"
proof -
  have "clean bk bt (VDict kvs) \<longleftrightarrow> passes bk bt (VDict kvs) \<and> (\<forall>(k, w) \<in> set kvs. clean bk bt w)"
    unfolding clean_def by (auto simp: inside_simps(1))
  then show ?thesis by (auto simp: passes_def)
qed

lemma clean_items: "clean bk bt (VList xs) \<longleftrightarrow> (\<forall>w \<in> set xs. clean bk bt w)"
  "clean bk bt (VTuple xs) \<longleftrightarrow> (\<forall>w \<in> set xs. clean bk bt w)"
proof -
  have "passes bk bt (VList xs)" "passes bk bt (VTuple xs)" by (simp_all add: passes_def)
  then show "clean bk bt (VList xs) \<longleftrightarrow> (\<forall>w \<in> set xs. clean bk bt w)"
    "clean bk bt (VTuple xs) \<longleftrightarrow> (\<forall>w \<in> set xs. clean bk bt w)"
    unfolding clean_def inside_simps by blast+
qed

lemma clean_atoms:
  "clean bk bt (VStr s) \<longleftrightarrow> \<not> bt s"
  "clean bk bt VNone" "clean bk bt (VBool b)" "clean bk bt (VInt i)" "clean bk bt (VFloat t)" "clean bk bt (VDec d)" "clean bk bt (VSet ys)"
  by (simp_all add: clean_def inside_simps passes_def)

lemmas clean_simps = clean_VDict clean_items clean_atoms

lemma scan_tree_clean: "scan_tree bk bt ke te v path = Inr u \<longleftrightarrow> clean bk bt v"
  and scan_items_clean: "scan_items bk bt ke te kvs path = Inr u \<longleftrightarrow> (\<forall>(k, w) \<in> set kvs. \<not> bk k \<and> clean bk bt w)"
  and scan_list_clean: "scan_list bk bt ke te i xs path = Inr u \<longleftrightarrow> (\<forall>w \<in> set xs. clean bk bt w)"
  by (induction bk bt ke te v path and bk bt ke te kvs path and bk bt ke te i xs path rule: scan_tree_scan_items_scan_list.induct)
    (simp add: clean_simps bnd_eq_Inr; blast)+

lemma scan_tree_class:
  assumes "\<And>p. exn_class (ke p) = c" and "\<And>p. exn_class (te p) = c"
  shows "scan_tree bk bt ke te v path = Inl e \<Longrightarrow> exn_class e = c"
    and "scan_items bk bt ke te kvs path = Inl e \<Longrightarrow> exn_class e = c"
    and "scan_list bk bt ke te i xs path = Inl e \<Longrightarrow> exn_class e = c"
  using assms
  by (induction bk bt ke te v path and bk bt ke te kvs path and bk bt ke te i xs path rule: scan_tree_scan_items_scan_list.induct)
    (auto simp: bnd_eq_Inl split: if_splits)

end
