(* ===== verification/C2E_Rules.thy ===== *)
theory C2E_Rules
  imports C2E_Resolution Py_Walk
begin

section \<open>C2E v0.2: firewall, source binding, comparison signatures and boundary rules\<close>

text \<open>
  \<^verbatim>\<open>firewall.py\<close>, \<^verbatim>\<open>source_binding.py\<close>, \<^verbatim>\<open>stable_signatures.py\<close>, \<^verbatim>\<open>empirical_boundary_rules.py\<close> and
  \<^verbatim>\<open>empirical_boundary_rules_v2.py\<close> of \<^verbatim>\<open>src/src/ovc/opt_b/c2e_v2/\<close>. Three modules walk a value to refuse
  field names and texts; they share \<open>scan_tree\<close> of \<open>Py_Walk\<close>.
  The lemmas show that a walk accepts exactly the values with no refused field or text anywhere inside,
  that signatures verify after they are built, and how the six rules of the boundary pack exclude each
  other.
\<close>

subsection \<open>Firewall\<close>

definition FORBIDDEN_KEY_TOKENS :: "string list" where
  "FORBIDDEN_KEY_TOKENS =
    [''family_id'', ''cluster_id'', ''medoid'', ''distance'', ''sensitivity'',
     ''invariant_core'', ''recurrence'', ''c2p_annotation'', ''c2_5'', ''c25'',
     ''c3'', ''outcome'', ''future_path'', ''future_bar'', ''mfe'', ''mae'',
     ''probability'', ''risk'', ''exposure'', ''execution'', ''trade_label'',
     ''research_queue'', ''review_disposition'', ''retrospective_segmentation'',
     ''optimal_segmentation'']"

definition FORBIDDEN_VALUE_TOKENS :: "string list" where
  "FORBIDDEN_VALUE_TOKENS = [''FDI'', ''C2G'', ''C2.5'', ''C3_AST'', ''RETROSPECTIVE_BEST_SEGMENTATION'']"

definition forbidden_key :: "string \<Rightarrow> bool" where
  "forbidden_key key = list_ex (\<lambda>token. sublist token (py_lower key)) FORBIDDEN_KEY_TOKENS"

definition forbidden_text :: "string \<Rightarrow> bool" where
  "forbidden_text value = list_ex (\<lambda>token. sublist (py_upper token) (py_upper value)) FORBIDDEN_VALUE_TOKENS"

definition scan_forbidden :: "pyval \<Rightarrow> string \<Rightarrow> unit result" where
  "scan_forbidden value path =
    scan_tree forbidden_key forbidden_text
      (\<lambda>p. Exn FirewallError (''DEP_FORBIDDEN_FIELD_CONSUMED:'' @ p)) (\<lambda>p. Exn FirewallError (''DEP_FORBIDDEN_VALUE_CONSUMED:'' @ p))
      value path"

subsection \<open>Source binding\<close>

definition C2AR_PACKAGE_ID :: string where
  "C2AR_PACKAGE_ID = ''C2AR.INTEGRATED.SHADOW.PACKAGE.v1''"

definition C2AR_PACKAGE_SHA256 :: string where
  "C2AR_PACKAGE_SHA256 = ''150de1997be8801baa59db6d0fe98b11cb21a6b70525b908537aeb31bfd00cc3''"

definition C2AR_PERMISSION :: string where
  "C2AR_PERMISSION = ''READ_ONLY_SHADOW_RESEARCH_ONLY''"

definition validate_source_binding :: "pyval \<Rightarrow> pydict result" where
  "validate_source_binding binding =
    bnd (as_dict binding) (\<lambda>result.
    let require = req SourceBindingError in
    bnd (require (dget result ''c2ar_package_id'' VNone = VStr C2AR_PACKAGE_ID) ''C2AR_PACKAGE_ID_MISMATCH'') (\<lambda>_.
    bnd (require (dget result ''c2ar_package_sha256'' VNone = VStr C2AR_PACKAGE_SHA256) ''C2AR_PACKAGE_HASH_MISMATCH'') (\<lambda>_.
    bnd (require (dget result ''research_consumer_permission'' VNone = VStr C2AR_PERMISSION) ''C2AR_PERMISSION_MISMATCH'') (\<lambda>_.
    bnd (require (dget result ''active'' VNone = VBool False) ''ACTIVE_C2_SOURCE_DENIED'') (\<lambda>_.
    bnd (require (dget result ''canonical'' VNone = VBool False) ''CANONICAL_C2_SOURCE_DENIED'') (\<lambda>_.
    bnd (mapM (\<lambda>key. require (py_bool (dget result key VNone)) (''SOURCE_BINDING_REQUIRED:'' @ key))
      [''source_release_id'', ''source_manifest_id'', ''c2_release_id'', ''c2_contract_id'', ''source_build_commit'']) (\<lambda>_.
    Inr (AList.update ''binding_status'' (VStr ''EXACT_READ_ONLY_SHADOW'') result))))))))"

subsection \<open>Stable comparison signatures\<close>

definition STRUCTURAL_AXES :: "string list" where
  "STRUCTURAL_AXES = [''LOCATION'', ''MOTION'', ''ORGANISATION'', ''INTERACTION'']"

definition STRUCTURAL_COMPONENT_KEYS :: "string list" where
  "STRUCTURAL_COMPONENT_KEYS = [''axis'', ''status'', ''reason_codes'', ''facts'', ''source_object_ids'']"

definition PARENT_KEYS :: "string list" where
  "PARENT_KEYS = [''selected_parent_observation_ids'', ''selected_parent_object_ids'', ''dependency_states'']"

definition DEPENDENCY_KEYS :: "string list" where
  "DEPENDENCY_KEYS = [''dependency_id'', ''role'', ''status'', ''reason_codes'']"

definition SIGNATURE_PROHIBITED_KEYS :: "string list" where
  "SIGNATURE_PROHIBITED_KEYS =
    [''record_id'', ''profile_output_id'', ''link_id'', ''bundle_id'', ''observation_id'',
     ''local_observation_id'', ''as_of_time'', ''first_valid_time'', ''evaluation_cutoff'',
     ''future'', ''outcome'', ''probability'', ''risk'', ''exposure'', ''trade'', ''trading'',
     ''execution'', ''family'', ''family_id'', ''medoid'', ''distance'', ''semantic_label'',
     ''selected_object_id'', ''fallback_object_id'', ''best_object'', ''nearest_object'']"

definition sig_req :: "bool \<Rightarrow> string \<Rightarrow> unit result" where
  "sig_req = req StableSignatureError"

definition sig_canonical :: "pyval \<Rightarrow> string result" where
  "sig_canonical value =
    (case json_compact value of
       Inr s \<Rightarrow> Inr s
     | Inl (Exn c m) \<Rightarrow>
         if c = TypeError \<or> c = ValueError then Inl (Exn StableSignatureError ''NONCANONICAL_COMPARISON_CONTENT'')
         else Inl (Exn c m))"

definition sig_digest :: "pyval \<Rightarrow> string result" where
  "sig_digest value = bnd (sig_canonical value) (\<lambda>b. Inr (sha256 b))"

definition sig_bad_key :: "string \<Rightarrow> bool" where
  "sig_bad_key key =
    (let lowered = py_lower key in
     lowered \<in> set SIGNATURE_PROHIBITED_KEYS \<or> suffix ''_record_id'' lowered \<or> suffix ''_record_ids'' lowered)"

definition sig_scan :: "pyval \<Rightarrow> unit result" where
  "sig_scan value =
    scan_tree sig_bad_key (\<lambda>_. False)
      (\<lambda>p. Exn StableSignatureError (''WRAPPER_OR_PROHIBITED_COMPARISON_FIELD:'' @ p)) (\<lambda>p. Exn StableSignatureError p)
      value ''$''"

text \<open>\<^verbatim>\<open>_strings\<close>, and \<^verbatim>\<open>_ids\<close> of \<^verbatim>\<open>handoff.py\<close> with another error class.\<close>

definition unique_strings :: "exn_class \<Rightarrow> pyval \<Rightarrow> string \<Rightarrow> string list result" where
  "unique_strings c value marker =
    (case value of
       VList items \<Rightarrow>
         (let result = map py_str items in
          bnd (req c (distinct result) (''DUPLICATE:'' @ marker)) (\<lambda>_. Inr (sort result)))
     | _ \<Rightarrow> Inl (Exn c marker))"

text \<open>\<^verbatim>\<open>sorted(set(d) - allowed)\<close>\<close>

definition unknown_keys :: "pydict \<Rightarrow> string list \<Rightarrow> string list" where
  "unknown_keys d allowed = sort (filter (\<lambda>k. k \<notin> set allowed) (map fst d))"

definition as_list :: "exn \<Rightarrow> pyval \<Rightarrow> pyval list result" where
  "as_list e v = (case v of VList xs \<Rightarrow> Inr xs | _ \<Rightarrow> Inl e)"

definition normalize_component :: "string \<Rightarrow> pydict \<Rightarrow> pydict result" where
  "normalize_component axis raw =
    (let unknown = unknown_keys raw STRUCTURAL_COMPONENT_KEYS in
     bnd (sig_req (unknown = []) (''UNKNOWN_STRUCTURAL_COMPARISON_FIELD:'' @ axis @ '':'' @ join '','' unknown)) (\<lambda>_.
     bnd (sig_req (case map_of raw ''axis'' of None \<Rightarrow> True | Some a \<Rightarrow> py_str a = axis)
       (''STRUCTURAL_COMPARISON_AXIS_MISMATCH:'' @ axis)) (\<lambda>_.
     bnd (sig_req (dhas raw ''status'') (''STRUCTURAL_COMPARISON_STATUS_REQUIRED:'' @ axis)) (\<lambda>_.
     bnd (sig_req (dhas raw ''facts'') (''STRUCTURAL_COMPARISON_FACTS_REQUIRED:'' @ axis)) (\<lambda>_.
     bnd (as_list (Exn StableSignatureError (''STRUCTURAL_COMPARISON_REASONS_LIST:'' @ axis)) (dget raw ''reason_codes'' (VList []))) (\<lambda>reasons.
     bnd (ditem raw ''status'') (\<lambda>st.
     bnd (unique_strings StableSignatureError (dget raw ''source_object_ids'' (VList [])) (''source_object_ids:'' @ axis)) (\<lambda>ids.
     bnd (ditem raw ''facts'') (\<lambda>facts.
     let component =
       [(''axis'', VStr axis), (''status'', VStr (py_str st)),
        (''reason_codes'', VList (map VStr (sorted_set (map py_str reasons)))),
        (''source_object_ids'', VList (map VStr ids)), (''facts'', facts)] in
     bnd (sig_scan (VDict component)) (\<lambda>_. Inr component))))))))))"

definition normalize_structural_basis :: "pydict \<Rightarrow> pydict result" where
  "normalize_structural_basis raw =
    (let unknown = unknown_keys raw STRUCTURAL_AXES;
         missing = sort (filter (\<lambda>axis. \<not> dhas raw axis) STRUCTURAL_AXES) in
     bnd (sig_req (unknown = []) (''UNKNOWN_STRUCTURAL_COMPARISON_AXIS:'' @ join '','' unknown)) (\<lambda>_.
     bnd (sig_req (missing = []) (''MISSING_STRUCTURAL_COMPARISON_AXIS:'' @ join '','' missing)) (\<lambda>_.
     bnd (mapM (\<lambda>axis. bnd (ditem raw axis) (\<lambda>v. bnd (as_dict v) (\<lambda>d.
       bnd (normalize_component axis d) (\<lambda>c. Inr (axis, VDict c))))) STRUCTURAL_AXES) (\<lambda>basis.
     bnd (sig_scan (VDict basis)) (\<lambda>_. Inr basis)))))"

text \<open>One row of \<^verbatim>\<open>dependency_states\<close>, given the identifiers already seen.\<close>

definition dep_state_key :: "pydict \<Rightarrow> string" where
  "dep_state_key item = py_str (dget item ''dependency_id'' (VStr []))"

definition normalize_dep_state :: "string list \<Rightarrow> pyval \<Rightarrow> pydict result" where
  "normalize_dep_state seen raw =
    (case raw of
       VDict item \<Rightarrow>
         (let unknown = unknown_keys item DEPENDENCY_KEYS; dependency_id = dep_state_key item in
          bnd (sig_req (unknown = []) (''UNKNOWN_PARENT_DEPENDENCY_FIELD:'' @ join '','' unknown)) (\<lambda>_.
          bnd (sig_req (dependency_id \<noteq> []) ''PARENT_DEPENDENCY_ID_REQUIRED'') (\<lambda>_.
          bnd (sig_req (dependency_id \<notin> set seen) ''DUPLICATE_PARENT_DEPENDENCY_ID'') (\<lambda>_.
          bnd (as_list (Exn StableSignatureError ''PARENT_DEPENDENCY_REASONS_LIST_REQUIRED'') (dget item ''reason_codes'' (VList []))) (\<lambda>reasons.
          Inr [(''dependency_id'', VStr dependency_id), (''role'', VStr (py_str (dget item ''role'' (VStr ''UNSPECIFIED'')))),
               (''status'', VStr (py_str (dget item ''status'' (VStr ''NOT_AVAILABLE'')))),
               (''reason_codes'', VList (map VStr (sorted_set (map py_str reasons))))])))))
     | _ \<Rightarrow> Inl (Exn StableSignatureError ''PARENT_DEPENDENCY_STATE_OBJECT_REQUIRED''))"

definition normalize_parent_basis :: "pydict \<Rightarrow> pydict result" where
  "normalize_parent_basis raw =
    (let unknown = unknown_keys raw PARENT_KEYS in
     bnd (sig_req (unknown = []) (''UNKNOWN_PARENT_COMPARISON_FIELD:'' @ join '','' unknown)) (\<lambda>_.
     bnd (as_list (Exn StableSignatureError ''PARENT_DEPENDENCY_STATES_LIST_REQUIRED'') (dget raw ''dependency_states'' (VList []))) (\<lambda>deps_raw.
     bnd (foldM (\<lambda>deps item. bnd (normalize_dep_state (map dep_state_key deps) item) (\<lambda>d. Inr (deps @ [d]))) [] deps_raw) (\<lambda>deps.
     bnd (unique_strings StableSignatureError (dget raw ''selected_parent_observation_ids'' (VList [])) ''selected_parent_observation_ids'') (\<lambda>obs.
     bnd (unique_strings StableSignatureError (dget raw ''selected_parent_object_ids'' (VList [])) ''selected_parent_object_ids'') (\<lambda>objs.
     let basis =
       [(''selected_parent_observation_ids'', VList (map VStr obs)), (''selected_parent_object_ids'', VList (map VStr objs)),
        (''dependency_states'', VList (map VDict (sort_key dep_state_key deps)))] in
     bnd (sig_scan (VDict basis)) (\<lambda>_. Inr basis)))))))"

definition build_comparison_signatures :: "pydict \<Rightarrow> pydict result" where
  "build_comparison_signatures comparison_source =
    (let unknown = unknown_keys comparison_source [''structural'', ''parent''] in
     bnd (sig_req (unknown = []) (''UNKNOWN_COMPARISON_SOURCE_FIELD:'' @ join '','' unknown)) (\<lambda>_.
     bnd (sig_req (dhas comparison_source ''structural'') ''STRUCTURAL_COMPARISON_SOURCE_REQUIRED'') (\<lambda>_.
     bnd (sig_req (dhas comparison_source ''parent'') ''PARENT_COMPARISON_SOURCE_REQUIRED'') (\<lambda>_.
     bnd (ditem comparison_source ''structural'') (\<lambda>s.
     bnd (as_dict s) (\<lambda>sd.
     bnd (normalize_structural_basis sd) (\<lambda>structural_basis.
     bnd (ditem comparison_source ''parent'') (\<lambda>p.
     bnd (as_dict p) (\<lambda>pd.
     bnd (normalize_parent_basis pd) (\<lambda>parent_basis.
     bnd (sig_digest (VDict structural_basis)) (\<lambda>sh.
     bnd (sig_digest (VDict parent_basis)) (\<lambda>ph.
     Inr [(''schema'', VStr ''c2e_stable_comparison_signatures/v1''),
          (''signature_contract_id'', VStr ''C2E.STABLE.COMPARISON.SIGNATURES.v1''),
          (''structural_basis'', VDict structural_basis), (''parent_basis'', VDict parent_basis),
          (''structural_signature_sha256'', VStr sh), (''parent_signature_sha256'', VStr ph),
          (''wrapper_identity_in_comparison'', VBool False), (''active'', VBool False), (''canonical'', VBool False),
          (''authority'', VStr ''CANDIDATE_INACTIVE_NONCANONICAL'')]))))))))))))"

definition verify_comparison_signatures :: "pyval \<Rightarrow> unit result" where
  "verify_comparison_signatures value =
    bnd (vget value ''signature_contract_id'' VNone) (\<lambda>cid.
    bnd (sig_req (cid = VStr ''C2E.STABLE.COMPARISON.SIGNATURES.v1'') ''SIGNATURE_CONTRACT_ID'') (\<lambda>_.
    bnd (vget value ''structural_basis'' (VDict [])) (\<lambda>sb.
    bnd (vget value ''parent_basis'' (VDict [])) (\<lambda>pb.
    bnd (build_comparison_signatures [(''structural'', sb), (''parent'', pb)]) (\<lambda>rebuilt.
    bnd (vget value ''structural_signature_sha256'' VNone) (\<lambda>s.
    bnd (ditem rebuilt ''structural_signature_sha256'') (\<lambda>rs.
    bnd (sig_req (py_eq s rs) ''STRUCTURAL_SIGNATURE_MISMATCH'') (\<lambda>_.
    bnd (vget value ''parent_signature_sha256'' VNone) (\<lambda>p.
    bnd (ditem rebuilt ''parent_signature_sha256'') (\<lambda>rp.
    sig_req (py_eq p rp) ''PARENT_SIGNATURE_MISMATCH''))))))))))"

subsection \<open>The June boundary rules\<close>

definition RULE_IDS :: "string list" where
  "RULE_IDS =
    [''C2E.RULE.JUNE.BASELINE.CENSOR_GAP.v1'', ''C2E.RULE.JUNE.BASELINE.CENSOR_RELEASE_END.v1'',
     ''C2E.RULE.JUNE.BASELINE.RE_PARENT.v1'', ''C2E.RULE.JUNE.BASELINE.PHASE_MUTATION.v1'',
     ''C2E.RULE.JUNE.BASELINE.CONTINUATION.v1'', ''C2E.RULE.JUNE.BASELINE.BIRTH.v1'']"

definition RULE_PROHIBITED_KEYS :: "string list" where
  "RULE_PROHIBITED_KEYS =
    [''family_id'', ''family'', ''medoid'', ''distance'', ''outcome'', ''future'',
     ''probability'', ''risk'', ''exposure'', ''trade'', ''trading'', ''execution'',
     ''c2_5'', ''c3'', ''semantic_label'', ''target'', ''stop'']"

definition rule_digest :: "pyval \<Rightarrow> string result" where
  "rule_digest value = bnd (json_compact value) (\<lambda>b. Inr (sha256 b))"

definition rule_scan :: "pyval \<Rightarrow> unit result" where
  "rule_scan value =
    scan_tree (\<lambda>key. py_lower key \<in> set RULE_PROHIBITED_KEYS) (\<lambda>_. False)
      (\<lambda>p. Exn EmpiricalBoundaryRuleError (''PROHIBITED_BOUNDARY_INPUT:'' @ p)) (\<lambda>p. Exn EmpiricalBoundaryRuleError p)
      value ''$''"

definition rule_required :: "string list \<Rightarrow> pydict \<Rightarrow> unit result" where
  "rule_required needed frame =
    (let require = req EmpiricalBoundaryRuleError in
     bnd (mapM (\<lambda>key. require (dhas frame key) (''FRAME_FIELD_REQUIRED:'' @ key)) needed) (\<lambda>_.
     bnd (mapM (\<lambda>key. bnd (ditem frame ''chronology'') (\<lambda>ch. bnd (vget ch key VNone) (\<lambda>v.
       require (py_bool v) (''CHRONOLOGY_REQUIRED:'' @ key))))
       [''continuity_segment_id'', ''first_valid_time'', ''evaluation_cutoff'']) (\<lambda>_.
     bnd (mapM (\<lambda>axis. bnd (ditem frame ''structural'') (\<lambda>st. bnd (contains st axis) (\<lambda>b.
       require b (''STRUCTURAL_AXIS_REQUIRED:'' @ axis))))
       [''location_record_ids'', ''motion_record_ids'', ''organisation_record_ids'', ''interaction_record_ids'']) (\<lambda>_.
     Inr ()))))"

definition required_v1 :: "pydict \<Rightarrow> unit result" where
  "required_v1 frame = rule_required [''identity'', ''chronology'', ''structural'', ''context'', ''evidence'', ''lineage''] frame"

definition required_v2 :: "pydict \<Rightarrow> unit result" where
  "required_v2 frame =
    bnd (rule_required [''identity'', ''chronology'', ''structural'', ''context'', ''evidence'', ''lineage'', ''comparison''] frame) (\<lambda>_.
    bnd (ditem frame ''comparison'') (\<lambda>c.
    case verify_comparison_signatures c of
      Inr u \<Rightarrow> Inr ()
    | Inl (Exn cls m) \<Rightarrow> if cls = StableSignatureError then Inl (Exn EmpiricalBoundaryRuleError m) else Inl (Exn cls m)))"

text \<open>\<^verbatim>\<open>sorted(d.get(key, []))\<close>\<close>

definition sorted_field :: "pyval \<Rightarrow> string \<Rightarrow> (string \<times> pyval) result" where
  "sorted_field d key =
    bnd (vget d key (VList [])) (\<lambda>v. bnd (iter_of v) (\<lambda>items. bnd (py_sorted items) (\<lambda>ss. Inr (key, VList ss))))"

definition structural_signature :: "pydict \<Rightarrow> string result" where
  "structural_signature frame =
    bnd (ditem frame ''structural'') (\<lambda>st.
    bnd (mapM (sorted_field st) [''location_record_ids'', ''motion_record_ids'', ''organisation_record_ids'',
      ''interaction_record_ids'', ''level_record_ids'', ''container_record_ids'']) (\<lambda>a.
    bnd (vget st ''relation_set_id'' VNone) (\<lambda>r.
    bnd (mapM (sorted_field st) [''transition_record_ids'', ''run_record_ids'']) (\<lambda>b.
    rule_digest (VDict (a @ [(''relation_set_id'', r)] @ b))))))"

definition parent_signature :: "pydict \<Rightarrow> string result" where
  "parent_signature frame =
    bnd (ditem frame ''context'') (\<lambda>ctx.
    bnd (vget ctx ''context_resolution_bundle_id'' VNone) (\<lambda>i.
    bnd (mapM (sorted_field ctx) [''fixed_parent_links'', ''structural_object_links'', ''parent_axis_links'']) (\<lambda>links.
    rule_digest (VDict ([(''context_resolution_bundle_id'', i)] @ links)))))"

text \<open>The peers must agree on five identity fields.\<close>

definition peer_scope :: "pydict \<Rightarrow> pydict \<Rightarrow> unit result" where
  "peer_scope current previous =
    bnd (mapM (\<lambda>key. bnd (ditem current ''identity'') (\<lambda>ci. bnd (vget ci key VNone) (\<lambda>c.
      bnd (ditem previous ''identity'') (\<lambda>pi. bnd (vget pi key VNone) (\<lambda>p.
      req EmpiricalBoundaryRuleError (py_eq c p) (''PEER_SCOPE_MISMATCH:'' @ key))))))
      [''instrument_id'', ''side'', ''scope_id'', ''scale_id'', ''clock_id'']) (\<lambda>_. Inr ())"

definition segment_of :: "pydict \<Rightarrow> string result" where
  "segment_of frame = bnd (ditem frame ''chronology'') (\<lambda>ch. bnd (vitem ch ''continuity_segment_id'') (\<lambda>v. Inr (py_str v)))"

text \<open>The six predicates, from the presence of a previous frame, the gap, the release end, and whether
  the parent and the structural signatures differ.\<close>

definition match_rules :: "bool \<Rightarrow> bool \<Rightarrow> bool \<Rightarrow> bool \<Rightarrow> bool \<Rightarrow> (string \<times> bool) list" where
  "match_rules has_previous gap release_end parent_differs structural_differs =
    (let parent_changed = (has_previous \<and> \<not> gap \<and> \<not> release_end \<and> parent_differs);
         structural_changed = (has_previous \<and> \<not> gap \<and> \<not> release_end \<and> structural_differs);
         birth = ((\<not> has_previous \<or> gap) \<and> \<not> release_end);
         continuation = (has_previous \<and> \<not> gap \<and> \<not> release_end) in
     [(''C2E.RULE.JUNE.BASELINE.CENSOR_GAP.v1'', gap \<and> \<not> release_end),
      (''C2E.RULE.JUNE.BASELINE.CENSOR_RELEASE_END.v1'', release_end),
      (''C2E.RULE.JUNE.BASELINE.RE_PARENT.v1'', parent_changed),
      (''C2E.RULE.JUNE.BASELINE.PHASE_MUTATION.v1'', structural_changed),
      (''C2E.RULE.JUNE.BASELINE.CONTINUATION.v1'', continuation),
      (''C2E.RULE.JUNE.BASELINE.BIRTH.v1'', birth)])"

text \<open>The part of the answer the two evaluators share, after their own heading.\<close>

definition opt_str :: "string option \<Rightarrow> pyval" where
  "opt_str x = (case x of None \<Rightarrow> VNone | Some s \<Rightarrow> VStr s)"

definition evaluation_body ::
  "(string \<times> bool) list \<Rightarrow> string \<Rightarrow> string option \<Rightarrow> string \<Rightarrow> string option \<Rightarrow> bool \<Rightarrow> bool \<Rightarrow> bool \<Rightarrow> pydict" where
  "evaluation_body matched cs ps cp pp segment_changed gap release_end =
    [(''pack_semantics'', VStr ''JUNE_BASELINE_CONTINUITY_EPISODE_WITH_TYPED_PHASE_AND_PARENT_MUTATION''),
     (''matched_rules'', VList (map VStr (filter (\<lambda>r. the (map_of matched r)) RULE_IDS))),
     (''matched'', VDict (map (\<lambda>(r, b). (r, VBool b)) matched)),
     (''current_structural_signature_sha256'', VStr cs), (''previous_structural_signature_sha256'', opt_str ps),
     (''current_parent_signature_sha256'', VStr cp), (''previous_parent_signature_sha256'', opt_str pp),
     (''segment_changed'', VBool segment_changed), (''explicit_source_gap'', VBool gap), (''release_end'', VBool release_end),
     (''thresholds_used'', VList []), (''outcome_inputs_used'', VBool False), (''family_inputs_used'', VBool False),
     (''validation_inputs_used'', VBool False), (''authority'', VStr ''CANDIDATE_INACTIVE_NONCANONICAL'')]"

text \<open>Both evaluators: the checks, the signatures of the current and then of the previous frame, the
  predicates. \<open>required\<close>, \<open>sig\<close> and \<open>heading\<close> are what differs between them.\<close>

definition prior :: "('a \<Rightarrow> 'b result) \<Rightarrow> 'a option \<Rightarrow> 'b option result" where
  "prior f previous = (case previous of None \<Rightarrow> Inr None | Some p \<Rightarrow> bnd (f p) (\<lambda>x. Inr (Some x)))"

definition evaluate_with ::
  "(pydict \<Rightarrow> unit result) \<Rightarrow> (pydict \<Rightarrow> string result) \<Rightarrow> (pydict \<Rightarrow> string result) \<Rightarrow> pydict \<Rightarrow>
   pydict \<Rightarrow> pydict option \<Rightarrow> bool \<Rightarrow> bool \<Rightarrow> pydict result" where
  "evaluate_with req_frame ssig psig heading current previous explicit_source_gap release_end =
    bnd (rule_scan (VDict current)) (\<lambda>_.
    bnd (req_frame current) (\<lambda>_.
    bnd (case previous of None \<Rightarrow> Inr () | Some p \<Rightarrow>
      bnd (rule_scan (VDict p)) (\<lambda>_. bnd (req_frame p) (\<lambda>_. peer_scope current p))) (\<lambda>_.
    bnd (segment_of current) (\<lambda>current_segment.
    bnd (prior segment_of previous) (\<lambda>previous_segment.
    let segment_changed = (previous \<noteq> None \<and> Some current_segment \<noteq> previous_segment);
        gap = (explicit_source_gap \<or> segment_changed) in
    bnd (ssig current) (\<lambda>cs.
    bnd (psig current) (\<lambda>cp.
    bnd (prior ssig previous) (\<lambda>ps.
    bnd (prior psig previous) (\<lambda>pp.
    Inr (heading @ evaluation_body
      (match_rules (previous \<noteq> None) gap release_end (Some cp \<noteq> pp) (Some cs \<noteq> ps))
      cs ps cp pp segment_changed explicit_source_gap release_end))))))))))"

definition evaluate_boundary_predicates :: "pydict \<Rightarrow> pydict option \<Rightarrow> bool \<Rightarrow> bool \<Rightarrow> pydict result" where
  "evaluate_boundary_predicates current previous explicit_source_gap release_end =
    evaluate_with required_v1 structural_signature parent_signature
      [(''schema'', VStr ''ovc-c2e-empirical-boundary-evaluation/v1'')]
      current previous explicit_source_gap release_end"

definition IMPLEMENTATION_ID :: string where
  "IMPLEMENTATION_ID = ''C2E.EMPIRICAL.BOUNDARY.JUNE.STABLE_SIGNATURES.v2''"

definition comparison_field :: "string \<Rightarrow> pydict \<Rightarrow> string result" where
  "comparison_field key frame = bnd (ditem frame ''comparison'') (\<lambda>c. bnd (vitem c key) (\<lambda>v. Inr (py_str v)))"

definition evaluate_boundary_predicates_v2 :: "pydict \<Rightarrow> pydict option \<Rightarrow> bool \<Rightarrow> bool \<Rightarrow> pydict result" where
  "evaluate_boundary_predicates_v2 current previous explicit_source_gap release_end =
    evaluate_with required_v2 (comparison_field ''structural_signature_sha256'') (comparison_field ''parent_signature_sha256'')
      [(''schema'', VStr ''ovc-c2e-empirical-boundary-evaluation/v2''), (''implementation_id'', VStr IMPLEMENTATION_ID),
       (''signature_contract_id'', VStr ''C2E.STABLE.COMPARISON.SIGNATURES.v1'')]
      current previous explicit_source_gap release_end"

text \<open>The compatibility view of the second evaluator.\<close>

definition evaluate_matched_v2 :: "pydict \<Rightarrow> pydict option \<Rightarrow> bool \<Rightarrow> bool \<Rightarrow> pydict result" where
  "evaluate_matched_v2 current previous explicit_source_gap release_end =
    bnd (evaluate_boundary_predicates_v2 current previous explicit_source_gap release_end) (\<lambda>ev.
    bnd (ditem ev ''matched'') as_dict)"

subsection \<open>What the firewall accepts\<close>

text \<open>C26: the firewall accepts exactly the payloads in which no field name, at any depth of mappings,
  lists and tuples, contains a forbidden token in any case, and no text contains a forbidden token; on
  any other payload it raises its own error.\<close>

theorem firewall_exact:
  "(scan_forbidden v path = Inr () \<longleftrightarrow>
      (\<forall>kvs k w t. inside (VDict kvs) v \<and> (k, w) \<in> set kvs \<and> t \<in> set FORBIDDEN_KEY_TOKENS \<longrightarrow> \<not> sublist t (py_lower k)) \<and>
      (\<forall>s t. inside (VStr s) v \<and> t \<in> set FORBIDDEN_VALUE_TOKENS \<longrightarrow> \<not> sublist (py_upper t) (py_upper s))) \<and>
   (\<forall>e. scan_forbidden v path = Inl e \<longrightarrow> exn_class e = FirewallError)"
proof -
  have p: "passes forbidden_key forbidden_text u \<longleftrightarrow>
      (\<forall>kvs k w. u = VDict kvs \<and> (k, w) \<in> set kvs \<longrightarrow> \<not> forbidden_key k) \<and> (\<forall>s. u = VStr s \<longrightarrow> \<not> forbidden_text s)" for u
    by (cases u) (auto simp: passes_def)
  have "scan_forbidden v path = Inr () \<longleftrightarrow>
      (\<forall>kvs k w. inside (VDict kvs) v \<and> (k, w) \<in> set kvs \<longrightarrow> \<not> forbidden_key k) \<and>
      (\<forall>s. inside (VStr s) v \<longrightarrow> \<not> forbidden_text s)"
    unfolding scan_forbidden_def scan_tree_clean clean_def p by blast
  moreover have "exn_class e = FirewallError" if "scan_forbidden v path = Inl e" for e
    by (rule scan_tree_class(1) [OF _ _ that [unfolded scan_forbidden_def]]) simp_all
  ultimately show ?thesis unfolding forbidden_key_def forbidden_text_def list_ex_iff by blast
qed

theorem firewall_exact_witness:
  "scan_forbidden (VDict [(''a'', VList [VStr ''open'', VDict [(''Trade_Label_x'', VNone)]])]) ''$'' \<noteq> Inr ()"
proof -
  let ?d = "VDict [(''Trade_Label_x'', VNone)]"
  have "inside ?d (VDict [(''a'', VList [VStr ''open'', ?d])])"
    by (auto simp: inside_simps)
  moreover have "''trade_label'' \<in> set FORBIDDEN_KEY_TOKENS" by code_simp
  moreover have "sublist ''trade_label'' (py_lower ''Trade_Label_x'')" by code_simp
  ultimately show ?thesis using firewall_exact [of "VDict [(''a'', VList [VStr ''open'', ?d])]" "''$''"] by fastforce
qed

subsection \<open>How the rules exclude each other\<close>

definition rule_matched :: "pydict \<Rightarrow> string \<Rightarrow> bool" where
  "rule_matched ev r \<longleftrightarrow> (\<exists>m. map_of ev ''matched'' = Some (VDict m) \<and>
     map_of m (''C2E.RULE.JUNE.BASELINE.'' @ r @ ''.v1'') = Some (VBool True))"

text \<open>A frame that continues the previous one: same continuity segment, no declared gap, no release end.\<close>

definition continues :: "pydict \<Rightarrow> pydict option \<Rightarrow> bool \<Rightarrow> bool \<Rightarrow> bool" where
  "continues current previous gap release_end \<longleftrightarrow>
     \<not> gap \<and> \<not> release_end \<and> (\<exists>p. previous = Some p \<and> segment_of current = segment_of p)"

lemma prior_Inr: "prior f p = Inr x \<longleftrightarrow> (case p of None \<Rightarrow> x = None | Some q \<Rightarrow> \<exists>y. f q = Inr y \<and> x = Some y)"
  by (auto simp: prior_def bnd_eq_Inr split: option.split)

lemma evaluate_with_Inr:
  assumes "evaluate_with rq ss ps heading current previous gap re = Inr ev"
  obtains m rest where "ev = heading @ (''pack_semantics'', rest) # (''matched_rules'', VList (map VStr (filter (\<lambda>r. the (map_of m r)) RULE_IDS)))
      # (''matched'', VDict (map (\<lambda>(r, b). (r, VBool b)) m)) # drop (length heading + 3) ev"
    and "m = match_rules (previous \<noteq> None) (gap \<or> (\<exists>p. previous = Some p \<and> segment_of current \<noteq> segment_of p)) re
      (\<exists>p. previous = Some p \<and> ps current \<noteq> ps p) (\<exists>p. previous = Some p \<and> ss current \<noteq> ss p)"
proof -
  from assms obtain seg segp cs cp pcs pcp where
      e: "segment_of current = Inr seg" "prior segment_of previous = Inr segp" "ss current = Inr cs" "ps current = Inr cp"
      "prior ss previous = Inr pcs" "prior ps previous = Inr pcp"
    and ev: "ev = heading @ evaluation_body
      (match_rules (previous \<noteq> None) (gap \<or> (previous \<noteq> None \<and> Some seg \<noteq> segp)) re (Some cp \<noteq> pcp) (Some cs \<noteq> pcs))
      cs pcs cp pcp (previous \<noteq> None \<and> Some seg \<noteq> segp) gap re"
    unfolding evaluate_with_def Let_def bnd_eq_Inr by auto
  have "(previous \<noteq> None \<and> Some seg \<noteq> segp) = (\<exists>p. previous = Some p \<and> segment_of current \<noteq> segment_of p)"
    using e(1,2) by (auto simp: prior_Inr split: option.splits)
  moreover have "previous \<noteq> None \<longrightarrow> (Some cp \<noteq> pcp) = (\<exists>p. previous = Some p \<and> ps current \<noteq> ps p)"
      "previous \<noteq> None \<longrightarrow> (Some cs \<noteq> pcs) = (\<exists>p. previous = Some p \<and> ss current \<noteq> ss p)"
    using e(3-6) by (auto simp: prior_Inr split: option.splits)
  ultimately have m: "match_rules (previous \<noteq> None) (gap \<or> (previous \<noteq> None \<and> Some seg \<noteq> segp)) re (Some cp \<noteq> pcp) (Some cs \<noteq> pcs) =
      match_rules (previous \<noteq> None) (gap \<or> (\<exists>p. previous = Some p \<and> segment_of current \<noteq> segment_of p)) re
      (\<exists>p. previous = Some p \<and> ps current \<noteq> ps p) (\<exists>p. previous = Some p \<and> ss current \<noteq> ss p)"
    by (cases previous) (simp_all add: match_rules_def)
  show ?thesis
    by (rule that [OF _ refl]) (simp add: ev [unfolded m] evaluation_body_def)
qed

definition rule_names :: "string list" where
  "rule_names = [''CENSOR_GAP'', ''CENSOR_RELEASE_END'', ''RE_PARENT'', ''PHASE_MUTATION'', ''CONTINUATION'', ''BIRTH'']"

lemma match_rules_lookup:
  "map_of (match_rules hp g re pd sd) (''C2E.RULE.JUNE.BASELINE.'' @ ''CENSOR_GAP'' @ ''.v1'') = Some (g \<and> \<not> re)"
  "map_of (match_rules hp g re pd sd) (''C2E.RULE.JUNE.BASELINE.'' @ ''CENSOR_RELEASE_END'' @ ''.v1'') = Some re"
  "map_of (match_rules hp g re pd sd) (''C2E.RULE.JUNE.BASELINE.'' @ ''RE_PARENT'' @ ''.v1'') = Some (hp \<and> \<not> g \<and> \<not> re \<and> pd)"
  "map_of (match_rules hp g re pd sd) (''C2E.RULE.JUNE.BASELINE.'' @ ''PHASE_MUTATION'' @ ''.v1'') = Some (hp \<and> \<not> g \<and> \<not> re \<and> sd)"
  "map_of (match_rules hp g re pd sd) (''C2E.RULE.JUNE.BASELINE.'' @ ''CONTINUATION'' @ ''.v1'') = Some (hp \<and> \<not> g \<and> \<not> re)"
  "map_of (match_rules hp g re pd sd) (''C2E.RULE.JUNE.BASELINE.'' @ ''BIRTH'' @ ''.v1'') = Some ((\<not> hp \<or> g) \<and> \<not> re)"
  by (simp_all add: match_rules_def)

lemma match_rules_total:
  "r \<in> set rule_names \<Longrightarrow> \<exists>b. map_of (match_rules hp g re pd sd) (''C2E.RULE.JUNE.BASELINE.'' @ r @ ''.v1'') = Some b"
  by (auto simp: rule_names_def match_rules_def)

lemma RULE_IDS_names: "RULE_IDS = map (\<lambda>r. ''C2E.RULE.JUNE.BASELINE.'' @ r @ ''.v1'') rule_names"
  by code_simp

lemma map_of_VBool: "map_of (map (\<lambda>(r, b). (r, VBool b)) m) k = map_option VBool (map_of m k)"
  by (induction m) auto

lemma evaluate_with_matched:
  assumes "evaluate_with rq ss ps heading current previous gap re = Inr ev"
    and "''pack_semantics'' \<notin> fst ` set heading" "''matched'' \<notin> fst ` set heading" "''matched_rules'' \<notin> fst ` set heading"
  shows "rule_matched ev ''CENSOR_RELEASE_END'' \<longleftrightarrow> re"
    and "rule_matched ev ''CONTINUATION'' \<longleftrightarrow> continues current previous gap re"
    and "rule_matched ev ''BIRTH'' \<longleftrightarrow> \<not> re \<and> \<not> continues current previous gap re"
    and "rule_matched ev ''CENSOR_GAP'' \<longleftrightarrow> \<not> re \<and> (gap \<or> (\<exists>p. previous = Some p \<and> segment_of current \<noteq> segment_of p))"
    and "rule_matched ev ''RE_PARENT'' \<longleftrightarrow> continues current previous gap re \<and> (\<exists>p. previous = Some p \<and> ps current \<noteq> ps p)"
    and "rule_matched ev ''PHASE_MUTATION'' \<longleftrightarrow> continues current previous gap re \<and> (\<exists>p. previous = Some p \<and> ss current \<noteq> ss p)"
    and "map_of ev ''matched_rules'' =
      Some (VList (map (\<lambda>r. VStr (''C2E.RULE.JUNE.BASELINE.'' @ r @ ''.v1'')) (filter (rule_matched ev) rule_names)))"
proof -
  obtain m rest where ev: "ev = heading @ (''pack_semantics'', rest) # (''matched_rules'', VList (map VStr (filter (\<lambda>r. the (map_of m r)) RULE_IDS)))
      # (''matched'', VDict (map (\<lambda>(r, b). (r, VBool b)) m)) # drop (length heading + 3) ev"
    and m: "m = match_rules (previous \<noteq> None) (gap \<or> (\<exists>p. previous = Some p \<and> segment_of current \<noteq> segment_of p)) re
      (\<exists>p. previous = Some p \<and> ps current \<noteq> ps p) (\<exists>p. previous = Some p \<and> ss current \<noteq> ss p)"
    using evaluate_with_Inr [OF assms(1)] .
  have h: "map_of heading ''matched'' = None" "map_of heading ''matched_rules'' = None" using assms(3,4) by (simp_all add: map_of_eq_None_iff)
  have mt: "map_of ev ''matched'' = Some (VDict (map (\<lambda>(r, b). (r, VBool b)) m))"
    using h by (subst ev) (simp add: map_add_def)
  have mr: "map_of ev ''matched_rules'' = Some (VList (map VStr (filter (\<lambda>r. the (map_of m r)) RULE_IDS)))"
    using h by (subst ev) (simp add: map_add_def)
  have rm: "rule_matched ev r \<longleftrightarrow> map_of m (''C2E.RULE.JUNE.BASELINE.'' @ r @ ''.v1'') = Some True" for r
    unfolding rule_matched_def mt by (auto simp: map_of_VBool)
  have cont: "continues current previous gap re \<longleftrightarrow>
      previous \<noteq> None \<and> \<not> (gap \<or> (\<exists>p. previous = Some p \<and> segment_of current \<noteq> segment_of p)) \<and> \<not> re"
    unfolding continues_def by auto
  show "rule_matched ev ''CENSOR_RELEASE_END'' \<longleftrightarrow> re" "rule_matched ev ''CONTINUATION'' \<longleftrightarrow> continues current previous gap re"
    "rule_matched ev ''BIRTH'' \<longleftrightarrow> \<not> re \<and> \<not> continues current previous gap re"
    "rule_matched ev ''CENSOR_GAP'' \<longleftrightarrow> \<not> re \<and> (gap \<or> (\<exists>p. previous = Some p \<and> segment_of current \<noteq> segment_of p))"
    "rule_matched ev ''RE_PARENT'' \<longleftrightarrow> continues current previous gap re \<and> (\<exists>p. previous = Some p \<and> ps current \<noteq> ps p)"
    "rule_matched ev ''PHASE_MUTATION'' \<longleftrightarrow> continues current previous gap re \<and> (\<exists>p. previous = Some p \<and> ss current \<noteq> ss p)"
    unfolding rm m match_rules_lookup option.inject eq_True cont by blast+
  have "(the (map_of m (''C2E.RULE.JUNE.BASELINE.'' @ r @ ''.v1''))) = rule_matched ev r" if "r \<in> set rule_names" for r
  proof -
    have "\<exists>b. map_of m (''C2E.RULE.JUNE.BASELINE.'' @ r @ ''.v1'') = Some b"
      using match_rules_total [OF that] m by blast
    then show ?thesis unfolding rm by auto
  qed
  then show "map_of ev ''matched_rules'' =
      Some (VList (map (\<lambda>r. VStr (''C2E.RULE.JUNE.BASELINE.'' @ r @ ''.v1'')) (filter (rule_matched ev) rule_names)))"
    unfolding mr RULE_IDS_names filter_map map_map comp_def by (simp cong: filter_cong)
qed

text \<open>C27: the outcome of the evaluator in use, on every input it accepts. Exactly one of release end,
  birth and continuation is matched; a gap is censored only where a birth is matched too, and a change of
  the parent or of the structural signature is reported only for a frame that continues the previous
  one. The list of matched rules is the list of the predicates that hold.\<close>

theorem boundary_rules_exclusive:
  assumes "evaluate_boundary_predicates_v2 current previous gap release_end = Inr ev"
  shows "(rule_matched ev ''CENSOR_RELEASE_END'' \<longleftrightarrow> release_end) \<and>
    (rule_matched ev ''CONTINUATION'' \<longleftrightarrow> continues current previous gap release_end) \<and>
    (rule_matched ev ''BIRTH'' \<longleftrightarrow> \<not> release_end \<and> \<not> continues current previous gap release_end) \<and>
    (rule_matched ev ''CENSOR_GAP'' \<longleftrightarrow> rule_matched ev ''BIRTH'' \<and> (gap \<or> previous \<noteq> None)) \<and>
    (rule_matched ev ''RE_PARENT'' \<longleftrightarrow> rule_matched ev ''CONTINUATION'' \<and>
       comparison_field ''parent_signature_sha256'' current \<noteq> comparison_field ''parent_signature_sha256'' (the previous)) \<and>
    (rule_matched ev ''PHASE_MUTATION'' \<longleftrightarrow> rule_matched ev ''CONTINUATION'' \<and>
       comparison_field ''structural_signature_sha256'' current \<noteq> comparison_field ''structural_signature_sha256'' (the previous)) \<and>
    map_of ev ''matched_rules'' =
      Some (VList (map (\<lambda>r. VStr (''C2E.RULE.JUNE.BASELINE.'' @ r @ ''.v1'')) (filter (rule_matched ev) rule_names)))"
proof -
  note e = evaluate_with_matched [OF assms [unfolded evaluate_boundary_predicates_v2_def], simplified]
  have "continues current previous gap release_end \<Longrightarrow> previous \<noteq> None" by (auto simp: continues_def)
  then show ?thesis using e(1-6) e(7) by (auto simp: continues_def)
qed

text \<open>The repaired evaluator differs from the preregistered baseline only in the two predicates that
  compare signatures. On frames both accept, they agree on birth, continuation, gaps and release ends.\<close>

theorem repair_changes_comparisons_only:
  assumes "evaluate_boundary_predicates current previous gap release_end = Inr ev1"
    and "evaluate_boundary_predicates_v2 current previous gap release_end = Inr ev2"
  shows "\<forall>r \<in> set rule_names. r \<noteq> ''RE_PARENT'' \<and> r \<noteq> ''PHASE_MUTATION'' \<longrightarrow> rule_matched ev1 r = rule_matched ev2 r"
proof -
  note e1 = evaluate_with_matched(1-4) [OF assms(1) [unfolded evaluate_boundary_predicates_def], simplified]
  note e2 = evaluate_with_matched(1-4) [OF assms(2) [unfolded evaluate_boundary_predicates_v2_def], simplified]
  show ?thesis using e1 e2 by (simp add: rule_names_def)
qed

subsection \<open>Signatures verify\<close>

lemma map_py_str_VStr [simp]: "map (py_str \<circ> VStr) xs = xs"
  by (simp add: map_idI)

lemma unique_strings_Inr:
  "unique_strings c v marker = Inr ids \<longleftrightarrow> (\<exists>xs. v = VList xs \<and> distinct (map py_str xs) \<and> ids = sort (map py_str xs))"
  by (cases v) (auto simp: unique_strings_def Let_def bnd_req split: if_splits)

lemma unique_strings_again:
  "unique_strings c v marker = Inr ids \<Longrightarrow> unique_strings d (VList (map VStr ids)) marker' = Inr ids"
  by (auto simp: unique_strings_Inr intro!: exI [of _ "map VStr ids"])

lemma as_list_Inr [result_simps]: "as_list e v = Inr xs \<longleftrightarrow> v = VList xs"
  by (cases v) (simp_all add: as_list_def)

lemma unknown_keys_Nil: "unknown_keys d allowed = [] \<longleftrightarrow> fst ` set d \<subseteq> set allowed"
proof -
  have "sort xs = [] \<longleftrightarrow> xs = []" for xs :: "string list" by (metis length_0_conv length_sort)
  then show ?thesis by (auto simp: unknown_keys_def filter_empty_conv)
qed

lemma normalize_component_again:
  assumes "normalize_component axis raw = Inr c"
  shows "normalize_component axis c = Inr c"
proof -
  obtain st reasons ids facts
    where ids: "unique_strings StableSignatureError (dget raw ''source_object_ids'' (VList [])) (''source_object_ids:'' @ axis) = Inr ids"
    and c: "c = [(''axis'', VStr axis), (''status'', VStr (py_str st)), (''reason_codes'', VList (map VStr (sorted_set (map py_str reasons)))),
        (''source_object_ids'', VList (map VStr ids)), (''facts'', facts)]"
    and scan: "sig_scan (VDict c) = Inr ()"
    using assms unfolding normalize_component_def Let_def bnd_eq_Inr by auto
  have "fst ` set c \<subseteq> set STRUCTURAL_COMPONENT_KEYS" unfolding c by (simp add: STRUCTURAL_COMPONENT_KEYS_def)
  then have u: "unknown_keys c STRUCTURAL_COMPONENT_KEYS = []" by (simp add: unknown_keys_Nil)
  have f: "map_of c ''axis'' = Some (VStr axis)" "dhas c ''status''" "dhas c ''facts''" "ditem c ''status'' = Inr (VStr (py_str st))"
    "dget c ''reason_codes'' (VList []) = VList (map VStr (sorted_set (map py_str reasons)))"
    "dget c ''source_object_ids'' (VList []) = VList (map VStr ids)" "ditem c ''facts'' = Inr facts"
    unfolding c by (simp_all add: dhas_def ditem_def dget_def)
  show ?thesis
    unfolding normalize_component_def Let_def u f unique_strings_again [OF ids]
    using scan by (simp add: sig_req_def as_list_def dhas_def c)
qed

lemma normalize_structural_basis_again:
  assumes "normalize_structural_basis raw = Inr basis"
  shows "normalize_structural_basis basis = Inr basis"
proof -
  obtain scan: "sig_scan (VDict basis) = Inr ()"
    and m: "mapM (\<lambda>axis. bnd (ditem raw axis) (\<lambda>v. bnd (as_dict v) (\<lambda>d.
       bnd (normalize_component axis d) (\<lambda>c. Inr (axis, VDict c))))) STRUCTURAL_AXES = Inr basis"
    using assms unfolding normalize_structural_basis_def Let_def bnd_eq_Inr by auto
  have "list_all2 (\<lambda>axis p. fst p = axis \<and> (\<exists>c. snd p = VDict c \<and> normalize_component axis c = Inr c)) STRUCTURAL_AXES basis"
    using m unfolding mapM_Inr_iff by (rule list_all2_mono) (auto simp: bnd_eq_Inr normalize_component_again)
  then obtain c1 c2 c3 c4 where b: "basis = [(''LOCATION'', VDict c1), (''MOTION'', VDict c2), (''ORGANISATION'', VDict c3), (''INTERACTION'', VDict c4)]"
    and c: "normalize_component ''LOCATION'' c1 = Inr c1" "normalize_component ''MOTION'' c2 = Inr c2"
      "normalize_component ''ORGANISATION'' c3 = Inr c3" "normalize_component ''INTERACTION'' c4 = Inr c4"
    by (auto simp: STRUCTURAL_AXES_def list_all2_Cons1)
  have "fst ` set basis \<subseteq> set STRUCTURAL_AXES" unfolding b by (simp add: STRUCTURAL_AXES_def)
  then have u: "unknown_keys basis STRUCTURAL_AXES = []" by (simp add: unknown_keys_Nil)
  have d: "filter (\<lambda>axis. \<not> dhas basis axis) STRUCTURAL_AXES = []" unfolding b by (simp add: STRUCTURAL_AXES_def dhas_def)
  have "mapM (\<lambda>axis. bnd (ditem basis axis) (\<lambda>v. bnd (as_dict v) (\<lambda>d.
       bnd (normalize_component axis d) (\<lambda>c. Inr (axis, VDict c))))) STRUCTURAL_AXES = Inr basis"
    unfolding b by (simp add: STRUCTURAL_AXES_def ditem_def c)
  then show ?thesis unfolding normalize_structural_basis_def Let_def u d using scan by (simp add: sig_req_def)
qed

lemma normalize_dep_state_Inr:
  "normalize_dep_state seen e = Inr r \<longleftrightarrow>
    (\<exists>item reasons. e = VDict item \<and> fst ` set item \<subseteq> set DEPENDENCY_KEYS \<and> dep_state_key item \<noteq> [] \<and>
      dep_state_key item \<notin> set seen \<and> dget item ''reason_codes'' (VList []) = VList reasons \<and>
      r = [(''dependency_id'', VStr (dep_state_key item)), (''role'', VStr (py_str (dget item ''role'' (VStr ''UNSPECIFIED'')))),
           (''status'', VStr (py_str (dget item ''status'' (VStr ''NOT_AVAILABLE'')))),
           (''reason_codes'', VList (map VStr (sorted_set (map py_str reasons))))])"
  by (cases e) (auto simp: normalize_dep_state_def Let_def bnd_eq_Inr sig_req_def req_eq_Inr as_list_Inr unknown_keys_Nil)

lemma dep_state_key_row: "dep_state_key ((''dependency_id'', VStr i) # rest) = i"
  by (simp add: dep_state_key_def dget_def)

interpretation sig_deps: keyed_rows normalize_dep_state dep_state_key
  by unfold_locales (auto simp: normalize_dep_state_Inr dep_state_key_row)

lemma normalize_dep_state_again:
  assumes "normalize_dep_state [] e = Inr r"
  shows "normalize_dep_state [] (VDict r) = Inr r"
proof -
  obtain i ro st rc where r: "r = [(''dependency_id'', VStr i), (''role'', VStr ro), (''status'', VStr st), (''reason_codes'', VList (map VStr (sorted_set rc)))]"
    and i: "i \<noteq> []"
    using assms unfolding normalize_dep_state_Inr by blast
  show ?thesis
    unfolding normalize_dep_state_Inr
    by (intro exI [of _ r] exI [of _ "map VStr (sorted_set rc)"]) (simp add: r i dep_state_key_row dget_def DEPENDENCY_KEYS_def)
qed

lemma normalize_parent_basis_again:
  assumes "normalize_parent_basis raw = Inr basis"
  shows "normalize_parent_basis basis = Inr basis"
proof -
  obtain deps_raw deps obs objs where
      fo: "foldM (\<lambda>deps item. bnd (normalize_dep_state (map dep_state_key deps) item) (\<lambda>d. Inr (deps @ [d]))) [] deps_raw = Inr deps"
    and obs: "unique_strings StableSignatureError (dget raw ''selected_parent_observation_ids'' (VList [])) ''selected_parent_observation_ids'' = Inr obs"
    and objs: "unique_strings StableSignatureError (dget raw ''selected_parent_object_ids'' (VList [])) ''selected_parent_object_ids'' = Inr objs"
    and b: "basis = [(''selected_parent_observation_ids'', VList (map VStr obs)), (''selected_parent_object_ids'', VList (map VStr objs)),
        (''dependency_states'', VList (map VDict (sort_key dep_state_key deps)))]"
    and scan: "sig_scan (VDict basis) = Inr ()"
    using assms unfolding normalize_parent_basis_def Let_def bnd_eq_Inr by auto
  let ?s = "sort_key dep_state_key deps"
  have rows: "mapM (normalize_dep_state []) deps_raw = Inr deps" and dist: "distinct (map dep_state_key deps)"
    using fo unfolding sig_deps.foldM_rows by auto
  have "normalize_dep_state [] (VDict r) = Inr r" if "r \<in> set ?s" for r
    using mapM_mem [OF rows, of r] that normalize_dep_state_again by auto
  then have "mapM (normalize_dep_state []) (map VDict ?s) = Inr ?s"
    by (simp add: mapM_Inr_iff list_all2_conv_all_nth) (metis length_sort nth_mem set_sort)
  moreover have "distinct (map dep_state_key ?s)"
    using dist by (metis mset_eq_imp_distinct_iff mset_map mset_sort)
  ultimately have fo': "foldM (\<lambda>deps item. bnd (normalize_dep_state (map dep_state_key deps) item) (\<lambda>d. Inr (deps @ [d]))) [] (map VDict ?s) = Inr ?s"
    unfolding sig_deps.foldM_rows by auto
  have "fst ` set basis \<subseteq> set PARENT_KEYS" unfolding b by (simp add: PARENT_KEYS_def)
  then have u: "unknown_keys basis PARENT_KEYS = []" by (simp add: unknown_keys_Nil)
  have f: "dget basis ''dependency_states'' (VList []) = VList (map VDict ?s)"
    "dget basis ''selected_parent_observation_ids'' (VList []) = VList (map VStr obs)"
    "dget basis ''selected_parent_object_ids'' (VList []) = VList (map VStr objs)"
    unfolding b by (simp_all add: dget_def)
  show ?thesis
    unfolding normalize_parent_basis_def Let_def u f unique_strings_again [OF obs] unique_strings_again [OF objs]
    using scan by (simp add: sig_req_def as_list_def fo' b)
qed

lemma verify_after_build:
  assumes "build_comparison_signatures source = Inr sg"
  shows "verify_comparison_signatures (VDict sg) = Inr ()"
proof -
  obtain sd pd sb pb sh ph where
      n: "normalize_structural_basis sd = Inr sb" "normalize_parent_basis pd = Inr pb"
    and h: "sig_digest (VDict sb) = Inr sh" "sig_digest (VDict pb) = Inr ph"
    and sg: "sg = [(''schema'', VStr ''c2e_stable_comparison_signatures/v1''),
          (''signature_contract_id'', VStr ''C2E.STABLE.COMPARISON.SIGNATURES.v1''),
          (''structural_basis'', VDict sb), (''parent_basis'', VDict pb),
          (''structural_signature_sha256'', VStr sh), (''parent_signature_sha256'', VStr ph),
          (''wrapper_identity_in_comparison'', VBool False), (''active'', VBool False), (''canonical'', VBool False),
          (''authority'', VStr ''CANDIDATE_INACTIVE_NONCANONICAL'')]"
    using assms unfolding build_comparison_signatures_def Let_def bnd_eq_Inr by auto
  let ?src = "[(''structural'', VDict sb), (''parent'', VDict pb)]"
  have u: "unknown_keys ?src [''structural'', ''parent''] = []" by (simp add: unknown_keys_Nil)
  have "build_comparison_signatures ?src = Inr sg"
    unfolding build_comparison_signatures_def Let_def u
    using normalize_structural_basis_again [OF n(1)] normalize_parent_basis_again [OF n(2)] h
    by (simp add: sig_req_def dhas_def ditem_def sg)
  moreover have "dget sg ''signature_contract_id'' VNone = VStr ''C2E.STABLE.COMPARISON.SIGNATURES.v1''"
    "dget sg ''structural_basis'' (VDict []) = VDict sb" "dget sg ''parent_basis'' (VDict []) = VDict pb"
    "dget sg ''structural_signature_sha256'' VNone = VStr sh" "dget sg ''parent_signature_sha256'' VNone = VStr ph"
    "ditem sg ''structural_signature_sha256'' = Inr (VStr sh)" "ditem sg ''parent_signature_sha256'' = Inr (VStr ph)"
    unfolding sg by (simp_all add: dget_def ditem_def)
  ultimately show ?thesis unfolding verify_comparison_signatures_def by (simp add: sig_req_def)
qed

text \<open>Signatures verify. What \<open>build_comparison_signatures\<close> returns is accepted by
  \<open>verify_comparison_signatures\<close>, which rebuilds both bases from their own normalized form.\<close>

theorem signatures_verify:
  assumes "build_comparison_signatures source = Inr sg"
  shows "verify_comparison_signatures (VDict sg) = Inr ()"
  by (rule verify_after_build [OF assms])

subsection \<open>Examples\<close>

definition example_axis :: pyval where
  "example_axis = VDict [(''status'', VStr ''COMPUTABLE''), (''facts'', VDict [(''n'', VInt 1)])]"

definition example_source :: pydict where
  "example_source =
    [(''structural'', VDict [(''LOCATION'', example_axis), (''MOTION'', example_axis), (''ORGANISATION'', example_axis), (''INTERACTION'', example_axis)]),
     (''parent'', VDict [])]"

definition example_component :: "string \<Rightarrow> pyval" where
  "example_component axis =
    VDict [(''axis'', VStr axis), (''status'', VStr ''COMPUTABLE''), (''reason_codes'', VList []), (''source_object_ids'', VList []),
           (''facts'', VDict [(''n'', VInt 1)])]"

definition example_basis :: pydict where
  "example_basis = map (\<lambda>axis. (axis, example_component axis)) [''LOCATION'', ''MOTION'', ''ORGANISATION'', ''INTERACTION'']"

definition example_parent_basis :: pydict where
  "example_parent_basis =
    [(''selected_parent_observation_ids'', VList []), (''selected_parent_object_ids'', VList []), (''dependency_states'', VList [])]"

definition example_sg :: "string \<Rightarrow> string \<Rightarrow> pydict" where
  "example_sg sh ph =
    [(''schema'', VStr ''c2e_stable_comparison_signatures/v1''), (''signature_contract_id'', VStr ''C2E.STABLE.COMPARISON.SIGNATURES.v1''),
     (''structural_basis'', VDict example_basis), (''parent_basis'', VDict example_parent_basis),
     (''structural_signature_sha256'', VStr sh), (''parent_signature_sha256'', VStr ph),
     (''wrapper_identity_in_comparison'', VBool False), (''active'', VBool False), (''canonical'', VBool False),
     (''authority'', VStr ''CANDIDATE_INACTIVE_NONCANONICAL'')]"

lemma example_built: obtains sh ph where "build_comparison_signatures example_source = Inr (example_sg sh ph)"
proof -
  obtain s p where items: "ditem example_source ''structural'' = Inr (VDict s)" "ditem example_source ''parent'' = Inr (VDict p)"
    and n: "normalize_structural_basis s = Inr example_basis" "normalize_parent_basis p = Inr example_parent_basis"
  proof (rule that)
    show "ditem example_source ''structural'' = Inr (VDict [(''LOCATION'', example_axis), (''MOTION'', example_axis), (''ORGANISATION'', example_axis), (''INTERACTION'', example_axis)])"
      "ditem example_source ''parent'' = Inr (VDict [])" by (simp_all add: example_source_def ditem_def)
    show "normalize_structural_basis [(''LOCATION'', example_axis), (''MOTION'', example_axis), (''ORGANISATION'', example_axis), (''INTERACTION'', example_axis)] = Inr example_basis"
      by code_simp
    show "normalize_parent_basis [] = Inr example_parent_basis" by code_simp
  qed
  have "is_ok (sig_canonical (VDict example_basis))" "is_ok (sig_canonical (VDict example_parent_basis))" by code_simp+
  then obtain sh ph where h: "sig_digest (VDict example_basis) = Inr sh" "sig_digest (VDict example_parent_basis) = Inr ph"
    by (auto simp: is_ok_iff sig_digest_def)
  have u: "unknown_keys example_source [''structural'', ''parent''] = []" by (simp add: unknown_keys_Nil example_source_def)
  have d: "dhas example_source ''structural''" "dhas example_source ''parent''" by (simp_all add: example_source_def dhas_def)
  have "build_comparison_signatures example_source = Inr (example_sg sh ph)"
    unfolding build_comparison_signatures_def Let_def u items bnd_Inr as_dict_VDict n h by (simp add: d sig_req_def example_sg_def)
  then show ?thesis using that by blast
qed

theorem signatures_verify_witness: "\<exists>sg. build_comparison_signatures example_source = Inr sg \<and> verify_comparison_signatures (VDict sg) = Inr ()"
proof -
  obtain sh ph where b: "build_comparison_signatures example_source = Inr (example_sg sh ph)" using example_built .
  show ?thesis using signatures_verify [OF b] b by blast
qed

text \<open>A frame with the sections the evaluators read.\<close>

definition example_rule_frame :: "string \<Rightarrow> string \<Rightarrow> string \<Rightarrow> pydict" where
  "example_rule_frame seg sh ph =
    [(''identity'', VDict [(''side'', VStr ''BID'')]),
     (''chronology'', VDict [(''continuity_segment_id'', VStr seg), (''first_valid_time'', VStr ''t''), (''evaluation_cutoff'', VStr ''t'')]),
     (''structural'', VDict [(''location_record_ids'', VList [VStr ''b'', VStr ''a'']), (''motion_record_ids'', VList []),
        (''organisation_record_ids'', VList []), (''interaction_record_ids'', VList [])]),
     (''context'', VDict []), (''evidence'', VDict []), (''lineage'', VDict []), (''comparison'', VDict (example_sg sh ph))]"

lemma example_evaluated:
  obtains sh ph ev1 ev2 where
    "evaluate_boundary_predicates (example_rule_frame ''s'' sh ph) (Some (example_rule_frame ''s'' sh ph)) False False = Inr ev1"
    "evaluate_boundary_predicates_v2 (example_rule_frame ''s'' sh ph) (Some (example_rule_frame ''s'' sh ph)) False False = Inr ev2"
proof -
  obtain sh ph where b: "build_comparison_signatures example_source = Inr (example_sg sh ph)" using example_built .
  let ?f = "example_rule_frame ''s'' sh ph"
  have scan: "rule_scan (VDict ?f) = Inr ()" by code_simp
  have r: "rule_required [''identity'', ''chronology'', ''structural'', ''context'', ''evidence'', ''lineage''] ?f = Inr ()"
    "rule_required [''identity'', ''chronology'', ''structural'', ''context'', ''evidence'', ''lineage'', ''comparison''] ?f = Inr ()" by code_simp+
  have c: "ditem ?f ''comparison'' = Inr (VDict (example_sg sh ph))" by (simp add: example_rule_frame_def ditem_def)
  have rq: "required_v1 ?f = Inr ()" "required_v2 ?f = Inr ()"
    unfolding required_v1_def required_v2_def r bnd_Inr c verify_after_build [OF b] by simp_all
  have p: "peer_scope ?f ?f = Inr ()" by code_simp
  have s: "segment_of ?f = Inr ''s''" by code_simp
  have f: "comparison_field ''structural_signature_sha256'' ?f = Inr sh" "comparison_field ''parent_signature_sha256'' ?f = Inr ph" by code_simp+
  have v1: "is_ok (structural_signature ?f)" "is_ok (parent_signature ?f)"
  proof -
    let ?st = "VDict [(''location_record_ids'', VList [VStr ''b'', VStr ''a'']), (''motion_record_ids'', VList []),
        (''organisation_record_ids'', VList []), (''interaction_record_ids'', VList [])]"
    have m: "mapM (sorted_field ?st) [''location_record_ids'', ''motion_record_ids'', ''organisation_record_ids'',
        ''interaction_record_ids'', ''level_record_ids'', ''container_record_ids''] =
        Inr [(''location_record_ids'', VList [VStr ''a'', VStr ''b'']), (''motion_record_ids'', VList []), (''organisation_record_ids'', VList []),
          (''interaction_record_ids'', VList []), (''level_record_ids'', VList []), (''container_record_ids'', VList [])]"
      "mapM (sorted_field ?st) [''transition_record_ids'', ''run_record_ids''] = Inr [(''transition_record_ids'', VList []), (''run_record_ids'', VList [])]"
      "mapM (sorted_field (VDict [])) [''fixed_parent_links'', ''structural_object_links'', ''parent_axis_links''] =
        Inr [(''fixed_parent_links'', VList []), (''structural_object_links'', VList []), (''parent_axis_links'', VList [])]" by code_simp+
    have j: "is_ok (json_compact (VDict ([(''location_record_ids'', VList [VStr ''a'', VStr ''b'']), (''motion_record_ids'', VList []), (''organisation_record_ids'', VList []),
          (''interaction_record_ids'', VList []), (''level_record_ids'', VList []), (''container_record_ids'', VList [])] @ [(''relation_set_id'', VNone)] @
          [(''transition_record_ids'', VList []), (''run_record_ids'', VList [])])))"
      "is_ok (json_compact (VDict ([(''context_resolution_bundle_id'', VNone)] @
          [(''fixed_parent_links'', VList []), (''structural_object_links'', VList []), (''parent_axis_links'', VList [])])))" by code_simp+
    have i: "ditem ?f ''structural'' = Inr ?st" "ditem ?f ''context'' = Inr (VDict [])"
      "vget ?st ''relation_set_id'' VNone = Inr VNone" "vget (VDict []) ''context_resolution_bundle_id'' VNone = Inr VNone" by code_simp+
    show "is_ok (structural_signature ?f)" "is_ok (parent_signature ?f)"
      unfolding structural_signature_def parent_signature_def rule_digest_def i bnd_Inr m using j by (simp_all del: append.simps)
  qed
  then obtain x y where xy: "structural_signature ?f = Inr x" "parent_signature ?f = Inr y" by (auto simp: is_ok_iff)
  have "is_ok (evaluate_boundary_predicates ?f (Some ?f) False False)" "is_ok (evaluate_boundary_predicates_v2 ?f (Some ?f) False False)"
    unfolding evaluate_boundary_predicates_def evaluate_boundary_predicates_v2_def evaluate_with_def prior_def option.case scan rq p s f xy bnd_Inr Let_def
    by (rule is_ok_simps)+
  then show ?thesis using that by (auto simp: is_ok_iff)
qed

theorem boundary_rules_exclusive_witness:
  "\<exists>sh ph ev. evaluate_boundary_predicates_v2 (example_rule_frame ''s'' sh ph) (Some (example_rule_frame ''s'' sh ph)) False False = Inr ev \<and>
     rule_matched ev ''CONTINUATION'' \<and> \<not> rule_matched ev ''BIRTH'' \<and> \<not> rule_matched ev ''PHASE_MUTATION''"
proof -
  obtain sh ph ev1 ev2 where "evaluate_boundary_predicates (example_rule_frame ''s'' sh ph) (Some (example_rule_frame ''s'' sh ph)) False False = Inr ev1"
    and e: "evaluate_boundary_predicates_v2 (example_rule_frame ''s'' sh ph) (Some (example_rule_frame ''s'' sh ph)) False False = Inr ev2"
    using example_evaluated .
  have "continues (example_rule_frame ''s'' sh ph) (Some (example_rule_frame ''s'' sh ph)) False False" by (simp add: continues_def)
  with boundary_rules_exclusive [OF e] e show ?thesis by auto
qed

theorem repair_changes_comparisons_only_witness:
  "\<exists>sh ph ev1 ev2. evaluate_boundary_predicates (example_rule_frame ''s'' sh ph) (Some (example_rule_frame ''s'' sh ph)) False False = Inr ev1 \<and>
    evaluate_boundary_predicates_v2 (example_rule_frame ''s'' sh ph) (Some (example_rule_frame ''s'' sh ph)) False False = Inr ev2 \<and>
    rule_matched ev1 ''BIRTH'' = rule_matched ev2 ''BIRTH''"
proof -
  obtain sh ph ev1 ev2 where e: "evaluate_boundary_predicates (example_rule_frame ''s'' sh ph) (Some (example_rule_frame ''s'' sh ph)) False False = Inr ev1"
    "evaluate_boundary_predicates_v2 (example_rule_frame ''s'' sh ph) (Some (example_rule_frame ''s'' sh ph)) False False = Inr ev2"
    using example_evaluated .
  have "''BIRTH'' \<in> set rule_names" by (simp add: rule_names_def)
  then have "rule_matched ev1 ''BIRTH'' = rule_matched ev2 ''BIRTH''" using repair_changes_comparisons_only [OF e] by simp
  then show ?thesis using e by blast
qed
end
