(* ===== verification/C2E_Handoff.thy ===== *)
theory C2E_Handoff
  imports C2E_Rules Py_Time
begin

section \<open>C2E v0.2: the input frame\<close>

text \<open>
  \<^verbatim>\<open>handoff.py\<close> and \<^verbatim>\<open>handoff_v0_3.py\<close> of \<^verbatim>\<open>src/src/ovc/opt_b/c2e_v2/\<close>: the adapter that admits a revised C2
  observation into the episode engine. It passes the payload through the firewall, binds its source,
  checks its identity and its chronology, resolves every reference against the declared parents, and
  derives the identifier and the hashes of the frame. The stages of \<^verbatim>\<open>build_input_frame\<close> are separate
  definitions here, in the order of the code. The lemmas show that a frame is causal: nothing it refers
  to became valid after the frame, and the frame not after its cutoff.
\<close>

subsection \<open>Times and references\<close>

definition HANDOFF_ALLOWED :: "string list" where
  "HANDOFF_ALLOWED =
    [''source_binding'', ''identity'', ''chronology'', ''structural'', ''context'',
     ''evidence'', ''lineage'', ''parent_records'', ''diagnostic_namespace'']"

definition ho_req :: "bool \<Rightarrow> string \<Rightarrow> unit result" where
  "ho_req = req C2EHandoffError"

definition parse_time :: "string \<Rightarrow> int result" where
  "parse_time value =
    (case from_iso (str_replace ''Z'' ''+00:00'' value) of
       None \<Rightarrow> Inl (Exn C2EHandoffError ''INVALID_TIME'')
     | Some d \<Rightarrow> bnd (ho_req (offset d \<noteq> None) ''TIMEZONE_REQUIRED'') (\<lambda>_. astimezone_utc d))"

definition iso_time :: "string \<Rightarrow> string result" where
  "iso_time value = bnd (parse_time value) (\<lambda>t. Inr (str_replace ''+00:00'' ''Z'' (isoformat_utc t)))"

definition parent_row :: "pydict \<Rightarrow> string \<Rightarrow> string \<Rightarrow> pydict" where
  "parent_row row record_id fvt =
    [(''record_id'', VStr record_id), (''kind'', VStr (py_str (dget row ''kind'' (VStr ''UNSPECIFIED'')))),
     (''first_valid_time'', VStr fvt), (''content_sha256'', dget row ''content_sha256'' VNone)]"

definition parent_step :: "int \<Rightarrow> int \<Rightarrow> (string \<times> pydict) list \<Rightarrow> pyval \<Rightarrow> (string \<times> pydict) list result" where
  "parent_step frame_fvt cutoff parents raw =
    bnd (as_dict raw) (\<lambda>row.
    let record_id = py_str (dget row ''record_id'' (VStr [])) in
    bnd (ho_req (record_id \<noteq> []) ''PARENT_RECORD_ID_REQUIRED'') (\<lambda>_.
    bnd (ho_req (map_of parents record_id = None) ''DUPLICATE_PARENT_RECORD'') (\<lambda>_.
    bnd (parse_time (py_str (dget row ''first_valid_time'' (VStr [])))) (\<lambda>parent_fvt.
    bnd (ho_req (parent_fvt \<le> frame_fvt) ''TIME_PARENT_NOT_FIRST_VALID'') (\<lambda>_.
    bnd (ho_req (parent_fvt \<le> cutoff) ''TIME_FUTURE_INPUT_DENIED'') (\<lambda>_.
    bnd (ditem row ''first_valid_time'') (\<lambda>v. bnd (iso_time (py_str v)) (\<lambda>fvt.
    Inr (parents @ [(record_id, parent_row row record_id fvt)])))))))))"

definition parent_index :: "pyval \<Rightarrow> int \<Rightarrow> int \<Rightarrow> (string \<times> pydict) list result" where
  "parent_index records frame_fvt cutoff =
    bnd (as_list (Exn C2EHandoffError ''PARENT_RECORDS_REQUIRED'') records) (\<lambda>rows.
    foldM (parent_step frame_fvt cutoff) [] rows)"

definition validate_reference_ids :: "string list \<Rightarrow> (string \<times> pydict) list \<Rightarrow> string \<Rightarrow> unit result" where
  "validate_reference_ids reference_ids parents marker =
    (let missing = sort (filter (\<lambda>item. map_of parents item = None) reference_ids) in
     ho_req (missing = []) (''AVAIL_REFERENCE_MISSING:'' @ marker @ '':'' @ join '','' missing))"

subsection \<open>The stages\<close>

definition admit_source :: "pydict \<Rightarrow> pydict result" where
  "admit_source raw =
    (case bnd (scan_forbidden (VDict raw) ''$'') (\<lambda>_. validate_source_binding (dget raw ''source_binding'' (VDict []))) of
       Inr binding \<Rightarrow> Inr binding
     | Inl (Exn c m) \<Rightarrow> if c = FirewallError \<or> c = SourceBindingError then Inl (Exn C2EHandoffError m) else Inl (Exn c m))"

definition check_identity :: "pydict \<Rightarrow> unit result" where
  "check_identity ident =
    bnd (mapM (\<lambda>key. ho_req (py_bool (dget ident key VNone)) (''IDENTITY_REQUIRED:'' @ key))
      [''instrument_id'', ''side'', ''scope_id'', ''scale_id'', ''clock_id'', ''lattice_id'', ''observation_id'',
       ''c2_record_id'', ''parameter_pack_id'', ''contract_id'', ''schema_id'']) (\<lambda>_.
    bnd (ditem ident ''side'') (\<lambda>side. bnd (in_strs side [''BID'', ''ASK'']) (\<lambda>ok.
    bnd (ho_req ok ''SIDE_INVALID'') (\<lambda>_.
    bnd (ditem ident ''c2_record_id'') (\<lambda>c. bnd (ditem ident ''observation_id'') (\<lambda>ob.
    ho_req (py_eq c ob) ''C2_RECORD_OBSERVATION_ID_MISMATCH''))))))"

definition time_field :: "pydict \<Rightarrow> string \<Rightarrow> int result" where
  "time_field chronology key = bnd (ditem chronology key) (\<lambda>v. parse_time (py_str v))"

text \<open>The frame's first valid time and its cutoff.\<close>

definition check_chronology :: "pydict \<Rightarrow> (int \<times> int) result" where
  "check_chronology chronology =
    bnd (mapM (\<lambda>key. ho_req (py_bool (dget chronology key VNone)) (''CHRONOLOGY_REQUIRED:'' @ key))
      [''source_time'', ''first_valid_time'', ''evaluation_cutoff'', ''continuity_segment_id'']) (\<lambda>_.
    bnd (time_field chronology ''source_time'') (\<lambda>source_time.
    bnd (time_field chronology ''first_valid_time'') (\<lambda>frame_fvt.
    bnd (time_field chronology ''evaluation_cutoff'') (\<lambda>cutoff.
    bnd (ho_req (source_time \<le> frame_fvt) ''SOURCE_TIME_AFTER_FVT'') (\<lambda>_.
    bnd (ho_req (frame_fvt \<le> cutoff) ''FRAME_NOT_FIRST_VALID_AT_CUTOFF'') (\<lambda>_.
    bnd (if dget chronology ''candidate_onset_time'' VNone = VNone then Inr ()
         else bnd (time_field chronology ''candidate_onset_time'') (\<lambda>t. ho_req (t \<le> frame_fvt) ''CANDIDATE_ONSET_AFTER_FVT'')) (\<lambda>_.
    Inr (frame_fvt, cutoff))))))))"

text \<open>A field with a list of references, checked and put back sorted.\<close>

definition ref_field :: "(string \<times> pydict) list \<Rightarrow> pydict \<Rightarrow> pyval \<Rightarrow> string \<Rightarrow> string \<Rightarrow> pydict result" where
  "ref_field parents d value key marker =
    bnd (unique_strings C2EHandoffError value key) (\<lambda>ids.
    bnd (validate_reference_ids ids parents marker) (\<lambda>_.
    Inr (AList.update key (VList (map VStr ids)) d)))"

text \<open>An optional single reference.\<close>

definition ref_single :: "(string \<times> pydict) list \<Rightarrow> string \<Rightarrow> pydict \<Rightarrow> pydict result" where
  "ref_single parents key d =
    (let v = dget d key VNone in
     if v = VNone then Inr d
     else bnd (validate_reference_ids [py_str v] parents key) (\<lambda>_. Inr (AList.update key (VStr (py_str v)) d)))"

definition structural_stage :: "(string \<times> pydict) list \<Rightarrow> pydict \<Rightarrow> pydict result" where
  "structural_stage parents structural =
    bnd (ho_req (\<not> dhas structural ''QUALITY'') ''QUALITY_STRUCTURAL_AXIS_DENIED'') (\<lambda>_.
    bnd (foldM (\<lambda>d axis.
      let key = py_lower axis @ ''_record_ids'' in
      bnd (ho_req (dhas d key) (''STRUCTURAL_AXIS_REQUIRED:'' @ axis)) (\<lambda>_.
      bnd (ditem d key) (\<lambda>v. ref_field parents d v key axis))) structural STRUCTURAL_AXES) (\<lambda>d1.
    bnd (foldM (\<lambda>d key. ref_field parents d (dget d key (VList [])) key key) d1
      [''level_record_ids'', ''container_record_ids'', ''transition_record_ids'', ''run_record_ids'']) (\<lambda>d2.
    ref_single parents ''relation_set_id'' d2)))"

definition context_stage :: "(string \<times> pydict) list \<Rightarrow> pydict \<Rightarrow> pydict result" where
  "context_stage parents ctx =
    bnd (ref_single parents ''context_resolution_bundle_id'' ctx) (\<lambda>d1.
    foldM (\<lambda>d key. ref_field parents d (dget d key (VList [])) key key) d1
      [''fixed_parent_links'', ''structural_object_links'', ''parent_axis_links''])"

definition dep_row_val :: "dep_row \<Rightarrow> pyval" where
  "dep_row_val row =
    VDict [(''dependency_id'', VStr (dependency_id row)), (''role'', VStr (role row)), (''status'', VStr (status row)),
           (''source_record_ids'', strs_val (source_record_ids row)), (''reason_codes'', strs_val (reason_codes row))]"

definition evidence_stage :: "pydict \<Rightarrow> pydict result" where
  "evidence_stage evidence =
    bnd (iter_of (dget evidence ''dependency_results'' (VList []))) (\<lambda>rows.
    bnd (normalize_dependency_results rows) (\<lambda>deps.
    bnd (mapM (\<lambda>key. ho_req (py_bool (dget evidence key VNone)) (''EVIDENCE_REQUIRED:'' @ key))
      [''availability_status'', ''technical_status'', ''authority_state'']) (\<lambda>_.
    bnd (as_list (Exn C2EHandoffError ''ASSURANCE_LIST_REQUIRED'') (dget evidence ''assurance'' (VList []))) (\<lambda>assurance.
    bnd (as_list (Exn C2EHandoffError ''REASON_CODES_LIST_REQUIRED'') (dget evidence ''reason_codes'' (VList []))) (\<lambda>codes.
    bnd (ditem evidence ''availability_status'') (\<lambda>av. bnd (ditem evidence ''technical_status'') (\<lambda>te.
    bnd (ditem evidence ''authority_state'') (\<lambda>au.
    Inr [(''dependency_results'', VList (map dep_row_val deps)), (''availability_status'', VStr (py_str av)),
         (''technical_status'', VStr (py_str te)), (''assurance'', VList assurance),
         (''consumer_eligibility'', VStr (py_str (dget evidence ''consumer_eligibility'' (VStr ''NOT_EVALUATED'')))),
         (''authority_state'', VStr (py_str au)), (''reason_codes'', strs_val (sorted_set (map py_str codes)))]))))))))"

definition lineage_stage :: "string list \<Rightarrow> pydict \<Rightarrow> pydict result" where
  "lineage_stage parent_ids lineage =
    bnd (str_set_of (dget lineage ''parent_record_ids'' (VList []))) (\<lambda>declared.
    bnd (ho_req (declared = parent_ids) ''LINEAGE_PARENT_INVENTORY_MISMATCH'') (\<lambda>_.
    bnd (ho_req (py_bool (dget lineage ''artifact_hashes'' VNone)) ''LINEAGE_ARTIFACT_HASH_REQUIRED'') (\<lambda>_.
    bnd (ho_req (py_bool (dget lineage ''source_build_commit'' VNone)) ''LINEAGE_SOURCE_COMMIT_REQUIRED'') (\<lambda>_.
    Inr [(''parent_record_ids'', strs_val parent_ids), (''artifact_hashes'', dget lineage ''artifact_hashes'' VNone),
         (''source_build_commit'', VStr (py_str (dget lineage ''source_build_commit'' VNone)))]))))"

definition iso_field :: "pydict \<Rightarrow> string \<Rightarrow> string result" where
  "iso_field chronology key = bnd (ditem chronology key) (\<lambda>v. iso_time (py_str v))"

definition chronology_out :: "pydict \<Rightarrow> pydict result" where
  "chronology_out chronology =
    bnd (iso_field chronology ''source_time'') (\<lambda>st.
    bnd (if py_bool (dget chronology ''candidate_onset_time'' VNone)
         then bnd (iso_field chronology ''candidate_onset_time'') (\<lambda>t. Inr (VStr t)) else Inr VNone) (\<lambda>onset.
    bnd (iso_field chronology ''first_valid_time'') (\<lambda>fvt.
    bnd (iso_field chronology ''evaluation_cutoff'') (\<lambda>co.
    bnd (ditem chronology ''continuity_segment_id'') (\<lambda>seg.
    Inr [(''source_time'', VStr st), (''candidate_onset_time'', onset), (''first_valid_time'', VStr fvt),
         (''evaluation_cutoff'', VStr co), (''continuity_segment_id'', VStr (py_str seg)),
         (''predecessor_observation_id'', dget chronology ''predecessor_observation_id'' VNone)])))))"

definition copy_fields :: "pydict \<Rightarrow> string list \<Rightarrow> pydict result" where
  "copy_fields d keys = mapM (\<lambda>k. bnd (ditem d k) (\<lambda>v. Inr (k, v))) keys"

definition frame_identity :: "pydict \<Rightarrow> pydict \<Rightarrow> pydict \<Rightarrow> string list \<Rightarrow> pydict result" where
  "frame_identity binding ident chronology parent_ids =
    bnd (copy_fields binding [''source_release_id'', ''source_manifest_id'', ''c2_release_id'', ''c2_contract_id'', ''c2ar_package_sha256'']) (\<lambda>b.
    bnd (copy_fields ident [''instrument_id'', ''side'', ''scope_id'', ''scale_id'', ''clock_id'', ''lattice_id'', ''observation_id'',
      ''c2_record_id'', ''parameter_pack_id'', ''contract_id'', ''schema_id'']) (\<lambda>i.
    bnd (iso_field chronology ''first_valid_time'') (\<lambda>fvt.
    bnd (ditem chronology ''continuity_segment_id'') (\<lambda>seg.
    Inr (b @ i @ [(''first_valid_time'', VStr fvt), (''continuity_segment_id'', seg),
      (''predecessor_observation_id'', dget chronology ''predecessor_observation_id'' VNone),
      (''parent_record_ids'', strs_val parent_ids)])))))"

definition build_input_frame :: "pydict \<Rightarrow> pydict result" where
  "build_input_frame payload =
    (let unknown = unknown_keys payload HANDOFF_ALLOWED;
         diagnostic = dget payload ''diagnostic_namespace'' VNone;
         raw = AList.delete ''diagnostic_namespace'' payload in
     bnd (ho_req (unknown = []) (''UNKNOWN_HANDOFF_FIELD:'' @ join '','' unknown)) (\<lambda>_.
     bnd (admit_source raw) (\<lambda>binding.
     bnd (as_dict (dget raw ''identity'' (VDict []))) (\<lambda>ident.
     bnd (as_dict (dget raw ''chronology'' (VDict []))) (\<lambda>chronology.
     bnd (as_dict (dget raw ''structural'' (VDict []))) (\<lambda>structural.
     bnd (as_dict (dget raw ''context'' (VDict []))) (\<lambda>ctx.
     bnd (as_dict (dget raw ''evidence'' (VDict []))) (\<lambda>evidence.
     bnd (as_dict (dget raw ''lineage'' (VDict []))) (\<lambda>lineage.
     bnd (check_identity ident) (\<lambda>_.
     bnd (check_chronology chronology) (\<lambda>(frame_fvt, cutoff).
     bnd (parent_index (dget raw ''parent_records'' (VList [])) frame_fvt cutoff) (\<lambda>parents.
     bnd (structural_stage parents structural) (\<lambda>structural'.
     bnd (context_stage parents ctx) (\<lambda>context'.
     bnd (evidence_stage evidence) (\<lambda>evidence'.
     let parent_ids = sort (map fst parents) in
     bnd (lineage_stage parent_ids lineage) (\<lambda>lineage'.
     bnd (frame_identity binding ident chronology parent_ids) (\<lambda>fi.
     bnd (chronology_out chronology) (\<lambda>chronology'.
     bnd (digest ''C2E.FRAME'' (VDict fi) 24) (\<lambda>frame_id.
     bnd (sha256_hex (VDict lineage')) (\<lambda>lineage_hash.
     let frame =
       [(''schema'', VStr ''c2e_input_frame/v0_2''), (''source_binding'', VDict binding), (''identity'', VDict ident),
        (''chronology'', VDict chronology'), (''structural'', VDict structural'), (''context'', VDict context'),
        (''evidence'', VDict evidence'), (''lineage'', VDict lineage'),
        (''authority'', VStr ''INACTIVE_NONCANONICAL_BUILD_TEST_ONLY''), (''frame_id'', VStr frame_id), (''lineage_hash'', VStr lineage_hash)] in
     bnd (sha256_hex (VDict frame)) (\<lambda>logical_hash.
     Inr (frame @ [(''logical_hash'', VStr logical_hash)] @
       (if diagnostic = VNone then [] else [(''diagnostic_namespace'', diagnostic)])))))))))))))))))))))))"

subsection \<open>Version 0.3: with comparison signatures\<close>

definition CONTRACT_ID :: string where
  "CONTRACT_ID = ''C2E.HANDOFF.SIGNATURE.v0_3''"

definition SCHEMA_ID :: string where
  "SCHEMA_ID = ''c2e_input_frame/v0_3''"

definition build_input_frame_v0_3 :: "pydict \<Rightarrow> pydict result" where
  "build_input_frame_v0_3 payload =
    (let unknown = unknown_keys payload (HANDOFF_ALLOWED @ [''comparison_source'']) in
     bnd (ho_req (unknown = []) (''UNKNOWN_HANDOFF_FIELD:'' @ join '','' unknown)) (\<lambda>_.
     bnd (ho_req (dhas payload ''comparison_source'') ''COMPARISON_SOURCE_REQUIRED'') (\<lambda>_.
     bnd (as_dict (dget payload ''identity'' (VDict []))) (\<lambda>ident.
     bnd (ho_req (dget ident ''contract_id'' VNone = VStr CONTRACT_ID) ''SIGNATURE_HANDOFF_CONTRACT_ID_REQUIRED'') (\<lambda>_.
     bnd (ho_req (dget ident ''schema_id'' VNone = VStr SCHEMA_ID) ''SIGNATURE_HANDOFF_SCHEMA_ID_REQUIRED'') (\<lambda>_.
     bnd (build_input_frame (AList.delete ''comparison_source'' payload)) (\<lambda>base.
     bnd (as_dict (dget payload ''comparison_source'' VNone)) (\<lambda>source.
     bnd (case build_comparison_signatures source of
            Inr sg \<Rightarrow> Inr sg
          | Inl (Exn c m) \<Rightarrow> if c = StableSignatureError then Inl (Exn C2EHandoffError m) else Inl (Exn c m)) (\<lambda>comparison.
     let base1 = AList.delete ''logical_hash'' (AList.update ''comparison'' (VDict comparison)
           (AList.update ''schema'' (VStr SCHEMA_ID) base)) in
     bnd (sha256_hex (VDict base1)) (\<lambda>h.
     Inr (AList.update ''logical_hash'' (VStr h) base1)))))))))))"

subsection \<open>Times\<close>

lemma parse_time_Inr:
  "parse_time v = Inr t \<longleftrightarrow> (\<exists>d. from_iso (str_replace ''Z'' ''+00:00'' v) = Some d \<and> offset d \<noteq> None \<and>
     t = instant d \<and> 0 \<le> t \<and> t < max_ord * day_us)"
  by (auto simp: parse_time_def bnd_eq_Inr ho_req_def req_eq_Inr astimezone_utc_def split: option.splits if_splits)

lemma iso_time_parse:
  assumes "iso_time v = Inr s"
  shows "parse_time s = parse_time v" and "iso_time s = Inr s"
proof -
  obtain t where t: "parse_time v = Inr t" and s: "s = iso_base t @ ''Z''"
    using assms by (auto simp: iso_time_def bnd_eq_Inr iso_zulu)
  have rg: "0 \<le> t" "t < max_ord * day_us" using t by (auto simp: parse_time_Inr)
  have "parse_time s = Inr t"
    unfolding parse_time_Inr s zulu_iso from_iso_isoformat [OF rg] using rg by (simp add: instant_def)
  then show "parse_time s = parse_time v" "iso_time s = Inr s"
    using t by (simp_all add: iso_time_def iso_zulu s)
qed

text \<open>Time texts are canonical. Normalizing a timestamp keeps the instant it denotes, whatever its
  offset and its precision, and normalizing it again changes nothing; two timestamps have the same
  normal form exactly when they denote the same instant.\<close>

theorem iso_time_canonical:
  assumes "iso_time v = Inr s" and "iso_time w = Inr u"
  shows "parse_time s = parse_time v \<and> iso_time s = Inr s \<and> (s = u \<longleftrightarrow> parse_time v = parse_time w)"
proof -
  have "s = u \<longleftrightarrow> parse_time v = parse_time w"
  proof
    assume "s = u"
    then show "parse_time v = parse_time w" using iso_time_parse(1) [OF assms(1)] iso_time_parse(1) [OF assms(2)] by simp
  next
    assume "parse_time v = parse_time w"
    then show "s = u" using assms by (simp add: iso_time_def)
  qed
  then show ?thesis using iso_time_parse [OF assms(1)] by blast
qed

lemma example_time: "from_iso ''2026-07-01T01:30:00.250+01:30'' = Some (DT 63918466200250000 (Some 5400000000))"
proof -
  have h: "parse_hms ''01:30:00.250'' = Some (1, 30, 0, 250000)" "parse_hms ''01:30'' = Some (1, 30, 0, 0)"
    by (simp_all add: parse_hms_def parse2_def is_digit_def digits_val_def digit_val_def is_point_def parse_frac_def Let_def)
  have d: "parse_date ''2026-07-01T01:30:00.250+01:30'' = Some (2026, 7, 1, Some ''01:30:00.250+01:30'')" by code_simp
  have t: "takeWhile (\<lambda>c. \<not> is_zone c) ''01:30:00.250+01:30'' = ''01:30:00.250''"
    "dropWhile (\<lambda>c. \<not> is_zone c) ''01:30:00.250+01:30'' = ''+01:30''" by code_simp+
  have z: "parse_zone ''+01:30'' = Some (Some 5400000000)" by (simp add: parse_zone_def h day_us_def)
  have v: "valid_date 2026 7 1" "ymd2ord 2026 7 1 = 739798" by code_simp+
  show ?thesis unfolding from_iso_def d option.case prod.case t h z v by (simp add: v day_us_def)
qed

theorem iso_time_canonical_witness:
  "iso_time ''2026-07-01T01:30:00.250+01:30'' = Inr ''2026-07-01T00:00:00.250000Z'' \<and>
   parse_time ''2026-07-01T00:00:00.250000Z'' = parse_time ''2026-07-01T01:30:00.250+01:30''"
proof -
  have r: "str_replace ''Z'' ''+00:00'' ''2026-07-01T01:30:00.250+01:30'' = ''2026-07-01T01:30:00.250+01:30''" by code_simp
  have p: "parse_time ''2026-07-01T01:30:00.250+01:30'' = Inr 63918460800250000"
    unfolding parse_time_Inr r example_time by (simp add: instant_def max_ord_def day_us_def)
  have "iso_base 63918460800250000 @ ''Z'' = ''2026-07-01T00:00:00.250000Z''" by code_simp
  then have a: "iso_time ''2026-07-01T01:30:00.250+01:30'' = Inr ''2026-07-01T00:00:00.250000Z''"
    unfolding iso_time_def p bnd_Inr iso_zulu by simp
  from iso_time_canonical [OF a a] a show ?thesis by blast
qed

subsection \<open>References\<close>

definition refs_within :: "(string \<times> pydict) list \<Rightarrow> pyval option \<Rightarrow> bool" where
  "refs_within parents v \<longleftrightarrow> (\<exists>ids. v = Some (VList (map VStr ids)) \<and> set ids \<subseteq> fst ` set parents)"

lemma validate_reference_ids_Inr: "validate_reference_ids ids parents marker = Inr u \<longleftrightarrow> set ids \<subseteq> fst ` set parents"
proof -
  have "sort xs = [] \<longleftrightarrow> xs = []" for xs :: "string list" by (metis length_0_conv length_sort)
  then show ?thesis
    by (auto simp: validate_reference_ids_def ho_req_def req_eq_Inr filter_empty_conv map_of_eq_None_iff)
qed

lemma ref_field_Inr:
  assumes "ref_field parents d value key marker = Inr d'"
  shows "refs_within parents (map_of d' key) \<and> (\<forall>k. k \<noteq> key \<longrightarrow> map_of d' k = map_of d k)"
  using assms by (auto simp: ref_field_def bnd_eq_Inr validate_reference_ids_Inr refs_within_def)

text \<open>A loop that rewrites one field per step.\<close>

lemma foldM_fields:
  assumes "foldM f d xs = Inr d'"
    and "\<And>d x d'. f d x = Inr d' \<Longrightarrow> P (map_of d' (kf x)) \<and> (\<forall>k. k \<noteq> kf x \<longrightarrow> map_of d' k = map_of d k)"
  shows "(\<forall>x \<in> set xs. P (map_of d' (kf x))) \<and> (\<forall>k. k \<notin> kf ` set xs \<longrightarrow> map_of d' k = map_of d k)"
  using assms(1)
proof (induction xs arbitrary: d' rule: rev_induct)
  case (snoc x xs)
  then obtain d1 where d1: "foldM f d xs = Inr d1" "f d1 x = Inr d'" by (auto simp: foldM_snoc bnd_eq_Inr)
  note ih = snoc.IH [OF d1(1)] and st = assms(2) [OF d1(2)]
  have "P (map_of d' (kf y))" if "y \<in> set (xs @ [x])" for y
    using that ih st by (cases "kf y = kf x") auto
  then show ?case using ih st by auto
qed simp

lemma ref_single_Inr:
  assumes "ref_single parents key d = Inr d'"
  shows "(map_of d' key = None \<or> map_of d' key = Some VNone \<or> (\<exists>i. map_of d' key = Some (VStr i) \<and> i \<in> fst ` set parents)) \<and>
    (\<forall>k. k \<noteq> key \<longrightarrow> map_of d' k = map_of d k)"
proof (cases "dget d key VNone = VNone")
  case True
  then have "map_of d key = None \<or> map_of d key = Some VNone" by (auto simp: dget_def split: option.splits)
  then show ?thesis using True assms by (auto simp: ref_single_def)
next
  case False
  then show ?thesis using assms by (auto simp: ref_single_def Let_def bnd_eq_Inr validate_reference_ids_Inr)
qed

definition STRUCTURAL_REFS :: "string list" where
  "STRUCTURAL_REFS = [''location_record_ids'', ''motion_record_ids'', ''organisation_record_ids'', ''interaction_record_ids'',
     ''level_record_ids'', ''container_record_ids'', ''transition_record_ids'', ''run_record_ids'']"

definition CONTEXT_REFS :: "string list" where
  "CONTEXT_REFS = [''fixed_parent_links'', ''structural_object_links'', ''parent_axis_links'']"

lemma structural_stage_refs:
  assumes "structural_stage parents st = Inr st'"
  shows "\<forall>k \<in> set STRUCTURAL_REFS. refs_within parents (map_of st' k)"
proof -
  obtain d1 d2 where
      f1: "foldM (\<lambda>d axis. let key = py_lower axis @ ''_record_ids'' in
        bnd (ho_req (dhas d key) (''STRUCTURAL_AXIS_REQUIRED:'' @ axis)) (\<lambda>_.
        bnd (ditem d key) (\<lambda>v. ref_field parents d v key axis))) st STRUCTURAL_AXES = Inr d1"
    and f2: "foldM (\<lambda>d key. ref_field parents d (dget d key (VList [])) key key) d1
      [''level_record_ids'', ''container_record_ids'', ''transition_record_ids'', ''run_record_ids''] = Inr d2"
    and f3: "ref_single parents ''relation_set_id'' d2 = Inr st'"
    using assms by (auto simp: structural_stage_def bnd_eq_Inr)
  have 1: "\<forall>axis \<in> set STRUCTURAL_AXES. refs_within parents (map_of d1 (py_lower axis @ ''_record_ids''))"
    using foldM_fields [OF f1, of "refs_within parents" "\<lambda>axis. py_lower axis @ ''_record_ids''"]
    by (auto simp: Let_def bnd_eq_Inr dest: ref_field_Inr)
  have 2: "(\<forall>k \<in> set [''level_record_ids'', ''container_record_ids'', ''transition_record_ids'', ''run_record_ids''].
      refs_within parents (map_of d2 k)) \<and>
      (\<forall>k. k \<notin> set [''level_record_ids'', ''container_record_ids'', ''transition_record_ids'', ''run_record_ids''] \<longrightarrow> map_of d2 k = map_of d1 k)"
    using foldM_fields [OF f2, of "refs_within parents" "\<lambda>k. k"] by (auto dest: ref_field_Inr)
  have low: "map (\<lambda>axis. py_lower axis @ ''_record_ids'') STRUCTURAL_AXES =
      [''location_record_ids'', ''motion_record_ids'', ''organisation_record_ids'', ''interaction_record_ids'']" by code_simp
  have "\<forall>k \<in> set (map (\<lambda>axis. py_lower axis @ ''_record_ids'') STRUCTURAL_AXES). refs_within parents (map_of d1 k)" using 1 by auto
  then have 1: "\<forall>k \<in> set [''location_record_ids'', ''motion_record_ids'', ''organisation_record_ids'', ''interaction_record_ids''].
      refs_within parents (map_of d1 k)" unfolding low .
  have ne: "\<forall>k \<in> set STRUCTURAL_REFS. k \<noteq> ''relation_set_id''" by (simp add: STRUCTURAL_REFS_def)
  have "\<forall>k \<in> set STRUCTURAL_REFS. refs_within parents (map_of d2 k)"
    using 1 2 by (simp add: STRUCTURAL_REFS_def)
  then show ?thesis using ref_single_Inr [OF f3] ne by simp
qed

lemma context_stage_refs:
  assumes "context_stage parents ctx = Inr ctx'"
  shows "\<forall>k \<in> set CONTEXT_REFS. refs_within parents (map_of ctx' k)"
proof -
  obtain d1 where f: "foldM (\<lambda>d key. ref_field parents d (dget d key (VList [])) key key) d1
      [''fixed_parent_links'', ''structural_object_links'', ''parent_axis_links''] = Inr ctx'"
    using assms by (auto simp: context_stage_def bnd_eq_Inr)
  from foldM_fields [OF this, of "refs_within parents" "\<lambda>k. k"] show ?thesis
    unfolding CONTEXT_REFS_def by (auto dest: ref_field_Inr)
qed

lemma parent_index_Inr:
  assumes "parent_index records fvt cutoff = Inr parents"
  obtains rows where "records = VList rows" and "distinct (map fst parents)"
    and "\<And>raw. raw \<in> set rows \<Longrightarrow> \<exists>row t. as_dict raw = Inr row \<and> py_str (dget row ''record_id'' (VStr [])) \<in> fst ` set parents \<and>
      parse_time (py_str (dget row ''first_valid_time'' (VStr []))) = Inr t \<and> t \<le> fvt \<and> t \<le> cutoff"
    and "\<And>i. i \<in> fst ` set parents \<Longrightarrow> \<exists>raw \<in> set rows. \<exists>row. as_dict raw = Inr row \<and> py_str (dget row ''record_id'' (VStr [])) = i"
proof -
  obtain rows where r: "records = VList rows" and f: "foldM (parent_step fvt cutoff) [] rows = Inr parents"
    using assms by (auto simp: parent_index_def bnd_eq_Inr as_list_Inr)
  have "distinct (map fst parents) \<and>
    (\<forall>raw \<in> set rows. \<exists>row t. as_dict raw = Inr row \<and> py_str (dget row ''record_id'' (VStr [])) \<in> fst ` set parents \<and>
      parse_time (py_str (dget row ''first_valid_time'' (VStr []))) = Inr t \<and> t \<le> fvt \<and> t \<le> cutoff) \<and>
    (\<forall>i \<in> fst ` set parents. \<exists>raw \<in> set rows. \<exists>row. as_dict raw = Inr row \<and> py_str (dget row ''record_id'' (VStr [])) = i)"
    using f
  proof (induction rows arbitrary: parents rule: rev_induct)
    case (snoc raw rows)
    then obtain ps where ps: "foldM (parent_step fvt cutoff) [] rows = Inr ps" "parent_step fvt cutoff ps raw = Inr parents"
      by (auto simp: foldM_snoc bnd_eq_Inr)
    then obtain row t v where row: "as_dict raw = Inr row" "map_of ps (py_str (dget row ''record_id'' (VStr []))) = None"
      "parse_time (py_str (dget row ''first_valid_time'' (VStr []))) = Inr t" "t \<le> fvt" "t \<le> cutoff"
      "parents = ps @ [(py_str (dget row ''record_id'' (VStr [])), v)]"
      by (auto simp: parent_step_def Let_def bnd_eq_Inr ho_req_def req_eq_Inr)
    have "py_str (dget row ''record_id'' (VStr [])) \<notin> fst ` set ps" using row(2) by (simp add: map_of_eq_None_iff)
    with snoc.IH [OF ps(1)] row show ?case by fastforce
  qed simp
  then show ?thesis using that r by blast
qed

subsection \<open>What a frame guarantees\<close>

lemma build_input_frame_Inr:
  assumes "build_input_frame payload = Inr frame"
  obtains binding ident chronology structural ctx evidence lineage fvt cutoff parents st' ctx' ev' li' chron' rest where
    "as_dict (dget (AList.delete ''diagnostic_namespace'' payload) ''chronology'' (VDict [])) = Inr chronology"
    "check_chronology chronology = Inr (fvt, cutoff)"
    "parent_index (dget (AList.delete ''diagnostic_namespace'' payload) ''parent_records'' (VList [])) fvt cutoff = Inr parents"
    "structural_stage parents structural = Inr st'" "context_stage parents ctx = Inr ctx'" "evidence_stage evidence = Inr ev'"
    "lineage_stage (sort (map fst parents)) lineage = Inr li'" "chronology_out chronology = Inr chron'"
    "frame = [(''schema'', VStr ''c2e_input_frame/v0_2''), (''source_binding'', VDict binding), (''identity'', VDict ident),
        (''chronology'', VDict chron'), (''structural'', VDict st'), (''context'', VDict ctx'),
        (''evidence'', VDict ev'), (''lineage'', VDict li'), (''authority'', VStr ''INACTIVE_NONCANONICAL_BUILD_TEST_ONLY'')] @ rest"
    "''comparison'' \<notin> fst ` set rest"
proof -
  let ?raw = "AList.delete ''diagnostic_namespace'' payload"
  note A = assms [unfolded build_input_frame_def Let_def]
  from A obtain binding where b: "admit_source ?raw = Inr binding" by (auto simp: bnd_eq_Inr)
  from A obtain ident where i: "as_dict (dget ?raw ''identity'' (VDict [])) = Inr ident" by (auto simp: bnd_eq_Inr)
  from A b i obtain chronology where c: "as_dict (dget ?raw ''chronology'' (VDict [])) = Inr chronology" by (auto simp: bnd_eq_Inr)
  from A b i c obtain structural ctx evidence lineage where s: "as_dict (dget ?raw ''structural'' (VDict [])) = Inr structural"
    "as_dict (dget ?raw ''context'' (VDict [])) = Inr ctx" "as_dict (dget ?raw ''evidence'' (VDict [])) = Inr evidence"
    "as_dict (dget ?raw ''lineage'' (VDict [])) = Inr lineage" by (auto simp: bnd_eq_Inr)
  note A = A [unfolded b i c s bnd_Inr]
  from A obtain fvt cutoff where k: "check_chronology chronology = Inr (fvt, cutoff)" by (auto simp: bnd_eq_Inr)
  note A = A [unfolded k bnd_Inr prod.case]
  from A obtain parents where p: "parent_index (dget ?raw ''parent_records'' (VList [])) fvt cutoff = Inr parents" by (auto simp: bnd_eq_Inr)
  note A = A [unfolded p bnd_Inr]
  from A obtain st' ctx' ev' where t: "structural_stage parents structural = Inr st'" "context_stage parents ctx = Inr ctx'"
    "evidence_stage evidence = Inr ev'" by (auto simp: bnd_eq_Inr)
  note A = A [unfolded t bnd_Inr]
  from A obtain li' fi chron' where l: "lineage_stage (sort (map fst parents)) lineage = Inr li'"
    "frame_identity binding ident chronology (sort (map fst parents)) = Inr fi" "chronology_out chronology = Inr chron'"
    by (auto simp: bnd_eq_Inr)
  note A = A [unfolded l bnd_Inr]
  from A obtain frame_id lh h where
    "frame = [(''schema'', VStr ''c2e_input_frame/v0_2''), (''source_binding'', VDict binding), (''identity'', VDict ident),
        (''chronology'', VDict chron'), (''structural'', VDict st'), (''context'', VDict ctx'),
        (''evidence'', VDict ev'), (''lineage'', VDict li'), (''authority'', VStr ''INACTIVE_NONCANONICAL_BUILD_TEST_ONLY'')] @
        ([(''frame_id'', VStr frame_id), (''lineage_hash'', VStr lh), (''logical_hash'', VStr h)] @
         (if dget payload ''diagnostic_namespace'' VNone = VNone then [] else [(''diagnostic_namespace'', dget payload ''diagnostic_namespace'' VNone)]))"
    by (auto simp: bnd_eq_Inr)
  from that [OF c k p t l(1,3) this] show ?thesis by simp
qed

lemma check_chronology_Inr:
  assumes "check_chronology c = Inr (fvt, cutoff)"
  obtains s where "time_field c ''source_time'' = Inr s" "time_field c ''first_valid_time'' = Inr fvt"
    "time_field c ''evaluation_cutoff'' = Inr cutoff" "s \<le> fvt" "fvt \<le> cutoff"
    "dget c ''candidate_onset_time'' VNone = VNone \<or> (\<exists>t. time_field c ''candidate_onset_time'' = Inr t \<and> t \<le> fvt)"
  using assms unfolding check_chronology_def
  by (auto simp: bnd_eq_Inr ho_req_def req_eq_Inr split: if_splits)

lemma iso_field_parse:
  assumes "iso_field c k = Inr s" shows "parse_time s = time_field c k"
proof -
  obtain v where v: "ditem c k = Inr v" "iso_time (py_str v) = Inr s" using assms by (auto simp: iso_field_def bnd_eq_Inr)
  then show ?thesis using iso_time_parse(1) [OF v(2)] by (simp add: time_field_def)
qed

lemma chronology_out_Inr:
  assumes "chronology_out c = Inr c'"
  obtains st fvt co on seg where
    "c' = [(''source_time'', VStr st), (''candidate_onset_time'', on), (''first_valid_time'', VStr fvt),
         (''evaluation_cutoff'', VStr co), (''continuity_segment_id'', VStr (py_str seg)),
         (''predecessor_observation_id'', dget c ''predecessor_observation_id'' VNone)]"
    "parse_time st = time_field c ''source_time''" "parse_time fvt = time_field c ''first_valid_time''"
    "parse_time co = time_field c ''evaluation_cutoff''" "map_of c ''continuity_segment_id'' = Some seg"
    "on = VNone \<or> (\<exists>s. on = VStr s \<and> parse_time s = time_field c ''candidate_onset_time'' \<and> dget c ''candidate_onset_time'' VNone \<noteq> VNone)"
proof -
  from assms obtain st fvt co on seg where i: "iso_field c ''source_time'' = Inr st" "iso_field c ''first_valid_time'' = Inr fvt"
      "iso_field c ''evaluation_cutoff'' = Inr co"
    and o: "(if py_bool (dget c ''candidate_onset_time'' VNone)
         then bnd (iso_field c ''candidate_onset_time'') (\<lambda>t. Inr (VStr t)) else Inr VNone) = Inr on"
    and s: "ditem c ''continuity_segment_id'' = Inr seg"
    and c': "c' = [(''source_time'', VStr st), (''candidate_onset_time'', on), (''first_valid_time'', VStr fvt),
         (''evaluation_cutoff'', VStr co), (''continuity_segment_id'', VStr (py_str seg)),
         (''predecessor_observation_id'', dget c ''predecessor_observation_id'' VNone)]"
    unfolding chronology_out_def by (auto simp: bnd_eq_Inr)
  have "on = VNone \<or> (\<exists>s. on = VStr s \<and> parse_time s = time_field c ''candidate_onset_time'' \<and> dget c ''candidate_onset_time'' VNone \<noteq> VNone)"
    using o by (auto simp: bnd_eq_Inr iso_field_parse split: if_splits)
  with that [OF c'] i s show ?thesis by (auto simp: iso_field_parse ditem_Inr)
qed


lemma build_v03_Inr:
  assumes "build_input_frame_v0_3 payload = Inr frame"
  obtains base sg src h where "build_input_frame (AList.delete ''comparison_source'' payload) = Inr base"
    "build_comparison_signatures src = Inr sg"
    "map_of frame = (map_of base)(''schema'' \<mapsto> VStr SCHEMA_ID, ''comparison'' \<mapsto> VDict sg, ''logical_hash'' \<mapsto> VStr h)"
proof -
  note A = assms [unfolded build_input_frame_v0_3_def Let_def]
  from A obtain base src sg h where b: "build_input_frame (AList.delete ''comparison_source'' payload) = Inr base"
    and s: "(case build_comparison_signatures src of Inr sg \<Rightarrow> Inr sg
          | Inl (Exn c m) \<Rightarrow> if c = StableSignatureError then Inl (Exn C2EHandoffError m) else Inl (Exn c m)) = Inr sg"
    and f: "frame = AList.update ''logical_hash'' (VStr h) (AList.delete ''logical_hash'' (AList.update ''comparison'' (VDict sg)
           (AList.update ''schema'' (VStr SCHEMA_ID) base)))"
    by (auto simp: bnd_eq_Inr)
  have "build_comparison_signatures src = Inr sg" using s by (auto split: sum.splits exn.splits if_splits)
  moreover have "map_of frame = (map_of base)(''schema'' \<mapsto> VStr SCHEMA_ID, ''comparison'' \<mapsto> VDict sg, ''logical_hash'' \<mapsto> VStr h)"
    unfolding f by (simp add: fun_eq_iff)
  ultimately show ?thesis using that b by blast
qed

lemma rule_required_ok:
  assumes "\<forall>k \<in> set needed. map_of frame k \<noteq> None"
    and "map_of frame ''chronology'' = Some (VDict c)" and "map_of frame ''structural'' = Some (VDict s)"
    and "\<forall>k \<in> set [''continuity_segment_id'', ''first_valid_time'', ''evaluation_cutoff'']. py_bool (dget c k VNone)"
    and "\<forall>k \<in> set [''location_record_ids'', ''motion_record_ids'', ''organisation_record_ids'', ''interaction_record_ids'']. map_of s k \<noteq> None"
  shows "rule_required needed frame = Inr ()"
proof -
  have "is_ok (rule_required needed frame)"
    unfolding rule_required_def Let_def is_ok_bnd is_ok_mapM
    using assms by (simp add: ditem_def dhas_def map_of_eq_None_iff)
  then show ?thesis by (simp add: is_ok_iff)
qed

lemma iso_field_nonempty: "iso_field c k = Inr s \<Longrightarrow> s \<noteq> []"
  by (auto simp: iso_field_def iso_time_def bnd_eq_Inr iso_zulu)

text \<open>A frame of version 0.3 has the shape both evaluators of the boundary rules require: all its
  sections, its chronology and the four structural axes are there, and the signatures it carries verify,
  so that an evaluation never fails on the shape of an admitted frame.\<close>

theorem frame_shape_admissible:
  assumes "build_input_frame_v0_3 payload = Inr frame" and "segment_of frame \<noteq> Inr []"
  shows "required_v1 frame = Inr () \<and> required_v2 frame = Inr () \<and>
    (\<exists>sg. map_of frame ''comparison'' = Some (VDict sg) \<and> verify_comparison_signatures (VDict sg) = Inr ())"
proof -
  obtain base sg src h where b: "build_input_frame (AList.delete ''comparison_source'' payload) = Inr base"
    and sg: "build_comparison_signatures src = Inr sg"
    and f: "map_of frame = (map_of base)(''schema'' \<mapsto> VStr SCHEMA_ID, ''comparison'' \<mapsto> VDict sg, ''logical_hash'' \<mapsto> VStr h)"
    using build_v03_Inr [OF assms(1)] .
  obtain binding ident chronology structural ctx0 evidence lineage fvt cutoff parents st ctx ev li chron rest where
      s: "structural_stage parents structural = Inr st" and c: "chronology_out chronology = Inr chron"
    and base: "base = [(''schema'', VStr ''c2e_input_frame/v0_2''), (''source_binding'', VDict binding), (''identity'', VDict ident),
        (''chronology'', VDict chron), (''structural'', VDict st), (''context'', VDict ctx),
        (''evidence'', VDict ev), (''lineage'', VDict li), (''authority'', VStr ''INACTIVE_NONCANONICAL_BUILD_TEST_ONLY'')] @ rest"
    using build_input_frame_Inr [OF b] by metis
  have m: "map_of frame ''chronology'' = Some (VDict chron)" "map_of frame ''structural'' = Some (VDict st)"
    "map_of frame ''comparison'' = Some (VDict sg)" "map_of frame ''identity'' = Some (VDict ident)"
    "map_of frame ''context'' = Some (VDict ctx)" "map_of frame ''evidence'' = Some (VDict ev)" "map_of frame ''lineage'' = Some (VDict li)"
    unfolding f base by simp_all
  obtain a b' co on seg where ch: "iso_field chronology ''first_valid_time'' = Inr b'" "iso_field chronology ''evaluation_cutoff'' = Inr co"
    "chron = [(''source_time'', VStr a), (''candidate_onset_time'', on), (''first_valid_time'', VStr b'),
         (''evaluation_cutoff'', VStr co), (''continuity_segment_id'', VStr (py_str seg)),
         (''predecessor_observation_id'', dget chronology ''predecessor_observation_id'' VNone)]"
    using c unfolding chronology_out_def by (auto simp: bnd_eq_Inr)
  have "segment_of frame = Inr (py_str seg)" by (simp add: segment_of_def ditem_def m ch)
  then have cb: "\<forall>k \<in> set [''continuity_segment_id'', ''first_valid_time'', ''evaluation_cutoff'']. py_bool (dget chron k VNone)"
    using assms(2) iso_field_nonempty [OF ch(1)] iso_field_nonempty [OF ch(2)] by (simp add: ch(3) dget_def)
  have sb: "\<forall>k \<in> set [''location_record_ids'', ''motion_record_ids'', ''organisation_record_ids'', ''interaction_record_ids'']. map_of st k \<noteq> None"
    using structural_stage_refs [OF s] by (auto simp: STRUCTURAL_REFS_def refs_within_def)
  have r: "rule_required [''identity'', ''chronology'', ''structural'', ''context'', ''evidence'', ''lineage''] frame = Inr ()"
    "rule_required [''identity'', ''chronology'', ''structural'', ''context'', ''evidence'', ''lineage'', ''comparison''] frame = Inr ()"
    using m by (intro rule_required_ok [OF _ m(1,2) cb sb]; simp)+
  have v: "verify_comparison_signatures (VDict sg) = Inr ()" by (rule verify_after_build [OF sg])
  have "ditem frame ''comparison'' = Inr (VDict sg)" by (simp add: ditem_def m(3))
  then show ?thesis using m(3) v r unfolding required_v1_def required_v2_def by simp
qed

subsection \<open>An example\<close>

definition example_payload :: pydict where
  "example_payload =
    [(''source_binding'', VDict [(''c2ar_package_id'', VStr C2AR_PACKAGE_ID), (''c2ar_package_sha256'', VStr C2AR_PACKAGE_SHA256),
        (''research_consumer_permission'', VStr C2AR_PERMISSION), (''active'', VBool False), (''canonical'', VBool False),
        (''source_release_id'', VStr ''r''), (''source_manifest_id'', VStr ''m''), (''c2_release_id'', VStr ''r''),
        (''c2_contract_id'', VStr ''k''), (''source_build_commit'', VStr ''g'')]),
     (''identity'', VDict [(''instrument_id'', VStr ''GBPUSD''), (''side'', VStr ''BID''), (''scope_id'', VStr ''s''), (''scale_id'', VStr ''l''),
        (''clock_id'', VStr ''u''), (''lattice_id'', VStr ''a''), (''observation_id'', VStr ''ob''), (''c2_record_id'', VStr ''ob''),
        (''parameter_pack_id'', VStr ''p''), (''contract_id'', VStr CONTRACT_ID), (''schema_id'', VStr SCHEMA_ID)]),
     (''chronology'', VDict [(''source_time'', VStr ''2026-07-01T00:00:00Z''), (''first_valid_time'', VStr ''2026-07-01T00:00:00Z''),
        (''evaluation_cutoff'', VStr ''2026-07-01T00:00:00Z''), (''continuity_segment_id'', VStr ''seg'')]),
     (''structural'', VDict [(''location_record_ids'', VList [VStr ''x'']), (''motion_record_ids'', VList []),
        (''organisation_record_ids'', VList []), (''interaction_record_ids'', VList [])]),
     (''evidence'', VDict [(''availability_status'', VStr ''AVAILABLE''), (''technical_status'', VStr ''COMPUTABLE''), (''authority_state'', VStr ''NONE'')]),
     (''lineage'', VDict [(''parent_record_ids'', VList [VStr ''x'']), (''artifact_hashes'', VDict [(''h'', VStr ''1'')]), (''source_build_commit'', VStr ''g'')]),
     (''parent_records'', VList [VDict [(''record_id'', VStr ''x''), (''first_valid_time'', VStr ''2026-07-01T00:00:00Z'')]])]"

lemma example_instant: "parse_time ''2026-07-01T00:00:00Z'' = Inr 63918460800000000"
proof -
  have b: "iso_base 63918460800000000 @ ''Z'' = ''2026-07-01T00:00:00Z''" by code_simp
  have r: "(0::int) \<le> 63918460800000000" "63918460800000000 < max_ord * day_us" by (simp_all add: max_ord_def day_us_def)
  show ?thesis
    unfolding parse_time_Inr b [symmetric] zulu_iso from_iso_isoformat [OF r] using r by (simp add: instant_def)
qed

lemma example_iso: "iso_time ''2026-07-01T00:00:00Z'' = Inr ''2026-07-01T00:00:00Z''"
proof -
  have "iso_base 63918460800000000 @ ''Z'' = ''2026-07-01T00:00:00Z''" by code_simp
  then show ?thesis unfolding iso_time_def example_instant bnd_Inr iso_zulu by simp
qed

text \<open>The stages on the example, one by one.\<close>

definition example_chronology :: pydict where
  "example_chronology = [(''source_time'', VStr ''2026-07-01T00:00:00Z''), (''first_valid_time'', VStr ''2026-07-01T00:00:00Z''),
     (''evaluation_cutoff'', VStr ''2026-07-01T00:00:00Z''), (''continuity_segment_id'', VStr ''seg'')]"

lemma example_sections:
  "unknown_keys example_payload HANDOFF_ALLOWED = []"
  "AList.delete ''diagnostic_namespace'' example_payload = example_payload" "dget example_payload ''diagnostic_namespace'' VNone = VNone"
  "as_dict (dget example_payload ''chronology'' (VDict [])) = Inr example_chronology"
  by code_simp+

lemma example_times:
  "check_chronology example_chronology = Inr (63918460800000000, 63918460800000000)"
  "iso_field example_chronology ''first_valid_time'' = Inr ''2026-07-01T00:00:00Z''"
  "is_ok (chronology_out example_chronology)"
proof -
  have d: "ditem example_chronology ''source_time'' = Inr (VStr ''2026-07-01T00:00:00Z'')"
    "ditem example_chronology ''first_valid_time'' = Inr (VStr ''2026-07-01T00:00:00Z'')"
    "ditem example_chronology ''evaluation_cutoff'' = Inr (VStr ''2026-07-01T00:00:00Z'')"
    "ditem example_chronology ''continuity_segment_id'' = Inr (VStr ''seg'')"
    "dget example_chronology ''candidate_onset_time'' VNone = VNone" by code_simp+
  have m: "mapM (\<lambda>key. ho_req (py_bool (dget example_chronology key VNone)) (''CHRONOLOGY_REQUIRED:'' @ key))
      [''source_time'', ''first_valid_time'', ''evaluation_cutoff'', ''continuity_segment_id''] = Inr [(), (), (), ()]" by code_simp
  have t: "time_field example_chronology ''source_time'' = Inr 63918460800000000" "time_field example_chronology ''first_valid_time'' = Inr 63918460800000000"
    "time_field example_chronology ''evaluation_cutoff'' = Inr 63918460800000000"
    by (simp_all add: time_field_def d example_instant)
  show "check_chronology example_chronology = Inr (63918460800000000, 63918460800000000)"
    unfolding check_chronology_def m t d bnd_Inr by (simp add: ho_req_def)
  show i: "iso_field example_chronology ''first_valid_time'' = Inr ''2026-07-01T00:00:00Z''" by (simp add: iso_field_def d example_iso)
  show "is_ok (chronology_out example_chronology)"
    unfolding chronology_out_def iso_field_def d bnd_Inr py_str.simps example_iso by simp
qed

definition example_parents :: "(string \<times> pydict) list" where
  "example_parents = [(''x'', parent_row [(''record_id'', VStr ''x''), (''first_valid_time'', VStr ''2026-07-01T00:00:00Z'')] ''x'' ''2026-07-01T00:00:00Z'')]"

lemma example_parent_index:
  "parent_index (dget example_payload ''parent_records'' (VList [])) 63918460800000000 63918460800000000 = Inr example_parents"
proof -
  let ?r = "[(''record_id'', VStr ''x''), (''first_valid_time'', VStr ''2026-07-01T00:00:00Z'')]"
  have "dget example_payload ''parent_records'' (VList []) = VList [VDict ?r]" by code_simp
  moreover have "dget ?r ''record_id'' (VStr []) = VStr ''x''" "dget ?r ''first_valid_time'' (VStr []) = VStr ''2026-07-01T00:00:00Z''"
    "ditem ?r ''first_valid_time'' = Inr (VStr ''2026-07-01T00:00:00Z'')" by code_simp+
  ultimately show ?thesis
    by (simp add: parent_index_def as_list_def parent_step_def ho_req_def example_instant example_iso example_parents_def Let_def)
qed

lemma example_stages:
  "\<exists>st. structural_stage example_parents [(''location_record_ids'', VList [VStr ''x'']), (''motion_record_ids'', VList []),
        (''organisation_record_ids'', VList []), (''interaction_record_ids'', VList [])] = Inr st \<and> hash_ok (VDict st)"
  "\<exists>ctx. context_stage example_parents [] = Inr ctx \<and> hash_ok (VDict ctx)"
  "\<exists>ev. evidence_stage [(''availability_status'', VStr ''AVAILABLE''), (''technical_status'', VStr ''COMPUTABLE''), (''authority_state'', VStr ''NONE'')] = Inr ev \<and> hash_ok (VDict ev)"
  "\<exists>li. lineage_stage (sort (map fst example_parents))
      [(''parent_record_ids'', VList [VStr ''x'']), (''artifact_hashes'', VDict [(''h'', VStr ''1'')]), (''source_build_commit'', VStr ''g'')] = Inr li \<and> hash_ok (VDict li)"
proof -
  have "structural_stage example_parents [(''location_record_ids'', VList [VStr ''x'']), (''motion_record_ids'', VList []),
        (''organisation_record_ids'', VList []), (''interaction_record_ids'', VList [])] =
      Inr [(''location_record_ids'', VList [VStr ''x'']), (''motion_record_ids'', VList []),
        (''organisation_record_ids'', VList []), (''interaction_record_ids'', VList []), (''level_record_ids'', VList []),
        (''container_record_ids'', VList []), (''transition_record_ids'', VList []), (''run_record_ids'', VList [])]" by code_simp
  then show "\<exists>st. structural_stage example_parents [(''location_record_ids'', VList [VStr ''x'']), (''motion_record_ids'', VList []),
        (''organisation_record_ids'', VList []), (''interaction_record_ids'', VList [])] = Inr st \<and> hash_ok (VDict st)"
    by (simp add: wf_dict_def)
  have "context_stage example_parents [] = Inr [(''fixed_parent_links'', VList []), (''structural_object_links'', VList []), (''parent_axis_links'', VList [])]"
    by code_simp
  then show "\<exists>ctx. context_stage example_parents [] = Inr ctx \<and> hash_ok (VDict ctx)" by (simp add: wf_dict_def)
  have "evidence_stage [(''availability_status'', VStr ''AVAILABLE''), (''technical_status'', VStr ''COMPUTABLE''), (''authority_state'', VStr ''NONE'')] =
    Inr [(''dependency_results'', VList []), (''availability_status'', VStr ''AVAILABLE''), (''technical_status'', VStr ''COMPUTABLE''), (''assurance'', VList []),
      (''consumer_eligibility'', VStr ''NOT_EVALUATED''), (''authority_state'', VStr ''NONE''), (''reason_codes'', VList [])]" by code_simp
  then show "\<exists>ev. evidence_stage [(''availability_status'', VStr ''AVAILABLE''), (''technical_status'', VStr ''COMPUTABLE''), (''authority_state'', VStr ''NONE'')] = Inr ev \<and> hash_ok (VDict ev)"
    by (simp add: wf_dict_def)
  have "lineage_stage (sort (map fst example_parents))
      [(''parent_record_ids'', VList [VStr ''x'']), (''artifact_hashes'', VDict [(''h'', VStr ''1'')]), (''source_build_commit'', VStr ''g'')] =
    Inr [(''parent_record_ids'', VList [VStr ''x'']), (''artifact_hashes'', VDict [(''h'', VStr ''1'')]), (''source_build_commit'', VStr ''g'')]" by code_simp
  then show "\<exists>li. lineage_stage (sort (map fst example_parents))
      [(''parent_record_ids'', VList [VStr ''x'']), (''artifact_hashes'', VDict [(''h'', VStr ''1'')]), (''source_build_commit'', VStr ''g'')] = Inr li \<and> hash_ok (VDict li)"
    by (simp add: wf_dict_def)
qed

definition example_ident :: pydict where
  "example_ident =
    [(''instrument_id'', VStr ''GBPUSD''), (''side'', VStr ''BID''), (''scope_id'', VStr ''s''), (''scale_id'', VStr ''l''),
     (''clock_id'', VStr ''u''), (''lattice_id'', VStr ''a''), (''observation_id'', VStr ''ob''), (''c2_record_id'', VStr ''ob''),
     (''parameter_pack_id'', VStr ''p''), (''contract_id'', VStr CONTRACT_ID), (''schema_id'', VStr SCHEMA_ID)]"

definition example_binding :: pydict where
  "example_binding =
    [(''c2ar_package_id'', VStr C2AR_PACKAGE_ID), (''c2ar_package_sha256'', VStr C2AR_PACKAGE_SHA256),
     (''research_consumer_permission'', VStr C2AR_PERMISSION), (''active'', VBool False), (''canonical'', VBool False),
     (''source_release_id'', VStr ''r''), (''source_manifest_id'', VStr ''m''), (''c2_release_id'', VStr ''r''),
     (''c2_contract_id'', VStr ''k''), (''source_build_commit'', VStr ''g''), (''binding_status'', VStr ''EXACT_READ_ONLY_SHADOW'')]"

lemma example_admitted: "admit_source example_payload = Inr example_binding"
proof -
  have "scan_forbidden (VDict example_payload) ''$'' = Inr ()" by code_simp
  moreover have "validate_source_binding (dget example_payload ''source_binding'' (VDict [])) = Inr example_binding" by code_simp
  ultimately show ?thesis by (simp add: admit_source_def)
qed

lemma sha256_hex_ok: "hash_ok v \<Longrightarrow> \<exists>h. sha256_hex v = Inr h"
  using canonical_bytes_ok [of v] by (auto simp: sha256_hex_def)

lemma in_update: "p \<in> set (AList.update k v d) \<Longrightarrow> p = (k, v) \<or> p \<in> set d"
  using set_update_subset [of k v d] by blast

lemma hash_ok_dictI: "distinct (map fst kvs) \<Longrightarrow> \<forall>(k, v) \<in> set kvs. hash_ok v \<Longrightarrow> hash_ok (VDict kvs)"
  by (simp add: wf_dict_def)

lemma example_base:
  obtains base where "build_input_frame example_payload = Inr base" and "hash_ok (VDict base)"
    and "map_of base ''chronology'' = Some (VDict [(''source_time'', VStr ''2026-07-01T00:00:00Z''), (''candidate_onset_time'', VNone),
         (''first_valid_time'', VStr ''2026-07-01T00:00:00Z''), (''evaluation_cutoff'', VStr ''2026-07-01T00:00:00Z''),
         (''continuity_segment_id'', VStr ''seg''), (''predecessor_observation_id'', VNone)])"
proof -
  let ?st = "[(''location_record_ids'', VList [VStr ''x'']), (''motion_record_ids'', VList []),
        (''organisation_record_ids'', VList []), (''interaction_record_ids'', VList [])]"
  let ?ev = "[(''availability_status'', VStr ''AVAILABLE''), (''technical_status'', VStr ''COMPUTABLE''), (''authority_state'', VStr ''NONE'')]"
  let ?li = "[(''parent_record_ids'', VList [VStr ''x'']), (''artifact_hashes'', VDict [(''h'', VStr ''1'')]), (''source_build_commit'', VStr ''g'')]"
  let ?ch = "[(''source_time'', VStr ''2026-07-01T00:00:00Z''), (''candidate_onset_time'', VNone),
         (''first_valid_time'', VStr ''2026-07-01T00:00:00Z''), (''evaluation_cutoff'', VStr ''2026-07-01T00:00:00Z''),
         (''continuity_segment_id'', VStr ''seg''), (''predecessor_observation_id'', VNone)]"
  have d: "as_dict (dget example_payload ''identity'' (VDict [])) = Inr example_ident"
    "as_dict (dget example_payload ''structural'' (VDict [])) = Inr ?st"
    "as_dict (dget example_payload ''context'' (VDict [])) = Inr []"
    "as_dict (dget example_payload ''evidence'' (VDict [])) = Inr ?ev"
    "as_dict (dget example_payload ''lineage'' (VDict [])) = Inr ?li"
    "check_identity example_ident = Inr ()" by code_simp+
  obtain st ctx ev li where s: "structural_stage example_parents ?st = Inr st" "hash_ok (VDict st)"
    "context_stage example_parents [] = Inr ctx" "hash_ok (VDict ctx)" "evidence_stage ?ev = Inr ev" "hash_ok (VDict ev)"
    "lineage_stage (sort (map fst example_parents)) ?li = Inr li" "hash_ok (VDict li)"
    using example_stages by blast
  have co: "chronology_out example_chronology = Inr ?ch"
  proof -
    have e: "ditem example_chronology ''source_time'' = Inr (VStr ''2026-07-01T00:00:00Z'')"
      "ditem example_chronology ''first_valid_time'' = Inr (VStr ''2026-07-01T00:00:00Z'')"
      "ditem example_chronology ''evaluation_cutoff'' = Inr (VStr ''2026-07-01T00:00:00Z'')"
      "ditem example_chronology ''continuity_segment_id'' = Inr (VStr ''seg'')"
      "dget example_chronology ''candidate_onset_time'' VNone = VNone" "dget example_chronology ''predecessor_observation_id'' VNone = VNone" by code_simp+
    show ?thesis unfolding chronology_out_def iso_field_def e bnd_Inr py_str.simps example_iso by simp
  qed
  obtain b i where bi: "copy_fields example_binding [''source_release_id'', ''source_manifest_id'', ''c2_release_id'', ''c2_contract_id'', ''c2ar_package_sha256''] = Inr b"
    "copy_fields example_ident [''instrument_id'', ''side'', ''scope_id'', ''scale_id'', ''clock_id'', ''lattice_id'', ''observation_id'',
      ''c2_record_id'', ''parameter_pack_id'', ''contract_id'', ''schema_id''] = Inr i"
    and bi': "map fst b = [''source_release_id'', ''source_manifest_id'', ''c2_release_id'', ''c2_contract_id'', ''c2ar_package_sha256'']"
      "map fst i = map fst example_ident" "\<forall>(k, v) \<in> set (b @ i). hash_ok v"
    by (simp add: copy_fields_def example_binding_def example_ident_def ditem_def)
  let ?fi = "b @ i @ [(''first_valid_time'', VStr ''2026-07-01T00:00:00Z''), (''continuity_segment_id'', VStr ''seg''),
      (''predecessor_observation_id'', VNone), (''parent_record_ids'', strs_val (sort (map fst example_parents)))]"
  have seg: "ditem example_chronology ''continuity_segment_id'' = Inr (VStr ''seg'')" "dget example_chronology ''predecessor_observation_id'' VNone = VNone" by code_simp+
  have fi: "frame_identity example_binding example_ident example_chronology (sort (map fst example_parents)) = Inr ?fi"
    unfolding frame_identity_def bi bnd_Inr example_times(2) seg by simp
  have "hash_ok (VDict ?fi)" using bi' by (auto simp: wf_dict_def strs_val_def example_ident_def)
  then obtain fid where fid: "digest ''C2E.FRAME'' (VDict ?fi) 24 = Inr fid" using digest_ok by blast
  obtain lh where lh: "sha256_hex (VDict li) = Inr lh" using sha256_hex_ok [OF s(8)] by blast
  let ?f = "[(''schema'', VStr ''c2e_input_frame/v0_2''), (''source_binding'', VDict example_binding), (''identity'', VDict example_ident),
        (''chronology'', VDict ?ch), (''structural'', VDict st), (''context'', VDict ctx),
        (''evidence'', VDict ev), (''lineage'', VDict li),
        (''authority'', VStr ''INACTIVE_NONCANONICAL_BUILD_TEST_ONLY''), (''frame_id'', VStr fid), (''lineage_hash'', VStr lh)]"
  have ok: "hash_ok (VDict example_binding)" "hash_ok (VDict example_ident)" "hash_ok (VDict ?ch)"
    by (simp_all add: wf_dict_def example_binding_def example_ident_def)
  have fok: "\<forall>(k, v) \<in> set ?f. hash_ok v" using ok s(2,4,6,8) by (simp del: hash_ok_simps(6))
  have "hash_ok (VDict ?f)" using fok by (intro hash_ok_dictI) simp_all
  then obtain h where h: "sha256_hex (VDict ?f) = Inr h" using sha256_hex_ok by blast
  have "build_input_frame example_payload = Inr (?f @ [(''logical_hash'', VStr h)])"
    unfolding build_input_frame_def Let_def example_sections example_admitted bnd_Inr d example_times(1) prod.case example_parent_index s(1,3,5,7) fi co fid lh h
    by (simp add: ho_req_def)
  moreover have "hash_ok (VDict (?f @ [(''logical_hash'', VStr h)]))"
    using fok by (intro hash_ok_dictI) simp_all
  ultimately show ?thesis using that by simp
qed


definition example_payload_v3 :: pydict where
  "example_payload_v3 = (''comparison_source'', VDict example_source) # example_payload"

lemma example_v03:
  obtains frame where "build_input_frame_v0_3 example_payload_v3 = Inr frame" and "segment_of frame = Inr ''seg''"
proof -
  obtain base where b: "build_input_frame example_payload = Inr base" and bh: "hash_ok (VDict base)"
    and ch: "map_of base ''chronology'' = Some (VDict [(''source_time'', VStr ''2026-07-01T00:00:00Z''), (''candidate_onset_time'', VNone),
         (''first_valid_time'', VStr ''2026-07-01T00:00:00Z''), (''evaluation_cutoff'', VStr ''2026-07-01T00:00:00Z''),
         (''continuity_segment_id'', VStr ''seg''), (''predecessor_observation_id'', VNone)])"
    using example_base .
  obtain sh ph where sg: "build_comparison_signatures example_source = Inr (example_sg sh ph)" using example_built .
  have d: "unknown_keys example_payload_v3 (HANDOFF_ALLOWED @ [''comparison_source'']) = []" "dhas example_payload_v3 ''comparison_source''"
    "as_dict (dget example_payload_v3 ''identity'' (VDict [])) = Inr example_ident"
    "as_dict (dget example_payload_v3 ''comparison_source'' VNone) = Inr example_source"
    "dget example_ident ''contract_id'' VNone = VStr CONTRACT_ID" "dget example_ident ''schema_id'' VNone = VStr SCHEMA_ID"
    "AList.delete ''comparison_source'' example_payload_v3 = example_payload" by code_simp+
  let ?b1 = "AList.delete ''logical_hash'' (AList.update ''comparison'' (VDict (example_sg sh ph)) (AList.update ''schema'' (VStr SCHEMA_ID) base))"
  have sgh: "hash_ok (VDict (example_sg sh ph))"
    by (simp add: example_sg_def example_basis_def example_component_def example_parent_basis_def wf_dict_def)
  have "hash_ok (VDict ?b1)"
  proof (rule hash_ok_dictI)
    show "distinct (map fst ?b1)" using bh by (simp add: wf_dict_def distinct_update distinct_delete)
    show "\<forall>(k, v) \<in> set ?b1. hash_ok v"
    proof clarify
      fix k v assume "(k, v) \<in> set ?b1"
      then have "(k, v) \<in> set (AList.update ''comparison'' (VDict (example_sg sh ph)) (AList.update ''schema'' (VStr SCHEMA_ID) base))"
        by (auto simp: AList.delete_eq)
      then have "(k, v) = (''comparison'', VDict (example_sg sh ph)) \<or> (k, v) = (''schema'', VStr SCHEMA_ID) \<or> (k, v) \<in> set base"
        by (blast dest: in_update)
      moreover have "\<forall>(k, v) \<in> set base. hash_ok v" using bh by simp
      ultimately show "hash_ok v" using sgh by (elim disjE) (auto simp del: hash_ok_simps(6))
    qed
  qed
  then obtain h where h: "sha256_hex (VDict ?b1) = Inr h" using sha256_hex_ok by blast
  let ?f = "AList.update ''logical_hash'' (VStr h) ?b1"
  have "build_input_frame_v0_3 example_payload_v3 = Inr ?f"
    unfolding build_input_frame_v0_3_def Let_def d bnd_Inr b sg sum.case h by (simp add: ho_req_def d)
  moreover have "map_of ?f ''chronology'' = map_of base ''chronology''" by simp
  then have "segment_of ?f = Inr ''seg''" using ch by (simp add: segment_of_def ditem_def)
  ultimately show ?thesis using that by blast
qed

theorem frame_shape_admissible_witness:
  "\<exists>frame. build_input_frame_v0_3 example_payload_v3 = Inr frame \<and> required_v2 frame = Inr ()"
proof -
  obtain frame where f: "build_input_frame_v0_3 example_payload_v3 = Inr frame" and s: "segment_of frame = Inr ''seg''"
    using example_v03 .
  have "segment_of frame \<noteq> Inr []" using s by simp
  from frame_shape_admissible [OF f this] f show ?thesis by blast
qed
end
