(* ===== verification/C2E_Source.thy ===== *)
theory C2E_Source
  imports C2E_Handoff
begin

section \<open>C2E v0.2: frames from a C2 materialisation\<close>

text \<open>
  The projection half of \<^verbatim>\<open>source_replay.py\<close> of \<^verbatim>\<open>src/src/ovc/opt_b/c2e_v2/\<close>, with the dependency rows of
  \<^verbatim>\<open>source_replay_runtime.py\<close>: comparison content from the profiles, levels and containers of a C2
  observation, the parents of a frame, and the payload given to the v0.3 adapter. The rows of a
  materialisation are dictionaries indexed by their identifier; a row that is not a dictionary counts
  as an \<^verbatim>\<open>AttributeError\<close>. \<^verbatim>\<open>build_frame\<close> resolves \<^verbatim>\<open>_dependencies\<close> at call time, and the runtime module
  rebinds it, so that the function bound at the moment is an argument here. Reading the files of a
  materialisation is not modelled. The lemmas show that the projection of decimals is exact and
  idempotent, that no frame can be built with the dependency rows of the base module, and that the rows
  of the runtime module are lawful.
\<close>

type_synonym row_map = "(string \<times> pydict) list"

definition rep_req :: "bool \<Rightarrow> string \<Rightarrow> unit result" where
  "rep_req = req SourceReplayError"

text \<open>\<^verbatim>\<open>rows[key]\<close> for a key of unknown type.\<close>

definition row_at :: "row_map \<Rightarrow> pyval \<Rightarrow> pydict result" where
  "row_at rows key =
    (if hashable key then
       (case key of
          VStr s \<Rightarrow> (case map_of rows s of Some r \<Rightarrow> Inr r | None \<Rightarrow> Inl (Exn KeyError s))
        | _ \<Rightarrow> Inl (Exn KeyError (py_str key)))
     else Inl (Exn TypeError []))"

definition as_row :: "pyval \<Rightarrow> pydict result" where
  "as_row v = (case v of VDict d \<Rightarrow> Inr d | _ \<Rightarrow> Inl (Exn AttributeError []))"

subsection \<open>Decimals of the source\<close>

fun plain_decimal :: "pyval \<Rightarrow> pyval result" where
  "plain_decimal (VStr s) =
     (case dec_parse s of
        None \<Rightarrow> Inr (VStr s)
      | Some d \<Rightarrow> bnd (rep_req (dec_is_finite d) ''NONFINITE_SOURCE_DECIMAL'') (\<lambda>_. Inr (VStr (fmt_f d))))"
| "plain_decimal (VFloat t) = Inl (Exn SourceReplayError ''RUNTIME_FLOAT_SOURCE_DENIED'')"
| "plain_decimal (VList xs) = bnd (mapM plain_decimal xs) (\<lambda>ys. Inr (VList ys))"
| "plain_decimal (VDict kvs) = bnd (mapM (\<lambda>(k, v). bnd (plain_decimal v) (\<lambda>w. Inr (k, w))) kvs) (\<lambda>ps. Inr (VDict ps))"
| "plain_decimal v = Inr v"

definition content_id :: "string \<Rightarrow> pyval \<Rightarrow> string result" where
  "content_id pre value = bnd (sha256_hex value) (\<lambda>h. Inr (pre @ ''.'' @ take 24 h))"

subsection \<open>Roles of structural objects\<close>

definition gets :: "pydict \<Rightarrow> string list \<Rightarrow> pydict" where
  "gets d keys = map (\<lambda>k. (k, dget d k VNone)) keys"

definition level_role :: "pydict \<Rightarrow> pyval result" where
  "level_role level = plain_decimal (VDict ((''role_kind'', VStr ''LEVEL'') #
     gets level [''horizon_id'', ''level_type'', ''origin'', ''structural_depth'', ''value'']))"

definition container_role :: "pydict \<Rightarrow> pyval result" where
  "container_role container = plain_decimal (VDict ((''role_kind'', VStr ''CONTAINER'') #
     gets container [''horizon_id'', ''kind'', ''origin'', ''structural_depth'', ''pairing_policy_id'',
       ''lower_value'', ''upper_value'', ''centre'', ''width'']))"

definition object_role :: "string \<Rightarrow> row_map \<Rightarrow> row_map \<Rightarrow> pyval result" where
  "object_role object_id levels containers =
    (case map_of levels object_id of
       Some level \<Rightarrow> level_role level
     | None \<Rightarrow> (case map_of containers object_id of
         Some container \<Rightarrow> container_role container
       | None \<Rightarrow> Inl (Exn SourceReplayError (''STABLE_OBJECT_ROLE_NOT_FOUND:'' @ object_id))))"

definition RELATION_FIELDS :: "string list" where
  "RELATION_FIELDS =
    [''object_id'', ''object_kind'', ''topology'', ''mode'', ''source_precision'',
     ''equal_at_source_precision'', ''absolute_distance'', ''signed_distance'',
     ''signed_distance_to_lower'', ''signed_distance_to_upper'', ''relation_id'',
     ''subject_probe_id'', ''first_valid_time'']"

definition RELATION_MEASURES :: "string list" where
  "RELATION_MEASURES =
    [''equal_at_source_precision'', ''absolute_distance'', ''signed_distance'',
     ''signed_distance_to_lower'', ''signed_distance_to_upper'']"

definition relation :: "row_map \<Rightarrow> row_map \<Rightarrow> pydict \<Rightarrow> pydict result" where
  "relation levels containers raw =
    (let unknown = unknown_keys raw RELATION_FIELDS in
     bnd (rep_req (unknown = []) (''UNKNOWN_RELATION_FIELD:'' @ join '','' unknown)) (\<lambda>_.
     bnd (ditem raw ''object_id'') (\<lambda>object_id.
     bnd (object_role (py_str object_id) levels containers) (\<lambda>role.
     bnd (py_int (dget raw ''source_precision'' (VInt 0))) (\<lambda>precision.
     bnd (mapM (\<lambda>key. bnd (ditem raw key) (\<lambda>v. bnd (plain_decimal v) (\<lambda>w. Inr (key, w))))
       (filter (dhas raw) RELATION_MEASURES)) (\<lambda>measures.
     Inr ([(''object_kind'', VStr (py_str (dget raw ''object_kind'' VNone))), (''object_role'', role),
           (''topology'', VStr (py_str (dget raw ''topology'' VNone))), (''mode'', VStr (py_str (dget raw ''mode'' VNone))),
           (''source_precision'', VInt precision)] @ measures)))))))"

subsection \<open>One structural axis\<close>

text \<open>\<^verbatim>\<open>rows.sort(key=canonical_bytes)\<close>: every key is computed before anything moves.\<close>

definition sort_bytes :: "pyval list \<Rightarrow> pyval list result" where
  "sort_bytes rows = bnd (mapM canonical_bytes rows) (\<lambda>_. Inr (sort_key (\<lambda>r. projr (canonical_bytes r)) rows))"

text \<open>\<^verbatim>\<open>sorted(str(item) for item in v)\<close>\<close>

definition sorted_strs_of :: "pyval \<Rightarrow> string list result" where
  "sorted_strs_of v = bnd (iter_of v) (\<lambda>items. Inr (sort (map py_str items)))"

definition content_ids :: "string \<Rightarrow> pyval list \<Rightarrow> string list result" where
  "content_ids pre values = bnd (mapM (content_id pre) values) (\<lambda>ids. Inr (sorted_set ids))"

definition check_profile :: "string \<Rightarrow> pydict \<Rightarrow> unit result" where
  "check_profile axis profile =
    bnd (rep_req (dget profile ''axis'' VNone = VStr axis) (''PROFILE_AXIS_MISMATCH:'' @ axis)) (\<lambda>_.
    bnd (rep_req (dget profile ''semantic_label'' VNone = VNone) ''SEMANTIC_PROFILE_INPUT_DENIED'') (\<lambda>_.
    bnd (rep_req (dget profile ''selected_object_id'' VNone = VNone) ''SELECTED_OBJECT_PROFILE_INPUT_DENIED'') (\<lambda>_.
    bnd (rep_req (dget profile ''fallback_object_id'' VNone = VNone) ''FALLBACK_OBJECT_PROFILE_INPUT_DENIED'') (\<lambda>_.
    rep_req (\<not> py_bool (dget profile ''numeric_thresholds'' VNone)) ''NUMERIC_THRESHOLD_PROFILE_INPUT_DENIED''))))"

definition facts_of :: "pydict \<Rightarrow> pyval" where
  "facts_of profile = dget profile ''facts'' (VDict [])"

definition rows_in :: "pyval \<Rightarrow> string \<Rightarrow> pyval list result" where
  "rows_in facts key = bnd (vget facts key (VList [])) iter_of"

definition location_facts :: "row_map \<Rightarrow> row_map \<Rightarrow> pydict list \<Rightarrow> (pydict \<times> string list) result" where
  "location_facts levels containers profiles =
    bnd (rep_req (length profiles = 1) ''LOCATION_PROFILE_CARDINALITY'') (\<lambda>_.
    let facts = facts_of (hd profiles) in
    bnd (rows_in facts ''relations'') (\<lambda>raw.
    bnd (mapM (\<lambda>row. bnd (as_row row) (relation levels containers)) raw) (\<lambda>rows.
    bnd (sort_bytes (map VDict rows)) (\<lambda>relations.
    bnd (vget facts ''complete_scoped_inventory'' (VBool False)) (\<lambda>complete.
    bnd (bnd (vget facts ''exclusions'' (VList [])) sorted_strs_of) (\<lambda>exclusions.
    bnd (mapM (\<lambda>row. vitem row ''object_role'') relations) (\<lambda>roles.
    bnd (content_ids ''C2.STABLE.OBJECT'' roles) (\<lambda>ids.
    Inr ([(''complete_scoped_inventory'', VBool (py_bool complete)), (''exclusions'', strs_val exclusions),
          (''relations'', VList relations)], ids)))))))))"

definition motion_row :: "pydict \<Rightarrow> (string \<times> pydict) result" where
  "motion_row profile =
    (let facts = facts_of profile in
     bnd (vget facts ''relation_deltas'' (VList [])) (\<lambda>deltas.
     bnd (rep_req (\<not> py_bool deltas) ''MOTION_RELATION_DELTAS_UNSUPPORTED_IN_FROZEN_SOURCE'') (\<lambda>_.
     bnd (vget facts ''horizon_id'' VNone) (\<lambda>horizon.
     bnd (vget facts ''membership_status'' VNone) (\<lambda>membership.
     bnd (bnd (vget facts ''price_delta'' VNone) plain_decimal) (\<lambda>delta.
     bnd (sorted_strs_of (dget profile ''reason_codes'' (VList []))) (\<lambda>reasons.
     Inr (py_str horizon,
       [(''horizon_id'', VStr (py_str horizon)), (''membership_status'', VStr (py_str membership)), (''price_delta'', delta),
        (''computability'', VStr (py_str (dget profile ''computability'' VNone))), (''reason_codes'', strs_val reasons)]))))))))"

definition motion_facts :: "pydict list \<Rightarrow> (pydict \<times> string list) result" where
  "motion_facts profiles =
    bnd (mapM motion_row profiles) (\<lambda>rows.
    Inr ([(''horizons'', VList (map (VDict \<circ> snd) (sort_key fst rows)))], sorted_set (map fst rows)))"

definition organisation_container :: "row_map \<Rightarrow> pyval \<Rightarrow> (string \<times> pyval) result" where
  "organisation_container containers row =
    bnd (vget row ''container_id'' VNone) (\<lambda>i.
    let container_id = py_str i in
    bnd (rep_req (map_of containers container_id \<noteq> None) (''ORGANISATION_CONTAINER_MISSING:'' @ container_id)) (\<lambda>_.
    bnd (container_role (the (map_of containers container_id))) (\<lambda>role. Inr (container_id, role))))"

definition organisation_edge :: "(string \<times> pyval) list \<Rightarrow> pyval \<Rightarrow> pyval result" where
  "organisation_edge roles edge =
    bnd (vget edge ''left_container_id'' VNone) (\<lambda>l. bnd (vget edge ''right_container_id'' VNone) (\<lambda>r.
    bnd (rep_req (map_of roles (py_str l) \<noteq> None \<and> map_of roles (py_str r) \<noteq> None) ''ORGANISATION_EDGE_CONTAINER_MISSING'') (\<lambda>_.
    bnd (vget edge ''basis'' VNone) (\<lambda>basis. bnd (vget edge ''relation'' VNone) (\<lambda>rel.
    Inr (VDict [(''basis'', VStr (py_str basis)), (''relation'', VStr (py_str rel)),
      (''left'', the (map_of roles (py_str l))), (''right'', the (map_of roles (py_str r)))]))))))"

definition organisation_facts :: "row_map \<Rightarrow> pydict list \<Rightarrow> (pydict \<times> string list) result" where
  "organisation_facts containers profiles =
    bnd (rep_req (length profiles = 1) ''ORGANISATION_PROFILE_CARDINALITY'') (\<lambda>_.
    let facts = facts_of (hd profiles) in
    bnd (vget facts ''swing_graph'' VNone) (\<lambda>swing.
    bnd (rep_req (swing = VNone) ''SWING_GRAPH_NOT_IN_APPROVED_REAL_MATERIALISATION'') (\<lambda>_.
    bnd (rows_in facts ''containers'') (\<lambda>raw.
    bnd (mapM (organisation_container containers) raw) (\<lambda>found.
    let role_by_id = fold (\<lambda>(i, role) m. AList.update i role m) found [] in
    bnd (sort_bytes (map snd found)) (\<lambda>stable_containers.
    bnd (rows_in facts ''container_edges'') (\<lambda>raw_edges.
    bnd (mapM (organisation_edge role_by_id) raw_edges) (\<lambda>edges0.
    bnd (sort_bytes edges0) (\<lambda>edges.
    bnd (vget facts ''complete_inventory'' (VBool False)) (\<lambda>complete.
    bnd (content_ids ''C2.STABLE.CONTAINER'' stable_containers) (\<lambda>ids.
    Inr ([(''complete_inventory'', VBool (py_bool complete)), (''containers'', VList stable_containers),
          (''container_edges'', VList edges), (''swing_graph'', VNone)], ids))))))))))))"

definition reference_change :: "row_map \<Rightarrow> row_map \<Rightarrow> pyval \<Rightarrow> pyval result" where
  "reference_change levels containers row =
    bnd (vget row ''previous_object_id'' VNone) (\<lambda>p. bnd (object_role (py_str p) levels containers) (\<lambda>previous.
    bnd (vget row ''current_object_id'' VNone) (\<lambda>c. bnd (object_role (py_str c) levels containers) (\<lambda>current.
    bnd (vget row ''is_crossing'' (VBool False)) (\<lambda>crossing. bnd (vget row ''reason'' VNone) (\<lambda>reason.
    Inr (VDict [(''previous'', previous), (''current'', current), (''is_crossing'', VBool (py_bool crossing)),
      (''reason'', VStr (py_str reason))])))))))"

definition interaction_facts :: "row_map \<Rightarrow> row_map \<Rightarrow> pydict list \<Rightarrow> (pydict \<times> string list) result" where
  "interaction_facts levels containers profiles =
    bnd (rep_req (length profiles = 1) ''INTERACTION_PROFILE_CARDINALITY'') (\<lambda>_.
    let facts = facts_of (hd profiles) in
    bnd (vget facts ''crossings'' (VList [])) (\<lambda>crossings.
    bnd (rep_req (\<not> py_bool crossings) ''INTERACTION_CROSSING_SURFACE_OUTSIDE_FROZEN_MATERIALISATION'') (\<lambda>_.
    bnd (vget facts ''relation_deltas'' (VList [])) (\<lambda>deltas.
    bnd (rep_req (\<not> py_bool deltas) ''INTERACTION_RELATION_DELTAS_OUTSIDE_FROZEN_MATERIALISATION'') (\<lambda>_.
    bnd (rows_in facts ''reference_changes'') (\<lambda>raw.
    bnd (mapM (reference_change levels containers) raw) (\<lambda>changes0.
    bnd (sort_bytes changes0) (\<lambda>changes.
    bnd (content_ids ''C2.STABLE.REFERENCE.CHANGE'' changes) (\<lambda>ids.
    Inr ([(''crossings'', VList []), (''relation_deltas'', VList []), (''reference_changes'', VList changes)], ids))))))))))"

definition component :: "row_map \<Rightarrow> row_map \<Rightarrow> string \<Rightarrow> pydict list \<Rightarrow> pydict result" where
  "component levels containers axis profiles =
    bnd (rep_req (profiles \<noteq> []) (''PROFILE_AXIS_EMPTY:'' @ axis)) (\<lambda>_.
    bnd (mapM (check_profile axis) profiles) (\<lambda>_.
    bnd (mapM (\<lambda>profile. iter_of (dget profile ''reason_codes'' (VList []))) profiles) (\<lambda>reason_lists.
    let reasons = sorted_set (map py_str (concat reason_lists));
        st = (if list_all (\<lambda>profile. dget profile ''computability'' VNone = VStr ''COMPUTABLE'') profiles
              then ''COMPUTABLE'' else ''NOT_COMPUTABLE'') in
    bnd (if axis = ''LOCATION'' then location_facts levels containers profiles
         else if axis = ''MOTION'' then motion_facts profiles
         else if axis = ''ORGANISATION'' then organisation_facts containers profiles
         else if axis = ''INTERACTION'' then interaction_facts levels containers profiles
         else Inl (Exn SourceReplayError (''UNKNOWN_AXIS:'' @ axis))) (\<lambda>(stable_facts, source_object_ids).
    Inr [(''axis'', VStr axis), (''status'', VStr st), (''reason_codes'', strs_val reasons),
         (''source_object_ids'', strs_val source_object_ids), (''facts'', VDict stable_facts)]))))"

subsection \<open>The comparison source of a bundle\<close>

definition parent_link :: "pydict \<Rightarrow> pyval" where
  "parent_link context = dget context ''fixed_parent_observation_link'' (VDict [])"

text \<open>\<^verbatim>\<open>"AVAILABLE" if fixed.get("computability") == "COMPUTABLE" and parent_id else "NOT_COMPUTABLE"\<close>\<close>

definition parent_status :: "pyval \<Rightarrow> string result" where
  "parent_status fixed =
    bnd (vget fixed ''computability'' VNone) (\<lambda>c. bnd (vget fixed ''parent_observation_id'' VNone) (\<lambda>p.
    Inr (if c = VStr ''COMPUTABLE'' \<and> py_bool p then ''AVAILABLE'' else ''NOT_COMPUTABLE'')))"

definition axis_profiles :: "row_map \<Rightarrow> pydict \<Rightarrow> string \<Rightarrow> pydict list result" where
  "axis_profiles profiles bundle axis =
    bnd (ditem bundle ''profile_output_ids'') (\<lambda>outputs. bnd (vitem outputs axis) (\<lambda>ids.
    bnd (iter_of ids) (mapM (row_at profiles))))"

definition comparison_source :: "pydict \<Rightarrow> row_map \<Rightarrow> row_map \<Rightarrow> row_map \<Rightarrow> row_map \<Rightarrow> pydict result" where
  "comparison_source bundle profiles contexts levels containers =
    bnd (mapM (\<lambda>axis. bnd (axis_profiles profiles bundle axis) (\<lambda>ps.
      bnd (component levels containers axis ps) (\<lambda>c. Inr (axis, VDict c)))) STRUCTURAL_AXES) (\<lambda>structural.
    bnd (ditem bundle ''context_bundle_id'') (\<lambda>ctx_id.
    bnd (row_at contexts (VStr (py_str ctx_id))) (\<lambda>context.
    let fixed = parent_link context in
    bnd (vget fixed ''parent_observation_id'' VNone) (\<lambda>parent_id.
    bnd (parent_status fixed) (\<lambda>st.
    bnd (bnd (vget fixed ''reason_codes'' (VList [])) sorted_strs_of) (\<lambda>reasons.
    Inr [(''structural'', VDict structural),
         (''parent'', VDict
           [(''selected_parent_observation_ids'', strs_val (if py_bool parent_id then [py_str parent_id] else [])),
            (''selected_parent_object_ids'', VList []),
            (''dependency_states'', VList [VDict
              [(''dependency_id'', VStr ''DEP.PARENT_CONTEXT''), (''role'', VStr ''REQUIRED''), (''status'', VStr st),
               (''reason_codes'', strs_val reasons)]])])]))))))"

subsection \<open>The parents of a frame\<close>

record materialisation =
  m_manifest :: pydict
  m_bundles :: "pydict list"
  m_observations :: row_map
  m_parent_observations :: row_map
  m_profiles :: row_map
  m_memberships :: row_map
  m_contexts :: row_map
  m_levels :: row_map
  m_containers :: row_map
  m_relation_sets :: row_map

text \<open>\<^verbatim>\<open>_parent\<close>\<close>

definition parent_entry :: "pyval \<Rightarrow> string \<Rightarrow> pyval \<Rightarrow> pyval \<Rightarrow> pydict" where
  "parent_entry record_id kind first_valid_time content_sha256 =
    [(''record_id'', VStr (py_str record_id)), (''kind'', VStr kind), (''first_valid_time'', VStr (py_str first_valid_time))] @
    (if py_bool content_sha256 then [(''content_sha256'', VStr (py_str content_sha256))] else [])"

definition profile_parents :: "row_map \<Rightarrow> pydict \<Rightarrow> pydict list result" where
  "profile_parents profiles bundle =
    bnd (mapM (\<lambda>axis. bnd (ditem bundle ''profile_output_ids'') (\<lambda>outputs. bnd (vitem outputs axis) (\<lambda>ids.
      bnd (iter_of ids) (mapM (\<lambda>i. bnd (row_at profiles i) (\<lambda>profile. bnd (ditem profile ''as_of_time'') (\<lambda>t.
        Inr (parent_entry i axis t (dget profile ''content_sha256'' VNone))))))))) STRUCTURAL_AXES) (\<lambda>xs. Inr (concat xs))"

definition object_parents :: "row_map \<Rightarrow> string \<Rightarrow> pyval \<Rightarrow> pydict list result" where
  "object_parents rows kind ids =
    bnd (iter_of ids) (mapM (\<lambda>i. bnd (row_at rows i) (\<lambda>row. bnd (ditem row ''first_valid_time'') (\<lambda>t.
      Inr (parent_entry i kind t (dget row ''content_sha256'' VNone))))))"

definition membership_parents :: "row_map \<Rightarrow> pyval \<Rightarrow> pydict list result" where
  "membership_parents memberships ids =
    bnd (iter_of ids) (mapM (\<lambda>i. bnd (row_at memberships i) (\<lambda>row.
      Inr (parent_entry i ''HORIZON_MEMBERSHIP''
        (py_or (dget row ''available_at'' VNone) (dget row ''as_of_first_valid_time'' VNone)) VNone))))"

definition relation_set_parents :: "row_map \<Rightarrow> pyval \<Rightarrow> pydict list result" where
  "relation_set_parents relation_sets ids =
    bnd (iter_of ids) (mapM (\<lambda>i. bnd (row_at relation_sets i) (\<lambda>row. bnd (ditem row ''as_of_time'') (\<lambda>t.
      Inr (parent_entry i ''RELATION_SET'' t VNone)))))"

text \<open>The identifier of a link, if it has one, and its entry among the parents. The time of a structural
  link defaults to the one of the context.\<close>

definition link_parent :: "string \<Rightarrow> (pyval \<Rightarrow> pyval result) \<Rightarrow> pyval \<Rightarrow> (string \<times> pydict) list result" where
  "link_parent kind time_of link =
    bnd (vget link ''link_id'' VNone) (\<lambda>i.
    if py_bool i then
      bnd (time_of link) (\<lambda>t. bnd (vget link ''content_sha256'' VNone) (\<lambda>c. Inr [(py_str i, parent_entry i kind t c)]))
    else Inr [])"

definition observation_parent :: "row_map \<Rightarrow> pyval \<Rightarrow> pydict list result" where
  "observation_parent parent_observations parent_id =
    (if py_bool parent_id then
       bnd (row_at parent_observations (VStr (py_str parent_id))) (\<lambda>row. bnd (ditem row ''first_valid_time'') (\<lambda>t.
       Inr [parent_entry (VStr (py_str parent_id)) ''FIXED_PARENT_OBSERVATION'' t (dget row ''content_sha256'' VNone)]))
     else Inr [])"

definition merge_parent :: "row_map \<Rightarrow> pydict \<Rightarrow> row_map result" where
  "merge_parent merged row =
    (let i = str_of (dget row ''record_id'' VNone) in
     bnd (case map_of merged i of
            Some old \<Rightarrow> rep_req (py_eq (VDict old) (VDict row)) (''PARENT_RECORD_CONFLICT:'' @ i)
          | None \<Rightarrow> Inr ()) (\<lambda>_.
     Inr (AList.update i row merged)))"

record frame_parents =
  fp_records :: "pydict list"
  fp_fixed :: "string list"
  fp_axis :: "string list"
  fp_structural :: "string list"

definition frame_parents_of :: "materialisation \<Rightarrow> pydict \<Rightarrow> pydict \<Rightarrow> frame_parents result" where
  "frame_parents_of m bundle context =
    bnd (profile_parents (m_profiles m) bundle) (\<lambda>ps.
    bnd (object_parents (m_levels m) ''LEVEL'' (dget bundle ''level_ids'' (VList []))) (\<lambda>ls.
    bnd (object_parents (m_containers m) ''CONTAINER'' (dget bundle ''container_ids'' (VList []))) (\<lambda>cs.
    bnd (membership_parents (m_memberships m) (dget bundle ''horizon_membership_ids'' (VList []))) (\<lambda>ms.
    bnd (relation_set_parents (m_relation_sets m) (dget bundle ''relation_set_ids'' (VList []))) (\<lambda>rs.
    bnd (ditem bundle ''context_bundle_id'') (\<lambda>ctx_id.
    bnd (ditem context ''local_first_valid_time'') (\<lambda>ctx_time.
    let ctx_row = parent_entry ctx_id ''CONTEXT'' ctx_time (dget context ''content_sha256'' VNone);
        fixed = parent_link context;
        own_time = (\<lambda>link. vitem link ''local_first_valid_time'') in
    bnd (link_parent ''FIXED_PARENT_LINK'' own_time fixed) (\<lambda>fl.
    bnd (link_parent ''PARENT_AXIS_LINK'' own_time (dget context ''parent_axis_context_link'' (VDict []))) (\<lambda>al.
    bnd (iter_of (dget context ''parent_structural_links_by_depth'' (VList []))) (\<lambda>links.
    bnd (mapM (link_parent ''STRUCTURAL_PARENT_LINK''
           (\<lambda>link. bnd (vget link ''local_first_valid_time'' VNone) (\<lambda>t. Inr (py_or t ctx_time)))) links) (\<lambda>sls.
    bnd (vget fixed ''parent_observation_id'' VNone) (\<lambda>parent_id.
    bnd (observation_parent (m_parent_observations m) parent_id) (\<lambda>po.
    let sl = concat sls in
    bnd (foldM merge_parent [] (ps @ ls @ cs @ ms @ rs @ [ctx_row] @ map snd fl @ map snd al @ map snd sl @ po)) (\<lambda>merged.
    Inr \<lparr>fp_records = map snd (sort_key fst merged), fp_fixed = map fst fl, fp_axis = map fst al,
         fp_structural = map fst sl\<rparr>))))))))))))))"

subsection \<open>Dependency rows\<close>

definition PROHIBITED_DEPENDENCIES :: "string list" where
  "PROHIBITED_DEPENDENCIES = [''FDI_C2G'', ''OUTCOME'', ''VALIDATION'', ''C2_5'', ''C3'']"

text \<open>\<^verbatim>\<open>all(profiles[i].get("computability") == "COMPUTABLE" for ids in ... for i in ids)\<close> stops at the
  first profile that is not.\<close>

fun all_in :: "row_map \<Rightarrow> pyval list \<Rightarrow> bool result" where
  "all_in profiles [] = Inr True"
| "all_in profiles (i # is) = bnd (row_at profiles i) (\<lambda>row.
     if dget row ''computability'' VNone = VStr ''COMPUTABLE'' then all_in profiles is else Inr False)"

fun all_groups :: "row_map \<Rightarrow> pyval list \<Rightarrow> bool result" where
  "all_groups profiles [] = Inr True"
| "all_groups profiles (ids # rest) = bnd (iter_of ids) (\<lambda>is. bnd (all_in profiles is) (\<lambda>b.
     if b then all_groups profiles rest else Inr False))"

definition output_groups :: "pydict \<Rightarrow> pyval list result" where
  "output_groups bundle = bnd (ditem bundle ''profile_output_ids'') (\<lambda>outputs. bnd (as_row outputs) (\<lambda>d. Inr (map snd d)))"

definition all_computable :: "row_map \<Rightarrow> pydict \<Rightarrow> bool result" where
  "all_computable profiles bundle = bnd (output_groups bundle) (all_groups profiles)"

definition dep_entry :: "string \<Rightarrow> string \<Rightarrow> string \<Rightarrow> pyval list \<Rightarrow> string list \<Rightarrow> pydict" where
  "dep_entry dep rl st sources reasons =
    [(''dependency_id'', VStr dep), (''role'', VStr rl), (''status'', VStr st),
     (''source_record_ids'', VList sources), (''reason_codes'', strs_val reasons)]"

text \<open>The four rows both modules build, in the order of the code.\<close>

definition upstream_rows :: "pydict \<Rightarrow> row_map \<Rightarrow> pydict \<Rightarrow> pydict list result" where
  "upstream_rows bundle profiles context =
    (let fixed = parent_link context in
     bnd (parent_status fixed) (\<lambda>st.
     bnd (all_computable profiles bundle) (\<lambda>computable.
     bnd (ditem bundle ''observation_id'') (\<lambda>obs.
     bnd (output_groups bundle) (\<lambda>grps. bnd (mapM iter_of grps) (\<lambda>idss. bnd (py_sorted (concat idss)) (\<lambda>ids.
     bnd (ditem bundle ''context_bundle_id'') (\<lambda>ctx_id.
     bnd (bnd (vget fixed ''reason_codes'' (VList [])) sorted_strs_of) (\<lambda>reasons.
     Inr [dep_entry ''DEP.CONTINUITY'' ''REQUIRED'' ''AVAILABLE'' [VStr (py_str obs)] [],
          dep_entry ''DEP.SOURCE_RELEASE'' ''REQUIRED'' ''AVAILABLE'' [] [],
          dep_entry ''DEP.STRUCTURAL'' ''REQUIRED'' ''AVAILABLE'' ids
            (if computable then [] else [''TECHNICAL_PARTIAL_COMPUTABILITY'']),
          dep_entry ''DEP.PARENT_CONTEXT'' ''OPTIONAL'' st [VStr (py_str ctx_id)] reasons])))))))))"

definition entry_key :: "pydict \<Rightarrow> string" where
  "entry_key row = str_of (dget row ''dependency_id'' VNone)"

definition base_dependencies :: "pydict \<Rightarrow> row_map \<Rightarrow> pydict \<Rightarrow> pydict list result" where
  "base_dependencies bundle profiles context =
    bnd (upstream_rows bundle profiles context) (\<lambda>rows.
    Inr (sort_key entry_key
      (rows @ map (\<lambda>dep. dep_entry dep ''PROHIBITED'' ''UNAVAILABLE'' [] [''PROHIBITED_SOURCE_ABSENT'']) PROHIBITED_DEPENDENCIES)))"

definition runtime_dependencies :: "pydict \<Rightarrow> row_map \<Rightarrow> pydict \<Rightarrow> pydict list result" where
  "runtime_dependencies bundle profiles context =
    bnd (upstream_rows bundle profiles context) (\<lambda>rows. Inr (sort_key entry_key rows))"

subsection \<open>The payload and the frame\<close>

definition binding_section :: "pydict \<Rightarrow> string \<Rightarrow> pydict result" where
  "binding_section manifest source_build_commit =
    bnd (ditem manifest ''materialisation_id'') (\<lambda>mid.
    bnd (ditem manifest ''logical_sha256'') (\<lambda>h.
    Inr [(''c2ar_package_id'', VStr C2AR_PACKAGE_ID), (''c2ar_package_sha256'', VStr C2AR_PACKAGE_SHA256),
         (''research_consumer_permission'', VStr C2AR_PERMISSION), (''active'', VBool False), (''canonical'', VBool False),
         (''source_release_id'', mid), (''source_manifest_id'', VStr (''C2VNEXT.MATERIALISATION.MANIFEST.'' @ py_str h)),
         (''c2_release_id'', mid), (''c2_contract_id'', VStr ''C2VNEXT.REAL.OBSERVATION.MATERIALISATION.v1''),
         (''source_build_commit'', VStr source_build_commit)]))"

definition identity_section :: "pydict \<Rightarrow> pydict result" where
  "identity_section bundle =
    bnd (ditem bundle ''side'') (\<lambda>side. bnd (ditem bundle ''observation_id'') (\<lambda>obs.
    Inr [(''instrument_id'', VStr ''GBPUSD''), (''side'', VStr (py_str side)), (''scope_id'', VStr ''LOCAL_15M''),
         (''scale_id'', VStr ''15M''), (''clock_id'', VStr ''UTC_15M''), (''lattice_id'', VStr ''LATTICE.15M.UTC_0000.v1''),
         (''observation_id'', VStr (py_str obs)), (''c2_record_id'', VStr (py_str obs)),
         (''parameter_pack_id'', VStr C2AR_PACKAGE_ID), (''contract_id'', VStr ''C2E.HANDOFF.SIGNATURE.v0_3''),
         (''schema_id'', VStr ''c2e_input_frame/v0_3'')]))"

definition chronology_section :: "pydict \<Rightarrow> pyval \<Rightarrow> pydict result" where
  "chronology_section observation predecessor_observation_id =
    bnd (ditem observation ''interval_start'') (\<lambda>start.
    bnd (ditem observation ''first_valid_time'') (\<lambda>fvt.
    bnd (ditem observation ''continuity'') (\<lambda>continuity. bnd (vitem continuity ''segment_id'') (\<lambda>segment.
    Inr [(''source_time'', VStr (py_str start)), (''candidate_onset_time'', VStr (py_str start)),
         (''first_valid_time'', VStr (py_str fvt)), (''evaluation_cutoff'', VStr (py_str fvt)),
         (''continuity_segment_id'', VStr (py_str segment)),
         (''predecessor_observation_id'', predecessor_observation_id)]))))"

definition structural_section :: "pydict \<Rightarrow> pydict result" where
  "structural_section bundle =
    bnd (mapM (\<lambda>(axis, key). bnd (ditem bundle ''profile_output_ids'') (\<lambda>outputs. bnd (vitem outputs axis) (\<lambda>ids.
      bnd (sorted_strs_of ids) (\<lambda>ss. Inr (key, strs_val ss)))))
      [(''LOCATION'', ''location_record_ids''), (''MOTION'', ''motion_record_ids''),
       (''ORGANISATION'', ''organisation_record_ids''), (''INTERACTION'', ''interaction_record_ids'')]) (\<lambda>axes.
    bnd (sorted_strs_of (dget bundle ''level_ids'' (VList []))) (\<lambda>levels.
    bnd (sorted_strs_of (dget bundle ''container_ids'' (VList []))) (\<lambda>containers.
    Inr (axes @ [(''level_record_ids'', strs_val levels), (''container_record_ids'', strs_val containers),
      (''relation_set_id'', VNone), (''transition_record_ids'', VList []), (''run_record_ids'', VList [])]))))"

definition context_section :: "pydict \<Rightarrow> frame_parents \<Rightarrow> pydict result" where
  "context_section bundle fp =
    bnd (ditem bundle ''context_bundle_id'') (\<lambda>ctx_id.
    Inr [(''context_resolution_bundle_id'', VStr (py_str ctx_id)), (''fixed_parent_links'', strs_val (sort (fp_fixed fp))),
         (''structural_object_links'', strs_val (sort (fp_structural fp))), (''parent_axis_links'', strs_val (sort (fp_axis fp)))])"

definition evidence_section :: "pydict list \<Rightarrow> bool \<Rightarrow> pydict" where
  "evidence_section deps computable =
    [(''dependency_results'', VList (map VDict deps)), (''availability_status'', VStr ''AVAILABLE''),
     (''technical_status'', VStr (if computable then ''COMPUTABLE'' else ''PARTIALLY_COMPUTABLE'')),
     (''assurance'', VList [VDict [(''assertion_id'', VStr ''C2VNEXT_RM1_EXACT_SOURCE''), (''status'', VStr ''ASSURED'')]]),
     (''consumer_eligibility'', VStr ''INELIGIBLE_INACTIVE_SHADOW''), (''authority_state'', VStr ''UNAUTHORIZED_ACTIVE_C2E''),
     (''reason_codes'', VList [])]"

definition lineage_section :: "pydict \<Rightarrow> frame_parents \<Rightarrow> string \<Rightarrow> pydict result" where
  "lineage_section manifest fp source_build_commit =
    bnd (mapM (\<lambda>row. ditem row ''record_id'') (fp_records fp)) (\<lambda>ids.
    bnd (ditem manifest ''logical_sha256'') (\<lambda>h.
    bnd (ditem manifest ''files'') (\<lambda>files. bnd (vitem files ''target_bundles'') (\<lambda>tb. bnd (vitem tb ''sha256'') (\<lambda>th.
    Inr [(''parent_record_ids'', VList ids),
         (''artifact_hashes'', VDict [(''c2ar_package'', VStr C2AR_PACKAGE_SHA256), (''materialisation_manifest'', VStr (py_str h)),
            (''target_bundles'', VStr (py_str th))]),
         (''source_build_commit'', VStr source_build_commit)])))))"

text \<open>The function bound to \<^verbatim>\<open>_dependencies\<close>, the materialisation, the bundle and its predecessor.\<close>

definition frame_payload ::
  "(pydict \<Rightarrow> row_map \<Rightarrow> pydict \<Rightarrow> pydict list result) \<Rightarrow> materialisation \<Rightarrow> string \<Rightarrow> pydict \<Rightarrow> pyval \<Rightarrow> pydict result" where
  "frame_payload dependencies m source_build_commit bundle predecessor =
    bnd (ditem bundle ''observation_id'') (\<lambda>obs_id.
    bnd (row_at (m_observations m) (VStr (py_str obs_id))) (\<lambda>observation.
    bnd (ditem bundle ''context_bundle_id'') (\<lambda>ctx_id.
    bnd (row_at (m_contexts m) (VStr (py_str ctx_id))) (\<lambda>context.
    bnd (frame_parents_of m bundle context) (\<lambda>fp.
    bnd (binding_section (m_manifest m) source_build_commit) (\<lambda>binding.
    bnd (identity_section bundle) (\<lambda>ident.
    bnd (chronology_section observation predecessor) (\<lambda>chron.
    bnd (structural_section bundle) (\<lambda>structural.
    bnd (context_section bundle fp) (\<lambda>ctx.
    bnd (dependencies bundle (m_profiles m) context) (\<lambda>deps.
    bnd (all_computable (m_profiles m) bundle) (\<lambda>computable.
    bnd (lineage_section (m_manifest m) fp source_build_commit) (\<lambda>lineage.
    bnd (comparison_source bundle (m_profiles m) (m_contexts m) (m_levels m) (m_containers m)) (\<lambda>comparison.
    Inr [(''source_binding'', VDict binding), (''identity'', VDict ident), (''chronology'', VDict chron),
         (''structural'', VDict structural), (''context'', VDict ctx), (''evidence'', VDict (evidence_section deps computable)),
         (''lineage'', VDict lineage), (''parent_records'', VList (map VDict (fp_records fp))),
         (''comparison_source'', VDict comparison)]))))))))))))))"

definition build_frame ::
  "(pydict \<Rightarrow> row_map \<Rightarrow> pydict \<Rightarrow> pydict list result) \<Rightarrow> materialisation \<Rightarrow> string \<Rightarrow> pydict \<Rightarrow> pyval \<Rightarrow> pydict result" where
  "build_frame dependencies m source_build_commit bundle predecessor =
    bnd (frame_payload dependencies m source_build_commit bundle predecessor) build_input_frame_v0_3"

text \<open>\<^verbatim>\<open>rows.sort(key=lambda row: (a, b, c))\<close> for keys that are strings; as for \<open>py_sort_on\<close>, anything else
  raises once there are two rows.\<close>

definition sort_on_strs :: "('a \<Rightarrow> pyval list) \<Rightarrow> 'a list \<Rightarrow> 'a list result" where
  "sort_on_strs f xs =
    (if list_all (\<lambda>x. list_all is_str (f x)) xs then Inr (sort_key (\<lambda>x. map str_of (f x)) xs)
     else if length xs \<le> 1 then Inr xs
     else Inl (Exn TypeError []))"

definition population_identity :: "pydict list \<Rightarrow> pydict \<Rightarrow> string result" where
  "population_identity bundles manifest =
    bnd (mapM (\<lambda>bundle. mapM (\<lambda>k. bnd (ditem bundle k) (\<lambda>v. Inr (k, v)))
      [''observation_id'', ''side'', ''first_valid_time'', ''context_bundle_id'', ''profile_output_ids'']) bundles) (\<lambda>rows0.
    bnd (sort_on_strs (\<lambda>row. [dget row ''side'' VNone, dget row ''first_valid_time'' VNone, dget row ''observation_id'' VNone]) rows0) (\<lambda>rows.
    bnd (ditem manifest ''materialisation_id'') (\<lambda>mid.
    sha256_hex (VDict [(''materialisation_id'', mid), (''unit'', VStr ''C2EInputFrame_CANDIDATE_SOURCE''),
      (''count'', VInt (int (length rows))), (''rows'', VList (map VDict rows))]))))"

subsection \<open>Decimals are projected exactly\<close>

lemma nat_str_shift: "c \<noteq> 0 \<Longrightarrow> nat_str (c * 10 ^ k) = nat_str c @ replicate k (CHR ''0'')"
proof (induction k)
  case (Suc k)
  have "nat_str (c * 10 ^ Suc k) = nat_str (c * 10 ^ k) @ [digit_char 0]"
    using Suc.prems by (subst nat_str.simps) (simp add: mult.left_commute [of c])
  also have "digit_char 0 = CHR ''0''" by code_simp
  finally show ?case using Suc by (simp add: replicate_append_same)
qed simp

lemma fmt_f_parse_fmt:
  assumes "dec_is_finite d" and "dec_parse (fmt_f d) = Some d'"
  shows "fmt_f d' = fmt_f d"
proof -
  obtain s c e where d: "d = DFin s c e" using assms(1) by (cases d) auto
  show ?thesis
  proof (cases "e < 0")
    case True
    then show ?thesis using assms(2) dec_parse_fmt_f_neg [of e s c] by (simp add: d del: fmt_f.simps)
  next
    case False
    then have d': "d' = DFin s (c * 10 ^ nat e) 0" using assms(2) dec_parse_fmt_f_nonneg [of e s c] by (simp add: d del: fmt_f.simps)
    show ?thesis using False by (cases "c = 0") (simp_all add: d d' Let_def nat_str_shift)
  qed
qed

lemma plain_decimal_text:
  "plain_decimal (VStr s) = Inr w \<longleftrightarrow>
    (case dec_parse s of None \<Rightarrow> w = VStr s | Some d \<Rightarrow> dec_is_finite d \<and> w = VStr (fmt_f d))"
  by (auto simp: rep_req_def bnd_eq_Inr req_eq_Inr split: option.splits)

lemma plain_decimal_fixed: "plain_decimal v = Inr w \<Longrightarrow> plain_decimal w = Inr w"
proof (induction v arbitrary: w rule: plain_decimal.induct)
  case (1 s)
  show ?case
  proof (cases "dec_parse s")
    case None
    then show ?thesis using 1 by auto
  next
    case (Some d)
    then have d: "dec_is_finite d" "w = VStr (fmt_f d)" using 1 by (simp_all add: plain_decimal_text del: plain_decimal.simps)
    obtain d' where d': "dec_parse (fmt_f d) = Some d'" "dec_is_finite d'" using dec_parse_fmt_f_val [OF d(1)] by blast
    then show ?thesis using fmt_f_parse_fmt [OF d(1) d'(1)] d(2) by (simp add: plain_decimal_text del: plain_decimal.simps)
  qed
next
  case (3 xs)
  then obtain ys where w: "w = VList ys" and a: "list_all2 (\<lambda>x y. plain_decimal x = Inr y) xs ys"
    by (auto simp: bnd_eq_Inr mapM_Inr_iff)
  have "list_all2 (\<lambda>x y. plain_decimal x = Inr y) ys ys"
    using a 3(1) by (fastforce simp: list_all2_conv_all_nth set_conv_nth)
  then show ?case by (simp add: w bnd_eq_Inr mapM_Inr_iff)
next
  case (4 kvs)
  let ?f = "\<lambda>(k :: string, v). bnd (plain_decimal v) (\<lambda>w. Inr (k, w))"
  from 4(2) obtain ps where w: "w = VDict ps" and a: "list_all2 (\<lambda>p q. ?f p = Inr q) kvs ps"
    by (auto simp: bnd_eq_Inr mapM_Inr_iff)
  have "list_all2 (\<lambda>p q. ?f p = Inr q) ps ps"
  proof (rule list_all2_all_nthI)
    fix i assume i: "i < length ps"
    then have k: "kvs ! i \<in> set kvs" "?f (kvs ! i) = Inr (ps ! i)"
      using a by (auto simp: list_all2_conv_all_nth)
    obtain key v where p: "kvs ! i = (key, v)" by (cases "kvs ! i")
    then obtain v' where v': "plain_decimal v = Inr v'" "ps ! i = (key, v')" using k by (auto simp: bnd_eq_Inr)
    then have "plain_decimal v' = Inr v'" using 4(1) k(1) p by metis
    then show "?f (ps ! i) = Inr (ps ! i)" by (simp add: v')
  qed simp
  then show ?case by (simp add: w bnd_eq_Inr mapM_Inr_iff)
qed auto

text \<open>The decimals of the source are projected exactly. A text that reads as a number becomes the
  plain decimal notation of the same number, infinities and NaN are refused, any other text is kept,
  and projecting the result again, at any depth, changes nothing.\<close>

theorem plain_decimal_exact:
  assumes "plain_decimal v = Inr w"
  shows "plain_decimal w = Inr w \<and>
    (\<forall>s. v = VStr s \<longrightarrow> (case dec_parse s of
        None \<Rightarrow> w = v
      | Some d \<Rightarrow> dec_is_finite d \<and>
          (\<exists>t d'. w = VStr t \<and> dec_parse t = Some d' \<and> dec_val d' = dec_val d \<and> \<not> has_exponent t)))"
proof -
  have "case dec_parse s of None \<Rightarrow> w = v
      | Some d \<Rightarrow> dec_is_finite d \<and>
          (\<exists>t d'. w = VStr t \<and> dec_parse t = Some d' \<and> dec_val d' = dec_val d \<and> \<not> has_exponent t)" if v: "v = VStr s" for s
  proof (cases "dec_parse s")
    case None
    then show ?thesis using assms v by simp
  next
    case (Some d)
    then have "dec_is_finite d" "w = VStr (fmt_f d)" using assms v by (simp_all add: plain_decimal_text del: plain_decimal.simps)
    then show ?thesis using Some dec_parse_fmt_f_val [of d] fmt_f_no_exponent [of d] by (auto simp del: dec_val.simps fmt_f.simps)
  qed
  then show ?thesis using plain_decimal_fixed [OF assms] by blast
qed

theorem plain_decimal_exact_witness:
  "plain_decimal (VStr '' 12.50E+3'') = Inr (VStr ''12500'') \<and> plain_decimal (VStr ''12500'') = Inr (VStr ''12500'')"
proof -
  have a: "plain_decimal (VStr '' 12.50E+3'') = Inr (VStr ''12500'')" by code_simp
  then show ?thesis using plain_decimal_exact [OF a] by blast
qed

subsection \<open>The dependency rows and the firewall\<close>

lemma admitted_clean:
  assumes "build_input_frame_v0_3 payload = Inr frame"
  shows "clean forbidden_key forbidden_text
    (VDict (AList.delete ''diagnostic_namespace'' (AList.delete ''comparison_source'' payload)))"
proof -
  obtain base where "build_input_frame (AList.delete ''comparison_source'' payload) = Inr base"
    using build_v03_Inr [OF assms] by metis
  then obtain binding where "admit_source (AList.delete ''diagnostic_namespace'' (AList.delete ''comparison_source'' payload)) = Inr binding"
    unfolding build_input_frame_def Let_def by (auto simp: bnd_eq_Inr)
  then have "scan_forbidden (VDict (AList.delete ''diagnostic_namespace'' (AList.delete ''comparison_source'' payload))) ''$'' = Inr ()"
    unfolding admit_source_def by (auto simp: bnd_eq_Inr split: sum.splits exn.splits if_splits)
  then show ?thesis by (simp only: scan_forbidden_def scan_tree_clean)
qed

lemma frame_payload_evidence:
  assumes "frame_payload dependencies m commit bundle predecessor = Inr payload"
  obtains ctx deps computable where "dependencies bundle (m_profiles m) ctx = Inr deps"
    "(''evidence'', VDict (evidence_section deps computable)) \<in> set payload"
  using assms unfolding frame_payload_def bnd_eq_Inr by fastforce

text \<open>C31: the dependency rows of the base module are never admitted. It lists the prohibited downstream
  sources among the dependency results, and the firewall refuses their names, so that no call of
  \<^verbatim>\<open>build_frame\<close> with these rows returns, whatever the materialisation.\<close>

theorem base_dependencies_refused:
  "build_frame base_dependencies m commit bundle predecessor \<noteq> Inr frame"
proof
  assume "build_frame base_dependencies m commit bundle predecessor = Inr frame"
  then obtain payload where p: "frame_payload base_dependencies m commit bundle predecessor = Inr payload"
    and f: "build_input_frame_v0_3 payload = Inr frame" by (auto simp: build_frame_def bnd_eq_Inr)
  obtain ctx deps computable where d: "base_dependencies bundle (m_profiles m) ctx = Inr deps"
    and e: "(''evidence'', VDict (evidence_section deps computable)) \<in> set payload"
    using frame_payload_evidence [OF p] .
  have "dep_entry ''FDI_C2G'' ''PROHIBITED'' ''UNAVAILABLE'' [] [''PROHIBITED_SOURCE_ABSENT''] \<in> set deps"
    using d by (auto simp: base_dependencies_def bnd_eq_Inr PROHIBITED_DEPENDENCIES_def)
  moreover have "forbidden_text ''FDI_C2G''" by code_simp
  ultimately have "\<not> clean forbidden_key forbidden_text (VDict (evidence_section deps computable))"
    by (fastforce simp: evidence_section_def clean_simps dep_entry_def)
  moreover have "(''evidence'', VDict (evidence_section deps computable)) \<in>
      set (AList.delete ''diagnostic_namespace'' (AList.delete ''comparison_source'' payload))"
    using e by (simp add: AList.delete_eq)
  ultimately show False using bspec [OF iffD1 [OF clean_VDict admitted_clean [OF f]]] by fast
qed

end
