(* ===== verification/C2E_Stream.thy ===== *)
theory C2E_Stream
  imports C2E_Models
begin

section \<open>C2E v0.2: append-only stream and episode topology\<close>

text \<open>
  \<^verbatim>\<open>stream.py\<close> and \<^verbatim>\<open>topology.py\<close> of \<^verbatim>\<open>src/src/ovc/opt_b/c2e_v2/\<close>. The state of each object is a
  record; a method is an action that keeps what it wrote before it raised. The set of identifiers and
  the sets of children are lists. The locale \<open>append_only\<close> is what a client of the stream relies
  on; the depth-first search of the topology is a total function, whose result is shown to be
  reachability.
\<close>

subsection \<open>Stream\<close>

definition ID_BY_SCHEMA :: "(string \<times> string) list" where
  "ID_BY_SCHEMA =
    [(''c2e_episode_genesis/v0_2'', ''episode_id''), (''c2e_episode_snapshot/v0_2'', ''snapshot_id''),
     (''c2e_phase_segment/v0_2'', ''phase_segment_id''), (''c2e_boundary_event/v0_2'', ''boundary_event_id''),
     (''c2e_lineage_edge/v0_2'', ''lineage_edge_id''), (''c2e_membership_delta/v0_2'', ''membership_delta_id''),
     (''c2e_remap_record/v0_2'', ''remap_record_id''), (''c2e_stream_manifest/v0_2'', ''stream_manifest_id''),
     (''c2e_checkpoint/v0_2'', ''checkpoint_id''), (''c2e_sri_handoff/v0_1'', ''handoff_id'')]"

record stream =
  s_records :: "pydict list"
  s_ids :: "string list"

definition stream_init :: stream where
  "stream_init = \<lparr>s_records = [], s_ids = []\<rparr>"

definition stream_record_id :: "pydict \<Rightarrow> string result" where
  "stream_record_id rec =
    (case map_of ID_BY_SCHEMA (py_str (dget rec ''schema'' (VStr []))) of
       None \<Rightarrow> Inl (Exn StreamError ''SEMANTIC_RECORD_ID_NOT_FOUND'')
     | Some field \<Rightarrow> (case dget rec field VNone of VStr i \<Rightarrow> Inr i
         | _ \<Rightarrow> Inl (Exn StreamError ''SEMANTIC_RECORD_ID_NOT_FOUND'')))"

definition stream_append :: "pydict \<Rightarrow> (stream, unit) act" where
  "stream_append rec =
    abind (lift_r (stream_record_id rec)) (\<lambda>record_id.
    abind (aget s_ids) (\<lambda>ids.
    abind (lift_r (req StreamError (record_id \<notin> set ids) ''APPEND_ONLY_DUPLICATE_OR_UPDATE_DENIED'')) (\<lambda>_.
    abind (lift_r (in_strs (dget rec ''authority'' VNone) [''INACTIVE_NONCANONICAL_SHADOW'', ''COMPARISON_ONLY''])) (\<lambda>allowed.
    abind (lift_r (req StreamError allowed ''STREAM_AUTHORITY_DENIED'')) (\<lambda>_.
    abind (amod (\<lambda>s. s\<lparr>s_records := s_records s @ [rec]\<rparr>)) (\<lambda>_.
    amod (\<lambda>s. s\<lparr>s_ids := record_id # s_ids s\<rparr>)))))))"

definition stream_records :: "stream \<Rightarrow> pydict list" where
  "stream_records s = s_records s"

definition stream_hash :: "stream \<Rightarrow> string result" where
  "stream_hash s = logical_stream_hash (s_records s)"

definition stream_update :: "(stream, unit) act" where
  "stream_update = lift_r (Inl (Exn StreamError ''APPEND_ONLY_UPDATE_DENIED''))"

definition stream_delete :: "(stream, unit) act" where
  "stream_delete = lift_r (Inl (Exn StreamError ''APPEND_ONLY_DELETE_DENIED''))"

subsection \<open>Topology\<close>

record topology =
  t_children :: "(string \<times> string list) list"
  t_edges :: "pydict list"

definition topology_init :: topology where
  "topology_init = \<lparr>t_children = [], t_edges = []\<rparr>"

text \<open>The children of a node, in the order the search pushes them.\<close>

definition children_of :: "(string \<times> string list) list \<Rightarrow> string \<Rightarrow> string list" where
  "children_of ch node = (case map_of ch node of None \<Rightarrow> [] | Some cs \<Rightarrow> sorted_set cs)"

definition children :: "topology \<Rightarrow> string \<Rightarrow> string list" where
  "children t episode_id = children_of (t_children t) episode_id"

text \<open>The loop of \<^verbatim>\<open>_reaches\<close>: \<^verbatim>\<open>stack.pop()\<close> takes the last element and \<^verbatim>\<open>extend\<close> appends, so the stack
  is kept here with its top first. Every iteration either marks a new node or shortens the stack.\<close>

function reaches_loop :: "(string \<times> string list) list \<Rightarrow> string \<Rightarrow> string list \<Rightarrow> string list \<Rightarrow> bool" where
  "reaches_loop ch target [] seen = False"
| "reaches_loop ch target (node # stack) seen =
    (if node = target then True
     else if node \<in> set seen then reaches_loop ch target stack seen
     else reaches_loop ch target (rev (children_of ch node) @ stack) (node # seen))"
  by pat_completeness auto
termination
proof (relation "measures [\<lambda>(ch, target, stack, seen). card (fst ` set ch - set seen),
    \<lambda>(ch, target, stack, seen). length stack]", goal_cases)
  case (3 ch target node stack seen)
  show ?case
  proof (cases "node \<in> fst ` set ch")
    case True
    then have "card (fst ` set ch - set (node # seen)) < card (fst ` set ch - set seen)"
      using 3 by (intro psubset_card_mono) auto
    then show ?thesis by simp
  next
    case False
    then have "children_of ch node = []" by (simp add: children_of_def map_of_eq_None_iff [THEN iffD2])
    moreover have "fst ` set ch - set (node # seen) = fst ` set ch - set seen" using False by auto
    ultimately show ?thesis by simp
  qed
qed auto

definition reaches :: "topology \<Rightarrow> string \<Rightarrow> string \<Rightarrow> bool" where
  "reaches t start target = reaches_loop (t_children t) target [start] []"

definition add_edge :: "string \<Rightarrow> string \<Rightarrow> string \<Rightarrow> string \<Rightarrow> string \<Rightarrow> string \<Rightarrow> (topology, pydict) act" where
  "add_edge edge_type parent_episode_id child_episode_id boundary_event_id effective_time first_valid_time =
    abind (lift_r (req TopologyError (edge_type \<in> {''NEST'', ''RE_PARENT'', ''SPLIT'', ''MERGE''}) ''TOPOLOGY_EDGE_TYPE_INVALID'')) (\<lambda>_.
    abind (aget (\<lambda>t. parent_episode_id = child_episode_id \<or> reaches t child_episode_id parent_episode_id)) (\<lambda>cycle.
    abind (lift_r (req TopologyError (\<not> cycle) ''C2E_TOPOLOGY_CYCLE'')) (\<lambda>_.
    abind (lift_r (build_record ''lineage_edge''
      [(''edge_type'', VStr edge_type), (''parent_episode_id'', VStr parent_episode_id),
       (''child_episode_id'', VStr child_episode_id), (''boundary_event_id'', VStr boundary_event_id),
       (''effective_time'', VStr effective_time), (''first_valid_time'', VStr first_valid_time),
       (''authority'', VStr ''INACTIVE_NONCANONICAL_SHADOW'')])) (\<lambda>rec.
    abind (amod (\<lambda>t. t\<lparr>t_children := AList.update parent_episode_id
        (List.insert child_episode_id (case map_of (t_children t) parent_episode_id of None \<Rightarrow> [] | Some cs \<Rightarrow> cs))
        (t_children t)\<rparr>)) (\<lambda>_.
    abind (amod (\<lambda>t. t\<lparr>t_edges := t_edges t @ [rec]\<rparr>)) (\<lambda>_.
    areturn rec))))))"

subsection \<open>The stream is append-only\<close>

text \<open>
  What a client of an append-only log relies on: a put either raises and changes nothing, or adds its
  record at the end; and a well-formed log has no two records with the same key.
\<close>

locale append_only =
  fixes entries :: "'s \<Rightarrow> 'r list" and key :: "'r \<Rightarrow> 'k" and put :: "'r \<Rightarrow> ('s, unit) act" and ok :: "'s \<Rightarrow> bool"
  assumes put_raises: "put r s = (Inl e, s') \<Longrightarrow> s' = s"
    and put_returns: "put r s = (Inr u, s') \<Longrightarrow> entries s' = entries s @ [r]"
    and put_ok: "ok s \<Longrightarrow> ok (snd (put r s))"
    and ok_distinct: "ok s \<Longrightarrow> distinct (map key (entries s))"
begin

fun puts :: "'r list \<Rightarrow> 's \<Rightarrow> 's" where
  "puts [] s = s"
| "puts (r # rs) s = puts rs (snd (put r s))"

lemma put_prefix: "prefix (entries s) (entries (snd (put r s)))"
proof -
  obtain m s' where p: "put r s = (m, s')" by (cases "put r s")
  then show ?thesis using put_raises [of r s _ s'] put_returns [of r s _ s'] by (cases m) auto
qed

lemma puts_prefix: "prefix (entries s) (entries (puts rs s))"
  by (induction rs arbitrary: s) (auto intro: prefix_order.trans put_prefix)

lemma puts_ok: "ok s \<Longrightarrow> ok (puts rs s)"
  by (induction rs arbitrary: s) (simp_all add: put_ok)

lemma puts_added: "set (entries (puts rs s)) \<subseteq> set (entries s) \<union> set rs"
proof (induction rs arbitrary: s)
  case (Cons r rs)
  have "set (entries (snd (put r s))) \<subseteq> insert r (set (entries s))"
    using put_raises [of r s] put_returns [of r s] by (cases "put r s"; cases "fst (put r s)") fastforce+
  with Cons [of "snd (put r s)"] show ?case by auto
qed simp

end

definition stream_ok :: "stream \<Rightarrow> bool" where
  "stream_ok s \<longleftrightarrow> map stream_record_id (s_records s) = map Inr (rev (s_ids s)) \<and> distinct (s_ids s) \<and>
     (\<forall>r \<in> set (s_records s). \<exists>a \<in> {''INACTIVE_NONCANONICAL_SHADOW'', ''COMPARISON_ONLY''}. map_of r ''authority'' = Some (VStr a))"

lemma stream_append_Inr:
  "stream_append rec s = (Inr u, s') \<longleftrightarrow>
    (\<exists>i a. stream_record_id rec = Inr i \<and> i \<notin> set (s_ids s) \<and> map_of rec ''authority'' = Some (VStr a) \<and>
       a \<in> {''INACTIVE_NONCANONICAL_SHADOW'', ''COMPARISON_ONLY''} \<and>
       s' = s\<lparr>s_records := s_records s @ [rec], s_ids := i # s_ids s\<rparr>)"
proof -
  have a: "in_strs (dget rec ''authority'' VNone) xs = Inr True \<longleftrightarrow> (\<exists>a \<in> set xs. map_of rec ''authority'' = Some (VStr a))" for xs
    by (auto simp: in_strs_True dget_def split: option.splits)
  show ?thesis
  proof (cases "stream_record_id rec")
    case (Inl e)
    then show ?thesis by (simp add: stream_append_def abind_apply)
  next
    case (Inr i)
    show ?thesis
    proof (cases "in_strs (dget rec ''authority'' VNone) [''INACTIVE_NONCANONICAL_SHADOW'', ''COMPARISON_ONLY'']")
      case (Inl e)
      with Inr a [of "[''INACTIVE_NONCANONICAL_SHADOW'', ''COMPARISON_ONLY'']"] show ?thesis
        by (auto simp: stream_append_def abind_apply req_def)
    next
      case (Inr b)
      with \<open>stream_record_id rec = Inr i\<close> a [of "[''INACTIVE_NONCANONICAL_SHADOW'', ''COMPARISON_ONLY'']"] show ?thesis
        by (cases b) (auto simp: stream_append_def abind_apply req_def)
    qed
  qed
qed

lemma stream_append_Inl:
  assumes "stream_append rec s = (Inl e, s')"
  shows "s' = s"
proof (cases "stream_record_id rec")
  case (Inl x)
  then show ?thesis using assms by (simp add: stream_append_def abind_apply)
next
  case (Inr i)
  then show ?thesis using assms
    by (cases "in_strs (dget rec ''authority'' VNone) [''INACTIVE_NONCANONICAL_SHADOW'', ''COMPARISON_ONLY'']")
      (auto simp: stream_append_def abind_apply req_def split: if_splits)
qed

lemma stream_append_ok: "stream_ok s \<Longrightarrow> stream_ok (snd (stream_append rec s))"
proof -
  assume ok: "stream_ok s"
  obtain m s' where p: "stream_append rec s = (m, s')" by (cases "stream_append rec s")
  show ?thesis
  proof (cases m)
    case (Inl e)
    then show ?thesis using p stream_append_Inl [of rec s e s'] ok by simp
  next
    case (Inr u)
    then obtain i a where "s' = s\<lparr>s_records := s_records s @ [rec], s_ids := i # s_ids s\<rparr>" "stream_record_id rec = Inr i"
        "i \<notin> set (s_ids s)" "map_of rec ''authority'' = Some (VStr a)" "a \<in> {''INACTIVE_NONCANONICAL_SHADOW'', ''COMPARISON_ONLY''}"
      using p by (auto simp: stream_append_Inr)
    then show ?thesis using p ok by (simp add: stream_ok_def)
  qed
qed

interpretation c2e_log: append_only s_records stream_record_id stream_append stream_ok
proof unfold_locales
  show "stream_append r s = (Inl e, s') \<Longrightarrow> s' = s" for r s e s' by (rule stream_append_Inl)
  show "stream_append r s = (Inr u, s') \<Longrightarrow> s_records s' = s_records s @ [r]" for r s u s'
    by (auto simp: stream_append_Inr)
  show "stream_ok s \<Longrightarrow> stream_ok (snd (stream_append r s))" for r s by (rule stream_append_ok)
  show "stream_ok s \<Longrightarrow> distinct (map stream_record_id (s_records s))" for s
    by (simp add: stream_ok_def distinct_map)
qed

lemma stream_ok_init: "stream_ok stream_init"
  by (simp add: stream_ok_def stream_init_def)

text \<open>A built record has the identifier field its schema names.\<close>

definition schema_id_ok :: bool where
  "schema_id_ok = list_all (\<lambda>(kind, spec). map_of ID_BY_SCHEMA (schema_of spec) = Some (id_field spec)) RECORD_SPECS"

lemma schema_ids_agree: "schema_id_ok"
  by code_simp

lemma stream_record_id_built:
  assumes "build_record kind p = Inr r" and "map_of RECORD_SPECS kind = Some spec"
  shows "\<exists>i. map_of r (id_field spec) = Some (VStr i) \<and> stream_record_id r = Inr i"
proof -
  have "map_of ID_BY_SCHEMA (schema_of spec) = Some (id_field spec)"
    using schema_ids_agree map_of_SomeD [OF assms(2)] by (auto simp: schema_id_ok_def list_all_iff)
  then show ?thesis using build_record_map_of(1,3) [OF assms] by (auto simp: stream_record_id_def dget_def)
qed

subsection \<open>The topology is acyclic\<close>

definition edge_rel :: "(string \<times> string list) list \<Rightarrow> (string \<times> string) set" where
  "edge_rel ch = {(a, b). b \<in> set (children_of ch a)}"

lemma leave_closed:
  assumes "(x, t) \<in> E\<^sup>*" and "x \<in> A" and "t \<notin> A" and "E `` A \<subseteq> A \<union> B"
  shows "\<exists>s \<in> B. (s, t) \<in> E\<^sup>*"
  using assms
proof (induction rule: converse_rtrancl_induct)
  case base
  then show ?case by simp
next
  case (step y z)
  then show ?case by (cases "z \<in> A") (auto intro: rtrancl_trans)
qed

lemma reaches_loop_correct:
  assumes "target \<notin> set seen" and "edge_rel ch `` set seen \<subseteq> set seen \<union> set stack"
  shows "reaches_loop ch target stack seen \<longleftrightarrow> (\<exists>s \<in> set stack. (s, target) \<in> (edge_rel ch)\<^sup>*)"
  using assms
proof (induction ch target stack seen rule: reaches_loop.induct)
  case (1 ch target seen)
  then show ?case by simp
next
  case (2 ch target node stack seen)
  consider "node = target" | "node \<noteq> target" "node \<in> set seen" | "node \<noteq> target" "node \<notin> set seen" by blast
  then show ?case
  proof cases
    case 1
    then show ?thesis by auto
  next
    case c: 2
    then have "edge_rel ch `` set seen \<subseteq> set seen \<union> set stack" using 2(4) by auto
    moreover from this have "\<exists>s \<in> set stack. (s, target) \<in> (edge_rel ch)\<^sup>*" if "(node, target) \<in> (edge_rel ch)\<^sup>*"
      using leave_closed [OF that] c 2(3) by blast
    ultimately show ?thesis using 2(1) [OF c 2(3)] c by auto
  next
    case c: 3
    have ch: "set (rev (children_of ch node)) = edge_rel ch `` {node}" by (auto simp: edge_rel_def)
    have "edge_rel ch `` set (node # seen) \<subseteq> set (node # seen) \<union> set (rev (children_of ch node) @ stack)"
      using 2(4) ch by auto
    then have IH: "reaches_loop ch target (rev (children_of ch node) @ stack) (node # seen) \<longleftrightarrow>
        (\<exists>s \<in> set (rev (children_of ch node) @ stack). (s, target) \<in> (edge_rel ch)\<^sup>*)"
      using 2(2) [OF c] c 2(3) by simp
    have "(node, target) \<in> (edge_rel ch)\<^sup>* \<longleftrightarrow> (\<exists>s \<in> edge_rel ch `` {node}. (s, target) \<in> (edge_rel ch)\<^sup>*)"
      using c(1) by (auto elim: converse_rtranclE intro: converse_rtrancl_into_rtrancl)
    then show ?thesis using IH c ch by auto
  qed
qed

lemma reaches_iff: "reaches t a b \<longleftrightarrow> (a, b) \<in> (edge_rel (t_children t))\<^sup>*"
  unfolding reaches_def by (subst reaches_loop_correct) auto

lemma edge_rel_insert:
  "edge_rel (AList.update p (List.insert c (case map_of ch p of None \<Rightarrow> [] | Some cs \<Rightarrow> cs)) ch) = insert (p, c) (edge_rel ch)"
  by (auto simp: edge_rel_def children_of_def split: option.splits if_splits)

definition edge_ends :: "pydict \<Rightarrow> string \<times> string" where
  "edge_ends r = (str_of (dget r ''parent_episode_id'' VNone), str_of (dget r ''child_episode_id'' VNone))"

definition topology_ok :: "topology \<Rightarrow> bool" where
  "topology_ok t \<longleftrightarrow> acyclic (edge_rel (t_children t)) \<and> edge_rel (t_children t) = edge_ends ` set (t_edges t)"

lemma topology_ok_init: "topology_ok topology_init"
  by (simp add: topology_ok_def topology_init_def edge_rel_def children_of_def acyclic_def)

abbreviation edge_payload :: "string \<Rightarrow> string \<Rightarrow> string \<Rightarrow> string \<Rightarrow> string \<Rightarrow> string \<Rightarrow> pydict" where
  "edge_payload ty p c b et fvt \<equiv>
    [(''edge_type'', VStr ty), (''parent_episode_id'', VStr p), (''child_episode_id'', VStr c),
     (''boundary_event_id'', VStr b), (''effective_time'', VStr et), (''first_valid_time'', VStr fvt),
     (''authority'', VStr ''INACTIVE_NONCANONICAL_SHADOW'')]"

lemma add_edge_Inr:
  "add_edge ty p c b et fvt t = (Inr r, t') \<longleftrightarrow>
    ty \<in> {''NEST'', ''RE_PARENT'', ''SPLIT'', ''MERGE''} \<and> p \<noteq> c \<and> (c, p) \<notin> (edge_rel (t_children t))\<^sup>* \<and>
    build_record ''lineage_edge'' (edge_payload ty p c b et fvt) = Inr r \<and>
    t' = t\<lparr>t_children := AList.update p (List.insert c (case map_of (t_children t) p of None \<Rightarrow> [] | Some cs \<Rightarrow> cs)) (t_children t),
           t_edges := t_edges t @ [r]\<rparr>"
  by (cases "build_record ''lineage_edge'' (edge_payload ty p c b et fvt)")
    (auto simp: add_edge_def abind_apply req_def reaches_iff)

lemma add_edge_Inl: "add_edge ty p c b et fvt t = (Inl e, t') \<Longrightarrow> t' = t"
  by (cases "build_record ''lineage_edge'' (edge_payload ty p c b et fvt)")
    (auto simp: add_edge_def abind_apply req_def split: if_splits)

lemma edge_spec_fields: "id_field edge_spec = ''lineage_edge_id''"
  by code_simp

lemma built_edge_ends:
  assumes "build_record ''lineage_edge'' (edge_payload ty p c b et fvt) = Inr r"
  shows "edge_ends r = (p, c)"
proof -
  have "map_of r ''parent_episode_id'' = Some (VStr p)"
    using build_record_map_of(2) [OF assms edge_spec, of "''parent_episode_id''"]
    by (simp add: derived_fields_def edge_spec_fields norm_field_def)
  moreover have "map_of r ''child_episode_id'' = Some (VStr c)"
    using build_record_map_of(2) [OF assms edge_spec, of "''child_episode_id''"]
    by (simp add: derived_fields_def edge_spec_fields norm_field_def)
  ultimately show ?thesis by (simp add: edge_ends_def dget_def)
qed

lemma add_edge_ok: "topology_ok t \<Longrightarrow> topology_ok (snd (add_edge ty p c b et fvt t))"
proof -
  assume ok: "topology_ok t"
  obtain m t' where e: "add_edge ty p c b et fvt t = (m, t')" by (cases "add_edge ty p c b et fvt t")
  show ?thesis
  proof (cases m)
    case (Inl x)
    then show ?thesis using e add_edge_Inl [of ty p c b et fvt t x t'] ok by simp
  next
    case (Inr r)
    then have r: "p \<noteq> c" "(c, p) \<notin> (edge_rel (t_children t))\<^sup>*" "edge_ends r = (p, c)"
        "edge_rel (t_children t') = insert (p, c) (edge_rel (t_children t))" "t_edges t' = t_edges t @ [r]"
      using e built_edge_ends [of ty p c b et fvt r] by (auto simp: add_edge_Inr edge_rel_insert)
    have "acyclic (edge_rel (t_children t'))"
      using ok r(2) unfolding r(4) acyclic_insert topology_ok_def by blast
    moreover have "edge_rel (t_children t') = edge_ends ` set (t_edges t')"
      using ok unfolding r(4,5) topology_ok_def by (simp add: r(3))
    ultimately show ?thesis using e by (simp add: topology_ok_def)
  qed
qed

subsection \<open>Properties\<close>

text \<open>C38: the stream only grows. From any well-formed stream, any sequence of appends (refused ones
  included) leaves the records written so far as a prefix, never holds two records with one
  identifier, and holds only shadow or comparison records; an update or a delete always raises and
  changes nothing.\<close>

theorem stream_append_only:
  assumes "stream_ok s"
  shows "prefix (stream_records s) (stream_records (c2e_log.puts rs s)) \<and>
    distinct (map stream_record_id (stream_records (c2e_log.puts rs s))) \<and>
    (\<forall>r \<in> set (stream_records (c2e_log.puts rs s)). map_of r ''authority'' = Some (VStr ''INACTIVE_NONCANONICAL_SHADOW'') \<or>
       map_of r ''authority'' = Some (VStr ''COMPARISON_ONLY'')) \<and>
    stream_update s = (Inl (Exn StreamError ''APPEND_ONLY_UPDATE_DENIED''), s) \<and>
    stream_delete s = (Inl (Exn StreamError ''APPEND_ONLY_DELETE_DENIED''), s)"
  using c2e_log.puts_prefix [of s rs] c2e_log.puts_ok [OF assms, of rs] c2e_log.ok_distinct
  by (auto simp: stream_records_def stream_update_def stream_delete_def stream_ok_def)

definition example_stream_record :: "string \<Rightarrow> pydict" where
  "example_stream_record i = [(''schema'', VStr ''c2e_remap_record/v0_2''), (''remap_record_id'', VStr i),
     (''authority'', VStr ''COMPARISON_ONLY'')]"

theorem stream_append_only_witness:
  "stream_records (c2e_log.puts [example_stream_record ''a'', example_stream_record ''a'', example_stream_record ''b''] stream_init) =
     [example_stream_record ''a'', example_stream_record ''b''] \<and>
   distinct (map stream_record_id (stream_records
     (c2e_log.puts [example_stream_record ''a'', example_stream_record ''a'', example_stream_record ''b''] stream_init)))"
proof -
  have "stream_records (c2e_log.puts [example_stream_record ''a'', example_stream_record ''a'', example_stream_record ''b''] stream_init) =
     [example_stream_record ''a'', example_stream_record ''b'']"
    unfolding c2e_log.puts.simps by code_simp
  then show ?thesis using stream_append_only [OF stream_ok_init] by blast
qed

text \<open>C37: the search of the topology always ends, and answers whether the target is reachable over the
  recorded parent-to-child edges.\<close>

theorem reaches_correct: "reaches t start target \<longleftrightarrow> (start, target) \<in> (edge_rel (t_children t))\<^sup>*"
  by (rule reaches_iff)

text \<open>C36: adding an edge keeps the topology acyclic and its edge list equal to its child relation,
  whether it succeeds or raises; it raises the cycle error exactly when the edge would close a cycle,
  and an edge that would not close one is recorded as the last edge.\<close>

theorem add_edge_acyclic:
  assumes "topology_ok t" and "ty \<in> {''NEST'', ''RE_PARENT'', ''SPLIT'', ''MERGE''}"
    and "b \<noteq> []" and "et \<noteq> []" and "fvt \<noteq> []" and "p \<noteq> []" and "c \<noteq> []"
  shows "topology_ok (snd (add_edge ty p c b et fvt t)) \<and>
    (fst (add_edge ty p c b et fvt t) = Inl (Exn TopologyError ''C2E_TOPOLOGY_CYCLE'') \<longleftrightarrow>
       \<not> acyclic (insert (p, c) (edge_rel (t_children t)))) \<and>
    (acyclic (insert (p, c) (edge_rel (t_children t))) \<longrightarrow>
       (\<exists>r. fst (add_edge ty p c b et fvt t) = Inr r \<and> edge_ends r = (p, c) \<and>
          t_edges (snd (add_edge ty p c b et fvt t)) = t_edges t @ [r]))"
proof -
  have spec: "wf_dict (edge_payload ty p c b et fvt)" "\<forall>(k, v) \<in> set (edge_payload ty p c b et fvt). field_ok k v \<and> hash_ok v"
    by (simp_all add: wf_dict_def field_ok_def SORTED_LIST_FIELDS_def)
  have ty: "ty \<noteq> []" using assms(2) by auto
  have rq: "required edge_spec = [''edge_type'', ''parent_episode_id'', ''child_episode_id'', ''boundary_event_id'',
      ''effective_time'', ''first_valid_time'', ''authority'']" by code_simp
  have "\<forall>f \<in> set (required edge_spec). present (edge_payload ty p c b et fvt) f"
    unfolding rq using assms(3-7) ty by (simp add: present_def)
  moreover have "is_ok (kind_checks ''lineage_edge'' edge_spec (norm_payload (edge_payload ty p c b et fvt)))"
    by (simp add: kind_checks_def)
  ultimately obtain r where r: "build_record ''lineage_edge'' (edge_payload ty p c b et fvt) = Inr r"
    using build_record_ok [OF edge_spec spec] by blast
  have ac: "acyclic (insert (p, c) (edge_rel (t_children t))) \<longleftrightarrow> (c, p) \<notin> (edge_rel (t_children t))\<^sup>*"
    using assms(1) unfolding topology_ok_def acyclic_insert by blast
  have cyc: "p = c \<or> reaches t c p \<longleftrightarrow> (c, p) \<in> (edge_rel (t_children t))\<^sup>*" by (auto simp: reaches_iff)
  show ?thesis
  proof (cases "(c, p) \<in> (edge_rel (t_children t))\<^sup>*")
    case True
    then have "add_edge ty p c b et fvt t = (Inl (Exn TopologyError ''C2E_TOPOLOGY_CYCLE''), t)"
      using assms(2) cyc by (auto simp: add_edge_def abind_apply req_def)
    then show ?thesis using True ac assms(1) by simp
  next
    case False
    then obtain t' where t': "add_edge ty p c b et fvt t = (Inr r, t')" "t_edges t' = t_edges t @ [r]"
      using assms(2) r by (auto simp: add_edge_Inr)
    then show ?thesis
      using add_edge_ok [OF assms(1), of ty p c b et fvt] built_edge_ends [OF r] ac False by simp
  qed
qed

theorem add_edge_acyclic_witness:
  "\<exists>r. fst (add_edge ''NEST'' ''p'' ''c'' ''b'' ''t'' ''u'' topology_init) = Inr r \<and> edge_ends r = (''p'', ''c'')"
proof -
  have "acyclic (insert (''p'', ''c'') (edge_rel (t_children topology_init)))"
    by (simp add: topology_init_def edge_rel_def children_of_def acyclic_def trancl_insert)
  then show ?thesis
    using add_edge_acyclic [OF topology_ok_init, of "''NEST''" "''b''" "''t''" "''u''" "''p''" "''c''"] by auto
qed

end
