(* ===== verification/C2E_Lifecycle.thy ===== *)
theory C2E_Lifecycle
  imports C2E_Stream
begin

section \<open>C2E v0.2: the episode engine and its projection\<close>

text \<open>
  \<^verbatim>\<open>lifecycle.py\<close> and \<^verbatim>\<open>projection.py\<close> of \<^verbatim>\<open>src/src/ovc/opt_b/c2e_v2/\<close>. The engine is a record of the
  stream, the topology and three dictionaries; every public method is an action on it, with the
  writes in the order of the source, so that a method that raises half way leaves what it wrote.
  \<open>exec\<close> runs one call, and \<open>engine_reach\<close> are the engines any sequence of calls, successful or
  not, leads to. The lemmas show the invariant of these engines and that the projection of the stream
  recovers the status the engine keeps (event sourcing).
\<close>

subsection \<open>Projection\<close>

record projection =
  p_members :: "string list"
  p_phases :: "string list"
  p_boundaries :: "string list"
  p_status :: string

definition projection_init :: projection where
  "projection_init = \<lparr>p_members = [], p_phases = [], p_boundaries = [], p_status = ''OPEN''\<rparr>"

text \<open>The new status of an episode after an action.\<close>

definition status_after :: "pyval \<Rightarrow> string \<Rightarrow> string result" where
  "status_after action st =
    bnd (in_strs action [''CENSOR_GAP'', ''CENSOR_RELEASE_END'']) (\<lambda>censored.
    Inr (if censored then ''CENSORED''
         else if action = VStr ''TERMINATE_CONFLICT'' then ''CONFLICTED''
         else if action = VStr ''TERMINATE'' then ''TERMINATED''
         else st))"

definition project_step :: "string \<Rightarrow> projection \<Rightarrow> pydict \<Rightarrow> projection result" where
  "project_step episode_id p rec =
    (let schema = dget rec ''schema'' VNone; same = (dget rec ''episode_id'' VNone = VStr episode_id) in
     if schema = VStr ''c2e_membership_delta/v0_2'' \<and> same then
       (if dget rec ''operation'' VNone = VStr ''ADD'' then
          bnd (ditem rec ''frame_id'') (\<lambda>f. Inr (p\<lparr>p_members := List.insert (py_str f) (p_members p)\<rparr>))
        else if dget rec ''operation'' VNone = VStr ''REMOVE_TOPOLOGY_EFFECT'' then
          bnd (ditem rec ''frame_id'') (\<lambda>f. Inr (p\<lparr>p_members := removeAll (py_str f) (p_members p)\<rparr>))
        else Inr p)
     else if schema = VStr ''c2e_phase_segment/v0_2'' \<and> same then
       bnd (ditem rec ''phase_segment_id'') (\<lambda>f. Inr (p\<lparr>p_phases := List.insert (py_str f) (p_phases p)\<rparr>))
     else if schema = VStr ''c2e_boundary_event/v0_2'' then
       bnd (contains (dget rec ''episode_ids'' (VList [])) episode_id) (\<lambda>mine.
       if mine then
         bnd (ditem rec ''boundary_event_id'') (\<lambda>f.
         bnd (status_after (dget rec ''lifecycle_action'' VNone) (p_status p)) (\<lambda>st.
         Inr (p\<lparr>p_boundaries := List.insert (py_str f) (p_boundaries p), p_status := st\<rparr>)))
       else Inr p)
     else Inr p)"

definition strs_list :: "string list \<Rightarrow> pyval" where
  "strs_list xs = VList (map VStr xs)"

definition project_episode :: "string \<Rightarrow> pydict list \<Rightarrow> string \<Rightarrow> string \<Rightarrow> pydict result" where
  "project_episode episode_id records as_of_time first_valid_time =
    bnd (foldM (project_step episode_id) projection_init records) (\<lambda>p.
    build_record ''episode_snapshot''
      [(''episode_id'', VStr episode_id), (''as_of_time'', VStr as_of_time), (''first_valid_time'', VStr first_valid_time),
       (''status'', VStr (p_status p)), (''member_ids'', strs_list (sort (p_members p))),
       (''phase_segment_ids'', strs_list (sort (p_phases p))), (''boundary_event_ids'', strs_list (sort (p_boundaries p))),
       (''authority'', VStr ''INACTIVE_NONCANONICAL_SHADOW'')])"

subsection \<open>The engine\<close>

type_synonym owner_key = "string \<times> string \<times> string"

record engine =
  e_pack_id :: string
  e_stream :: stream
  e_topology :: topology
  e_genesis :: "(string \<times> pydict) list"
  e_status :: "(string \<times> string) list"
  e_owner :: "(owner_key \<times> string) list"

definition engine_init :: "string \<Rightarrow> engine" where
  "engine_init boundary_pack_id = \<lparr>e_pack_id = boundary_pack_id, e_stream = stream_init, e_topology = topology_init,
     e_genesis = [], e_status = [], e_owner = []\<rparr>"

text \<open>An action on the stream or on the topology, run inside the engine.\<close>

definition on_stream :: "(stream, 'a) act \<Rightarrow> (engine, 'a) act" where
  "on_stream m = (\<lambda>s. case m (e_stream s) of (r, st) \<Rightarrow> (r, s\<lparr>e_stream := st\<rparr>))"

definition on_topology :: "(topology, 'a) act \<Rightarrow> (engine, 'a) act" where
  "on_topology m = (\<lambda>s. case m (e_topology s) of (r, t) \<Rightarrow> (r, s\<lparr>e_topology := t\<rparr>))"

definition require_open :: "string \<Rightarrow> (engine, unit) act" where
  "require_open episode_id =
    abind (aget (\<lambda>s. map_of (e_status s) episode_id = Some ''OPEN'')) (\<lambda>is_open.
    lift_r (req LifecycleError is_open ''EPISODE_NOT_OPEN''))"

text \<open>\<^verbatim>\<open>_build_event\<close> with its default \<^verbatim>\<open>compatibility\<close> and \<^verbatim>\<open>collision\<close>, which no caller overrides.\<close>

definition build_event ::
  "string list \<Rightarrow> string list \<Rightarrow> string \<Rightarrow> int \<Rightarrow> string \<Rightarrow> string \<Rightarrow> string list \<Rightarrow> pydict result" where
  "build_event episode_ids candidate_ids action priority effective_time first_valid_time reason_codes =
    build_record ''boundary_event''
      [(''episode_ids'', strs_list episode_ids), (''candidate_ids'', strs_list candidate_ids),
       (''lifecycle_action'', VStr action), (''priority_class'', VInt priority),
       (''compatibility_disposition'', VStr ''ORDERED_BY_PRIORITY''), (''effective_time'', VStr effective_time),
       (''confirmation_time'', VStr first_valid_time), (''first_valid_time'', VStr first_valid_time),
       (''collision_disposition'', VStr ''NONE''), (''reason_codes'', strs_list reason_codes),
       (''authority'', VStr ''INACTIVE_NONCANONICAL_SHADOW'')]"

definition emit_event ::
  "string list \<Rightarrow> string list \<Rightarrow> string \<Rightarrow> int \<Rightarrow> string \<Rightarrow> string \<Rightarrow> string list \<Rightarrow> (engine, pydict) act" where
  "emit_event episode_ids candidate_ids action priority effective_time first_valid_time reason_codes =
    abind (lift_r (build_event episode_ids candidate_ids action priority effective_time first_valid_time reason_codes)) (\<lambda>event.
    abind (on_stream (stream_append event)) (\<lambda>_.
    areturn event))"

definition owner_key_of :: "pydict \<Rightarrow> owner_key result" where
  "owner_key_of frame =
    bnd (ditem frame ''identity'') (\<lambda>identity.
    bnd (vitem identity ''scope_id'') (\<lambda>scope.
    bnd (vitem identity ''scale_id'') (\<lambda>scale.
    bnd (ditem frame ''frame_id'') (\<lambda>fid.
    Inr (py_str scope, py_str scale, py_str fid)))))"

definition build_genesis :: "string \<Rightarrow> pydict \<Rightarrow> string \<Rightarrow> string \<Rightarrow> string \<Rightarrow> pydict result" where
  "build_genesis pack_id frame boundary_rule_id effective_time first_valid_time =
    bnd (ditem frame ''identity'') (\<lambda>identity.
    bnd (ditem frame ''source_binding'') (\<lambda>sb. bnd (vitem sb ''source_release_id'') (\<lambda>release.
    bnd (vitem identity ''instrument_id'') (\<lambda>instrument.
    bnd (vitem identity ''side'') (\<lambda>side.
    bnd (vitem identity ''scope_id'') (\<lambda>scope.
    bnd (vitem identity ''scale_id'') (\<lambda>scale.
    bnd (ditem frame ''frame_id'') (\<lambda>fid.
    build_record ''episode_genesis''
      [(''boundary_pack_id'', VStr pack_id), (''source_release_id'', release), (''instrument_id'', instrument),
       (''side'', side), (''scope_id'', scope), (''scale_id'', scale), (''birth_frame_id'', fid),
       (''birth_boundary_rule_id'', VStr boundary_rule_id), (''birth_effective_time'', VStr effective_time),
       (''first_valid_time'', VStr first_valid_time), (''authority'', VStr ''INACTIVE_NONCANONICAL_SHADOW'')]))))))))"

definition build_membership :: "string \<Rightarrow> pyval \<Rightarrow> pyval \<Rightarrow> string \<Rightarrow> string \<Rightarrow> pydict result" where
  "build_membership episode_id fid event_id effective_time first_valid_time =
    build_record ''membership_delta''
      [(''episode_id'', VStr episode_id), (''frame_id'', fid), (''operation'', VStr ''ADD''), (''boundary_event_id'', event_id),
       (''effective_time'', VStr effective_time), (''first_valid_time'', VStr first_valid_time),
       (''authority'', VStr ''INACTIVE_NONCANONICAL_SHADOW'')]"

text \<open>The identifier of a built record is a string, which indexes the dictionaries of the engine.\<close>

definition str_item :: "pydict \<Rightarrow> string \<Rightarrow> string result" where
  "str_item d k = bnd (ditem d k) (\<lambda>v. case v of VStr s \<Rightarrow> Inr s | _ \<Rightarrow> Inl (Exn TypeError []))"

definition birth :: "pydict \<Rightarrow> string \<Rightarrow> string \<Rightarrow> string \<Rightarrow> string \<Rightarrow> (engine, pydict) act" where
  "birth frame boundary_rule_id candidate_id effective_time first_valid_time =
    abind (lift_r (owner_key_of frame)) (\<lambda>owner_key.
    abind (aget (\<lambda>s. map_of (e_owner s) owner_key = None)) (\<lambda>free.
    abind (lift_r (req LifecycleError free ''C2E_OWNER_MULTIPLE_PEER_OWNERS'')) (\<lambda>_.
    abind (aget e_pack_id) (\<lambda>pack_id.
    abind (lift_r (build_genesis pack_id frame boundary_rule_id effective_time first_valid_time)) (\<lambda>genesis.
    abind (on_stream (stream_append genesis)) (\<lambda>_.
    abind (lift_r (str_item genesis ''episode_id'')) (\<lambda>i.
    abind (amod (\<lambda>s. s\<lparr>e_genesis := AList.update i genesis (e_genesis s)\<rparr>)) (\<lambda>_.
    abind (amod (\<lambda>s. s\<lparr>e_status := AList.update i ''OPEN'' (e_status s)\<rparr>)) (\<lambda>_.
    abind (amod (\<lambda>s. s\<lparr>e_owner := AList.update owner_key i (e_owner s)\<rparr>)) (\<lambda>_.
    abind (emit_event [i] [candidate_id] ''BIRTH'' 8 effective_time first_valid_time []) (\<lambda>event.
    abind (lift_r (ditem frame ''frame_id'')) (\<lambda>fid.
    abind (lift_r (ditem event ''boundary_event_id'')) (\<lambda>event_id.
    abind (lift_r (build_membership i fid event_id effective_time first_valid_time)) (\<lambda>membership.
    abind (on_stream (stream_append membership)) (\<lambda>_.
    areturn genesis)))))))))))))))"

definition continue_episode :: "string \<Rightarrow> pydict \<Rightarrow> string \<Rightarrow> string \<Rightarrow> string \<Rightarrow> (engine, pydict) act" where
  "continue_episode episode_id frame candidate_id effective_time first_valid_time =
    abind (require_open episode_id) (\<lambda>_.
    abind (lift_r (owner_key_of frame)) (\<lambda>owner_key.
    abind (aget (\<lambda>s. map_of (e_owner s) owner_key)) (\<lambda>existing.
    abind (lift_r (req LifecycleError (existing = None \<or> existing = Some episode_id) ''C2E_OWNER_MULTIPLE_PEER_OWNERS'')) (\<lambda>_.
    abind (emit_event [episode_id] [candidate_id] ''CONTINUATION'' 7 effective_time first_valid_time []) (\<lambda>event.
    abind (lift_r (ditem frame ''frame_id'')) (\<lambda>fid.
    abind (lift_r (ditem event ''boundary_event_id'')) (\<lambda>event_id.
    abind (lift_r (build_membership episode_id fid event_id effective_time first_valid_time)) (\<lambda>membership.
    abind (on_stream (stream_append membership)) (\<lambda>_.
    abind (amod (\<lambda>s. s\<lparr>e_owner := AList.update owner_key episode_id (e_owner s)\<rparr>)) (\<lambda>_.
    areturn membership))))))))))"

definition phase_mutation ::
  "string \<Rightarrow> string \<Rightarrow> string \<Rightarrow> string \<Rightarrow> string option \<Rightarrow> string list \<Rightarrow> string \<Rightarrow> string \<Rightarrow> (engine, pydict) act" where
  "phase_mutation episode_id candidate_id phase_type start_time end_time source_record_ids effective_time first_valid_time =
    abind (require_open episode_id) (\<lambda>_.
    abind (emit_event [episode_id] [candidate_id] ''PHASE_MUTATION'' 6 effective_time first_valid_time []) (\<lambda>_.
    abind (lift_r (build_record ''phase_segment''
      [(''episode_id'', VStr episode_id), (''phase_type'', VStr phase_type), (''start_time'', VStr start_time),
       (''end_time'', case end_time of Some t \<Rightarrow> VStr t | None \<Rightarrow> VNone), (''first_valid_time'', VStr first_valid_time),
       (''source_record_ids'', strs_list source_record_ids), (''authority'', VStr ''INACTIVE_NONCANONICAL_SHADOW'')])) (\<lambda>phase.
    abind (on_stream (stream_append phase)) (\<lambda>_.
    areturn phase))))"

definition re_parent :: "string \<Rightarrow> string \<Rightarrow> string \<Rightarrow> string \<Rightarrow> string list option \<Rightarrow> (engine, pydict) act" where
  "re_parent episode_id candidate_id effective_time first_valid_time reason_codes =
    abind (require_open episode_id) (\<lambda>_.
    emit_event [episode_id] [candidate_id] ''RE_PARENT'' 4 effective_time first_valid_time
      (case reason_codes of Some cs \<Rightarrow> cs | None \<Rightarrow> []))"

definition censor :: "string \<Rightarrow> string \<Rightarrow> string \<Rightarrow> string \<Rightarrow> string \<Rightarrow> (engine, pydict) act" where
  "censor episode_id candidate_id reason effective_time first_valid_time =
    abind (require_open episode_id) (\<lambda>_.
    abind (lift_r (req LifecycleError (reason \<in> {''CENSOR_GAP'', ''CENSOR_RELEASE_END''}) ''CENSOR_REASON_INVALID'')) (\<lambda>_.
    abind (emit_event [episode_id] [candidate_id] reason 2 effective_time first_valid_time
      [if reason = ''CENSOR_GAP'' then ''C2E_SOURCE_GAP'' else ''C2E_RELEASE_END_CENSORED'']) (\<lambda>event.
    abind (amod (\<lambda>s. s\<lparr>e_status := AList.update episode_id ''CENSORED'' (e_status s)\<rparr>)) (\<lambda>_.
    areturn event))))"

definition terminate :: "string \<Rightarrow> string \<Rightarrow> bool \<Rightarrow> string \<Rightarrow> string \<Rightarrow> (engine, pydict) act" where
  "terminate episode_id candidate_id conflict effective_time first_valid_time =
    abind (require_open episode_id) (\<lambda>_.
    abind (emit_event [episode_id] [candidate_id] (if conflict then ''TERMINATE_CONFLICT'' else ''TERMINATE'')
      (if conflict then 3 else 5) effective_time first_valid_time (if conflict then [''C2E_CONFLICT''] else [])) (\<lambda>event.
    abind (amod (\<lambda>s. s\<lparr>e_status := AList.update episode_id (if conflict then ''CONFLICTED'' else ''TERMINATED'') (e_status s)\<rparr>)) (\<lambda>_.
    areturn event)))"

definition link_episodes :: "string \<Rightarrow> string \<Rightarrow> string \<Rightarrow> string \<Rightarrow> string \<Rightarrow> string \<Rightarrow> (engine, pydict) act" where
  "link_episodes edge_type parent_episode_id child_episode_id candidate_id effective_time first_valid_time =
    abind (aget (\<lambda>s. map_of (e_genesis s) parent_episode_id \<noteq> None \<and> map_of (e_genesis s) child_episode_id \<noteq> None)) (\<lambda>known.
    abind (lift_r (req LifecycleError known ''TOPOLOGY_EPISODE_NOT_FOUND'')) (\<lambda>_.
    abind (lift_r (build_event (sorted_set [parent_episode_id, child_episode_id]) [candidate_id] edge_type 4
      effective_time first_valid_time [])) (\<lambda>event.
    abind (lift_r (str_item event ''boundary_event_id'')) (\<lambda>event_id.
    abind (on_topology (add_edge edge_type parent_episode_id child_episode_id event_id effective_time first_valid_time)) (\<lambda>edge.
    abind (on_stream (stream_append event)) (\<lambda>_.
    abind (on_stream (stream_append edge)) (\<lambda>_.
    areturn edge)))))))"

definition snapshot :: "engine \<Rightarrow> string \<Rightarrow> string \<Rightarrow> string \<Rightarrow> pydict result" where
  "snapshot s episode_id as_of_time first_valid_time =
    project_episode episode_id (stream_records (e_stream s)) as_of_time first_valid_time"

subsection \<open>Runs\<close>

datatype engine_call =
    Birth pydict string string string string
  | Continue string pydict string string string
  | Phase_Mutation string string string string "string option" "string list" string string
  | Re_Parent string string string string "string list option"
  | Censor string string string string string
  | Terminate string string bool string string
  | Link string string string string string string

fun exec :: "engine_call \<Rightarrow> (engine, pydict) act" where
  "exec (Birth f r c et fvt) = birth f r c et fvt"
| "exec (Continue e f c et fvt) = continue_episode e f c et fvt"
| "exec (Phase_Mutation e c pt st en src et fvt) = phase_mutation e c pt st en src et fvt"
| "exec (Re_Parent e c et fvt rs) = re_parent e c et fvt rs"
| "exec (Censor e c r et fvt) = censor e c r et fvt"
| "exec (Terminate e c b et fvt) = terminate e c b et fvt"
| "exec (Link ty p ch c et fvt) = link_episodes ty p ch c et fvt"

inductive engine_reach :: "string \<Rightarrow> engine \<Rightarrow> bool" for pack_id where
  reach_init: "engine_reach pack_id (engine_init pack_id)"
| reach_call: "engine_reach pack_id s \<Longrightarrow> engine_reach pack_id (snd (exec call s))"

inductive_cases engine_reachE: "engine_reach pack_id s"

subsection \<open>The record kinds of the engine\<close>

definition spec_of :: "string \<Rightarrow> record_spec" where
  "spec_of kind = the (map_of RECORD_SPECS kind)"

lemma spec_of_known: "map_of RECORD_SPECS kind \<noteq> None \<Longrightarrow> map_of RECORD_SPECS kind = Some (spec_of kind)"
  by (auto simp: spec_of_def)

lemma engine_kinds:
  "map_of RECORD_SPECS ''episode_genesis'' = Some (spec_of ''episode_genesis'')"
  "map_of RECORD_SPECS ''boundary_event'' = Some (spec_of ''boundary_event'')"
  "map_of RECORD_SPECS ''membership_delta'' = Some (spec_of ''membership_delta'')"
  "map_of RECORD_SPECS ''phase_segment'' = Some (spec_of ''phase_segment'')"
  "map_of RECORD_SPECS ''lineage_edge'' = Some (spec_of ''lineage_edge'')"
  "map_of RECORD_SPECS ''episode_snapshot'' = Some (spec_of ''episode_snapshot'')"
  by (rule spec_of_known, code_simp)+

lemma engine_schemas:
  "schema_of (spec_of ''episode_genesis'') = ''c2e_episode_genesis/v0_2''" "id_field (spec_of ''episode_genesis'') = ''episode_id''"
  "schema_of (spec_of ''boundary_event'') = ''c2e_boundary_event/v0_2''" "id_field (spec_of ''boundary_event'') = ''boundary_event_id''"
  "schema_of (spec_of ''membership_delta'') = ''c2e_membership_delta/v0_2''" "id_field (spec_of ''membership_delta'') = ''membership_delta_id''"
  "schema_of (spec_of ''phase_segment'') = ''c2e_phase_segment/v0_2''" "id_field (spec_of ''phase_segment'') = ''phase_segment_id''"
  "schema_of (spec_of ''lineage_edge'') = ''c2e_lineage_edge/v0_2''" "id_field (spec_of ''lineage_edge'') = ''lineage_edge_id''"
  "schema_of (spec_of ''episode_snapshot'') = ''c2e_episode_snapshot/v0_2''" "id_field (spec_of ''episode_snapshot'') = ''snapshot_id''"
  by code_simp+

lemma built_schema:
  "build_record kind p = Inr r \<Longrightarrow> map_of RECORD_SPECS kind = Some spec \<Longrightarrow> map_of r ''schema'' = Some (VStr (schema_of spec))"
  by (rule build_record_map_of(1))

lemma built_field:
  assumes "build_record kind p = Inr r" and "map_of RECORD_SPECS kind = Some spec"
    and "k \<noteq> ''schema''" and "k \<noteq> id_field spec" and "k \<noteq> ''logical_hash''"
  shows "map_of r k = map_option (norm_field k) (map_of p k)"
  using build_record_map_of(2) [OF assms(1,2), of k] assms(3-5) by (simp add: derived_fields_def)

lemma norm_field_VStr [simp]: "norm_field k (VStr s) = VStr s"
  by (simp add: norm_field_def)

lemma norm_field_strs: "\<exists>ys. norm_field k (strs_list xs) = strs_list ys \<and> set ys = set xs"
proof -
  let ?l = "sort_key py_str (map VStr xs)"
  have "map VStr (map py_str ?l) = ?l" by (subst map_map, rule map_idI) auto
  moreover have "set (map py_str ?l) = set xs" by (auto simp: image_iff)
  ultimately have "\<exists>ys. ?l = map VStr ys \<and> set ys = set xs" by metis
  then show ?thesis by (cases "k \<in> set SORTED_LIST_FIELDS") (auto simp: norm_field_def strs_list_def)
qed

subsection \<open>What the emitted records look like to the projection\<close>

definition is_schema :: "pydict \<Rightarrow> string \<Rightarrow> bool" where
  "is_schema r s \<longleftrightarrow> map_of r ''schema'' = Some (VStr s)"

lemma build_event_fields:
  assumes "build_event es cs action pri et fvt rs = Inr r"
  shows "is_schema r ''c2e_boundary_event/v0_2''" and "map_of r ''lifecycle_action'' = Some (VStr action)"
    and "\<exists>ids. map_of r ''episode_ids'' = Some (strs_list ids) \<and> set ids = set es"
    and "\<exists>i. map_of r ''boundary_event_id'' = Some (VStr i)"
    and "map_of r ''authority'' = Some (VStr ''INACTIVE_NONCANONICAL_SHADOW'')"
proof -
  note b = assms [unfolded build_event_def]
  note f = built_field [OF b engine_kinds(2)]
  show "is_schema r ''c2e_boundary_event/v0_2''"
    using built_schema [OF b engine_kinds(2)] by (simp add: is_schema_def engine_schemas)
  show "map_of r ''lifecycle_action'' = Some (VStr action)"
    using f [of "''lifecycle_action''"] by (simp add: engine_schemas)
  show "map_of r ''authority'' = Some (VStr ''INACTIVE_NONCANONICAL_SHADOW'')"
    using f [of "''authority''"] by (simp add: engine_schemas)
  show "\<exists>ids. map_of r ''episode_ids'' = Some (strs_list ids) \<and> set ids = set es"
    using f [of "''episode_ids''"] norm_field_strs [of "''episode_ids''" es] by (auto simp: engine_schemas)
  show "\<exists>i. map_of r ''boundary_event_id'' = Some (VStr i)"
    using build_record_map_of(3) [OF b engine_kinds(2)] by (simp add: engine_schemas)
qed

lemma build_membership_fields:
  assumes "build_membership e fid ev et fvt = Inr r"
  shows "is_schema r ''c2e_membership_delta/v0_2''" and "map_of r ''episode_id'' = Some (VStr e)"
    and "\<exists>f. map_of r ''frame_id'' = Some f \<and> py_str f = py_str fid" and "map_of r ''operation'' = Some (VStr ''ADD'')"
    and "map_of r ''authority'' = Some (VStr ''INACTIVE_NONCANONICAL_SHADOW'')"
proof -
  note b = assms [unfolded build_membership_def]
  note f = built_field [OF b engine_kinds(3)]
  have n: "''frame_id'' \<notin> set SORTED_LIST_FIELDS" by code_simp
  show "is_schema r ''c2e_membership_delta/v0_2''"
    using built_schema [OF b engine_kinds(3)] by (simp add: is_schema_def engine_schemas)
  show "map_of r ''episode_id'' = Some (VStr e)" using f [of "''episode_id''"] by (simp add: engine_schemas)
  show "map_of r ''operation'' = Some (VStr ''ADD'')" using f [of "''operation''"] by (simp add: engine_schemas)
  show "map_of r ''authority'' = Some (VStr ''INACTIVE_NONCANONICAL_SHADOW'')"
    using f [of "''authority''"] by (simp add: engine_schemas)
  show "\<exists>f. map_of r ''frame_id'' = Some f \<and> py_str f = py_str fid"
    using f [of "''frame_id''"] n by (simp add: engine_schemas)
qed

lemma build_genesis_fields:
  assumes "build_genesis pack frame rule et fvt = Inr r"
  shows "is_schema r ''c2e_episode_genesis/v0_2''" and "\<exists>i. map_of r ''episode_id'' = Some (VStr i) \<and> i \<noteq> [] \<and> stream_record_id r = Inr i"
    and "map_of r ''authority'' = Some (VStr ''INACTIVE_NONCANONICAL_SHADOW'')" and "et \<noteq> []" and "fvt \<noteq> []"
proof -
  obtain release instrument side scope scale fid where b: "build_record ''episode_genesis''
      [(''boundary_pack_id'', VStr pack), (''source_release_id'', release), (''instrument_id'', instrument),
       (''side'', side), (''scope_id'', scope), (''scale_id'', scale), (''birth_frame_id'', fid),
       (''birth_boundary_rule_id'', VStr rule), (''birth_effective_time'', VStr et),
       (''first_valid_time'', VStr fvt), (''authority'', VStr ''INACTIVE_NONCANONICAL_SHADOW'')] = Inr r"
    using assms unfolding build_genesis_def bnd_eq_Inr by blast
  note f = built_field [OF b engine_kinds(1)]
  show "is_schema r ''c2e_episode_genesis/v0_2''"
    using built_schema [OF b engine_kinds(1)] by (simp add: is_schema_def engine_schemas)
  show "map_of r ''authority'' = Some (VStr ''INACTIVE_NONCANONICAL_SHADOW'')"
    using f [of "''authority''"] by (simp add: engine_schemas)
  obtain i where i: "map_of r ''episode_id'' = Some (VStr i)"
    "digest (prefix_of (spec_of ''episode_genesis'')) (VDict (identity_payload (spec_of ''episode_genesis'') r)) 32 = Inr i"
    using build_record_id [OF b engine_kinds(1)] unfolding engine_schemas by blast
  then have "i \<noteq> []" by (auto simp: digest_Inr)
  then show "\<exists>i. map_of r ''episode_id'' = Some (VStr i) \<and> i \<noteq> [] \<and> stream_record_id r = Inr i"
    using i(1) stream_record_id_built [OF b engine_kinds(1)] by (auto simp: engine_schemas)
  have rq: "''birth_effective_time'' \<in> set (required (spec_of ''episode_genesis''))"
    "''first_valid_time'' \<in> set (required (spec_of ''episode_genesis''))" by code_simp+
  show "et \<noteq> []" using build_record_present(4) [OF b engine_kinds(1) rq(1)] by simp
  show "fvt \<noteq> []" using build_record_present(4) [OF b engine_kinds(1) rq(2)] by simp
qed

text \<open>Records the projection can read: what they mention is known to the engine (\<open>G\<close>).\<close>

definition rec_ok :: "string set \<Rightarrow> pydict \<Rightarrow> bool" where
  "rec_ok G r \<longleftrightarrow>
    (\<exists>s. is_schema r s) \<and>
    (is_schema r ''c2e_boundary_event/v0_2'' \<longrightarrow>
      (\<exists>ids a i. map_of r ''episode_ids'' = Some (strs_list ids) \<and> set ids \<subseteq> G \<and> map_of r ''lifecycle_action'' = Some (VStr a) \<and>
         map_of r ''boundary_event_id'' = Some (VStr i))) \<and>
    (is_schema r ''c2e_membership_delta/v0_2'' \<longrightarrow>
      (\<exists>e f. map_of r ''episode_id'' = Some (VStr e) \<and> e \<in> G \<and> map_of r ''frame_id'' = Some f \<and>
         map_of r ''operation'' = Some (VStr ''ADD''))) \<and>
    (is_schema r ''c2e_phase_segment/v0_2'' \<longrightarrow>
      (\<exists>e i. map_of r ''episode_id'' = Some (VStr e) \<and> e \<in> G \<and> map_of r ''phase_segment_id'' = Some (VStr i)))"

lemma rec_ok_mono: "rec_ok G r \<Longrightarrow> G \<subseteq> H \<Longrightarrow> rec_ok H r"
  unfolding rec_ok_def by blast

text \<open>The effect of one record on the status of one episode, and its members.\<close>

definition event_status :: "string \<Rightarrow> pydict \<Rightarrow> string \<Rightarrow> string" where
  "event_status e r st =
    (if is_schema r ''c2e_boundary_event/v0_2'' \<and> contains (dget r ''episode_ids'' (VList [])) e = Inr True
     then projr (status_after (dget r ''lifecycle_action'' VNone) st) else st)"

definition member_of :: "string \<Rightarrow> pydict \<Rightarrow> string set" where
  "member_of e r = (if is_schema r ''c2e_membership_delta/v0_2'' \<and> map_of r ''episode_id'' = Some (VStr e)
     then {py_str (the (map_of r ''frame_id''))} else {})"

lemma dget_schema: "dget r ''schema'' VNone = VStr s \<longleftrightarrow> is_schema r s"
  by (auto simp: dget_def is_schema_def split: option.splits)

lemma dget_VStr_iff: "dget r k VNone = VStr s \<longleftrightarrow> map_of r k = Some (VStr s)"
  by (auto simp: dget_def split: option.splits)

lemma is_schema_unique: "is_schema r s \<Longrightarrow> is_schema r t \<longleftrightarrow> s = t"
  by (auto simp: is_schema_def)

lemma status_after_VStr: "\<exists>st'. status_after (VStr a) st = Inr st'"
  by (simp add: status_after_def)

lemma project_step_ok:
  assumes "rec_ok G r"
  shows "\<exists>p'. project_step e p r = Inr p' \<and> p_status p' = event_status e r (p_status p) \<and>
    set (p_members p') = member_of e r \<union> set (p_members p)"
proof -
  obtain s where s: "is_schema r s" using assms unfolding rec_ok_def by blast
  note u = is_schema_unique [OF s]
  consider "s = ''c2e_membership_delta/v0_2''" | "s = ''c2e_phase_segment/v0_2''" | "s = ''c2e_boundary_event/v0_2''" |
    "s \<notin> {''c2e_membership_delta/v0_2'', ''c2e_phase_segment/v0_2'', ''c2e_boundary_event/v0_2''}" by blast
  then show ?thesis
  proof cases
    case 1
    with assms s obtain e' f where "map_of r ''episode_id'' = Some (VStr e')" "map_of r ''frame_id'' = Some f"
      "map_of r ''operation'' = Some (VStr ''ADD'')" by (auto simp: rec_ok_def)
    with 1 show ?thesis
      by (auto simp: project_step_def Let_def dget_schema dget_Some u ditem_def event_status_def member_of_def)
  next
    case 2
    with assms s obtain e' i where "map_of r ''episode_id'' = Some (VStr e')" "map_of r ''phase_segment_id'' = Some (VStr i)"
      by (auto simp: rec_ok_def)
    with 2 show ?thesis
      by (auto simp: project_step_def Let_def dget_schema dget_Some u ditem_def event_status_def member_of_def)
  next
    case 3
    with assms s obtain ids a i where r: "map_of r ''episode_ids'' = Some (strs_list ids)"
      "map_of r ''lifecycle_action'' = Some (VStr a)" "map_of r ''boundary_event_id'' = Some (VStr i)" by (auto simp: rec_ok_def)
    obtain st' where "status_after (VStr a) (p_status p) = Inr st'" using status_after_VStr by blast
    moreover have "dget r ''lifecycle_action'' VNone = VStr a" "dget r ''episode_ids'' (VList []) = strs_list ids"
      using r by (simp_all add: dget_def)
    moreover have "contains (strs_list ids) e = Inr (e \<in> set ids)" by (auto simp: strs_list_def)
    ultimately show ?thesis using 3 r
      by (simp add: project_step_def Let_def dget_schema u ditem_def event_status_def member_of_def)
  next
    case 4
    then show ?thesis
      by (auto simp: project_step_def Let_def dget_schema u event_status_def member_of_def)
  qed
qed

lemma project_ok:
  assumes "\<forall>r \<in> set rs. rec_ok G r"
  shows "\<exists>p. foldM (project_step e) projection_init rs = Inr p \<and> p_status p = fold (event_status e) rs ''OPEN'' \<and>
    set (p_members p) = (\<Union>r \<in> set rs. member_of e r)"
  using assms
proof (induction rs rule: rev_induct)
  case Nil
  then show ?case by (simp add: projection_init_def)
next
  case (snoc r rs)
  then obtain p where p: "foldM (project_step e) projection_init rs = Inr p" "p_status p = fold (event_status e) rs ''OPEN''"
    "set (p_members p) = (\<Union>r \<in> set rs. member_of e r)" by auto
  then show ?case using project_step_ok [of G r e p] snoc.prems by (auto simp: foldM_snoc)
qed

subsection \<open>The invariant of the engine\<close>

abbreviation recs :: "engine \<Rightarrow> pydict list" where
  "recs s \<equiv> s_records (e_stream s)"

abbreviation episodes :: "engine \<Rightarrow> string set" where
  "episodes s \<equiv> dom (map_of (e_genesis s))"

definition engine_ok :: "engine \<Rightarrow> bool" where
  "engine_ok s \<longleftrightarrow>
    stream_ok (e_stream s) \<and> topology_ok (e_topology s) \<and>
    dom (map_of (e_status s)) = episodes s \<and>
    (\<forall>i \<in> episodes s. i \<noteq> [] \<and> i \<in> set (s_ids (e_stream s))) \<and>
    (\<forall>r \<in> set (recs s). rec_ok (episodes s) r) \<and>
    (\<forall>e st. map_of (e_status s) e = Some st \<longrightarrow> fold (event_status e) (recs s) ''OPEN'' = st) \<and>
    (\<forall>e. \<forall>r \<in> set (recs s). \<forall>f \<in> member_of e r. \<exists>sc sl. map_of (e_owner s) (sc, sl, f) = Some e) \<and>
    ran (map_of (e_owner s)) \<subseteq> episodes s"

lemma engine_okD:
  assumes "engine_ok s"
  shows "stream_ok (e_stream s)" "topology_ok (e_topology s)" "dom (map_of (e_status s)) = episodes s"
    "\<And>i. i \<in> episodes s \<Longrightarrow> i \<noteq> []" "\<And>i. i \<in> episodes s \<Longrightarrow> i \<in> set (s_ids (e_stream s))"
    "\<And>r. r \<in> set (recs s) \<Longrightarrow> rec_ok (episodes s) r"
    "\<And>e st. map_of (e_status s) e = Some st \<Longrightarrow> fold (event_status e) (recs s) ''OPEN'' = st"
    "\<And>e r f. r \<in> set (recs s) \<Longrightarrow> f \<in> member_of e r \<Longrightarrow> \<exists>sc sl. map_of (e_owner s) (sc, sl, f) = Some e"
    "ran (map_of (e_owner s)) \<subseteq> episodes s"
  using assms unfolding engine_ok_def by blast+

lemma engine_ok_init: "engine_ok (engine_init pack_id)"
  by (simp add: engine_ok_def engine_init_def stream_ok_init topology_ok_init) (simp add: stream_init_def)

definition put_rec :: "pydict \<Rightarrow> string \<Rightarrow> engine \<Rightarrow> engine" where
  "put_rec r i s = s\<lparr>e_stream := (e_stream s)\<lparr>s_records := recs s @ [r], s_ids := i # s_ids (e_stream s)\<rparr>\<rparr>"

lemma put_rec_simps [simp]:
  "recs (put_rec r i s) = recs s @ [r]" "s_ids (e_stream (put_rec r i s)) = i # s_ids (e_stream s)"
  "e_topology (put_rec r i s) = e_topology s" "e_genesis (put_rec r i s) = e_genesis s"
  "e_status (put_rec r i s) = e_status s" "e_owner (put_rec r i s) = e_owner s"
  by (simp_all add: put_rec_def)

lemma on_stream_append:
  assumes "on_stream (stream_append r) s = (m, s')"
  shows "(\<exists>e. m = Inl e \<and> s' = s) \<or> (\<exists>i. m = Inr () \<and> stream_record_id r = Inr i \<and> i \<notin> set (s_ids (e_stream s)) \<and>
    s' = put_rec r i s \<and> (stream_ok (e_stream s) \<longrightarrow> stream_ok (e_stream s')))"
proof -
  obtain m' st where a: "stream_append r (e_stream s) = (m', st)" by (cases "stream_append r (e_stream s)")
  then have s': "m = m'" "s' = s\<lparr>e_stream := st\<rparr>" using assms by (simp_all add: on_stream_def)
  show ?thesis
  proof (cases m')
    case (Inl e)
    then show ?thesis using a s' stream_append_Inl [of r "e_stream s" e st] by simp
  next
    case (Inr u)
    then obtain i where i: "stream_record_id r = Inr i" "i \<notin> set (s_ids (e_stream s))"
        "st = (e_stream s)\<lparr>s_records := recs s @ [r], s_ids := i # s_ids (e_stream s)\<rparr>"
      using a by (auto simp: stream_append_Inr)
    have "stream_ok (e_stream s) \<longrightarrow> stream_ok (e_stream s')"
      using stream_append_ok [of "e_stream s" r] a s' by simp
    moreover have "s' = put_rec r i s" using s' i by (simp add: put_rec_def)
    moreover have "m = Inr ()" using s' Inr by simp
    ultimately show ?thesis using i by blast
  qed
qed

text \<open>A record that changes no status keeps the invariant.\<close>

lemma put_rec_ok:
  assumes "engine_ok s" and "stream_ok (e_stream (put_rec r i s))" and "rec_ok (episodes s) r"
    and "\<And>e st. e \<in> episodes s \<Longrightarrow> event_status e r st = st"
    and "\<And>e f. f \<in> member_of e r \<Longrightarrow> \<exists>sc sl. map_of (e_owner s) (sc, sl, f) = Some e"
  shows "engine_ok (put_rec r i s)"
proof -
  note d = engine_okD [OF assms(1)]
  have f: "fold (event_status e) (recs s @ [r]) ''OPEN'' = st" if "map_of (e_status s) e = Some st" for e st
  proof -
    have "e \<in> episodes s" using that d(3) by blast
    then show ?thesis using d(7) [OF that] assms(4) by simp
  qed
  have o: "\<exists>sc sl. map_of (e_owner s) (sc, sl, g) = Some e" if "q \<in> set (recs s @ [r])" "g \<in> member_of e q" for e q g
    using that d(8) [of q g e] assms(5) [of g e] by auto
  have k: "rec_ok (episodes s) q" if "q \<in> set (recs s @ [r])" for q
    using that d(6) [of q] assms(3) by auto
  show ?thesis unfolding engine_ok_def put_rec_simps
    using assms(2) d(2,3,9) d(4,5) f o k by (intro conjI allI ballI impI) (assumption | simp)+
qed

lemma triple_append:
  assumes "\<And>s. P s \<Longrightarrow> engine_ok s \<and> rec_ok (episodes s) r \<and> (\<forall>e \<in> episodes s. \<forall>st. event_status e r st = st) \<and>
      (\<forall>e. \<forall>f \<in> member_of e r. \<exists>sc sl. map_of (e_owner s) (sc, sl, f) = Some e)"
    and "\<And>s i. P s \<Longrightarrow> engine_ok (put_rec r i s) \<Longrightarrow> Q (put_rec r i s)"
  shows "triple P (on_stream (stream_append r)) (\<lambda>_. Q) engine_ok"
proof (rule tripleI)
  fix s e s' assume "P s" "on_stream (stream_append r) s = (Inl e, s')"
  then show "engine_ok s'" using on_stream_append [of r s "Inl e" s'] assms(1) by auto
next
  fix s x s' assume p: "P s" and "on_stream (stream_append r) s = (Inr x, s')"
  then obtain i where i: "s' = put_rec r i s" "stream_ok (e_stream s')"
    using on_stream_append [of r s "Inr x" s'] assms(1) [OF p] engine_okD(1) by auto
  then have "engine_ok (put_rec r i s)" using assms(1) [OF p] by (intro put_rec_ok) auto
  then show "Q s'" using assms(2) [OF p] i by simp
qed

lemma event_status_built:
  assumes "build_event es cs a pri et fvt rs = Inr r"
  shows "event_status e r st = (if e \<in> set es then projr (status_after (VStr a) st) else st)"
proof -
  obtain ids where ids: "map_of r ''episode_ids'' = Some (strs_list ids)" "set ids = set es"
    using build_event_fields(3) [OF assms] by blast
  have "contains (dget r ''episode_ids'' (VList [])) e = Inr (e \<in> set es)"
    using ids by (auto simp: dget_def strs_list_def)
  then show ?thesis using build_event_fields(1,2) [OF assms]
    by (simp add: event_status_def dget_Some)
qed

lemma member_of_event: "build_event es cs a pri et fvt rs = Inr r \<Longrightarrow> member_of e r = {}"
  using build_event_fields(1) [of es cs a pri et fvt rs r] is_schema_unique [of r "''c2e_boundary_event/v0_2''"]
  by (simp add: member_of_def)

lemma rec_ok_event:
  assumes "build_event es cs a pri et fvt rs = Inr r" and "set es \<subseteq> G"
  shows "rec_ok G r"
proof -
  note f = build_event_fields [OF assms(1)]
  show ?thesis using f(1-4) assms(2) unfolding rec_ok_def is_schema_unique [OF f(1)] by auto
qed

definition neutral :: "string \<Rightarrow> bool" where
  "neutral a \<longleftrightarrow> a \<notin> {''CENSOR_GAP'', ''CENSOR_RELEASE_END'', ''TERMINATE_CONFLICT'', ''TERMINATE''}"

lemma status_after_neutral: "neutral a \<Longrightarrow> status_after (VStr a) st = Inr st"
  by (simp add: neutral_def status_after_def)

lemma triple_emit_neutral:
  assumes "neutral a" and "\<And>s. P s \<Longrightarrow> engine_ok s \<and> set es \<subseteq> episodes s"
    and "\<And>s r i. P s \<Longrightarrow> engine_ok (put_rec r i s) \<Longrightarrow> Q (put_rec r i s)"
  shows "triple P (emit_event es cs a pri et fvt rs) (\<lambda>r s. build_event es cs a pri et fvt rs = Inr r \<and> Q s) engine_ok"
  unfolding emit_event_def
proof (rule triple_bind [OF triple_lift], goal_cases)
  case 1
  then show ?case using assms(2) by blast
next
  case (2 r)
  show ?case
  proof (rule triple_bind [where R = "\<lambda>_ s. build_event es cs a pri et fvt rs = Inr r \<and> Q s"])
    show "triple (\<lambda>s. build_event es cs a pri et fvt rs = Inr r \<and> P s) (on_stream (stream_append r))
      (\<lambda>_ s. build_event es cs a pri et fvt rs = Inr r \<and> Q s) engine_ok"
      by (rule triple_append)
        (use assms in \<open>auto simp: event_status_built member_of_event rec_ok_event status_after_neutral\<close>)
  qed (auto intro: triple_return)
qed

subsection \<open>Every call keeps the invariant\<close>

lemma triple_req_open:
  "triple engine_ok (require_open e) (\<lambda>_ s. engine_ok s \<and> map_of (e_status s) e = Some ''OPEN'') engine_ok"
  unfolding require_open_def
  by (rule triple_bind [OF triple_get], rule triple_post [OF triple_lift]) (auto simp: req_eq_Inr)

lemma open_episode: "engine_ok s \<Longrightarrow> map_of (e_status s) e = Some st \<Longrightarrow> {e} \<subseteq> episodes s"
  using engine_okD(3) by blast

lemma owner_key_frame:
  "owner_key_of frame = Inr (sc, sl, f) \<Longrightarrow> ditem frame ''frame_id'' = Inr fid \<Longrightarrow> f = py_str fid"
  by (auto simp: owner_key_of_def bnd_eq_Inr)

text \<open>A frame joins an episode: the membership record and the owner entry together.\<close>

lemma member_ok:
  assumes "engine_ok s" and "e \<in> episodes s" and "map_of (e_owner s) (sc, sl, py_str fid) \<in> {None, Some e}"
    and "build_membership e fid ev et fvt = Inr r" and "stream_ok (e_stream (put_rec r i s))"
  shows "engine_ok ((put_rec r i s)\<lparr>e_owner := AList.update (sc, sl, py_str fid) e (e_owner s)\<rparr>)"
proof -
  note d = engine_okD [OF assms(1)] and f = build_membership_fields [OF assms(4)]
  note u = is_schema_unique [OF f(1)]
  obtain g where g: "map_of r ''frame_id'' = Some g" "py_str g = py_str fid" using f(3) by blast
  have m: "member_of e' r = (if e' = e then {py_str fid} else {})" for e'
    using f(1,2) g by (auto simp: member_of_def)
  have rk: "rec_ok (episodes s) r" using f(1,2,4) g assms(2) unfolding rec_ok_def u by auto
  have ev: "event_status e' r st = st" for e' st by (simp add: event_status_def u)
  let ?o = "(map_of (e_owner s))((sc, sl, py_str fid) \<mapsto> e)"
  have ow: "\<exists>sc sl. ?o (sc, sl, h) = Some e'" if q: "q \<in> set (recs s @ [r])" and h: "h \<in> member_of e' q" for e' q h
  proof (cases "q \<in> set (recs s)")
    case True
    then obtain a b where ab: "map_of (e_owner s) (a, b, h) = Some e'" using d(8) h by blast
    then have "?o (a, b, h) = Some e'" using assms(3) by auto
    then show ?thesis by blast
  next
    case False
    then have "e' = e" "h = py_str fid" using q h m by (auto split: if_splits)
    then show ?thesis by auto
  qed
  have ran: "ran ?o \<subseteq> episodes s" using d(9) assms(2) by (auto simp: ran_def split: if_splits)
  have k: "rec_ok (episodes s) q" if "q \<in> set (recs s @ [r])" for q using that d(6) [of q] rk by auto
  have st: "fold (event_status e') (recs s @ [r]) ''OPEN'' = st" if "map_of (e_status s) e' = Some st" for e' st
    using d(7) [OF that] ev by simp
  show ?thesis unfolding engine_ok_def
    using assms(5) d(2-5) st ow ran k by simp
qed

definition joining :: "bool \<Rightarrow> pydict \<Rightarrow> owner_key \<Rightarrow> string \<Rightarrow> engine \<Rightarrow> bool" where
  "joining owned frame k e s \<longleftrightarrow> engine_ok s \<and> e \<in> episodes s \<and> map_of (e_owner s) k \<in> {None, Some e} \<and>
     owner_key_of frame = Inr k \<and> (owned \<longrightarrow> map_of (e_owner s) k = Some e)"

lemma joining_put: "joining owned frame k e s \<Longrightarrow> engine_ok (put_rec r i s) \<Longrightarrow> joining owned frame k e (put_rec r i s)"
  by (simp add: joining_def)

text \<open>The tail that \<^verbatim>\<open>birth\<close> and \<^verbatim>\<open>continue_episode\<close> share.\<close>

lemma triple_join:
  assumes "neutral a"
    and rest: "\<And>mem. triple (\<lambda>s'. engine_ok (s'\<lparr>e_owner := AList.update k e (e_owner s')\<rparr>) \<and>
        (owned \<longrightarrow> map_of (e_owner s') k = Some e)) (rest mem) Q engine_ok"
  shows "triple (joining owned frame k e)
    (abind (emit_event [e] [c] a pri et fvt []) (\<lambda>event.
     abind (lift_r (ditem frame ''frame_id'')) (\<lambda>fid.
     abind (lift_r (ditem event ''boundary_event_id'')) (\<lambda>event_id.
     abind (lift_r (build_membership e fid event_id et fvt)) (\<lambda>membership.
     abind (on_stream (stream_append membership)) (\<lambda>_. rest membership)))))) Q engine_ok"
proof (rule triple_bind [OF triple_emit_neutral [where Q = "joining owned frame k e", OF assms(1)]], goal_cases)
  case (3 ev)
  show ?case
  proof (rule triple_bind [OF triple_lift], goal_cases)
    case (2 fid)
    show ?case
    proof (rule triple_bind [OF triple_lift], goal_cases)
      case (2 evid)
      show ?case
      proof (rule triple_bind [OF triple_lift], goal_cases)
        case (2 mem)
        show ?case
        proof (rule triple_bind [OF _ rest], rule tripleI, goal_cases)
          case (1 s x s')
          then show ?case using on_stream_append [of mem s "Inl x" s'] by (auto simp: joining_def)
        next
          case (2 s x s')
          obtain sc sl g where k: "k = (sc, sl, g)" by (cases k)
          have "g = py_str fid" using 2 owner_key_frame k by (auto simp: joining_def)
          moreover obtain i where "s' = put_rec mem i s" "stream_ok (e_stream s')"
            using on_stream_append [of mem s "Inr x" s'] 2 engine_okD(1) by (auto simp: joining_def)
          ultimately show ?case
            using 2(1) k member_ok [of s e sc sl fid evid et fvt mem i] by (simp add: joining_def)
        qed
      qed (auto simp: joining_def)
    qed (auto simp: joining_def)
  qed (auto simp: joining_def)
qed (auto simp: joining_def)

text \<open>A new episode: the genesis record and the three dictionary entries together.\<close>

lemma register_ok:
  assumes "engine_ok s" and "map_of (e_owner s) k = None"
    and "build_genesis pack frame rule et fvt = Inr g" and "stream_record_id g = Inr i"
    and "stream_ok (e_stream (put_rec g i s))" and "i \<notin> set (s_ids (e_stream s))" and "i \<noteq> []"
  shows "engine_ok ((put_rec g i s)\<lparr>e_genesis := AList.update i g (e_genesis s), e_status := AList.update i ''OPEN'' (e_status s),
    e_owner := AList.update k i (e_owner s)\<rparr>)"
    (is "engine_ok ?t")
proof -
  note d = engine_okD [OF assms(1)]
  note g = build_genesis_fields [OF assms(3)]
  note u = is_schema_unique [OF g(1)]
  have new: "i \<notin> episodes s" using d(5) assms(6) by blast
  have ep: "episodes ?t = insert i (episodes s)" by auto
  have rg: "rec_ok G g" for G using g(1) unfolding rec_ok_def u by auto
  have ev: "event_status e g st = st" for e st by (simp add: event_status_def u)
  have mg: "member_of e g = {}" for e by (simp add: member_of_def u)
  have quiet: "fold (event_status i) rs ''OPEN'' = ''OPEN''" if "set rs \<subseteq> set (recs s)" for rs
    using that
  proof (induction rs)
    case (Cons r rs)
    have "rec_ok (episodes s) r" using Cons.prems d(6) by simp
    then have "event_status i r st = st" for st
      using new by (auto simp: event_status_def rec_ok_def dget_def strs_list_def)
    then show ?case using Cons by simp
  qed simp
  have st: "fold (event_status e) (recs s @ [g]) ''OPEN'' = st" if "((map_of (e_status s))(i \<mapsto> ''OPEN'')) e = Some st" for e st
    using that quiet [of "recs s"] d(7) [of e st] ev by (cases "e = i") auto
  have ow: "\<exists>sc sl. ((map_of (e_owner s))(k \<mapsto> i)) (sc, sl, f) = Some e" if q: "q \<in> set (recs s @ [g])" and f: "f \<in> member_of e q" for e q f
  proof -
    have "q \<in> set (recs s)" using q f mg by auto
    then obtain sc sl where o: "map_of (e_owner s) (sc, sl, f) = Some e" using f d(8) by blast
    then have "(sc, sl, f) \<noteq> k" using assms(2) by auto
    then show ?thesis using o by auto
  qed
  have "ran ((map_of (e_owner s))(k \<mapsto> i)) \<subseteq> insert i (ran (map_of (e_owner s)))" by (auto simp: ran_def)
  then have ran: "ran ((map_of (e_owner s))(k \<mapsto> i)) \<subseteq> insert i (episodes s)" using d(9) by blast
  have ok: "rec_ok (insert i (episodes s)) q" if "q \<in> set (recs s @ [g])" for q
    using that rg d(6) [of q] rec_ok_mono [of "episodes s" q "insert i (episodes s)"] by auto
  have ids: "j \<noteq> [] \<and> j \<in> set (i # s_ids (e_stream s))" if "j \<in> insert i (episodes s)" for j
    using that d(4,5) [of j] assms(7) by auto
  have dm: "dom ((map_of (e_status s))(i \<mapsto> ''OPEN'')) = insert i (episodes s)" using d(3) by simp
  show ?thesis unfolding engine_ok_def ep
    using assms(5) d(2) st ow ran ok ids dm by simp
qed

lemma triple_register:
  assumes rest: "\<And>i. triple (joining True frame k i) (rest i) Q engine_ok"
  shows "triple (\<lambda>s. engine_ok s \<and> map_of (e_owner s) k = None \<and> owner_key_of frame = Inr k \<and>
        build_genesis pack frame rule et fvt = Inr g)
    (abind (on_stream (stream_append g)) (\<lambda>_.
     abind (lift_r (str_item g ''episode_id'')) (\<lambda>i.
     abind (amod (\<lambda>s. s\<lparr>e_genesis := AList.update i g (e_genesis s)\<rparr>)) (\<lambda>_.
     abind (amod (\<lambda>s. s\<lparr>e_status := AList.update i ''OPEN'' (e_status s)\<rparr>)) (\<lambda>_.
     abind (amod (\<lambda>s. s\<lparr>e_owner := AList.update k i (e_owner s)\<rparr>)) (\<lambda>_. rest i)))))) Q engine_ok"
    (is "triple ?P ?m Q engine_ok")
proof -
  have step: "\<exists>s1. ?m s = rest i s1 \<and> joining True frame k i s1"
    if p: "?P s" and a: "on_stream (stream_append g) s = (Inr u, s')" and i: "map_of g ''episode_id'' = Some (VStr i)" for s u s' i
  proof -
    obtain j where j: "stream_record_id g = Inr j" "j \<notin> set (s_ids (e_stream s))" "s' = put_rec g j s" "stream_ok (e_stream s')"
      using on_stream_append [OF a] p engine_okD(1) by auto
    have ij: "j = i" "i \<noteq> []" using build_genesis_fields(2) [of pack frame rule et fvt g] p i j(1) by auto
    let ?t = "(put_rec g i s)\<lparr>e_genesis := AList.update i g (e_genesis s), e_status := AList.update i ''OPEN'' (e_status s),
        e_owner := AList.update k i (e_owner s)\<rparr>"
    have "engine_ok ?t" using register_ok [of s k pack frame rule et fvt g i] p j ij by simp
    then have "joining True frame k i ?t" using p by (simp add: joining_def)
    moreover have "?m s = rest i ?t"
      using a i j(3) ij by (simp add: abind_apply str_item_def ditem_def)
    ultimately show ?thesis by blast
  qed
  show ?thesis
  proof (rule tripleI)
    fix s e s' assume p: "?P s" and m: "?m s = (Inl e, s')"
    obtain i where i: "map_of g ''episode_id'' = Some (VStr i)" using build_genesis_fields(2) p by blast
    obtain r s1 where a: "on_stream (stream_append g) s = (r, s1)" by (cases "on_stream (stream_append g) s")
    show "engine_ok s'"
    proof (cases r)
      case (Inl x)
      then show ?thesis using a m p on_stream_append [OF a] by (auto simp: abind_apply)
    next
      case (Inr u)
      then show ?thesis using step [OF p _ i] a m triple_Inl [OF rest] by metis
    qed
  next
    fix s x s' assume p: "?P s" and m: "?m s = (Inr x, s')"
    obtain i where i: "map_of g ''episode_id'' = Some (VStr i)" using build_genesis_fields(2) p by blast
    obtain u s1 where a: "on_stream (stream_append g) s = (Inr u, s1)" using m by (auto simp: abind_Inr)
    show "Q x s'" using step [OF p a i] m triple_Inr [OF rest] by metis
  qed
qed

lemma triple_birth: "triple engine_ok (birth f r c et fvt) (\<lambda>_. engine_ok) engine_ok"
  unfolding birth_def
proof (rule triple_bind [OF triple_lift], goal_cases)
  case (2 k)
  show ?case
  proof (rule triple_bind [OF triple_get], rule triple_bind [OF triple_lift], goal_cases)
    case (2 free u)
    show ?case
    proof (rule triple_bind [OF triple_get], rule triple_bind [OF triple_lift], goal_cases)
      case (2 pack g)
      show ?case
        by (rule triple_pre [OF triple_register [where pack = pack and rule = r and et = et and fvt = fvt, OF triple_join]])
          (auto simp: neutral_def req_eq_Inr AList_update_same intro!: triple_return)
    qed auto
  qed auto
qed auto

lemma triple_continue: "triple engine_ok (continue_episode e f c et fvt) (\<lambda>_. engine_ok) engine_ok"
  unfolding continue_episode_def
proof (rule triple_bind [OF triple_req_open], rule triple_bind [OF triple_lift], goal_cases)
  case (2 u k)
  show ?case
  proof (rule triple_bind [OF triple_get], rule triple_bind [OF triple_lift], goal_cases)
    case (2 existing u)
    show ?case
    proof (rule triple_pre [OF triple_join [where owned = False and k = k]])
      show "triple (\<lambda>s'. engine_ok (s'\<lparr>e_owner := AList.update k e (e_owner s')\<rparr>) \<and> (False \<longrightarrow> map_of (e_owner s') k = Some e))
        (abind (amod (\<lambda>s. s\<lparr>e_owner := AList.update k e (e_owner s)\<rparr>)) (\<lambda>_. areturn mem)) (\<lambda>_. engine_ok) engine_ok" for mem
        by (rule triple_bind [OF triple_mod [where Q = engine_ok]]) (auto intro: triple_return)
    qed (use open_episode in \<open>auto simp: neutral_def joining_def req_eq_Inr\<close>)
  qed auto
qed auto

lemma triple_phase: "triple engine_ok (phase_mutation e c pt st en src et fvt) (\<lambda>_. engine_ok) engine_ok"
  unfolding phase_mutation_def
proof (rule triple_bind [OF triple_req_open],
    rule triple_bind [OF triple_emit_neutral [where Q = "\<lambda>s. engine_ok s \<and> e \<in> episodes s"]], goal_cases)
  case (4 u ev)
  show ?case
  proof (rule triple_bind [OF triple_lift], goal_cases)
    case (2 ph)
    let ?p = "[(''episode_id'', VStr e), (''phase_type'', VStr pt), (''start_time'', VStr st),
       (''end_time'', case en of Some t \<Rightarrow> VStr t | None \<Rightarrow> VNone), (''first_valid_time'', VStr fvt),
       (''source_record_ids'', strs_list src), (''authority'', VStr ''INACTIVE_NONCANONICAL_SHADOW'')]"
    show ?case
    proof (rule triple_pure)
      assume b: "build_record ''phase_segment'' ?p = Inr ph"
      have sc: "is_schema ph ''c2e_phase_segment/v0_2''"
        using built_schema [OF b engine_kinds(4)] by (simp add: is_schema_def engine_schemas)
      have f: "map_of ph ''episode_id'' = Some (VStr e)" "\<exists>i. map_of ph ''phase_segment_id'' = Some (VStr i)"
        using built_field [OF b engine_kinds(4), of "''episode_id''"] build_record_map_of(3) [OF b engine_kinds(4)]
        by (simp_all add: engine_schemas)
      have "rec_ok G ph" if "e \<in> G" for G using sc f that unfolding rec_ok_def is_schema_unique [OF sc] by auto
      then show "triple (\<lambda>s. build_event [e] [c] ''PHASE_MUTATION'' 6 et fvt [] = Inr ev \<and> engine_ok s \<and> e \<in> episodes s)
          (abind (on_stream (stream_append ph)) (\<lambda>_. areturn ph)) (\<lambda>_. engine_ok) engine_ok"
        by (intro triple_bind [OF triple_append [where Q = engine_ok]] triple_return)
          (auto simp: event_status_def member_of_def is_schema_unique [OF sc])
    qed
  qed auto
qed (use open_episode in \<open>auto simp: neutral_def\<close>)

lemma triple_re_parent: "triple engine_ok (re_parent e c et fvt rs) (\<lambda>_. engine_ok) engine_ok"
  unfolding re_parent_def
  by (rule triple_bind [OF triple_req_open], rule triple_post [OF triple_emit_neutral [where Q = engine_ok]])
    (use open_episode in \<open>auto simp: neutral_def\<close>)

text \<open>A terminal event and the status entry together.\<close>

lemma terminal_ok:
  assumes "engine_ok s" and "map_of (e_status s) e = Some ''OPEN''" and "build_event [e] cs a pri et fvt rs = Inr r"
    and "\<And>st. status_after (VStr a) st = Inr new" and "stream_ok (e_stream (put_rec r i s))"
  shows "engine_ok ((put_rec r i s)\<lparr>e_status := AList.update e new (e_status s)\<rparr>)"
proof -
  note d = engine_okD [OF assms(1)]
  have e: "e \<in> episodes s" using open_episode [OF assms(1,2)] by simp
  have st: "fold (event_status e') (recs s @ [r]) ''OPEN'' = st" if "((map_of (e_status s))(e \<mapsto> new)) e' = Some st" for e' st
    using that event_status_built [OF assms(3)] assms(4) d(7) [of e' st] by (cases "e' = e") auto
  have k: "rec_ok (episodes s) q" if "q \<in> set (recs s @ [r])" for q
    using that d(6) [of q] rec_ok_event [OF assms(3), of "episodes s"] e by auto
  have ow: "\<exists>sc sl. map_of (e_owner s) (sc, sl, f) = Some e'" if "q \<in> set (recs s @ [r])" "f \<in> member_of e' q" for e' q f
    using that d(8) [of q f e'] member_of_event [OF assms(3)] by auto
  have dm: "dom ((map_of (e_status s))(e \<mapsto> new)) = episodes s" using d(3) e by auto
  show ?thesis unfolding engine_ok_def
    using assms(5) d(2,9) d(4,5) st k ow dm by simp
qed

lemma triple_terminal:
  assumes "\<And>st. status_after (VStr a) st = Inr new"
  shows "triple (\<lambda>s. engine_ok s \<and> map_of (e_status s) e = Some ''OPEN'')
    (abind (emit_event [e] cs a pri et fvt rs) (\<lambda>event.
     abind (amod (\<lambda>s. s\<lparr>e_status := AList.update e new (e_status s)\<rparr>)) (\<lambda>_. areturn event))) (\<lambda>_. engine_ok) engine_ok"
proof (rule tripleI, goal_cases)
  case (1 s x s')
  then show ?case by (auto simp: emit_event_def act_inv dest!: on_stream_append)
next
  case (2 s x s')
  then obtain r i where "build_event [e] cs a pri et fvt rs = Inr r" "stream_ok (e_stream (put_rec r i s))"
    "s' = (put_rec r i s)\<lparr>e_status := AList.update e new (e_status s)\<rparr>"
    using engine_okD(1) by (auto simp: emit_event_def act_inv dest!: on_stream_append)
  then show ?case using terminal_ok [of s e cs a pri et fvt rs r new i] 2(1) assms by blast
qed

lemma triple_censor: "triple engine_ok (censor e c r et fvt) (\<lambda>_. engine_ok) engine_ok"
  unfolding censor_def
proof (rule triple_bind [OF triple_req_open], rule triple_bind [OF triple_lift], goal_cases)
  case (2 u v)
  show ?case
  proof (rule triple_pure)
    assume "req LifecycleError (r \<in> {''CENSOR_GAP'', ''CENSOR_RELEASE_END''}) ''CENSOR_REASON_INVALID'' = Inr v"
    then have "status_after (VStr r) st = Inr ''CENSORED''" for st by (auto simp: req_eq_Inr status_after_def)
    then show "triple (\<lambda>s. engine_ok s \<and> map_of (e_status s) e = Some ''OPEN'')
      (abind (emit_event [e] [c] r 2 et fvt [if r = ''CENSOR_GAP'' then ''C2E_SOURCE_GAP'' else ''C2E_RELEASE_END_CENSORED'']) (\<lambda>event.
       abind (amod (\<lambda>s. s\<lparr>e_status := AList.update e ''CENSORED'' (e_status s)\<rparr>)) (\<lambda>_. areturn event))) (\<lambda>_. engine_ok) engine_ok"
      by (rule triple_terminal)
  qed
qed auto

lemma triple_terminate: "triple engine_ok (terminate e c b et fvt) (\<lambda>_. engine_ok) engine_ok"
  unfolding terminate_def
  by (rule triple_bind [OF triple_req_open], rule triple_terminal) (simp add: status_after_def)

lemma triple_link: "triple engine_ok (link_episodes ty p ch c et fvt) (\<lambda>_. engine_ok) engine_ok"
  unfolding link_episodes_def
proof (rule triple_bind [OF triple_get], rule triple_bind [OF triple_lift], goal_cases)
  case (2 known u)
  show ?case
  proof (rule triple_bind [OF triple_lift], rule_tac [2] triple_bind [OF triple_lift], goal_cases)
    case (3 ev evid)
    let ?A = "\<lambda>s. engine_ok s \<and> {p, ch} \<subseteq> episodes s"
    show ?case
    proof (rule triple_bind [where R = "\<lambda>edge s. ?A s \<and> build_event (sorted_set [p, ch]) [c] ty 4 et fvt [] = Inr ev \<and>
        ty \<in> {''NEST'', ''RE_PARENT'', ''SPLIT'', ''MERGE''} \<and> build_record ''lineage_edge'' (edge_payload ty p ch evid et fvt) = Inr edge"],
        goal_cases)
      case 1
      show ?case
      proof (rule tripleI, goal_cases)
        case (1 s x s')
        then show ?case using add_edge_Inl
          by (cases "add_edge ty p ch evid et fvt (e_topology s)") (fastforce simp: on_topology_def)
      next
        case (2 s x s')
        obtain t where t: "add_edge ty p ch evid et fvt (e_topology s) = (Inr x, t)" "s' = s\<lparr>e_topology := t\<rparr>"
          using 2(2) by (cases "add_edge ty p ch evid et fvt (e_topology s)") (auto simp: on_topology_def)
        have "topology_ok t" using add_edge_ok [of "e_topology s" ty p ch evid et fvt] t(1) 2(1) engine_okD(2) by auto
        then have "engine_ok s'" using 2(1) t(2) by (auto simp: engine_ok_def)
        then show ?case using 2(1) t by (auto simp: add_edge_Inr req_eq_Inr)
      qed
    next
      case (2 edge)
      show ?case
      proof (rule triple_pre [OF triple_pure [where P = ?A and
            B = "build_event (sorted_set [p, ch]) [c] ty 4 et fvt [] = Inr ev \<and> ty \<in> {''NEST'', ''RE_PARENT'', ''SPLIT'', ''MERGE''} \<and>
              build_record ''lineage_edge'' (edge_payload ty p ch evid et fvt) = Inr edge"]], goal_cases)
        case 1
        then have b: "build_event (sorted_set [p, ch]) [c] ty 4 et fvt [] = Inr ev"
          and e: "build_record ''lineage_edge'' (edge_payload ty p ch evid et fvt) = Inr edge" and n: "neutral ty"
          by (auto simp: neutral_def)
        have sc: "is_schema edge ''c2e_lineage_edge/v0_2''"
          using built_schema [OF e engine_kinds(5)] by (simp add: is_schema_def engine_schemas)
        show "triple ?A (abind (on_stream (stream_append ev)) (\<lambda>_. abind (on_stream (stream_append edge)) (\<lambda>_. areturn edge)))
          (\<lambda>_. engine_ok) engine_ok"
        proof (rule triple_bind [OF triple_append [where Q = ?A]])
          show "triple ?A (abind (on_stream (stream_append edge)) (\<lambda>_. areturn edge)) (\<lambda>_. engine_ok) engine_ok"
            by (rule triple_bind [OF triple_append [where Q = engine_ok] triple_return])
              (auto simp: event_status_def member_of_def rec_ok_def is_schema_unique [OF sc] sc)
        qed (use rec_ok_event [OF b] n in \<open>auto simp: event_status_built [OF b] member_of_event [OF b] status_after_neutral\<close>)
      qed auto
    qed
  qed auto
qed auto

lemma exec_ok: "engine_ok s \<Longrightarrow> engine_ok (snd (exec call s))"
  by (cases call) (simp_all add: triple_snd [OF triple_birth] triple_snd [OF triple_continue] triple_snd [OF triple_phase]
      triple_snd [OF triple_re_parent] triple_snd [OF triple_censor] triple_snd [OF triple_terminate] triple_snd [OF triple_link])

lemma reach_ok: "engine_reach pack_id s \<Longrightarrow> engine_ok s"
  by (induction rule: engine_reach.induct) (auto intro: engine_ok_init exec_ok)

end
