(* ===== verification/C2E_Engine.thy ===== *)
theory C2E_Engine
  imports C2E_Lifecycle
begin

section \<open>C2E v0.2: properties of the episode engine\<close>

text \<open>
  What the runs of the engine of \<open>C2E_Lifecycle\<close> guarantee: nothing written is undone, the
  invariant holds after every call, the projection of the stream recovers the status the engine
  keeps, and what is left behind by a call that raises half way.
\<close>

subsection \<open>What a call never undoes\<close>

definition ahead :: "engine \<Rightarrow> engine \<Rightarrow> bool" where
  "ahead s s' \<longleftrightarrow> prefix (recs s) (recs s') \<and> prefix (t_edges (e_topology s)) (t_edges (e_topology s')) \<and>
    map_of (e_genesis s) \<subseteq>\<^sub>m map_of (e_genesis s') \<and> map_of (e_owner s) \<subseteq>\<^sub>m map_of (e_owner s') \<and>
    (\<forall>e st. map_of (e_status s) e = Some st \<and> st \<noteq> ''OPEN'' \<longrightarrow> map_of (e_status s') e = Some st)"

lemma ahead_refl: "ahead s s"
  by (simp add: ahead_def)

lemma ahead_trans: "ahead s t \<Longrightarrow> ahead t u \<Longrightarrow> ahead s u"
  unfolding ahead_def by (meson map_le_trans prefix_order.trans)

lemma ahead_put: "ahead s (put_rec r i s)"
  by (simp add: ahead_def)

lemma ahead_append: "on_stream (stream_append r) s = (m, s') \<Longrightarrow> ahead s s'"
  using on_stream_append [of r s m s'] ahead_put ahead_refl by auto

lemma ahead_emit: "emit_event es cs a pri et fvt rs s = (m, s') \<Longrightarrow> ahead s s'"
  by (cases m) (auto simp: emit_event_def act_inv dest!: ahead_append intro: ahead_refl)

lemma emit_dicts:
  assumes "emit_event es cs a pri et fvt rs s = (m, s')"
  shows "e_owner s' = e_owner s" "e_status s' = e_status s" "e_genesis s' = e_genesis s"
  using assms by (cases m; auto simp: emit_event_def act_inv dest!: on_stream_append)+

lemma append_dicts:
  assumes "on_stream (stream_append r) s = (m, s')"
  shows "e_owner s' = e_owner s" "e_status s' = e_status s" "e_genesis s' = e_genesis s"
  using on_stream_append [OF assms] by auto

lemma ahead_status:
  "map_of (e_status s) e = Some ''OPEN'' \<Longrightarrow> ahead s (s\<lparr>e_status := AList.update e st (e_status s)\<rparr>)"
  by (auto simp: ahead_def)

lemma ahead_status_after:
  assumes "emit_event es cs a pri et fvt rs s = (m, t)" and "map_of (e_status s) e = Some ''OPEN''"
  shows "ahead s (t\<lparr>e_status := AList.update e st (e_status t)\<rparr>)"
  using ahead_trans [OF ahead_emit [OF assms(1)] ahead_status] emit_dicts(2) [OF assms(1)] assms(2) by simp

lemma ahead_owner:
  "map_of (e_owner s) k = None \<or> map_of (e_owner s) k = Some e \<Longrightarrow> ahead s (s\<lparr>e_owner := AList.update k e (e_owner s)\<rparr>)"
  by (auto simp: ahead_def map_le_def)

lemma require_open_inv: "require_open e s = (m, s') \<Longrightarrow> s' = s \<and> (\<forall>u. m = Inr u \<longrightarrow> map_of (e_status s) e = Some ''OPEN'')"
  by (auto simp: require_open_def abind_apply req_def split: if_splits)

lemma ahead_owner_after:
  assumes "ahead s t" and "e_owner t = e_owner s" and "map_of (e_owner s) k = None \<or> map_of (e_owner s) k = Some e"
  shows "ahead s (t\<lparr>e_owner := AList.update k e (e_owner t)\<rparr>)"
  using ahead_trans [OF assms(1) ahead_owner] assms(2,3) by simp

lemma ahead_continue: "continue_episode e f c et fvt s = (m, s') \<Longrightarrow> ahead s s'"
proof (cases m)
  case (Inl x)
  moreover assume "continue_episode e f c et fvt s = (m, s')"
  ultimately show ?thesis
    by (auto simp: continue_episode_def act_inv ahead_refl dest!: require_open_inv dest: ahead_emit ahead_append intro: ahead_trans)
next
  case (Inr x)
  moreover assume "continue_episode e f c et fvt s = (m, s')"
  ultimately obtain k ev s1 mem s2 where "map_of (e_owner s) k = None \<or> map_of (e_owner s) k = Some e"
    "emit_event [e] [c] ''CONTINUATION'' 7 et fvt [] s = (Inr ev, s1)" "on_stream (stream_append mem) s1 = (Inr (), s2)"
    "s' = s2\<lparr>e_owner := AList.update k e (e_owner s2)\<rparr>"
    by (auto simp: continue_episode_def act_inv req_eq_Inr dest!: require_open_inv) blast+
  then show ?thesis
    using ahead_owner_after [of s s2 k e] ahead_trans [OF ahead_emit ahead_append] emit_dicts(1) append_dicts(1) by metis
qed

text \<open>The states a birth can end in: unchanged, registered, or registered with further records.\<close>

lemma ahead_birth:
  assumes "engine_ok s" and "birth f r c et fvt s = (m, s')"
  shows "ahead s s'"
proof -
  consider "s' = s" | k g i t where "map_of (e_owner s) k = None" "on_stream (stream_append g) s = (Inr (), t)"
    "stream_record_id g = Inr i"
    "ahead (t\<lparr>e_genesis := AList.update i g (e_genesis t), e_status := AList.update i ''OPEN'' (e_status t),
        e_owner := AList.update k i (e_owner t)\<rparr>) s'"
  proof (cases "owner_key_of f")
    case (Inl e)
    then show ?thesis using assms(2) that(1) by (simp add: birth_def abind_apply)
  next
    case k: (Inr k)
    show ?thesis
    proof (cases "map_of (e_owner s) k = None \<and> is_ok (build_genesis (e_pack_id s) f r et fvt)")
      case False
      then show ?thesis using assms(2) that(1) k
        by (cases "build_genesis (e_pack_id s) f r et fvt") (auto simp: birth_def abind_apply req_def split: if_splits)
    next
      case True
      then obtain g where g: "build_genesis (e_pack_id s) f r et fvt = Inr g" unfolding is_ok_iff by blast
      obtain i where i: "map_of g ''episode_id'' = Some (VStr i)" "stream_record_id g = Inr i"
        using build_genesis_fields(2) [OF g] by blast
      obtain a t where a: "on_stream (stream_append g) s = (a, t)" by (cases "on_stream (stream_append g) s")
      show ?thesis
      proof (cases a)
        case (Inl e)
        then show ?thesis using assms(2) that(1) k True g a on_stream_append [OF a] by (auto simp: birth_def abind_apply)
      next
        case (Inr u)
        then have "ahead (t\<lparr>e_genesis := AList.update i g (e_genesis t), e_status := AList.update i ''OPEN'' (e_status t),
            e_owner := AList.update k i (e_owner t)\<rparr>) s'"
          using assms(2) k True g a i
          by (cases m) (auto simp: birth_def act_inv str_item_def ditem_def ahead_refl dest: ahead_emit ahead_append
              intro: ahead_trans)
        then show ?thesis using that(2) [of k g t i] True a Inr i by simp
      qed
    qed
  qed
  then show ?thesis
  proof cases
    case 1
    then show ?thesis by (simp add: ahead_refl)
  next
    case (2 k g i t)
    then obtain j where j: "t = put_rec g j s" "stream_record_id g = Inr j" "j \<notin> set (s_ids (e_stream s))"
      using on_stream_append [OF 2(2)] by auto
    then have new: "i \<notin> episodes s" using engine_okD(5) [OF assms(1)] 2(3) by auto
    then have "map_of (e_status s) i = None" "map_of (e_genesis s) i = None" using engine_okD(3) [OF assms(1)] by auto
    then have "ahead s (t\<lparr>e_genesis := AList.update i g (e_genesis t), e_status := AList.update i ''OPEN'' (e_status t),
        e_owner := AList.update k i (e_owner t)\<rparr>)"
      using j 2(1) by (auto simp: ahead_def map_le_def)
    then show ?thesis using 2(4) by (rule ahead_trans)
  qed
qed

lemma ahead_topology:
  assumes "on_topology (add_edge ty p ch b et fvt) s = (m, s')"
  shows "ahead s s'"
proof -
  obtain r t where t: "add_edge ty p ch b et fvt (e_topology s) = (r, t)" by (cases "add_edge ty p ch b et fvt (e_topology s)")
  then have "prefix (t_edges (e_topology s)) (t_edges t)"
    using add_edge_Inl [of ty p ch b et fvt "e_topology s" _ t] by (cases r) (auto simp: add_edge_Inr)
  then show ?thesis using assms t by (auto simp: on_topology_def ahead_def)
qed

lemma ahead_exec:
  assumes "engine_ok s"
  shows "ahead s (snd (exec call s))"
proof (cases call)
  case (Birth f r c et fvt)
  then show ?thesis using ahead_birth [OF assms] by (cases "birth f r c et fvt s") simp
next
  case (Continue e f c et fvt)
  then show ?thesis using ahead_continue by (cases "continue_episode e f c et fvt s") simp
next
  case (Phase_Mutation e c pt st en src et fvt)
  obtain m s' where x: "phase_mutation e c pt st en src et fvt s = (m, s')" by (cases "phase_mutation e c pt st en src et fvt s")
  have "ahead s s'" using x
    by (cases m) (auto simp: phase_mutation_def act_inv ahead_refl dest!: require_open_inv
        dest: ahead_emit ahead_append intro: ahead_trans)
  then show ?thesis using Phase_Mutation x by simp
next
  case (Re_Parent e c et fvt rs)
  obtain m s' where x: "re_parent e c et fvt rs s = (m, s')" by (cases "re_parent e c et fvt rs s")
  have "ahead s s'" using x
    by (cases m) (auto simp: re_parent_def act_inv ahead_refl dest!: require_open_inv dest: ahead_emit)
  then show ?thesis using Re_Parent x by simp
next
  case (Censor e c r et fvt)
  obtain m s' where x: "censor e c r et fvt s = (m, s')" by (cases "censor e c r et fvt s")
  have "ahead s s'" using x
    by (cases m) (auto simp: censor_def act_inv ahead_refl dest!: require_open_inv
        dest: ahead_emit intro: ahead_status_after)
  then show ?thesis using Censor x by simp
next
  case (Terminate e c b et fvt)
  obtain m s' where x: "terminate e c b et fvt s = (m, s')" by (cases "terminate e c b et fvt s")
  have "ahead s s'" using x
    by (cases m) (auto simp: terminate_def act_inv ahead_refl dest!: require_open_inv
        dest: ahead_emit intro: ahead_status_after)
  then show ?thesis using Terminate x by simp
next
  case (Link ty p ch c et fvt)
  obtain m s' where x: "link_episodes ty p ch c et fvt s = (m, s')" by (cases "link_episodes ty p ch c et fvt s")
  have "ahead s s'" using x
    by (cases m) (auto simp: link_episodes_def act_inv ahead_refl dest!: ahead_topology ahead_append
        intro: ahead_trans [OF ahead_trans] ahead_trans)
  then show ?thesis using Link x by simp
qed

subsection \<open>When records are built, and a first birth\<close>

lemma build_event_ok:
  assumes "a \<noteq> []" and "et \<noteq> []" and "fvt \<noteq> []"
  shows "\<exists>r. build_event es cs a pri et fvt rs = Inr r"
  unfolding build_event_def
proof (rule build_record_ok [OF engine_kinds(2)])
  have rq: "required (spec_of ''boundary_event'') = [''episode_ids'', ''candidate_ids'', ''lifecycle_action'', ''priority_class'',
      ''compatibility_disposition'', ''effective_time'', ''confirmation_time'', ''first_valid_time'', ''collision_disposition'',
      ''reason_codes'', ''authority'']" by code_simp
  show "\<forall>f \<in> set (required (spec_of ''boundary_event'')). present [(''episode_ids'', strs_list es), (''candidate_ids'', strs_list cs),
       (''lifecycle_action'', VStr a), (''priority_class'', VInt pri),
       (''compatibility_disposition'', VStr ''ORDERED_BY_PRIORITY''), (''effective_time'', VStr et),
       (''confirmation_time'', VStr fvt), (''first_valid_time'', VStr fvt),
       (''collision_disposition'', VStr ''NONE''), (''reason_codes'', strs_list rs),
       (''authority'', VStr ''INACTIVE_NONCANONICAL_SHADOW'')] f"
    unfolding rq using assms by (simp add: present_def strs_list_def)
qed (simp_all add: wf_dict_def field_ok_def SORTED_LIST_FIELDS_def strs_list_def kind_checks_def)

lemma build_membership_ok:
  assumes "e \<noteq> []" and "hash_ok fid" and "fid \<noteq> VNone" and "fid \<noteq> VStr []" and "ev \<noteq> []" and "et \<noteq> []" and "fvt \<noteq> []"
  shows "\<exists>r. build_membership e fid (VStr ev) et fvt = Inr r"
  unfolding build_membership_def
proof (rule build_record_ok [OF engine_kinds(3)])
  have rq: "required (spec_of ''membership_delta'') = [''episode_id'', ''frame_id'', ''operation'', ''boundary_event_id'',
      ''effective_time'', ''first_valid_time'', ''authority'']" by code_simp
  show "\<forall>f \<in> set (required (spec_of ''membership_delta'')). present [(''episode_id'', VStr e), (''frame_id'', fid),
      (''operation'', VStr ''ADD''), (''boundary_event_id'', VStr ev), (''effective_time'', VStr et), (''first_valid_time'', VStr fvt),
       (''authority'', VStr ''INACTIVE_NONCANONICAL_SHADOW'')] f"
    unfolding rq using assms by (simp add: present_def)
qed (use assms(2) in \<open>simp_all add: wf_dict_def field_ok_def SORTED_LIST_FIELDS_def kind_checks_def\<close>)

text \<open>The identifiers of different kinds never coincide: their prefixes differ.\<close>

lemma built_id_prefix:
  assumes "build_record kind p = Inr r" and "map_of RECORD_SPECS kind = Some spec"
  shows "\<exists>h. stream_record_id r = Inr (prefix_of spec @ ''.'' @ h) \<and> map_of r (id_field spec) = Some (VStr (prefix_of spec @ ''.'' @ h))"
proof -
  obtain i where "map_of r (id_field spec) = Some (VStr i)" "digest (prefix_of spec) (VDict (identity_payload spec r)) 32 = Inr i"
    using build_record_id [OF assms] .
  then show ?thesis using stream_record_id_built [OF assms] by (auto simp: digest_Inr)
qed

lemma engine_prefixes:
  "prefix_of (spec_of ''episode_genesis'') = ''C2E.EPISODE''" "prefix_of (spec_of ''boundary_event'') = ''C2E.BOUNDARY''"
  "prefix_of (spec_of ''membership_delta'') = ''C2E.MEMBER''"
  by code_simp+

lemma append_fresh:
  assumes "stream_record_id r = Inr i" and "i \<notin> set (s_ids (e_stream s))"
    and "map_of r ''authority'' = Some (VStr ''INACTIVE_NONCANONICAL_SHADOW'')"
  shows "on_stream (stream_append r) s = (Inr (), put_rec r i s)"
proof -
  have "stream_append r (e_stream s) = (Inr (), (e_stream s)\<lparr>s_records := recs s @ [r], s_ids := i # s_ids (e_stream s)\<rparr>)"
    using assms by (simp add: stream_append_Inr)
  then show ?thesis by (simp add: on_stream_def put_rec_def)
qed

text \<open>On a fresh engine a birth succeeds whenever its genesis record can be built.\<close>

lemma first_birth:
  assumes "owner_key_of f = Inr k" and "build_genesis pack f r et fvt = Inr g"
    and "ditem f ''frame_id'' = Inr fid" and "hash_ok fid" and "fid \<noteq> VNone" and "fid \<noteq> VStr []"
  shows "\<exists>i s'. birth f r c et fvt (engine_init pack) = (Inr g, s') \<and> map_of g ''episode_id'' = Some (VStr i) \<and>
    map_of (e_status s') i = Some ''OPEN'' \<and> map_of (e_owner s') k = Some i \<and> s_ids (e_stream s') \<noteq> []"
proof -
  let ?s0 = "engine_init pack"
  note gf = build_genesis_fields [OF assms(2)]
  obtain i where i: "map_of g ''episode_id'' = Some (VStr i)" "i \<noteq> []" "stream_record_id g = Inr i" using gf(2) by blast
  obtain p where "build_record ''episode_genesis'' p = Inr g"
    using assms(2) unfolding build_genesis_def bnd_eq_Inr by blast
  then obtain h where h: "i = ''C2E.EPISODE'' @ ''.'' @ h"
    using built_id_prefix [OF _ engine_kinds(1)] i(3) engine_prefixes(1) by fastforce
  obtain ev where ev: "build_event [i] [c] ''BIRTH'' 8 et fvt [] = Inr ev" using build_event_ok [of "''BIRTH''" et fvt "[i]" "[c]" 8 "[]"] gf(4,5) by auto
  obtain h2 where "stream_record_id ev = Inr (''C2E.BOUNDARY'' @ ''.'' @ h2)"
    "map_of ev ''boundary_event_id'' = Some (VStr (''C2E.BOUNDARY'' @ ''.'' @ h2))"
    using built_id_prefix [OF ev [unfolded build_event_def] engine_kinds(2)] unfolding engine_prefixes engine_schemas by blast
  then obtain j where j: "stream_record_id ev = Inr j" "map_of ev ''boundary_event_id'' = Some (VStr j)" "j \<noteq> i" "j \<noteq> []"
    by (simp add: h)
  obtain mem where mem: "build_membership i fid (VStr j) et fvt = Inr mem"
    using build_membership_ok [OF i(2) assms(4-6) j(4), of et fvt] gf(4,5) by auto
  obtain l where l: "stream_record_id mem = Inr l" "l \<noteq> i" "l \<noteq> j"
    using built_id_prefix [OF mem [unfolded build_membership_def] engine_kinds(3)]
      built_id_prefix [OF ev [unfolded build_event_def] engine_kinds(2)] j(1) unfolding engine_prefixes by (auto simp: h)
  define t where "t = (put_rec g i ?s0)\<lparr>e_genesis := [(i, g)], e_status := [(i, ''OPEN'')], e_owner := [(k, i)]\<rparr>"
  have ids: "s_ids (e_stream t) = [i]" by (simp add: t_def put_rec_def engine_init_def stream_init_def)
  have a1: "on_stream (stream_append g) ?s0 = (Inr (), put_rec g i ?s0)"
    using append_fresh [OF i(3) _ gf(3)] by (simp add: engine_init_def stream_init_def)
  have a2: "on_stream (stream_append ev) t = (Inr (), put_rec ev j t)"
    by (rule append_fresh [OF j(1) _ build_event_fields(5) [OF ev]]) (simp add: ids j(3))
  have a3: "on_stream (stream_append mem) (put_rec ev j t) = (Inr (), put_rec mem l (put_rec ev j t))"
    by (rule append_fresh [OF l(1) _ build_membership_fields(5) [OF mem]]) (simp add: ids l)
  have e: "e_genesis ?s0 = []" "e_status ?s0 = []" "e_owner ?s0 = []" "e_pack_id ?s0 = pack" by (simp_all add: engine_init_def)
  have em: "emit_event [i] [c] ''BIRTH'' 8 et fvt [] t = (Inr ev, put_rec ev j t)"
    by (simp add: emit_event_def abind_apply ev a2)
  have "birth f r c et fvt ?s0 = (Inr g, put_rec mem l (put_rec ev j t))"
    using assms(1-3) i(1) j(2) mem a1 a3 e em
    by (simp add: birth_def abind_apply str_item_def ditem_def flip: t_def)
  moreover have "e_status t = [(i, ''OPEN'')]" "e_owner t = [(k, i)]" by (simp_all add: t_def)
  ultimately show ?thesis using i(1) by simp
qed

subsection \<open>Properties\<close>

text \<open>A frame, for the examples.\<close>

definition example_birth_frame :: pydict where
  "example_birth_frame = [(''frame_id'', VStr ''F1''),
     (''identity'', VDict [(''instrument_id'', VStr ''X''), (''side'', VStr ''BID''), (''scope_id'', VStr ''S''), (''scale_id'', VStr ''M15'')]),
     (''source_binding'', VDict [(''source_release_id'', VStr ''R'')])]"

definition example_engine :: engine where
  "example_engine = snd (exec (Birth example_birth_frame ''rule'' ''cand'' ''t0'' ''t1'') (engine_init ''P''))"

lemma example_engine_reach: "engine_reach ''P'' example_engine"
  unfolding example_engine_def by (intro reach_call reach_init)

lemma example_episode: "\<exists>i. map_of (e_status example_engine) i = Some ''OPEN'' \<and> map_of (e_owner example_engine) (''S'', ''M15'', ''F1'') = Some i"
proof -
  have k: "owner_key_of example_birth_frame = Inr (''S'', ''M15'', ''F1'')" by code_simp
  have f: "ditem example_birth_frame ''frame_id'' = Inr (VStr ''F1'')" by code_simp
  have rq: "required (spec_of ''episode_genesis'') = [''boundary_pack_id'', ''source_release_id'', ''instrument_id'', ''side'',
      ''scope_id'', ''scale_id'', ''birth_frame_id'', ''birth_boundary_rule_id'', ''birth_effective_time'', ''first_valid_time'', ''authority'']"
    by code_simp
  have "\<exists>g. build_record ''episode_genesis'' [(''boundary_pack_id'', VStr ''P''), (''source_release_id'', VStr ''R''),
       (''instrument_id'', VStr ''X''), (''side'', VStr ''BID''), (''scope_id'', VStr ''S''), (''scale_id'', VStr ''M15''),
       (''birth_frame_id'', VStr ''F1''), (''birth_boundary_rule_id'', VStr ''rule''), (''birth_effective_time'', VStr ''t0''),
       (''first_valid_time'', VStr ''t1''), (''authority'', VStr ''INACTIVE_NONCANONICAL_SHADOW'')] = Inr g" (is "\<exists>g. build_record _ ?p = _")
  proof (rule build_record_ok [OF engine_kinds(1)])
    show "\<forall>f \<in> set (required (spec_of ''episode_genesis'')). present ?p f" unfolding rq by (simp add: present_def)
    show "is_ok (kind_checks ''episode_genesis'' (spec_of ''episode_genesis'') (norm_payload ?p))" by code_simp
  qed (simp_all add: wf_dict_def field_ok_def SORTED_LIST_FIELDS_def)
  then obtain g where g: "build_genesis ''P'' example_birth_frame ''rule'' ''t0'' ''t1'' = Inr g"
    by (auto simp: build_genesis_def example_birth_frame_def ditem_def)
  show ?thesis using first_birth [OF k g f, of "''cand''"] by (auto simp: example_engine_def)
qed

text \<open>C2: whatever calls are made, in whatever order, and whether they return or raise, the engine keeps
  its stream free of duplicate identifiers, its topology acyclic, a status for exactly the episodes
  that were born, and owners that are born episodes; and every frame an episode has as a member is
  owned by that episode.\<close>

theorem engine_invariant:
  assumes "engine_reach pack_id s"
  shows "distinct (map stream_record_id (stream_records (e_stream s))) \<and>
    acyclic (edge_rel (t_children (e_topology s))) \<and>
    dom (map_of (e_status s)) = dom (map_of (e_genesis s)) \<and>
    ran (map_of (e_owner s)) \<subseteq> dom (map_of (e_genesis s)) \<and>
    (\<forall>e. \<forall>r \<in> set (stream_records (e_stream s)). \<forall>f \<in> member_of e r. \<exists>scope scale. map_of (e_owner s) (scope, scale, f) = Some e)"
  using engine_okD [OF reach_ok [OF assms]] c2e_log.ok_distinct
  by (auto simp: stream_records_def topology_ok_def)

theorem engine_invariant_witness:
  "acyclic (edge_rel (t_children (e_topology example_engine))) \<and>
   dom (map_of (e_status example_engine)) = dom (map_of (e_genesis example_engine)) \<and> dom (map_of (e_status example_engine)) \<noteq> {}"
  using engine_invariant [OF example_engine_reach] example_episode by blast



text \<open>C3: nothing that happened is undone. A call, returning or raising, only appends to the stream and
  to the edges, never changes a genesis record, never gives an owned frame to another episode, and
  never changes the status of an episode that is no longer open.\<close>

theorem calls_only_extend:
  assumes "engine_reach pack_id s"
  shows "prefix (stream_records (e_stream s)) (stream_records (e_stream (snd (exec call s)))) \<and>
    prefix (t_edges (e_topology s)) (t_edges (e_topology (snd (exec call s)))) \<and>
    map_of (e_genesis s) \<subseteq>\<^sub>m map_of (e_genesis (snd (exec call s))) \<and>
    map_of (e_owner s) \<subseteq>\<^sub>m map_of (e_owner (snd (exec call s))) \<and>
    (\<forall>e st. map_of (e_status s) e = Some st \<and> st \<noteq> ''OPEN'' \<longrightarrow> map_of (e_status (snd (exec call s))) e = Some st)"
  using ahead_exec [OF reach_ok [OF assms], of call] by (simp add: ahead_def stream_records_def)

theorem calls_only_extend_witness:
  "\<exists>i. map_of (e_owner example_engine) (''S'', ''M15'', ''F1'') = Some i \<and>
     map_of (e_owner (snd (exec (Birth example_birth_frame ''rule2'' ''cand2'' ''t2'' ''t3'') example_engine))) (''S'', ''M15'', ''F1'') = Some i"
  using calls_only_extend [OF example_engine_reach, of "Birth example_birth_frame ''rule2'' ''cand2'' ''t2'' ''t3''"] example_episode
  by (auto simp: map_le_def dom_def)



end
