(* ===== verification/C2E_Replay.thy ===== *)
theory C2E_Replay
  imports C2E_Source C2E_Engine
begin

section \<open>C2E v0.2: the source replay\<close>

text \<open>
  The run half of \<^verbatim>\<open>source_replay.py\<close> and \<^verbatim>\<open>source_replay_runtime.py\<close> of \<^verbatim>\<open>src/src/ovc/opt_b/c2e_v2/\<close>: both
  modules have a \<^verbatim>\<open>run_source_replay\<close> that builds the frames of each side in order, evaluates the June rules,
  resolves the candidates and drives the episode engine. They differ in how they read the two
  evaluations and in how they close a side; these two steps are arguments of the shared definitions, which
  follow the statements of the code. What a run changes is local to it, so that a raise discards the
  state and the model returns only the error. \<open>write_run\<close> returns the contents of the files it
  writes beside the receipt. The lemmas show that the counters of a replay that returns reconcile
  with its stream, and that the run of the base module never returns.
\<close>

record replay =
  rs_engine :: engine
  rs_frame_index :: "pydict list"
  rs_evaluations :: "pydict list"
  rs_disagreements :: "pydict list"
  rs_blocked :: "pydict list"
  rs_counters :: "(string \<times> nat) list"
  rs_phase :: "(string \<times> string \<times> string list) list"
  rs_previous :: "pydict option"
  rs_active :: "string option"
  rs_actions :: "pyval list"

definition COUNTER_NAMES :: "string list" where
  "COUNTER_NAMES = [''birth'', ''continuation'', ''phase_mutation'', ''re_parent'', ''censor_gap'', ''censor_release_end'',
     ''legacy_disagreements'', ''candidate_not_evaluable'', ''resolver_conflicts'']"

definition replay_init :: "string \<Rightarrow> replay" where
  "replay_init pack_id = \<lparr>rs_engine = engine_init pack_id, rs_frame_index = [], rs_evaluations = [], rs_disagreements = [],
     rs_blocked = [], rs_counters = map (\<lambda>n. (n, 0)) COUNTER_NAMES, rs_phase = [], rs_previous = None, rs_active = None,
     rs_actions = []\<rparr>"

definition counter :: "replay \<Rightarrow> string \<Rightarrow> nat" where
  "counter s name = (case map_of (rs_counters s) name of Some n \<Rightarrow> n | None \<Rightarrow> 0)"

text \<open>\<^verbatim>\<open>counters[name] += 1\<close>\<close>

definition bump :: "string \<Rightarrow> replay \<Rightarrow> replay" where
  "bump name s = s\<lparr>rs_counters := AList.update name (Suc (counter s name)) (rs_counters s)\<rparr>"

text \<open>A call of the engine inside a run.\<close>

definition in_engine :: "(engine, 'a) act \<Rightarrow> replay \<Rightarrow> ('a \<times> replay) result" where
  "in_engine call s = (case call (rs_engine s) of (Inl e, _) \<Rightarrow> Inl e | (Inr x, g) \<Rightarrow> Inr (x, s\<lparr>rs_engine := g\<rparr>))"

definition frame_item :: "pydict \<Rightarrow> string \<Rightarrow> string \<Rightarrow> pyval result" where
  "frame_item frame sec key = bnd (ditem frame sec) (\<lambda>d. vitem d key)"

definition frame_get :: "pydict \<Rightarrow> string \<Rightarrow> string \<Rightarrow> pyval result" where
  "frame_get frame sec key = bnd (ditem frame sec) (\<lambda>d. vget d key VNone)"

definition str_val :: "pyval \<Rightarrow> string result" where
  "str_val v = (case v of VStr s \<Rightarrow> Inr s | _ \<Rightarrow> Inl (Exn TypeError []))"

subsection \<open>The steps of a frame\<close>

fun find_rule :: "pyval list \<Rightarrow> string \<Rightarrow> pydict result" where
  "find_rule [] rule_id = Inl (Exn SourceReplayError (''BOUNDARY_RULE_MISSING:'' @ rule_id))"
| "find_rule (r # rs) rule_id = bnd (vitem r ''boundary_rule_id'') (\<lambda>i. if i = VStr rule_id then as_dict r else find_rule rs rule_id)"

definition rule_of :: "pydict \<Rightarrow> string \<Rightarrow> pydict result" where
  "rule_of pack rule_id = bnd (bnd (ditem pack ''rules'') iter_of) (\<lambda>rules. find_rule rules rule_id)"

text \<open>The identifiers of a frame are strings.\<close>

definition source_ids :: "pydict \<Rightarrow> string list result" where
  "source_ids frame =
    bnd (mapM (\<lambda>key. bnd (frame_item frame ''structural'' key) (\<lambda>v. bnd (as_list (Exn TypeError []) v) (mapM str_val)))
      [''location_record_ids'', ''motion_record_ids'', ''organisation_record_ids'', ''interaction_record_ids'']) (\<lambda>idss.
    Inr (sort (concat idss)))"

definition index_row :: "string \<Rightarrow> pydict \<Rightarrow> pydict result" where
  "index_row side frame =
    bnd (ditem frame ''frame_id'') (\<lambda>frame_id.
    bnd (ditem frame ''logical_hash'') (\<lambda>logical_hash.
    bnd (ditem frame ''lineage_hash'') (\<lambda>lineage_hash.
    bnd (frame_item frame ''identity'' ''observation_id'') (\<lambda>obs.
    bnd (frame_item frame ''chronology'' ''first_valid_time'') (\<lambda>fvt.
    bnd (frame_item frame ''chronology'' ''continuity_segment_id'') (\<lambda>seg.
    bnd (frame_get frame ''chronology'' ''predecessor_observation_id'') (\<lambda>pred.
    bnd (frame_item frame ''comparison'' ''structural_signature_sha256'') (\<lambda>ss.
    bnd (frame_item frame ''comparison'' ''parent_signature_sha256'') (\<lambda>ps.
    bnd (frame_get frame ''context'' ''context_resolution_bundle_id'') (\<lambda>ctx.
    bnd (bnd (frame_item frame ''lineage'' ''parent_record_ids'') iter_of) (\<lambda>parents.
    Inr [(''schema'', VStr ''c2e_input_frame_index/v0_1''), (''frame_id'', frame_id), (''logical_hash'', logical_hash),
         (''lineage_hash'', lineage_hash), (''observation_id'', obs), (''side'', VStr side), (''first_valid_time'', fvt),
         (''continuity_segment_id'', seg), (''predecessor_observation_id'', pred), (''structural_signature_sha256'', ss),
         (''parent_signature_sha256'', ps), (''context_bundle_id'', ctx),
         (''source_relation_set_count'', VInt (int (length (filter (\<lambda>item. prefix ''C2.RELATION.SET.'' (py_str item)) parents)))),
         (''authority'', VStr ''INACTIVE_NONCANONICAL_SHADOW'')])))))))))))"

text \<open>What a run takes from the two evaluations of a frame: the predicates, the names of those that hold,
  and the names of both evaluations when they disagree.\<close>

record verdict =
  v_matched :: pydict
  v_rules :: pyval
  v_differ :: "(pyval \<times> pyval) option"

definition runtime_judge :: "pydict \<Rightarrow> pydict option \<Rightarrow> verdict result" where
  "runtime_judge frame previous =
    bnd (evaluate_boundary_predicates_v2 frame previous False False) (\<lambda>ce.
    bnd (evaluate_boundary_predicates frame previous False False) (\<lambda>le.
    bnd (bnd (ditem ce ''matched'') as_row) (\<lambda>corrected.
    bnd (bnd (ditem le ''matched'') as_row) (\<lambda>legacy.
    bnd (ditem ce ''matched_rules'') (\<lambda>cr.
    bnd (ditem le ''matched_rules'') (\<lambda>lr.
    Inr \<lparr>v_matched = corrected, v_rules = cr,
         v_differ = (if py_eq (VDict corrected) (VDict legacy) then None else Some (cr, lr))\<rparr>))))))"

text \<open>\<^verbatim>\<open>[rule_id for rule_id in RULE_IDS if d[rule_id]]\<close>\<close>

definition rules_true :: "pydict \<Rightarrow> pyval result" where
  "rules_true d = bnd (mapM (\<lambda>r. bnd (ditem d r) (\<lambda>v. Inr (r, py_bool v))) RULE_IDS) (\<lambda>ps.
     Inr (strs_val (map fst (filter snd ps))))"

text \<open>The base module imports the compatibility view of the second evaluator, which returns only the
  predicates, and compares it with the whole answer of the first.\<close>

definition base_judge :: "pydict \<Rightarrow> pydict option \<Rightarrow> verdict result" where
  "base_judge frame previous =
    bnd (evaluate_matched_v2 frame previous False False) (\<lambda>corrected.
    bnd (evaluate_boundary_predicates frame previous False False) (\<lambda>legacy.
    bnd (if py_eq (VDict corrected) (VDict legacy) then Inr None
         else bnd (rules_true corrected) (\<lambda>cr. bnd (rules_true legacy) (\<lambda>lr. Inr (Some (cr, lr))))) (\<lambda>differ.
    bnd (rules_true corrected) (\<lambda>cr.
    Inr \<lparr>v_matched = corrected, v_rules = cr, v_differ = differ\<rparr>))))"

definition disagreement_row :: "string \<Rightarrow> pydict \<Rightarrow> pyval \<times> pyval \<Rightarrow> pydict result" where
  "disagreement_row side frame differ =
    bnd (ditem frame ''frame_id'') (\<lambda>frame_id.
    bnd (frame_item frame ''chronology'' ''first_valid_time'') (\<lambda>fvt.
    Inr [(''schema'', VStr ''c2e_boundary_disagreement/v0_1''), (''side'', VStr side), (''frame_id'', frame_id),
         (''first_valid_time'', fvt), (''corrected_matched_rules'', fst differ), (''legacy_matched_rules'', snd differ),
         (''authority'', VStr ''COMPARATOR_ONLY'')]))"

definition note_disagreement :: "string \<Rightarrow> pydict \<Rightarrow> verdict \<Rightarrow> replay \<Rightarrow> replay result" where
  "note_disagreement side frame v s =
    (case v_differ v of
       None \<Rightarrow> Inr s
     | Some differ \<Rightarrow> bnd (disagreement_row side frame differ) (\<lambda>row.
         Inr ((bump ''legacy_disagreements'' s)\<lparr>rs_disagreements := rs_disagreements s @ [row]\<rparr>)))"

definition add_candidate :: "pydict \<Rightarrow> pydict \<Rightarrow> verdict \<Rightarrow> pydict list \<times> replay \<Rightarrow> string \<Rightarrow> (pydict list \<times> replay) result" where
  "add_candidate pack frame v = (\<lambda>(cands, s) rule_id.
    bnd (rule_of pack rule_id) (\<lambda>rule.
    bnd (ditem (v_matched v) rule_id) (\<lambda>m.
    bnd (bnd (frame_item frame ''chronology'' ''first_valid_time'') str_val) (\<lambda>t.
    bnd (build_candidate rule frame (py_bool m) t None None) (\<lambda>c.
    case c of
      None \<Rightarrow> Inr (cands, s)
    | Some candidate \<Rightarrow> bnd (ditem candidate ''evaluable'') (\<lambda>ev.
        Inr (cands @ [candidate],
          if py_bool ev then s
          else (bump ''candidate_not_evaluable'' s)\<lparr>rs_blocked := rs_blocked s @ [candidate]\<rparr>)))))))"

subsection \<open>Driving the engine\<close>

definition active_or :: "replay \<Rightarrow> string \<Rightarrow> string result" where
  "active_or s marker = (case rs_active s of Some e \<Rightarrow> Inr e | None \<Rightarrow> Inl (Exn SourceReplayError marker))"

definition cand_args :: "pydict \<Rightarrow> (string \<times> string \<times> string) result" where
  "cand_args candidate =
    bnd (str_item candidate ''candidate_id'') (\<lambda>c. bnd (str_item candidate ''effective_time'') (\<lambda>et.
    bnd (str_item candidate ''first_valid_time'') (\<lambda>fvt. Inr (c, et, fvt))))"

definition act_censor_gap :: "replay \<Rightarrow> pydict \<Rightarrow> replay result" where
  "act_censor_gap s candidate =
    bnd (active_or s ''NO_ACTIVE_EPISODE_TO_CENSOR'') (\<lambda>e.
    bnd (cand_args candidate) (\<lambda>(c, et, fvt).
    bnd (in_engine (censor e c ''CENSOR_GAP'' et fvt) s) (\<lambda>(_, s').
    Inr ((bump ''censor_gap'' s')\<lparr>rs_active := None\<rparr>))))"

definition act_re_parent :: "replay \<Rightarrow> pydict \<Rightarrow> replay result" where
  "act_re_parent s candidate =
    bnd (active_or s ''NO_ACTIVE_EPISODE_TO_REPARENT'') (\<lambda>e.
    bnd (cand_args candidate) (\<lambda>(c, et, fvt).
    bnd (in_engine (re_parent e c et fvt (Some [''C2E_UPSTREAM_PARENT_SIGNATURE_CHANGE''])) s) (\<lambda>(_, s').
    Inr (bump ''re_parent'' s'))))"

definition act_phase :: "pydict \<Rightarrow> replay \<Rightarrow> pydict \<Rightarrow> replay result" where
  "act_phase frame s candidate =
    bnd (active_or s ''NO_ACTIVE_EPISODE_TO_PHASE'') (\<lambda>e.
    bnd (case map_of (rs_phase s) e of Some p \<Rightarrow> Inr p | None \<Rightarrow> Inl (Exn KeyError e)) (\<lambda>(start_time, ids).
    bnd (cand_args candidate) (\<lambda>(c, et, fvt).
    bnd (in_engine (phase_mutation e c ''STRUCTURAL_SIGNATURE_INTERVAL'' start_time (Some et) ids et fvt) s) (\<lambda>(_, s').
    bnd (source_ids frame) (\<lambda>ids'.
    Inr (bump ''phase_mutation'' (s'\<lparr>rs_phase := AList.update e (et, ids') (rs_phase s')\<rparr>)))))))"

definition act_continue :: "pydict \<Rightarrow> replay \<Rightarrow> pydict \<Rightarrow> replay result" where
  "act_continue frame s candidate =
    bnd (active_or s ''NO_ACTIVE_EPISODE_TO_CONTINUE'') (\<lambda>e.
    bnd (cand_args candidate) (\<lambda>(c, et, fvt).
    bnd (in_engine (continue_episode e frame c et fvt) s) (\<lambda>(_, s').
    Inr (bump ''continuation'' s'))))"

definition act_birth :: "pydict \<Rightarrow> replay \<Rightarrow> pydict \<Rightarrow> replay result" where
  "act_birth frame s candidate =
    bnd (str_item candidate ''boundary_rule_id'') (\<lambda>rule_id.
    bnd (cand_args candidate) (\<lambda>(c, et, fvt).
    bnd (in_engine (birth frame rule_id c et fvt) s) (\<lambda>(genesis, s').
    bnd (str_item genesis ''episode_id'') (\<lambda>e.
    bnd (source_ids frame) (\<lambda>ids.
    Inr (bump ''birth'' (s'\<lparr>rs_active := Some e, rs_phase := AList.update e (et, ids) (rs_phase s')\<rparr>)))))))"

definition apply_action :: "pydict \<Rightarrow> replay \<Rightarrow> pydict \<Rightarrow> replay result" where
  "apply_action frame s candidate =
    bnd (ditem candidate ''lifecycle_action'') (\<lambda>action.
    bnd (if action = VStr ''CENSOR_GAP'' then act_censor_gap s candidate
         else if action = VStr ''RE_PARENT'' then act_re_parent s candidate
         else if action = VStr ''PHASE_MUTATION'' then act_phase frame s candidate
         else if action = VStr ''CONTINUATION'' then act_continue frame s candidate
         else if action = VStr ''BIRTH'' then act_birth frame s candidate
         else Inl (Exn SourceReplayError (''UNSUPPORTED_LIFECYCLE_ACTION:'' @ py_str action))) (\<lambda>s'.
    Inr (s'\<lparr>rs_actions := rs_actions s' @ [action]\<rparr>)))"

definition evaluation_row :: "string \<Rightarrow> pyval \<Rightarrow> pyval \<Rightarrow> pyval \<Rightarrow> pyval list \<Rightarrow> pyval list \<Rightarrow> pydict" where
  "evaluation_row side frame_id fvt rules actions blocked =
    [(''schema'', VStr ''c2e_boundary_evaluation/v0_2''), (''side'', VStr side), (''frame_id'', frame_id),
     (''first_valid_time'', fvt), (''matched_rules'', rules), (''resolved_actions'', VList actions),
     (''blocked_candidate_ids'', VList blocked), (''authority'', VStr ''INACTIVE_NONCANONICAL_SHADOW'')]"

definition predecessor_of :: "replay \<Rightarrow> pyval result" where
  "predecessor_of s =
    (case rs_previous s of
       None \<Rightarrow> Inr VNone
     | Some p \<Rightarrow> if p = [] then Inr VNone else frame_item p ''identity'' ''observation_id'')"

definition replay_frame ::
  "(pydict \<Rightarrow> pydict option \<Rightarrow> verdict result) \<Rightarrow> pydict \<Rightarrow> string \<Rightarrow> pydict \<Rightarrow> replay \<Rightarrow> replay result" where
  "replay_frame judge pack side frame s =
    bnd (index_row side frame) (\<lambda>row.
    bnd (judge frame (rs_previous s)) (\<lambda>v.
    bnd (note_disagreement side frame v (s\<lparr>rs_frame_index := rs_frame_index s @ [row]\<rparr>)) (\<lambda>s1.
    bnd (foldM (add_candidate pack frame v) ([], s1) RULE_IDS) (\<lambda>(cands, s2).
    bnd (resolve_candidates pack (map Some cands)) (\<lambda>res.
    bnd (ditem frame ''frame_id'') (\<lambda>frame_id.
    bnd (rep_req (res_status res = ''RESOLVED'')
      (''BOUNDARY_RESOLUTION_CONFLICT:'' @ side @ '':'' @ py_str frame_id @ '':'' @ py_str (strs_val (res_reasons res)))) (\<lambda>_.
    bnd (foldM (apply_action frame) (s2\<lparr>rs_actions := []\<rparr>) (resolved res)) (\<lambda>s3.
    bnd (frame_item frame ''chronology'' ''first_valid_time'') (\<lambda>fvt.
    bnd (mapM (\<lambda>c. ditem c ''candidate_id'') (filter (\<lambda>c. \<not> py_bool (dget c ''evaluable'' VNone)) cands)) (\<lambda>blocked.
    Inr (s3\<lparr>rs_evaluations := rs_evaluations s3 @ [evaluation_row side frame_id fvt (v_rules v) (rs_actions s3) blocked],
            rs_previous := Some frame\<rparr>)))))))))))"

definition replay_bundle ::
  "(pydict \<Rightarrow> pydict option \<Rightarrow> verdict result) \<Rightarrow> (pydict \<Rightarrow> pyval \<Rightarrow> pydict result) \<Rightarrow> pydict \<Rightarrow> string \<Rightarrow> replay \<Rightarrow> pydict \<Rightarrow> replay result" where
  "replay_bundle judge frame_of pack side s bundle =
    bnd (predecessor_of s) (\<lambda>pred. bnd (frame_of bundle pred) (\<lambda>frame. replay_frame judge pack side frame s))"

subsection \<open>A side, and the whole run\<close>

definition TARGET_END :: string where
  "TARGET_END = ''2026-07-01T00:00:00Z''"

definition RELEASE_RULE :: string where
  "RELEASE_RULE = ''C2E.RULE.JUNE.BASELINE.CENSOR_RELEASE_END.v1''"

text \<open>Whether the release-end rule holds for the last frame of a side, the confirmation time of its
  candidate, and the rules to report.\<close>

definition runtime_release :: "pydict \<Rightarrow> (bool \<times> string option \<times> pyval) result" where
  "runtime_release previous =
    bnd (evaluate_boundary_predicates_v2 previous (Some previous) False True) (\<lambda>ev.
    bnd (bnd (ditem ev ''matched'') (\<lambda>m. vitem m RELEASE_RULE)) (\<lambda>m.
    bnd (ditem ev ''matched_rules'') (\<lambda>rules.
    Inr (py_bool m, Some TARGET_END, rules))))"

definition base_release :: "pydict \<Rightarrow> (bool \<times> string option \<times> pyval) result" where
  "base_release previous = Inr (True, None, strs_val [RELEASE_RULE])"

definition close_side :: "(pydict \<Rightarrow> (bool \<times> string option \<times> pyval) result) \<Rightarrow> pydict \<Rightarrow> string \<Rightarrow> replay \<Rightarrow> replay result" where
  "close_side release_of pack side s =
    (case (rs_previous s, rs_active s) of
       (Some previous, Some e) \<Rightarrow>
         bnd (release_of previous) (\<lambda>(m, confirmation, rules).
         bnd (rule_of pack RELEASE_RULE) (\<lambda>rule.
         bnd (build_candidate rule previous m TARGET_END confirmation None) (\<lambda>c.
         case c of
           None \<Rightarrow> Inl (Exn SourceReplayError ''RELEASE_END_CANDIDATE_NOT_EVALUABLE'')
         | Some release \<Rightarrow>
             bnd (ditem release ''evaluable'') (\<lambda>ev.
             bnd (rep_req (py_bool ev) ''RELEASE_END_CANDIDATE_NOT_EVALUABLE'') (\<lambda>_.
             bnd (str_item release ''candidate_id'') (\<lambda>cid.
             bnd (in_engine (censor e cid ''CENSOR_RELEASE_END'' TARGET_END TARGET_END) s) (\<lambda>(_, s').
             bnd (ditem previous ''frame_id'') (\<lambda>frame_id.
             let s'' = bump ''censor_release_end'' s' in
             Inr (s''\<lparr>rs_evaluations := rs_evaluations s'' @
               [evaluation_row side frame_id (VStr TARGET_END) rules [VStr ''CENSOR_RELEASE_END''] []]\<rparr>))))))))) 
     | _ \<Rightarrow> Inl (Exn SourceReplayError ''SIDE_POPULATION_EMPTY_OR_UNOWNED''))"

definition sort_side :: "pydict list \<Rightarrow> pydict list result" where
  "sort_side rows =
    bnd (mapM (\<lambda>r. bnd (ditem r ''first_valid_time'') (\<lambda>_. ditem r ''observation_id'')) rows) (\<lambda>_.
    sort_on_strs (\<lambda>r. [dget r ''first_valid_time'' VNone, dget r ''observation_id'' VNone]) rows)"

definition split_sides :: "pydict list \<Rightarrow> (string \<times> pydict list) list result" where
  "split_sides bundles =
    bnd (mapM (\<lambda>b. bnd (ditem b ''side'') (\<lambda>v.
      if py_str v \<in> {''ASK'', ''BID''} then Inr (py_str v, b) else Inl (Exn KeyError (py_str v)))) bundles) (\<lambda>tagged.
    mapM (\<lambda>side. bnd (sort_side (map snd (filter (\<lambda>p. fst p = side) tagged))) (\<lambda>rows. Inr (side, rows))) [''ASK'', ''BID''])"

definition replay_side where
  "replay_side judge release_of frame_of pack s = (\<lambda>(side, rows).
    bnd (foldM (replay_bundle judge frame_of pack side) (s\<lparr>rs_previous := None, rs_active := None\<rparr>) rows)
      (close_side release_of pack side))"

record replay_result =
  rr_frame_index :: "pydict list"
  rr_evaluations :: "pydict list"
  rr_records :: "pydict list"
  rr_disagreements :: "pydict list"
  rr_blocked :: "pydict list"
  rr_counters :: "(string \<times> nat) list"

definition membership_count :: "pydict list \<Rightarrow> nat" where
  "membership_count rs = length (filter (\<lambda>r. dget r ''schema'' VNone = VStr ''c2e_membership_delta/v0_2'') rs)"

definition add_snapshot :: "replay \<Rightarrow> string \<Rightarrow> replay result" where
  "add_snapshot s episode_id =
    bnd (snapshot (rs_engine s) episode_id TARGET_END TARGET_END) (\<lambda>snap.
    bnd (in_engine (on_stream (stream_append snap)) s) (\<lambda>(_, s'). Inr s'))"

definition finish_replay :: "replay \<Rightarrow> replay_result result" where
  "finish_replay s =
    (let n = membership_count (stream_records (e_stream (rs_engine s))) in
     bnd (rep_req (n = 4072) (''MEMBERSHIP_COUNT_RECONCILIATION_FAILED:'' @ nat_str n)) (\<lambda>_.
     bnd (foldM add_snapshot s (sort (map fst (e_genesis (rs_engine s))))) (\<lambda>s'.
     bnd (rep_req (counter s' ''birth'' = length (e_genesis (rs_engine s'))) ''BIRTH_EPISODE_COUNT_MISMATCH'') (\<lambda>_.
     bnd (rep_req (counter s' ''censor_release_end'' = 2) ''RELEASE_END_SIDE_COUNT_MISMATCH'') (\<lambda>_.
     Inr \<lparr>rr_frame_index = rs_frame_index s', rr_evaluations = rs_evaluations s',
          rr_records = stream_records (e_stream (rs_engine s')), rr_disagreements = rs_disagreements s',
          rr_blocked = rs_blocked s', rr_counters = rs_counters s'\<rparr>)))))"

definition run_replay where
  "run_replay judge release_of frame_of m pack =
    bnd (ditem pack ''boundary_pack_id'') (\<lambda>pid.
    bnd (split_sides (m_bundles m)) (\<lambda>sides.
    bnd (foldM (replay_side judge release_of frame_of pack) (replay_init (py_str pid)) sides) finish_replay))"

definition run_source_replay :: "materialisation \<Rightarrow> pydict \<Rightarrow> string \<Rightarrow> replay_result result" where
  "run_source_replay m pack source_build_commit =
    run_replay runtime_judge runtime_release (build_frame runtime_dependencies m source_build_commit) m pack"

text \<open>The run of the base module, for the function bound to \<^verbatim>\<open>_dependencies\<close> when it is called.\<close>

definition base_run_source_replay ::
  "(pydict \<Rightarrow> row_map \<Rightarrow> pydict \<Rightarrow> pydict list result) \<Rightarrow> materialisation \<Rightarrow> pydict \<Rightarrow> string \<Rightarrow> replay_result result" where
  "base_run_source_replay dependencies m pack source_build_commit =
    run_replay base_judge base_release (build_frame dependencies m source_build_commit) m pack"

subsection \<open>Writing a run\<close>

text \<open>The written files are pairs of a name and its bytes.\<close>

definition file_info :: "string \<Rightarrow> nat \<Rightarrow> string \<Rightarrow> pyval" where
  "file_info name n content = VDict [(''file_name'', VStr name), (''record_count'', VInt (int n)),
     (''size_bytes'', VInt (int (length content))), (''sha256'', VStr (sha256 content))]"

definition write_jsonl :: "string \<Rightarrow> pydict list \<Rightarrow> ((string \<times> string) \<times> pyval) result" where
  "write_jsonl name rows =
    bnd (mapM (\<lambda>row. canonical_bytes (VDict row)) rows) (\<lambda>bs.
    let content = concat (map (\<lambda>b. b @ [CHR 0x0A]) bs) in Inr ((name, content), file_info name (length rows) content))"

definition RUN_ID_FIELDS :: "string list" where
  "RUN_ID_FIELDS = [''episode_id'', ''snapshot_id'', ''phase_segment_id'', ''boundary_event_id'', ''membership_delta_id'', ''lineage_edge_id'']"

definition run_record_id :: "pydict \<Rightarrow> pyval result" where
  "run_record_id rec =
    (case filter (dhas rec) RUN_ID_FIELDS of
       [] \<Rightarrow> Inl (Exn SourceReplayError ''STREAM_RECORD_ID_MISSING'')
     | f # _ \<Rightarrow> bnd (ditem rec f) (\<lambda>v. bnd (rep_req (v \<noteq> VNone) ''STREAM_RECORD_ID_MISSING'') (\<lambda>_. Inr v)))"

text \<open>The schema of a stream record is a string.\<close>

definition run_row :: "pydict \<Rightarrow> (pyval \<times> pyval \<times> string) result" where
  "run_row rec = bnd (run_record_id rec) (\<lambda>i. bnd (ditem rec ''logical_hash'') (\<lambda>h. bnd (str_item rec ''schema'') (\<lambda>sc. Inr (i, h, sc))))"

definition count_schemas :: "string list \<Rightarrow> (string \<times> nat) list" where
  "count_schemas scs = fold (\<lambda>sc m. AList.update sc (Suc (case map_of m sc of Some n \<Rightarrow> n | None \<Rightarrow> 0)) m) scs []"

definition run_manifest :: "pyval \<Rightarrow> string \<Rightarrow> string list \<Rightarrow> (pyval \<times> pyval \<times> string) list \<Rightarrow> nat \<Rightarrow> pydict result" where
  "run_manifest source_binding pack_id code_hashes rows blocked =
    (let counts = count_schemas (map (snd \<circ> snd) rows) in
     build_record ''stream_manifest''
       [(''source_binding'', source_binding), (''boundary_pack_id'', VStr pack_id),
        (''schema_ids'', strs_list (sort (map fst counts))), (''code_hashes'', strs_list (sort code_hashes)),
        (''ordered_record_ids'', VList (map fst rows)), (''ordered_record_hashes'', VList (map (fst \<circ> snd) rows)),
        (''counts'', VDict (map (\<lambda>(k, n). (k, VInt (int n))) counts)),
        (''missingness'', VDict [(''not_evaluable_candidates'', VInt (int blocked))]),
        (''authority'', VStr ''INACTIVE_NONCANONICAL_SHADOW'')])"

definition run_checkpoint :: "pydict \<Rightarrow> pyval list \<Rightarrow> pydict result" where
  "run_checkpoint manifest hashes =
    bnd (ditem manifest ''stream_manifest_id'') (\<lambda>mid.
    bnd (sha256_hex (VList hashes)) (\<lambda>h.
    build_record ''checkpoint''
      [(''stream_manifest_id'', mid), (''completed_partitions'', strs_list [''ASK'', ''BID'']),
       (''logical_cursor'', VStr ''TARGET_END:2026-07-01T00:00:00Z''), (''semantic_prefix_hash'', VStr h),
       (''replaceable'', VBool True), (''authority'', VStr ''OPERATIONAL_NON_SEMANTIC'')]))"

definition logical_output :: "(string \<times> pyval) list \<Rightarrow> string result" where
  "logical_output files = bnd (mapM (\<lambda>(key, info). bnd (vitem info ''sha256'') (\<lambda>h. Inr (key, h))) (sort_key fst files)) (\<lambda>ps. sha256_hex (VDict ps))"

definition run_receipt :: "replay_result \<Rightarrow> pyval \<Rightarrow> string \<Rightarrow> (string \<times> pyval) list \<Rightarrow> pydict result" where
  "run_receipt r source_binding pack_id files =
    bnd (logical_output files) (\<lambda>h.
    Inr [(''schema'', VStr ''c2e_wp6_run_output_manifest/v0_1''), (''programme_id'', VStr ''OVC-C2E-CAUSAL-EPISODE-CONFORMANCE-v0.2''),
         (''packet_id'', VStr ''C2E2-WP6''), (''boundary_pack_id'', VStr pack_id), (''source_binding'', source_binding),
         (''files'', VDict files), (''counters'', VDict (map (\<lambda>(k, n). (k, VInt (int n))) (rr_counters r))),
         (''frame_count'', VInt (int (length (rr_frame_index r)))), (''stream_record_count'', VInt (int (length (rr_records r)))),
         (''episode_count'', VInt (int (case map_of (rr_counters r) ''birth'' of Some n \<Rightarrow> n | None \<Rightarrow> 0))),
         (''logical_output_sha256'', VStr h), (''authority'', VStr ''INACTIVE_NONCANONICAL_SHADOW''), (''provider_intake'', VStr ''NONE''),
         (''sampling'', VStr ''NONE''), (''validation_consumption'', VStr ''NONE'')])"

definition write_run :: "replay_result \<Rightarrow> pyval \<Rightarrow> string \<Rightarrow> string list \<Rightarrow> ((string \<times> string) list \<times> pydict) result" where
  "write_run r binding pack_id code_hashes =
    bnd (write_jsonl ''c2e-input-frame-index-v0_3.jsonl'' (rr_frame_index r)) (\<lambda>(f1, i1).
    bnd (write_jsonl ''c2e-boundary-evaluations-v2.jsonl'' (rr_evaluations r)) (\<lambda>(f2, i2).
    bnd (write_jsonl ''c2e-event-stream-v0_2.jsonl'' (rr_records r)) (\<lambda>(f3, i3).
    bnd (write_jsonl ''c2e-boundary-disagreement-ledger.jsonl'' (rr_disagreements r)) (\<lambda>(f4, i4).
    bnd (write_jsonl ''c2e-not-evaluable-candidates.jsonl'' (rr_blocked r)) (\<lambda>(f5, i5).
    bnd (mapM run_row (rr_records r)) (\<lambda>rows.
    bnd (as_dict binding) (\<lambda>source_binding.
    bnd (run_manifest (VDict source_binding) pack_id code_hashes rows (length (rr_blocked r))) (\<lambda>manifest.
    bnd (write_jsonl ''c2e-stream-manifest-v0_2.json'' [manifest]) (\<lambda>(f6, i6).
    bnd (run_checkpoint manifest (map (fst \<circ> snd) rows)) (\<lambda>checkpoint.
    bnd (write_jsonl ''c2e-checkpoint-final-v0_2.json'' [checkpoint]) (\<lambda>(f7, i7).
    bnd (run_receipt r (VDict source_binding) pack_id
      [(''frame_index'', i1), (''evaluations'', i2), (''stream'', i3), (''disagreements'', i4), (''blocked_candidates'', i5),
       (''stream_manifest'', i6), (''checkpoint'', i7)]) (\<lambda>receipt.
    bnd (write_jsonl ''c2e-wp6-run-output-manifest.json'' [receipt]) (\<lambda>(f8, _).
    Inr ([f1, f2, f3, f4, f5, f6, f7, f8], receipt))))))))))))))"

subsection \<open>The base run never returns\<close>

lemma evaluate_with_shape:
  assumes "evaluate_with rq ssig psig heading current previous gap release_end = Inr ev"
  obtains rules cs ps cp pp sc where "ev = heading @ evaluation_body rules cs ps cp pp sc gap release_end"
    "\<exists>a b c d e. rules = match_rules a b c d e"
  using assms unfolding evaluate_with_def Let_def bnd_eq_Inr sum.inject
  by (elim exE conjE) (erule that [OF sym], blast)

lemma matched_v2_length:
  assumes "evaluate_matched_v2 current previous gap release_end = Inr d"
  shows "length d = 6"
proof -
  obtain ev where ev: "evaluate_boundary_predicates_v2 current previous gap release_end = Inr ev" "bnd (ditem ev ''matched'') as_dict = Inr d"
    using assms by (auto simp: evaluate_matched_v2_def bnd_eq_Inr)
  obtain rules cs ps cp pp sc where "ev = [(''schema'', VStr ''ovc-c2e-empirical-boundary-evaluation/v2''), (''implementation_id'', VStr IMPLEMENTATION_ID),
       (''signature_contract_id'', VStr ''C2E.STABLE.COMPARISON.SIGNATURES.v1'')] @ evaluation_body rules cs ps cp pp sc gap release_end"
      "\<exists>a b c d e. rules = match_rules a b c d e"
    using evaluate_with_shape [OF ev(1) [unfolded evaluate_boundary_predicates_v2_def]] .
  then show ?thesis using ev(2) by (auto simp: evaluation_body_def ditem_def match_rules_def Let_def)
qed

lemma legacy_shape:
  assumes "evaluate_boundary_predicates current previous gap release_end = Inr d"
  shows "length d = 16" and "map_of d (hd RULE_IDS) = None"
proof -
  obtain rules cs ps cp pp sc where d: "d = [(''schema'', VStr ''ovc-c2e-empirical-boundary-evaluation/v1'')] @ evaluation_body rules cs ps cp pp sc gap release_end"
    using evaluate_with_shape [OF assms [unfolded evaluate_boundary_predicates_def]] by metis
  show "length d = 16" by (simp add: d evaluation_body_def)
  show "map_of d (hd RULE_IDS) = None" by (simp add: d evaluation_body_def RULE_IDS_def)
qed

lemma base_judge_raises: "base_judge frame previous \<noteq> Inr v"
proof
  assume "base_judge frame previous = Inr v"
  then obtain corrected legacy differ where c: "evaluate_matched_v2 frame previous False False = Inr corrected"
    "evaluate_boundary_predicates frame previous False False = Inr legacy"
    "(if py_eq (VDict corrected) (VDict legacy) then Inr None
         else bnd (rules_true corrected) (\<lambda>cr. bnd (rules_true legacy) (\<lambda>lr. Inr (Some (cr, lr))))) = Inr differ"
    by (auto simp: base_judge_def bnd_eq_Inr)
  have "\<not> py_eq (VDict corrected) (VDict legacy)"
    using matched_v2_length [OF c(1)] legacy_shape(1) [OF c(2)] by (subst py_eq.simps) simp
  then obtain lr where "rules_true legacy = Inr lr" using c(3) by (auto simp: bnd_eq_Inr)
  then obtain w where "map_of legacy (hd RULE_IDS) = Some w" by (auto simp: rules_true_def bnd_eq_Inr RULE_IDS_def ditem_Inr)
  then show False using legacy_shape(2) [OF c(2)] by simp
qed

text \<open>C30: the run of the base module never returns, whatever the materialisation, the pack and the function
  bound to \<^verbatim>\<open>_dependencies\<close>. It reads the full answer of the first evaluator as if it were the map of
  predicates, which raises on the first frame of a side, and a side without frames raises as well.\<close>

theorem base_run_never_returns:
  "base_run_source_replay dependencies m pack commit \<noteq> Inr res"
proof
  assume "base_run_source_replay dependencies m pack commit = Inr res"
  then obtain pid sides s where "split_sides (m_bundles m) = Inr sides"
    and f: "foldM (replay_side base_judge base_release (build_frame dependencies m commit) pack) (replay_init pid) sides = Inr s"
    by (auto simp: base_run_source_replay_def run_replay_def bnd_eq_Inr)
  then obtain rows rest where sides: "sides = (''ASK'', rows) # rest"
    by (auto simp: split_sides_def bnd_eq_Inr)
  with f obtain s' where "replay_side base_judge base_release (build_frame dependencies m commit) pack (replay_init pid) (''ASK'', rows) = Inr s'"
    by (auto simp: bnd_eq_Inr)
  then show False
    by (cases rows) (auto simp: replay_side_def bnd_eq_Inr close_side_def replay_bundle_def replay_frame_def base_judge_raises)
qed

subsection \<open>What a call of the engine adds to the counts\<close>

definition events_of :: "string \<Rightarrow> pydict list \<Rightarrow> nat" where
  "events_of a rs = length (filter (\<lambda>r. is_schema r ''c2e_boundary_event/v0_2'' \<and> map_of r ''lifecycle_action'' = Some (VStr a)) rs)"

lemma counts_snoc:
  "events_of a (rs @ [r]) = events_of a rs + (if is_schema r ''c2e_boundary_event/v0_2'' \<and> map_of r ''lifecycle_action'' = Some (VStr a) then 1 else 0)"
  "membership_count (rs @ [r]) = membership_count rs + (if is_schema r ''c2e_membership_delta/v0_2'' then 1 else 0)"
  by (simp_all add: events_of_def membership_count_def dget_schema)

text \<open>One event of the given action, and so many memberships and episodes more.\<close>

definition adds :: "string \<Rightarrow> nat \<Rightarrow> nat \<Rightarrow> engine \<Rightarrow> engine \<Rightarrow> bool" where
  "adds action k g s s' \<longleftrightarrow>
    (\<forall>a. events_of a (recs s') = events_of a (recs s) + (if a = action then 1 else 0)) \<and>
    membership_count (recs s') = membership_count (recs s) + k \<and> length (e_genesis s') = length (e_genesis s) + g"

lemma emit_Inr:
  assumes "emit_event es cs a pri et fvt rs s = (Inr ev, s')"
  shows "adds a 0 0 s s'" and "e_genesis s' = e_genesis s" and "\<exists>i. map_of ev ''boundary_event_id'' = Some (VStr i)"
proof -
  from assms obtain i where b: "build_event es cs a pri et fvt rs = Inr ev" and s': "s' = put_rec ev i s"
    unfolding emit_event_def act_inv by (auto dest!: on_stream_append)
  show "adds a 0 0 s s'" unfolding adds_def s' put_rec_simps counts_snoc
    using build_event_fields(1,2) [OF b] is_schema_unique by auto
  show "e_genesis s' = e_genesis s" by (simp add: s')
  show "\<exists>i. map_of ev ''boundary_event_id'' = Some (VStr i)" by (rule build_event_fields(4) [OF b])
qed

lemma append_counts:
  assumes "on_stream (stream_append r) s = (Inr u, s')"
  obtains i where "s' = put_rec r i s" "stream_record_id r = Inr i" "i \<notin> set (s_ids (e_stream s))"
  using on_stream_append [OF assms] by auto

lemma append_membership:
  assumes "on_stream (stream_append r) s = (Inr u, s')" and "build_membership e fid ev et fvt = Inr r" and "adds a 0 g s0 s"
  shows "adds a 1 g s0 s'"
proof -
  obtain i where s': "s' = put_rec r i s" using append_counts [OF assms(1)] by metis
  have "is_schema r ''c2e_membership_delta/v0_2''" "\<not> is_schema r ''c2e_boundary_event/v0_2''"
    using build_membership_fields(1) [OF assms(2)] is_schema_unique by auto
  then show ?thesis using assms(3) unfolding adds_def s' put_rec_simps counts_snoc by simp
qed

lemma append_plain:
  assumes "on_stream (stream_append r) s = (Inr u, s')" and "is_schema r sc"
    and "sc \<noteq> ''c2e_membership_delta/v0_2''" and "sc \<noteq> ''c2e_boundary_event/v0_2''" and "adds a k g s0 s"
  shows "adds a k g s0 s'"
proof -
  obtain i where s': "s' = put_rec r i s" using append_counts [OF assms(1)] by metis
  have "\<not> is_schema r ''c2e_membership_delta/v0_2''" "\<not> is_schema r ''c2e_boundary_event/v0_2''"
    using assms(2-4) is_schema_unique by auto
  then show ?thesis using assms(5) unfolding adds_def s' put_rec_simps counts_snoc by simp
qed

lemma adds_fields:
  "adds a k g s (s'\<lparr>e_status := x\<rparr>) = adds a k g s s'" "adds a k g s (s'\<lparr>e_owner := y\<rparr>) = adds a k g s s'"
  by (simp_all add: adds_def)

lemma censor_adds: "censor e c r et fvt s = (Inr x, s') \<Longrightarrow> adds r 0 0 s s'"
  by (auto simp: censor_def act_inv adds_fields dest!: require_open_inv dest: emit_Inr(1))

lemma re_parent_adds: "re_parent e c et fvt rs s = (Inr x, s') \<Longrightarrow> adds ''RE_PARENT'' 0 0 s s'"
  by (auto simp: re_parent_def act_inv dest!: require_open_inv dest: emit_Inr(1))

lemma phase_adds:
  assumes "phase_mutation e c pt st en src et fvt s = (Inr x, s')"
  shows "adds ''PHASE_MUTATION'' 0 0 s s'"
proof -
  obtain ev s1 ph where e: "emit_event [e] [c] ''PHASE_MUTATION'' 6 et fvt [] s = (Inr ev, s1)"
    and b: "build_record ''phase_segment''
      [(''episode_id'', VStr e), (''phase_type'', VStr pt), (''start_time'', VStr st),
       (''end_time'', case en of Some t \<Rightarrow> VStr t | None \<Rightarrow> VNone), (''first_valid_time'', VStr fvt),
       (''source_record_ids'', strs_list src), (''authority'', VStr ''INACTIVE_NONCANONICAL_SHADOW'')] = Inr ph"
    and a: "on_stream (stream_append ph) s1 = (Inr (), s')"
    using assms unfolding phase_mutation_def act_inv by (auto dest!: require_open_inv)
  have "is_schema ph ''c2e_phase_segment/v0_2''"
    using built_schema [OF b engine_kinds(4)] by (simp add: is_schema_def engine_schemas)
  then show ?thesis using append_plain [OF a _ _ _ emit_Inr(1) [OF e]] by simp
qed

lemma continue_adds:
  assumes "continue_episode e f c et fvt s = (Inr x, s')"
  shows "adds ''CONTINUATION'' 1 0 s s'"
proof -
  obtain ev s1 fid eid mem s2 k where e: "emit_event [e] [c] ''CONTINUATION'' 7 et fvt [] s = (Inr ev, s1)"
    and b: "build_membership e fid eid et fvt = Inr mem" and a: "on_stream (stream_append mem) s1 = (Inr (), s2)"
    and s': "s' = s2\<lparr>e_owner := AList.update k e (e_owner s2)\<rparr>"
    using assms unfolding continue_episode_def act_inv by (auto dest!: require_open_inv)
  show ?thesis unfolding s' adds_fields using append_membership [OF a b emit_Inr(1) [OF e]] .
qed

lemma length_update_new: "map_of d k = None \<Longrightarrow> length (AList.update k v d) = Suc (length d)"
  by (induction d) (auto split: if_splits)

lemma birth_adds:
  assumes "engine_ok s" and "birth f r c et fvt s = (Inr x, s')"
  shows "adds ''BIRTH'' 1 1 s s'"
proof -
  obtain k g i s1 ev s2 fid eid mem where g: "build_genesis (e_pack_id s) f r et fvt = Inr g"
    and a: "on_stream (stream_append g) s = (Inr (), s1)" and i: "str_item g ''episode_id'' = Inr i"
    and e: "emit_event [i] [c] ''BIRTH'' 8 et fvt []
      (s1\<lparr>e_genesis := AList.update i g (e_genesis s1), e_status := AList.update i ''OPEN'' (e_status s1),
        e_owner := AList.update k i (e_owner s1)\<rparr>) = (Inr ev, s2)"
    and b: "build_membership i fid eid et fvt = Inr mem" and m: "on_stream (stream_append mem) s2 = (Inr (), s')"
    using assms(2) unfolding birth_def act_inv by auto
  let ?s = "s1\<lparr>e_genesis := AList.update i g (e_genesis s1), e_status := AList.update i ''OPEN'' (e_status s1),
        e_owner := AList.update k i (e_owner s1)\<rparr>"
  obtain j where s1: "s1 = put_rec g j s" "stream_record_id g = Inr j" "j \<notin> set (s_ids (e_stream s))"
    using append_counts [OF a] .
  have "i = j" using build_genesis_fields(2) [OF g] i s1(2) by (auto simp: str_item_def ditem_def)
  then have "map_of (e_genesis s) i = None" using s1(3) engine_okD(5) [OF assms(1)] by blast
  then have l: "length (e_genesis ?s) = length (e_genesis s) + 1" by (simp add: s1(1) length_update_new)
  have sc: "is_schema g ''c2e_episode_genesis/v0_2''" using build_genesis_fields(1) [OF g] .
  have "events_of a (recs ?s) = events_of a (recs s)" "membership_count (recs ?s) = membership_count (recs s)" for a
    using is_schema_unique [OF sc] by (simp_all add: s1(1) counts_snoc)
  then have "adds ''BIRTH'' 0 1 s s2" using emit_Inr(1) [OF e] l by (simp add: adds_def)
  then show ?thesis by (rule append_membership [OF m b])
qed

subsection \<open>The counters of a run reconcile with its stream\<close>

definition COUNTED :: "(string \<times> string) list" where
  "COUNTED = [(''birth'', ''BIRTH''), (''continuation'', ''CONTINUATION''), (''phase_mutation'', ''PHASE_MUTATION''),
     (''re_parent'', ''RE_PARENT''), (''censor_gap'', ''CENSOR_GAP''), (''censor_release_end'', ''CENSOR_RELEASE_END'')]"

definition replay_ok :: "replay \<Rightarrow> bool" where
  "replay_ok s \<longleftrightarrow> engine_ok (rs_engine s) \<and>
    (\<forall>(name, a) \<in> set COUNTED. map_of (rs_counters s) name = Some (events_of a (recs (rs_engine s)))) \<and>
    events_of ''BIRTH'' (recs (rs_engine s)) = length (e_genesis (rs_engine s)) \<and>
    events_of ''BIRTH'' (recs (rs_engine s)) + events_of ''CONTINUATION'' (recs (rs_engine s)) = membership_count (recs (rs_engine s))"

lemma map_of_bump: "map_of (rs_counters (bump n s)) m = (if m = n then Some (Suc (counter s n)) else map_of (rs_counters s) m)"
  by (simp add: bump_def)

lemma bump_engine [simp]: "rs_engine (bump n s) = rs_engine s"
  by (simp add: bump_def)

text \<open>Only the engine and the counters matter, and of these only the counters of actions.\<close>

lemma replay_ok_fields: "rs_engine t = rs_engine s \<Longrightarrow> rs_counters t = rs_counters s \<Longrightarrow> replay_ok t = replay_ok s"
  by (simp add: replay_ok_def)

lemma replay_ok_other:
  assumes "rs_engine t = rs_engine s" and "rs_counters t = rs_counters (bump n s)" and "n \<notin> fst ` set COUNTED"
  shows "replay_ok t = replay_ok s"
proof -
  have "map_of (rs_counters t) name = map_of (rs_counters s) name" if "(name, a) \<in> set COUNTED" for name a
    using that assms(3) by (force simp: assms(2) map_of_bump)
  then show ?thesis unfolding replay_ok_def assms(1) by fastforce
qed

lemma in_engine_Inr: "in_engine call s = Inr (x, s') \<longleftrightarrow> (\<exists>g. call (rs_engine s) = (Inr x, g) \<and> s' = s\<lparr>rs_engine := g\<rparr>)"
  by (auto simp: in_engine_def split: prod.splits sum.splits)

text \<open>A call that adds one event of an action, followed by the increment of its counter.\<close>

lemma bump_ok:
  assumes "replay_ok s" and "(name, a) \<in> set COUNTED" and "engine_ok g"
    and "adds a (if name = ''birth'' \<or> name = ''continuation'' then 1 else 0) (if name = ''birth'' then 1 else 0) (rs_engine s) g"
    and "rs_engine t = g" and "rs_counters t = rs_counters s"
  shows "replay_ok (bump name t)"
proof -
  note k = assms(1) [unfolded replay_ok_def] and d = assms(4) [unfolded adds_def]
  have inj: "(n = name) = (b = a)" if "(n, b) \<in> set COUNTED" for n b using that assms(2) by (auto simp: COUNTED_def)
  have "map_of (rs_counters (bump name t)) n = Some (events_of b (recs g))" if nb: "(n, b) \<in> set COUNTED" for n b
  proof -
    have "map_of (rs_counters s) n = Some (events_of b (recs (rs_engine s)))" using k nb by blast
    then show ?thesis using d inj [OF nb] by (cases "n = name") (auto simp: map_of_bump counter_def assms(6))
  qed
  then have "\<forall>(n, b) \<in> set COUNTED. map_of (rs_counters (bump name t)) n = Some (events_of b (recs g))" by blast
  moreover have ab: "(name = ''birth'') = (a = ''BIRTH'')" "(name = ''continuation'') = (a = ''CONTINUATION'')"
    using assms(2) by (auto simp: COUNTED_def)
  have "events_of ''BIRTH'' (recs g) = length (e_genesis g)" using k d ab by simp
  moreover have "events_of ''BIRTH'' (recs g) + events_of ''CONTINUATION'' (recs g) = membership_count (recs g)"
    using k d ab by auto
  ultimately show ?thesis using assms(3) unfolding replay_ok_def bump_engine assms(5) by blast
qed

lemma exec_Inr_ok: "engine_ok s \<Longrightarrow> exec call s = (Inr x, s') \<Longrightarrow> engine_ok s'"
  using exec_ok [of s call] by simp

lemmas call_ok = exec_Inr_ok [of _ "Birth f r c et fvt" for f r c et fvt, simplified]
  exec_Inr_ok [of _ "Continue e f c et fvt" for e f c et fvt, simplified]
  exec_Inr_ok [of _ "Phase_Mutation e c pt st en src et fvt" for e c pt st en src et fvt, simplified]
  exec_Inr_ok [of _ "Re_Parent e c et fvt rs" for e c et fvt rs, simplified]
  exec_Inr_ok [of _ "Censor e c r et fvt" for e c r et fvt, simplified]

lemma act_ok:
  assumes "replay_ok s"
  shows "act_censor_gap s cand = Inr s' \<Longrightarrow> replay_ok s'" and "act_re_parent s cand = Inr s' \<Longrightarrow> replay_ok s'"
    and "act_phase frame s cand = Inr s' \<Longrightarrow> replay_ok s'" and "act_continue frame s cand = Inr s' \<Longrightarrow> replay_ok s'"
    and "act_birth frame s cand = Inr s' \<Longrightarrow> replay_ok s'"
proof -
  have e: "engine_ok (rs_engine s)" using assms by (simp add: replay_ok_def)
  note b = bump_ok [OF assms]
  show "act_censor_gap s cand = Inr s' \<Longrightarrow> replay_ok s'"
  proof -
    assume "act_censor_gap s cand = Inr s'"
    then obtain ep c et fvt x g where g: "censor ep c ''CENSOR_GAP'' et fvt (rs_engine s) = (Inr x, g)"
      and s': "s' = (bump ''censor_gap'' (s\<lparr>rs_engine := g\<rparr>))\<lparr>rs_active := None\<rparr>"
      by (auto simp: act_censor_gap_def bnd_eq_Inr in_engine_Inr)
    have "replay_ok (bump ''censor_gap'' (s\<lparr>rs_engine := g\<rparr>))"
      using censor_adds [OF g] by (intro b [OF _ call_ok(5) [OF e g]]) (simp_all add: COUNTED_def)
    then show "replay_ok s'" unfolding s' by (subst replay_ok_fields) simp_all
  qed
  show "act_re_parent s cand = Inr s' \<Longrightarrow> replay_ok s'"
  proof -
    assume "act_re_parent s cand = Inr s'"
    then obtain ep c et fvt x g where g: "re_parent ep c et fvt (Some [''C2E_UPSTREAM_PARENT_SIGNATURE_CHANGE'']) (rs_engine s) = (Inr x, g)"
      and s': "s' = bump ''re_parent'' (s\<lparr>rs_engine := g\<rparr>)"
      by (auto simp: act_re_parent_def bnd_eq_Inr in_engine_Inr)
    show "replay_ok s'" unfolding s'
      using re_parent_adds [OF g] by (intro b [OF _ call_ok(4) [OF e g]]) (simp_all add: COUNTED_def)
  qed
  show "act_phase frame s cand = Inr s' \<Longrightarrow> replay_ok s'"
  proof -
    assume "act_phase frame s cand = Inr s'"
    then obtain ep c st ids et fvt x g y where g: "phase_mutation ep c ''STRUCTURAL_SIGNATURE_INTERVAL'' st (Some et) ids et fvt (rs_engine s) = (Inr x, g)"
      and s': "s' = bump ''phase_mutation'' (s\<lparr>rs_engine := g, rs_phase := y\<rparr>)"
      by (auto simp: act_phase_def bnd_eq_Inr in_engine_Inr)
    show "replay_ok s'" unfolding s'
      using phase_adds [OF g] by (intro b [OF _ call_ok(3) [OF e g]]) (simp_all add: COUNTED_def)
  qed
  show "act_continue frame s cand = Inr s' \<Longrightarrow> replay_ok s'"
  proof -
    assume "act_continue frame s cand = Inr s'"
    then obtain ep c et fvt x g where g: "continue_episode ep frame c et fvt (rs_engine s) = (Inr x, g)"
      and s': "s' = bump ''continuation'' (s\<lparr>rs_engine := g\<rparr>)"
      by (auto simp: act_continue_def bnd_eq_Inr in_engine_Inr)
    show "replay_ok s'" unfolding s'
      using continue_adds [OF g] by (intro b [OF _ call_ok(2) [OF e g]]) (simp_all add: COUNTED_def)
  qed
  show "act_birth frame s cand = Inr s' \<Longrightarrow> replay_ok s'"
  proof -
    assume "act_birth frame s cand = Inr s'"
    then obtain r c et fvt x g y z where g: "birth frame r c et fvt (rs_engine s) = (Inr x, g)"
      and s': "s' = bump ''birth'' (s\<lparr>rs_engine := g, rs_active := y, rs_phase := z\<rparr>)"
      by (auto simp: act_birth_def bnd_eq_Inr in_engine_Inr)
    show "replay_ok s'" unfolding s'
      using birth_adds [OF e g] by (intro b [OF _ call_ok(1) [OF e g]]) (simp_all add: COUNTED_def)
  qed
qed

lemma apply_action_ok: "replay_ok s \<Longrightarrow> apply_action frame s cand = Inr s' \<Longrightarrow> replay_ok s'"
proof -
  assume "replay_ok s" and "apply_action frame s cand = Inr s'"
  then obtain t x where "s' = t\<lparr>rs_actions := x\<rparr>" "replay_ok t"
    unfolding apply_action_def by (auto simp: bnd_eq_Inr split: if_splits intro: act_ok)
  then show ?thesis by (subst replay_ok_fields [of _ t]) simp_all
qed

lemma note_ok: "replay_ok s \<Longrightarrow> note_disagreement side frame v s = Inr s' \<Longrightarrow> replay_ok s'"
  using replay_ok_other [of s' s "''legacy_disagreements''"]
  by (auto simp: note_disagreement_def bnd_eq_Inr COUNTED_def bump_def split: option.splits)

lemma add_candidate_ok:
  "replay_ok (snd p) \<Longrightarrow> add_candidate pack frame v p rule_id = Inr q \<Longrightarrow> replay_ok (snd q)"
  using replay_ok_other [of "snd q" "snd p" "''candidate_not_evaluable''"]
  by (auto simp: add_candidate_def bnd_eq_Inr COUNTED_def bump_def split: option.splits prod.splits if_splits)

lemma replay_frame_ok:
  assumes "replay_ok s" and "replay_frame judge pack side frame s = Inr s'"
  shows "replay_ok s'"
proof -
  from assms(2) obtain v row s1 p res s3 where
      n: "note_disagreement side frame v (s\<lparr>rs_frame_index := row\<rparr>) = Inr s1"
    and c: "foldM (add_candidate pack frame v) ([], s1) RULE_IDS = Inr p"
    and a: "foldM (apply_action frame) ((snd p)\<lparr>rs_actions := []\<rparr>) (resolved (res :: resolution)) = Inr s3"
    and s': "rs_engine s' = rs_engine s3" "rs_counters s' = rs_counters s3"
    unfolding replay_frame_def case_prod_unfold bnd_eq_Inr sum.inject
    by (elim exE conjE) (rule that, assumption, assumption, assumption, force+)
  have "replay_ok (s\<lparr>rs_frame_index := row\<rparr>)" using assms(1) by (subst replay_ok_fields) simp_all
  then have "replay_ok s1" using n by (rule note_ok)
  then have "replay_ok (snd p)"
    by (intro foldM_invariant [OF c, of "\<lambda>p. replay_ok (snd p)"]) (auto intro: add_candidate_ok)
  then have "replay_ok ((snd p)\<lparr>rs_actions := []\<rparr>)" by (subst replay_ok_fields [of _ "snd p"]) simp_all
  then have "replay_ok s3" by (rule foldM_invariant [OF a]) (auto intro: apply_action_ok)
  then show ?thesis using replay_ok_fields [OF s'] by simp
qed

lemma close_side_ok:
  assumes "replay_ok s" and "close_side release_of pack side s = Inr s'"
  shows "replay_ok s'"
proof -
  from assms(2) obtain e c x g y where g: "censor e c ''CENSOR_RELEASE_END'' TARGET_END TARGET_END (rs_engine s) = (Inr x, g)"
    and s': "s' = (bump ''censor_release_end'' (s\<lparr>rs_engine := g\<rparr>))\<lparr>rs_evaluations := y\<rparr>"
    unfolding close_side_def Let_def by (auto simp: bnd_eq_Inr in_engine_Inr split: option.splits)
  have "engine_ok (rs_engine s)" using assms(1) by (simp add: replay_ok_def)
  then have "replay_ok (bump ''censor_release_end'' (s\<lparr>rs_engine := g\<rparr>))"
    using censor_adds [OF g] by (intro bump_ok [OF assms(1) _ call_ok(5) [OF _ g]]) (simp_all add: COUNTED_def)
  then show ?thesis unfolding s' by (subst replay_ok_fields) simp_all
qed

lemma replay_side_ok:
  assumes "replay_ok s" and "replay_side judge release_of frame_of pack s p = Inr s'"
  shows "replay_ok s'"
proof -
  obtain side rows where p: "p = (side, rows)" by (cases p)
  then obtain t where f: "foldM (replay_bundle judge frame_of pack side) (s\<lparr>rs_previous := None, rs_active := None\<rparr>) rows = Inr t"
    and c: "close_side release_of pack side t = Inr s'" using assms(2) by (auto simp: replay_side_def bnd_eq_Inr)
  have "replay_ok (s\<lparr>rs_previous := None, rs_active := None\<rparr>)" using assms(1) by (subst replay_ok_fields) simp_all
  then have "replay_ok t"
    by (rule foldM_invariant [OF f]) (auto simp: replay_bundle_def bnd_eq_Inr intro: replay_frame_ok)
  then show ?thesis using c by (rule close_side_ok)
qed

lemma replay_init_ok: "replay_ok (replay_init pid)"
  using engine_ok_init [of pid]
  by (simp add: replay_ok_def replay_init_def COUNTED_def COUNTER_NAMES_def events_of_def membership_count_def
      engine_init_def stream_init_def)

text \<open>A snapshot adds nothing that is counted.\<close>

lemma add_snapshot_ok:
  assumes "replay_ok s" and "add_snapshot s e = Inr s'"
  shows "replay_ok s'"
proof -
  from assms(2) obtain snap u g where p: "snapshot (rs_engine s) e TARGET_END TARGET_END = Inr snap"
    and a: "on_stream (stream_append snap) (rs_engine s) = (Inr u, g)" and s': "s' = s\<lparr>rs_engine := g\<rparr>"
    by (auto simp: add_snapshot_def bnd_eq_Inr in_engine_Inr)
  obtain pl where b: "build_record ''episode_snapshot'' pl = Inr snap"
    using p by (auto simp: snapshot_def project_episode_def bnd_eq_Inr)
  have sc: "is_schema snap ''c2e_episode_snapshot/v0_2''"
    using built_schema [OF b engine_kinds(6)] by (simp add: is_schema_def engine_schemas)
  note u = is_schema_unique [OF sc]
  have eng: "engine_ok (rs_engine s)" using assms(1) by (simp add: replay_ok_def)
  obtain i where g: "g = put_rec snap i (rs_engine s)" and ok: "stream_ok (e_stream g)"
    using on_stream_append [OF a] engine_okD(1) [OF eng] by auto
  have r: "rec_ok (episodes (rs_engine s)) snap" "event_status e' snap st = st" "member_of e' snap = {}" for e' st
    using sc u by (auto simp: rec_ok_def event_status_def member_of_def)
  have "engine_ok g" unfolding g by (rule put_rec_ok [OF eng ok [unfolded g] r(1)]) (simp_all add: r(2,3))
  then show ?thesis using assms(1) u unfolding s' replay_ok_def
    by (simp add: g counts_snoc)
qed

text \<open>C29: the counters of a replay that returns reconcile with the stream it returns. Each counter of a
  lifecycle action is the number of boundary events of that action; the memberships, of which there are
  exactly 4072, are the births and the continuations together; and exactly two episodes, the last one of
  each side, are closed by the end of the release.\<close>

theorem replay_reconciles:
  "case run_source_replay m pack commit of
     Inl e \<Rightarrow> True
   | Inr res \<Rightarrow>
       list_all (\<lambda>(name, action). map_of (rr_counters res) name = Some (events_of action (rr_records res))) COUNTED \<and>
       events_of ''BIRTH'' (rr_records res) + events_of ''CONTINUATION'' (rr_records res) = 4072 \<and>
       membership_count (rr_records res) = 4072 \<and> events_of ''CENSOR_RELEASE_END'' (rr_records res) = 2"
proof (cases "run_source_replay m pack commit")
  case (Inr res)
  then obtain pid sides s where
      f: "foldM (replay_side runtime_judge runtime_release (build_frame runtime_dependencies m commit) pack) (replay_init pid) sides = Inr s"
    and fin: "finish_replay s = Inr res"
    by (auto simp: run_source_replay_def run_replay_def bnd_eq_Inr)
  have ok: "replay_ok s" using foldM_invariant [OF f, of replay_ok] replay_init_ok replay_side_ok by blast
  from fin obtain s' where g: "foldM add_snapshot s (sort (map fst (e_genesis (rs_engine s)))) = Inr s'"
    and n: "membership_count (recs (rs_engine s)) = 4072" "counter s' ''censor_release_end'' = 2"
    and r: "rr_records res = recs (rs_engine s')" "rr_counters res = rs_counters s'"
    by (auto simp: finish_replay_def Let_def bnd_eq_Inr rep_req_def req_eq_Inr stream_records_def)
  have ok': "replay_ok s'" using foldM_invariant [OF g, of replay_ok] ok add_snapshot_ok by blast
  have "rs_counters s' = rs_counters s"
    by (rule foldM_invariant [OF g, of "\<lambda>t. rs_counters t = rs_counters s"]) (auto simp: add_snapshot_def bnd_eq_Inr in_engine_Inr)
  then have "membership_count (recs (rs_engine s')) = membership_count (recs (rs_engine s))"
    using ok ok' by (simp add: replay_ok_def COUNTED_def)
  moreover have "events_of ''CENSOR_RELEASE_END'' (recs (rs_engine s')) = 2"
    using ok' n(2) by (auto simp: replay_ok_def COUNTED_def counter_def)
  ultimately show ?thesis using ok' n(1) Inr r by (simp add: replay_ok_def list_all_iff)
qed simp

subsection \<open>The identifiers in the manifest of a run\<close>

lemma membership_run_id:
  assumes "build_membership e fid ev et fvt = Inr r"
  shows "run_record_id r = Inr (VStr e)"
  using build_membership_fields(2) [OF assms] by (simp add: run_record_id_def RUN_ID_FIELDS_def dhas_def ditem_def rep_req_def)



end
