(* ===== verification/C2E_AG2.thy ===== *)
theory C2E_AG2
  imports C2E_Rules
begin

section \<open>C2E v0.2: the AG2 boundary comparator\<close>

text \<open>
  \<^verbatim>\<open>ag2_comparator.py\<close> of \<^verbatim>\<open>src/src/ovc/opt_b/c2e_v2/\<close>: the run changes of an SRFD table and the phase
  mutations of a C2E stream, projected to transitions keyed by side and time, are compared and classified.
  Dictionaries keyed by pairs are association lists, sets of keys lists without repetition, and the
  dictionaries the two projections build for themselves are records. The lemmas show that a
  comparison partitions the common transitions and how the null control relates to it.
\<close>

subsection \<open>Admission and identity\<close>

definition AXES :: "string list" where
  "AXES = [''LOCATION'', ''MOTION'', ''ORGANISATION'', ''INTERACTION'', ''QUALITY'']"

definition AG2_FORBIDDEN_KEYS :: "string list" where
  "AG2_FORBIDDEN_KEYS =
    [''outcome'', ''outcomes'', ''future_return'', ''return_label'', ''mfe'', ''mae'', ''probability'', ''edge'', ''risk'',
     ''exposure'', ''trade'', ''trade_label'', ''order'', ''execution'', ''family_id'', ''cluster_id'', ''medoid_id'',
     ''variant_id'', ''sensitivity_pack_id'', ''grammar_id'', ''parse_id'', ''semantic_label'']"

definition ag2_err :: "string \<Rightarrow> 'a result" where
  "ag2_err marker = Inl (Exn AG2ComparatorError marker)"

definition logical_sha256 :: "pyval \<Rightarrow> string result" where
  "logical_sha256 value = bnd (json_compact value) (\<lambda>b. Inr (sha256 b))"

definition reject_forbidden :: "pyval \<Rightarrow> unit result" where
  "reject_forbidden value =
    scan_tree (\<lambda>key. py_lower key \<in> set AG2_FORBIDDEN_KEYS) (\<lambda>_. False)
      (\<lambda>p. Exn AG2ComparatorError (''AG2_FORBIDDEN_COMPARATOR_FIELD:'' @ p)) (\<lambda>p. Exn AG2ComparatorError p)
      value ''$''"

text \<open>\<^verbatim>\<open>str(v) if v is not None else None\<close>\<close>

definition str_or_none :: "pyval \<Rightarrow> pyval" where
  "str_or_none v = (if v = VNone then VNone else VStr (py_str v))"

definition axis_entry :: "pydict \<Rightarrow> string \<Rightarrow> (string \<times> pyval) result" where
  "axis_entry d name =
    bnd (ditem d name) (\<lambda>raw.
    case raw of
      VDict r \<Rightarrow> Inr (name, VDict
        [(''status'', VStr (py_upper (py_str (py_or (dget r ''status'' VNone) (VStr []))))),
         (''value'', str_or_none (dget r ''value'' VNone)), (''reason_code'', str_or_none (dget r ''reason_code'' VNone)),
         (''measurement'', str_or_none (dget r ''measurement'' VNone))])
    | _ \<Rightarrow> ag2_err (''AG2_SRFD_AXIS_SCHEMA:'' @ name))"

definition axis_payload :: "pyval \<Rightarrow> pydict result" where
  "axis_payload raw_axes =
    bnd (iter_of raw_axes) (\<lambda>names.
    if \<not> list_all hashable names then Inl (Exn TypeError [])
    else if set names \<noteq> set (map VStr AXES) then ag2_err ''AG2_SRFD_AXIS_SET_MISMATCH''
    else case raw_axes of VDict d \<Rightarrow> mapM (axis_entry d) AXES | _ \<Rightarrow> Inl (Exn TypeError []))"

subsection \<open>Run changes of the SRFD table\<close>

type_synonym tkey = "string \<times> string"

record srfd_row =
  r_record_id :: string
  r_first_valid_time :: string
  r_side :: string
  r_scope_id :: string
  r_clock_id :: string
  r_state_key :: string
  r_reset_reason :: "string option"

definition group_key :: "srfd_row \<Rightarrow> string \<times> string \<times> string" where
  "group_key row = (r_side row, r_scope_id row, r_clock_id row)"

text \<open>One row of the table: \<open>None\<close> when it is skipped.\<close>

definition srfd_row_of :: "string \<Rightarrow> pydict \<Rightarrow> srfd_row option result" where
  "srfd_row_of clock_id source =
    bnd (reject_forbidden (VDict source)) (\<lambda>_.
    if \<not> py_bool (dget source ''target_eligible'' VNone) then Inr None
    else if py_str (dget source ''clock'' VNone) \<noteq> clock_id then Inr None
    else
      bnd (bnd (ditem source ''axes'') axis_payload) (\<lambda>axes.
      bnd (ditem source ''evaluation_scope_id'') (\<lambda>scope.
      bnd (ditem source ''c2_state_id'') (\<lambda>i.
      bnd (ditem source ''first_valid_time'') (\<lambda>t.
      bnd (ditem source ''side'') (\<lambda>side.
      bnd (ditem source ''clock'') (\<lambda>clock.
      bnd (logical_sha256 (VDict [(''axes'', VDict axes), (''scope'', VStr (py_str scope))])) (\<lambda>h.
      Inr (Some \<lparr>r_record_id = py_str i, r_first_valid_time = py_str t, r_side = py_upper (py_str side),
        r_scope_id = py_str scope, r_clock_id = py_str clock, r_state_key = ''C2.STATE.'' @ h,
        r_reset_reason = (if py_str (dget source ''continuity'' VNone) = ''RESET'' then Some ''C2_SCOPE_RESET'' else None)\<rparr>)))))))))"

text \<open>The rows of a group, cut before every reset.\<close>

fun split_runs :: "srfd_row list \<Rightarrow> srfd_row list \<Rightarrow> srfd_row list list" where
  "split_runs current [] = (if current = [] then [] else [current])"
| "split_runs current (row # rows) =
     (if r_reset_reason row \<noteq> None \<and> current \<noteq> [] then current # split_runs [row] rows
      else split_runs (current @ [row]) rows)"

definition srfd_streams :: "srfd_row list \<Rightarrow> srfd_row list list" where
  "srfd_streams rows =
    concat (map (\<lambda>k. split_runs [] (sort_key (\<lambda>r. (r_first_valid_time r, r_record_id r)) (filter (\<lambda>r. group_key r = k) rows)))
      (sorted_set (map group_key rows)))"

record srfd_transition =
  st_previous :: srfd_row
  st_current :: srfd_row
  st_boundary :: bool

definition row_tkey :: "srfd_row \<Rightarrow> tkey" where
  "row_tkey row = (r_side row, r_first_valid_time row)"

text \<open>The transitions of a stream: each row but the first, with its predecessor.\<close>

definition stream_steps :: "srfd_row list \<Rightarrow> (tkey \<times> srfd_transition) list" where
  "stream_steps rows = map (\<lambda>(p, c). (row_tkey c, \<lparr>st_previous = p, st_current = c, st_boundary = (r_state_key c \<noteq> r_state_key p)\<rparr>))
     (zip rows (tl rows))"

definition put_all :: "('k \<times> 'v) list \<Rightarrow> ('k \<times> 'v) list \<Rightarrow> ('k \<times> 'v) list" where
  "put_all kvs d = fold (\<lambda>(k, v) m. AList.update k v m) kvs d"

record srfd_projection =
  sp_row_count :: nat
  sp_stream_count :: nat
  sp_starts :: "tkey list"
  sp_transitions :: "(tkey \<times> srfd_transition) list"
  sp_boundaries :: "(tkey \<times> srfd_transition) list"

definition project_srfd_run_change :: "pydict list \<Rightarrow> string \<Rightarrow> srfd_projection result" where
  "project_srfd_run_change rows clock_id =
    bnd (mapM (srfd_row_of clock_id) rows) (\<lambda>found.
    let streams = srfd_streams (map the (filter (\<lambda>x. x \<noteq> None) found));
        steps = concat (map stream_steps streams) in
    Inr \<lparr>sp_row_count = sum_list (map length streams), sp_stream_count = length streams,
         sp_starts = remdups (map (\<lambda>st. row_tkey (hd st)) streams),
         sp_transitions = put_all steps [], sp_boundaries = put_all (filter (\<lambda>p. st_boundary (snd p)) steps) []\<rparr>)"

subsection \<open>Phase mutations of the C2E stream\<close>

record c2e_transition =
  ct_previous :: pydict
  ct_current :: pydict
  ct_boundary :: bool
  ct_event_id :: "string option"

record c2e_projection =
  cp_row_count :: nat
  cp_stream_count :: nat
  cp_starts :: "tkey list"
  cp_transitions :: "(tkey \<times> c2e_transition) list"
  cp_boundaries :: "(tkey \<times> c2e_transition) list"

definition frame_tkey :: "pydict \<Rightarrow> tkey result" where
  "frame_tkey row = bnd (ditem row ''side'') (\<lambda>s. bnd (ditem row ''first_valid_time'') (\<lambda>t. Inr (py_upper (py_str s), py_str t)))"

definition genesis_rows :: "pydict list \<Rightarrow> (string \<times> pydict) list result" where
  "genesis_rows events =
    bnd (mapM (\<lambda>row. bnd (ditem row ''episode_id'') (\<lambda>i. Inr (py_str i, row)))
      (filter (\<lambda>row. dget row ''schema'' VNone = VStr ''c2e_episode_genesis/v0_2'') events)) (\<lambda>ps. Inr (put_all ps []))"

text \<open>The only episode of an event, if there is exactly one: \<^verbatim>\<open>len(ids) == 1\<close> and \<^verbatim>\<open>ids[0]\<close>.\<close>

definition single_episode :: "pydict \<Rightarrow> string option result" where
  "single_episode event =
    (let ids = py_or (dget event ''episode_ids'' VNone) (VList []) in
     bnd (iter_of ids) (\<lambda>xs.
     if length xs \<noteq> 1 then Inr None
     else case ids of VDict d \<Rightarrow> Inl (Exn KeyError ''0'') | VSet s \<Rightarrow> Inl (Exn TypeError []) | _ \<Rightarrow> Inr (Some (py_str (hd xs)))))"

definition event_step :: "(string \<times> pydict) list \<Rightarrow> tkey list \<times> (tkey \<times> pydict) list \<Rightarrow> pydict \<Rightarrow> (tkey list \<times> (tkey \<times> pydict) list) result" where
  "event_step genesis = (\<lambda>(starts, phases) event.
    if dget event ''schema'' VNone \<noteq> VStr ''c2e_boundary_event/v0_2'' then Inr (starts, phases)
    else bnd (single_episode event) (\<lambda>found.
      case found of
        None \<Rightarrow> Inr (starts, phases)
      | Some episode_id \<Rightarrow>
          (case map_of genesis episode_id of
             None \<Rightarrow> ag2_err ''AG2_C2E_BOUNDARY_WITHOUT_GENESIS''
           | Some g \<Rightarrow>
               bnd (ditem g ''side'') (\<lambda>side. bnd (ditem event ''effective_time'') (\<lambda>t.
               let key = (py_upper (py_str side), py_str t); action = py_str (dget event ''lifecycle_action'' VNone) in
               Inr (if action = ''BIRTH'' then (List.insert key starts, phases)
                    else if action = ''PHASE_MUTATION'' then (starts, phases @ [(key, event)])
                    else (starts, phases)))))))"

definition c2e_step :: "(string \<times> pydict) list \<Rightarrow> tkey \<times> pydict \<Rightarrow> (tkey \<times> c2e_transition) result" where
  "c2e_step frame_by_observation = (\<lambda>(key, row).
    let predecessor = dget row ''predecessor_observation_id'' VNone in
    if predecessor = VNone then ag2_err ''AG2_C2E_NONSTART_WITHOUT_PREDECESSOR''
    else (case map_of frame_by_observation (py_str predecessor) of
        None \<Rightarrow> ag2_err ''AG2_C2E_PREDECESSOR_NOT_IN_FRAME_INDEX''
      | Some previous \<Rightarrow> Inr (key, \<lparr>ct_previous = previous, ct_current = row, ct_boundary = False, ct_event_id = None\<rparr>)))"

definition mark_phase :: "(tkey \<times> c2e_transition) list \<times> tkey list \<Rightarrow> tkey \<times> pydict \<Rightarrow> ((tkey \<times> c2e_transition) list \<times> tkey list) result" where
  "mark_phase = (\<lambda>(transitions, marked) (key, event).
    case map_of transitions key of
      None \<Rightarrow> ag2_err ''AG2_C2E_PHASE_MUTATION_OUTSIDE_DENOMINATOR''
    | Some t \<Rightarrow>
        bnd (ditem event ''boundary_event_id'') (\<lambda>i.
        Inr (AList.update key (t\<lparr>ct_boundary := True, ct_event_id := Some (py_str i)\<rparr>) transitions, List.insert key marked)))"

definition project_c2e_phase_mutation :: "pydict list \<Rightarrow> pydict list \<Rightarrow> c2e_projection result" where
  "project_c2e_phase_mutation frames events =
    bnd (mapM (\<lambda>item. reject_forbidden (VDict item)) frames) (\<lambda>_.
    bnd (mapM (\<lambda>item. reject_forbidden (VDict item)) events) (\<lambda>_.
    bnd (mapM (\<lambda>row. bnd (frame_tkey row) (\<lambda>k. Inr (k, row))) frames) (\<lambda>keyed.
    bnd (mapM (\<lambda>row. bnd (ditem row ''observation_id'') (\<lambda>i. Inr (py_str i, row))) frames) (\<lambda>observed.
    bnd (genesis_rows events) (\<lambda>genesis.
    bnd (foldM (event_step genesis) ([], []) events) (\<lambda>(starts, phases).
    let frame_by_key = put_all keyed [] in
    bnd (mapM (c2e_step (put_all observed [])) (filter (\<lambda>p. fst p \<notin> set starts) frame_by_key)) (\<lambda>transitions0.
    bnd (foldM mark_phase (transitions0, []) phases) (\<lambda>(transitions, marked).
    Inr \<lparr>cp_row_count = length frame_by_key, cp_stream_count = length starts, cp_starts = starts, cp_transitions = transitions,
         cp_boundaries = map (\<lambda>k. (k, the (map_of transitions k))) (rev marked)\<rparr>))))))))"

subsection \<open>The comparison\<close>

definition classify :: "bool \<Rightarrow> bool \<Rightarrow> string" where
  "classify c2e_boundary srfd_boundary =
    (if c2e_boundary \<and> srfd_boundary then ''BOTH_BOUNDARY'' else if c2e_boundary then ''C2E_ONLY''
     else if srfd_boundary then ''SRFD_ONLY'' else ''NEITHER_BOUNDARY'')"

record comparison_row =
  cr_side :: string
  cr_time :: string
  cr_class :: string
  cr_c2e :: bool
  cr_srfd :: bool
  cr_event_id :: "string option"
  cr_c2e_previous_observation_id :: pyval
  cr_c2e_current_observation_id :: pyval
  cr_c2e_previous_signature :: pyval
  cr_c2e_current_signature :: pyval
  cr_srfd_previous_record_id :: string
  cr_srfd_current_record_id :: string
  cr_srfd_previous_state_key :: string
  cr_srfd_current_state_key :: string

definition comparison_row_of :: "c2e_projection \<Rightarrow> srfd_projection \<Rightarrow> tkey \<Rightarrow> comparison_row result" where
  "comparison_row_of c2e srfd key =
    (case (map_of (cp_transitions c2e) key, map_of (sp_transitions srfd) key) of
       (Some c, Some s) \<Rightarrow>
         bnd (ditem (ct_previous c) ''observation_id'') (\<lambda>po. bnd (ditem (ct_current c) ''observation_id'') (\<lambda>co.
         bnd (ditem (ct_previous c) ''structural_signature_sha256'') (\<lambda>ps. bnd (ditem (ct_current c) ''structural_signature_sha256'') (\<lambda>cs.
         Inr \<lparr>cr_side = fst key, cr_time = snd key, cr_class = classify (ct_boundary c) (st_boundary s),
              cr_c2e = ct_boundary c, cr_srfd = st_boundary s, cr_event_id = ct_event_id c,
              cr_c2e_previous_observation_id = po, cr_c2e_current_observation_id = co,
              cr_c2e_previous_signature = ps, cr_c2e_current_signature = cs,
              cr_srfd_previous_record_id = r_record_id (st_previous s), cr_srfd_current_record_id = r_record_id (st_current s),
              cr_srfd_previous_state_key = r_state_key (st_previous s), cr_srfd_current_state_key = r_state_key (st_current s)\<rparr>))))
     | _ \<Rightarrow> Inl (Exn KeyError []))"

definition CLASSES :: "string list" where
  "CLASSES = [''BOTH_BOUNDARY'', ''C2E_ONLY'', ''SRFD_ONLY'', ''NEITHER_BOUNDARY'']"

definition zero_counts :: "(string \<times> nat) list" where
  "zero_counts = map (\<lambda>c. (c, 0)) CLASSES"

definition add_count :: "string \<Rightarrow> (string \<times> nat) list \<Rightarrow> (string \<times> nat) list result" where
  "add_count c counts = (case map_of counts c of None \<Rightarrow> Inl (Exn KeyError c) | Some n \<Rightarrow> Inr (AList.update c (Suc n) counts))"

record comparison =
  cmp_c2e :: c2e_projection
  cmp_srfd :: srfd_projection
  cmp_rows :: "comparison_row list"
  cmp_counts :: "(string \<times> nat) list"
  cmp_by_side :: "(string \<times> (string \<times> nat) list) list"

definition count_row :: "(string \<times> nat) list \<times> (string \<times> (string \<times> nat) list) list \<Rightarrow> comparison_row \<Rightarrow>
    ((string \<times> nat) list \<times> (string \<times> (string \<times> nat) list) list) result" where
  "count_row = (\<lambda>(counts, by_side) row.
    bnd (add_count (cr_class row) counts) (\<lambda>counts'.
    case map_of by_side (cr_side row) of
      None \<Rightarrow> Inl (Exn KeyError (cr_side row))
    | Some sc \<Rightarrow> bnd (add_count (cr_class row) sc) (\<lambda>sc'. Inr (counts', AList.update (cr_side row) sc' by_side))))"

definition compare_structural_boundaries :: "pydict list \<Rightarrow> pydict list \<Rightarrow> pydict list \<Rightarrow> comparison result" where
  "compare_structural_boundaries c2e_frames c2e_event_stream srfd_rows =
    bnd (project_c2e_phase_mutation c2e_frames c2e_event_stream) (\<lambda>c2e.
    bnd (project_srfd_run_change srfd_rows ''15M'') (\<lambda>srfd.
    if fst ` set (cp_transitions c2e) \<noteq> fst ` set (sp_transitions srfd) then ag2_err ''AG2_COMMON_TRANSITION_POPULATION_MISMATCH''
    else if set (cp_starts c2e) \<noteq> set (sp_starts srfd) then ag2_err ''AG2_STREAM_START_POPULATION_MISMATCH''
    else
      bnd (mapM (comparison_row_of c2e srfd) (sort (map fst (cp_transitions c2e)))) (\<lambda>rows.
      bnd (foldM count_row (zero_counts, [(''ASK'', zero_counts), (''BID'', zero_counts)]) rows) (\<lambda>(counts, by_side).
      Inr \<lparr>cmp_c2e = c2e, cmp_srfd = srfd, cmp_rows = rows, cmp_counts = counts, cmp_by_side = by_side\<rparr>))))"

text \<open>The null control: the counts if SRFD had no boundary at all.\<close>

definition null_control_counts :: "comparison_row list \<Rightarrow> (string \<times> nat) list" where
  "null_control_counts rows =
    fold (\<lambda>row counts. let c = (if cr_c2e row then ''C2E_ONLY'' else ''NEITHER_BOUNDARY'') in
      AList.update c (Suc (the (map_of counts c))) counts) rows zero_counts"

subsection \<open>Keys stay distinct\<close>

lemma put_all_distinct: "distinct (map fst d) \<Longrightarrow> distinct (map fst (put_all kvs d))"
  unfolding put_all_def by (induction kvs arbitrary: d) (auto simp: distinct_update split: prod.splits)

lemma mark_phase_keys:
  assumes "mark_phase p q = Inr r" and "distinct (map fst (fst p))"
  shows "distinct (map fst (fst r))"
proof -
  obtain d m k e where p: "p = (d, m)" "q = (k, e)" by (cases p, cases q)
  obtain t where "fst r = AList.update k t d"
    using assms(1) unfolding p mark_phase_def prod.case by (auto simp: bnd_eq_Inr ag2_err_def split: option.splits)
  then show ?thesis using assms(2) p by (simp add: distinct_update)
qed

lemma c2e_step_key: "c2e_step obs p = Inr q \<Longrightarrow> fst q = fst p"
  by (cases p) (auto simp: c2e_step_def Let_def ag2_err_def split: if_splits option.splits)

lemma mapM_fst:
  assumes "mapM f xs = Inr ys" and "\<And>x y. f x = Inr y \<Longrightarrow> fst y = fst x"
  shows "map fst ys = map fst xs"
  using assms(1) assms(2) by (induction xs arbitrary: ys) (auto simp: bnd_eq_Inr simp del: mapM_Inr_iff)

lemma c2e_transitions_distinct:
  assumes "project_c2e_phase_mutation frames events = Inr c2e"
  shows "distinct (map fst (cp_transitions c2e))"
proof -
  from assms obtain keyed observed starts transitions0 p where
      t: "mapM (c2e_step (put_all observed [])) (filter (\<lambda>p. fst p \<notin> set starts) (put_all keyed [])) = Inr transitions0"
    and m: "\<exists>phases. foldM mark_phase (transitions0, []) phases = Inr p" and c: "cp_transitions c2e = fst p"
    unfolding project_c2e_phase_mutation_def Let_def case_prod_unfold bnd_eq_Inr sum.inject
    by (elim exE conjE) (rule that, assumption, blast, force)
  have "distinct (map fst (put_all keyed [] :: (tkey \<times> pydict) list))" by (rule put_all_distinct) simp
  then have "distinct (map fst (filter (\<lambda>p. fst p \<notin> set starts) (put_all keyed [])))" by (rule distinct_map_filter)
  then have d: "distinct (map fst transitions0)" using mapM_fst [OF t] c2e_step_key by metis
  obtain phases where m: "foldM mark_phase (transitions0, []) phases = Inr p" using m by blast
  have "distinct (map fst (fst p))"
    by (rule foldM_invariant [OF m, of "\<lambda>p. distinct (map fst (fst p))"]) (use d mark_phase_keys in auto)
  then show ?thesis by (simp add: c)
qed

subsection \<open>Counting\<close>

definition class_count :: "string \<Rightarrow> comparison_row list \<Rightarrow> nat" where
  "class_count c rows = length (filter (\<lambda>r. cr_class r = c) rows)"

definition of_side :: "string \<Rightarrow> comparison_row list \<Rightarrow> comparison_row list" where
  "of_side side rows = filter (\<lambda>r. cr_side r = side) rows"

definition counts_of :: "comparison_row list \<Rightarrow> (string \<times> nat) list \<Rightarrow> bool" where
  "counts_of rows counts \<longleftrightarrow> (\<forall>c \<in> set CLASSES. map_of counts c = Some (class_count c rows)) \<and> fst ` set counts = set CLASSES"

lemma counts_of_zero: "counts_of [] zero_counts"
  by (auto simp: counts_of_def zero_counts_def class_count_def CLASSES_def)

lemma counts_of_add:
  assumes "counts_of rows counts" and "add_count (cr_class r) counts = Inr counts'"
  shows "counts_of (rows @ [r]) counts'"
proof -
  have "map_of counts (cr_class r) \<noteq> None" using assms(2) by (auto simp: add_count_def split: option.splits)
  then have k: "cr_class r \<in> set CLASSES" using assms(1) by (simp add: counts_of_def map_of_eq_None_iff)
  then have c: "counts' = AList.update (cr_class r) (Suc (class_count (cr_class r) rows)) counts"
    using assms by (auto simp: add_count_def counts_of_def)
  show ?thesis using assms(1) k unfolding counts_of_def c
    by (auto simp: class_count_def dom_update)
qed

definition counted :: "comparison_row list \<Rightarrow> (string \<times> nat) list \<times> (string \<times> (string \<times> nat) list) list \<Rightarrow> bool" where
  "counted rows p \<longleftrightarrow> counts_of rows (fst p) \<and> fst ` set (snd p) = {''ASK'', ''BID''} \<and> set (map cr_side rows) \<subseteq> {''ASK'', ''BID''} \<and>
    (\<forall>side \<in> {''ASK'', ''BID''}. \<exists>sc. map_of (snd p) side = Some sc \<and> counts_of (of_side side rows) sc)"

lemma countedD:
  "counted rows p \<Longrightarrow> counts_of rows (fst p)"
  "counted rows p \<Longrightarrow> fst ` set (snd p) = {''ASK'', ''BID''}"
  "counted rows p \<Longrightarrow> side \<in> {''ASK'', ''BID''} \<Longrightarrow> \<exists>sc. map_of (snd p) side = Some sc \<and> counts_of (of_side side rows) sc"
  by (unfold counted_def, elim conjE, assumption, elim conjE, assumption, elim conjE, erule bspec)

lemma counts_ofD: "counts_of rows counts \<Longrightarrow> c \<in> set CLASSES \<Longrightarrow> map_of counts c = Some (class_count c rows)"
  unfolding counts_of_def by (elim conjE) (erule bspec)

lemma count_row_counted:
  assumes "counted rows p" and "count_row p r = Inr q"
  shows "counted (rows @ [r]) q"
proof -
  obtain counts by_side where p: "p = (counts, by_side)" by (cases p)
  from assms(2) obtain counts' sc sc' where c: "add_count (cr_class r) counts = Inr counts'" "map_of by_side (cr_side r) = Some sc"
    "add_count (cr_class r) sc = Inr sc'" "q = (counts', AList.update (cr_side r) sc' by_side)"
    unfolding p count_row_def prod.case by (cases "map_of by_side (cr_side r)") (auto simp: bnd_eq_Inr)
  have "cr_side r \<in> fst ` set by_side" using c(2) by (metis map_of_eq_None_iff option.distinct(1))
  then have s: "cr_side r \<in> {''ASK'', ''BID''}" using assms(1) unfolding counted_def p by simp
  note q = assms(1) [unfolded counted_def p fst_conv snd_conv]
  have a: "counts_of (rows @ [r]) counts'" using counts_of_add [OF conjunct1 [OF q] c(1)] .
  have b: "\<exists>x. map_of (AList.update (cr_side r) sc' by_side) side = Some x \<and> counts_of (of_side side (rows @ [r])) x"
    if side: "side \<in> {''ASK'', ''BID''}" for side
  proof -
    obtain sc0 where sc0: "map_of by_side side = Some sc0" "counts_of (of_side side rows) sc0" using countedD(3) [OF assms(1) side] p by auto
    show ?thesis
    proof (cases "side = cr_side r")
      case True
      then have "sc0 = sc" using sc0(1) c(2) by simp
      then show ?thesis using counts_of_add [OF _ c(3)] sc0(2) True by (simp add: of_side_def)
    next
      case False
      then show ?thesis using sc0 by (simp add: of_side_def)
    qed
  qed
  have "fst ` set (AList.update (cr_side r) sc' by_side) = {''ASK'', ''BID''}" unfolding dom_update countedD(2) [OF assms(1), unfolded p snd_conv] using s by blast
  moreover have "set (map cr_side (rows @ [r])) \<subseteq> {''ASK'', ''BID''}" using q s by simp
  ultimately show ?thesis unfolding counted_def c(4) fst_conv snd_conv using a b by (intro conjI ballI) assumption+
qed

lemma counted_init: "counted [] (zero_counts, [(''ASK'', zero_counts), (''BID'', zero_counts)])"
  using counts_of_zero by (auto simp: counted_def of_side_def)

lemma foldM_snoc_ind:
  assumes "foldM f s xs = Inr t" and "P [] s" and "\<And>ys x s s'. P ys s \<Longrightarrow> f s x = Inr s' \<Longrightarrow> P (ys @ [x]) s'"
  shows "P xs t"
  using assms(1)
proof (induction xs arbitrary: t rule: rev_induct)
  case (snoc x xs)
  then show ?case using assms(3) by (auto simp: foldM_snoc bnd_eq_Inr)
qed (use assms(2) in simp)

lemma class_count_sum:
  assumes "\<forall>r \<in> set rows. cr_class r = classify (cr_c2e r) (cr_srfd r)"
  shows "class_count ''BOTH_BOUNDARY'' rows + class_count ''C2E_ONLY'' rows = length (filter cr_c2e rows)"
    and "class_count ''SRFD_ONLY'' rows + class_count ''NEITHER_BOUNDARY'' rows = length (filter (\<lambda>r. \<not> cr_c2e r) rows)"
  using assms by (induction rows) (auto simp: class_count_def classify_def)

abbreviation null_step :: "comparison_row \<Rightarrow> (string \<times> nat) list \<Rightarrow> (string \<times> nat) list" where
  "null_step row counts \<equiv> let c = (if cr_c2e row then ''C2E_ONLY'' else ''NEITHER_BOUNDARY'') in
     AList.update c (Suc (the (map_of counts c))) counts"

lemma null_control_fold:
  "the (map_of (fold null_step rows counts) ''C2E_ONLY'') = the (map_of counts ''C2E_ONLY'') + length (filter cr_c2e rows) \<and>
   the (map_of (fold null_step rows counts) ''NEITHER_BOUNDARY'') = the (map_of counts ''NEITHER_BOUNDARY'') + length (filter (\<lambda>r. \<not> cr_c2e r) rows) \<and>
   map_of (fold null_step rows counts) ''BOTH_BOUNDARY'' = map_of counts ''BOTH_BOUNDARY'' \<and>
   map_of (fold null_step rows counts) ''SRFD_ONLY'' = map_of counts ''SRFD_ONLY''"
proof (induction rows arbitrary: counts)
  case (Cons r rows)
  show ?case using Cons.IH [of "null_step r counts"] by (simp add: Let_def)
qed simp

lemma if_eq_Inr: "(if b then Inl e else m) = Inr x \<longleftrightarrow> \<not> b \<and> m = Inr x"
  by simp

lemma comparison_row_fields:
  assumes "comparison_row_of c2e srfd key = Inr r"
  shows "(cr_side r, cr_time r) = key" and "cr_class r = classify (cr_c2e r) (cr_srfd r)"
    and "\<exists>c s. map_of (cp_transitions c2e) key = Some c \<and> map_of (sp_transitions srfd) key = Some s \<and> cr_c2e r = ct_boundary c \<and>
      cr_srfd r = st_boundary s"
  using assms by (auto simp: comparison_row_of_def bnd_eq_Inr split: option.splits)

text \<open>C33: a comparison partitions the common transitions. There is one row for each transition the two
  projections share, in order, classified by the two boundaries it has; the count of each class is the
  number of its rows, in total and on each side, and the counts add up to the number of transitions; and the
  null control, which ignores SRFD, counts as C2E_ONLY exactly the rows classified BOTH_BOUNDARY or
  C2E_ONLY.\<close>

theorem comparison_partitions:
  assumes "compare_structural_boundaries frames events srfd_rows = Inr cmp"
  shows "map (\<lambda>r. (cr_side r, cr_time r)) (cmp_rows cmp) = sorted_list_of_set (fst ` set (cp_transitions (cmp_c2e cmp))) \<and>
    fst ` set (cp_transitions (cmp_c2e cmp)) = fst ` set (sp_transitions (cmp_srfd cmp)) \<and>
    (\<forall>r \<in> set (cmp_rows cmp). cr_class r = classify (cr_c2e r) (cr_srfd r)) \<and>
    (\<forall>c \<in> set CLASSES. map_of (cmp_counts cmp) c = Some (class_count c (cmp_rows cmp))) \<and>
    (\<forall>side \<in> {''ASK'', ''BID''}. \<exists>sc. map_of (cmp_by_side cmp) side = Some sc \<and>
       (\<forall>c \<in> set CLASSES. map_of sc c = Some (class_count c (of_side side (cmp_rows cmp))))) \<and>
    sum_list (map (\<lambda>c. class_count c (cmp_rows cmp)) CLASSES) = card (fst ` set (cp_transitions (cmp_c2e cmp))) \<and>
    the (map_of (null_control_counts (cmp_rows cmp)) ''C2E_ONLY'') =
      class_count ''BOTH_BOUNDARY'' (cmp_rows cmp) + class_count ''C2E_ONLY'' (cmp_rows cmp)"
proof -
  from assms obtain c2e srfd rows p where c: "project_c2e_phase_mutation frames events = Inr c2e"
    and k: "fst ` set (cp_transitions c2e) = fst ` set (sp_transitions srfd)"
    and r: "mapM (comparison_row_of c2e srfd) (sort (map fst (cp_transitions c2e))) = Inr rows"
    and f: "foldM count_row (zero_counts, [(''ASK'', zero_counts), (''BID'', zero_counts)]) rows = Inr p"
    and cmp: "cmp = \<lparr>cmp_c2e = c2e, cmp_srfd = srfd, cmp_rows = rows, cmp_counts = fst p, cmp_by_side = snd p\<rparr>"
    unfolding compare_structural_boundaries_def bnd_eq_Inr case_prod_unfold ag2_err_def if_eq_Inr sum.inject
    by (elim exE conjE) (rule that, assumption, erule notnotD, assumption, assumption, erule sym)
  have d: "distinct (map fst (cp_transitions c2e))" using c2e_transitions_distinct [OF c] .
  have a: "list_all2 (\<lambda>key r. comparison_row_of c2e srfd key = Inr r) (sort (map fst (cp_transitions c2e))) rows"
    using r by (simp add: mapM_Inr_iff)
  then have "map (\<lambda>r. (cr_side r, cr_time r)) rows = sort (map fst (cp_transitions c2e))"
    by (induction rule: list_all2_induct) (use comparison_row_fields(1) in auto)
  then have keys: "map (\<lambda>r. (cr_side r, cr_time r)) rows = sorted_list_of_set (fst ` set (cp_transitions c2e))"
    using d by (simp add: sorted_list_of_set_sort_remdups distinct_remdups_id flip: set_map)
  have cl: "\<forall>r \<in> set rows. cr_class r = classify (cr_c2e r) (cr_srfd r)"
    using list_all2_right_mem [OF a] comparison_row_fields(2) by blast
  have n: "counted rows p"
    by (rule foldM_snoc_ind [of count_row, OF f, of counted, OF counted_init count_row_counted])
  have len: "length rows = card (fst ` set (cp_transitions c2e))"
    using arg_cong [OF keys, of length] by simp
  have s: "class_count ''BOTH_BOUNDARY'' rows + class_count ''C2E_ONLY'' rows = length (filter cr_c2e rows)"
    "class_count ''SRFD_ONLY'' rows + class_count ''NEITHER_BOUNDARY'' rows = length (filter (\<lambda>r. \<not> cr_c2e r) rows)"
    using class_count_sum [OF cl] by blast+
  have sum: "sum_list (map (\<lambda>c. class_count c rows) CLASSES) = length rows"
    using s sum_length_filter_compl [of cr_c2e rows] by (simp add: CLASSES_def)
  have null: "the (map_of (null_control_counts rows) ''C2E_ONLY'') = length (filter cr_c2e rows)"
    using null_control_fold [of rows zero_counts] by (simp add: null_control_counts_def zero_counts_def CLASSES_def)
  have m: "\<forall>c \<in> set CLASSES. map_of (fst p) c = Some (class_count c rows)"
    "\<forall>side \<in> {''ASK'', ''BID''}. \<exists>sc. map_of (snd p) side = Some sc \<and> (\<forall>c \<in> set CLASSES. map_of sc c = Some (class_count c (of_side side rows)))"
  proof -
    show "\<forall>c \<in> set CLASSES. map_of (fst p) c = Some (class_count c rows)" using counts_ofD [OF countedD(1) [OF n]] by (rule ballI)
    show "\<forall>side \<in> {''ASK'', ''BID''}. \<exists>sc. map_of (snd p) side = Some sc \<and> (\<forall>c \<in> set CLASSES. map_of sc c = Some (class_count c (of_side side rows)))"
    proof
      fix side assume "side \<in> {''ASK'', ''BID''}"
      from countedD(3) [OF n this] obtain sc where "map_of (snd p) side = Some sc" "counts_of (of_side side rows) sc" by (elim exE conjE)
      then show "\<exists>sc. map_of (snd p) side = Some sc \<and> (\<forall>c \<in> set CLASSES. map_of sc c = Some (class_count c (of_side side rows)))"
        using counts_ofD by (intro exI [of _ sc] conjI ballI)
    qed
  qed
  show ?thesis using keys k cl m len s(1) sum null unfolding cmp by simp
qed

definition example_srfd :: "string \<Rightarrow> string \<Rightarrow> pydict" where
  "example_srfd i t = [(''target_eligible'', VBool True), (''clock'', VStr ''15M''),
     (''axes'', VDict (map (\<lambda>a. (a, VDict [(''status'', VStr ''ok''), (''value'', VInt 1)])) AXES)),
     (''evaluation_scope_id'', VStr ''S''), (''c2_state_id'', VStr i), (''first_valid_time'', VStr t), (''side'', VStr ''ask'')]"

definition example_ag2_frames :: "pydict list" where
  "example_ag2_frames =
    [[(''side'', VStr ''ASK''), (''first_valid_time'', VStr ''t1''), (''observation_id'', VStr ''o1''),
      (''structural_signature_sha256'', VStr ''s1''), (''predecessor_observation_id'', VNone)],
     [(''side'', VStr ''ASK''), (''first_valid_time'', VStr ''t2''), (''observation_id'', VStr ''o2''),
      (''structural_signature_sha256'', VStr ''s2''), (''predecessor_observation_id'', VStr ''o1'')]]"

definition example_ag2_events :: "pydict list" where
  "example_ag2_events =
    [[(''schema'', VStr ''c2e_episode_genesis/v0_2''), (''episode_id'', VStr ''E''), (''side'', VStr ''ASK'')],
     [(''schema'', VStr ''c2e_boundary_event/v0_2''), (''episode_ids'', VList [VStr ''E'']), (''effective_time'', VStr ''t1''),
      (''lifecycle_action'', VStr ''BIRTH''), (''boundary_event_id'', VStr ''b1'')],
     [(''schema'', VStr ''c2e_boundary_event/v0_2''), (''episode_ids'', VList [VStr ''E'']), (''effective_time'', VStr ''t2''),
      (''lifecycle_action'', VStr ''PHASE_MUTATION''), (''boundary_event_id'', VStr ''b2'')]]"

lemma example_ag2_c2e:
  "project_c2e_phase_mutation example_ag2_frames example_ag2_events =
    Inr \<lparr>cp_row_count = 2, cp_stream_count = 1, cp_starts = [(''ASK'', ''t1'')],
      cp_transitions = [((''ASK'', ''t2''), \<lparr>ct_previous = example_ag2_frames ! 0, ct_current = example_ag2_frames ! 1,
        ct_boundary = True, ct_event_id = Some ''b2''\<rparr>)],
      cp_boundaries = [((''ASK'', ''t2''), \<lparr>ct_previous = example_ag2_frames ! 0, ct_current = example_ag2_frames ! 1,
        ct_boundary = True, ct_event_id = Some ''b2''\<rparr>)]\<rparr>"
  by code_simp

lemma example_srfd_rows:
  obtains k where "\<And>i t. (i, t) \<in> {(''c1'', ''t1''), (''c2'', ''t2'')} \<Longrightarrow> srfd_row_of ''15M'' (example_srfd i t) =
    Inr (Some \<lparr>r_record_id = i, r_first_valid_time = t, r_side = ''ASK'', r_scope_id = ''S'', r_clock_id = ''15M'',
      r_state_key = k, r_reset_reason = None\<rparr>)"
proof -
  let ?axes = "VDict (map (\<lambda>a. (a, VDict [(''status'', VStr ''ok''), (''value'', VInt 1)])) AXES)"
  have f: "reject_forbidden (VDict (example_srfd ''c1'' ''t1'')) = Inr ()" "reject_forbidden (VDict (example_srfd ''c2'' ''t2'')) = Inr ()"
    by code_simp+
  have "is_ok (bnd (axis_payload ?axes) (\<lambda>axes. json_compact (VDict [(''axes'', VDict axes), (''scope'', VStr ''S'')])))" by code_simp
  then obtain axes tx where a: "axis_payload ?axes = Inr axes" "json_compact (VDict [(''axes'', VDict axes), (''scope'', VStr ''S'')]) = Inr tx"
    unfolding is_ok_iff bnd_eq_Inr by blast
  have u: "py_upper ''ask'' = ''ASK''" by code_simp
  have "srfd_row_of ''15M'' (example_srfd i t) =
    Inr (Some \<lparr>r_record_id = i, r_first_valid_time = t, r_side = ''ASK'', r_scope_id = ''S'', r_clock_id = ''15M'',
      r_state_key = ''C2.STATE.'' @ sha256 tx, r_reset_reason = None\<rparr>)" if "(i, t) \<in> {(''c1'', ''t1''), (''c2'', ''t2'')}" for i t
    using that f by (auto simp: srfd_row_of_def example_srfd_def dget_def ditem_def a logical_sha256_def u)
  then show ?thesis using that by blast
qed

theorem comparison_partitions_witness:
  "\<exists>cmp. compare_structural_boundaries example_ag2_frames example_ag2_events [example_srfd ''c1'' ''t1'', example_srfd ''c2'' ''t2''] = Inr cmp \<and>
     map_of (cmp_counts cmp) ''C2E_ONLY'' = Some 1 \<and>
     the (map_of (null_control_counts (cmp_rows cmp)) ''C2E_ONLY'') = class_count ''BOTH_BOUNDARY'' (cmp_rows cmp) + class_count ''C2E_ONLY'' (cmp_rows cmp)"
proof -
  obtain k where k: "\<And>i t. (i, t) \<in> {(''c1'', ''t1''), (''c2'', ''t2'')} \<Longrightarrow> srfd_row_of ''15M'' (example_srfd i t) =
    Inr (Some \<lparr>r_record_id = i, r_first_valid_time = t, r_side = ''ASK'', r_scope_id = ''S'', r_clock_id = ''15M'',
      r_state_key = k, r_reset_reason = None\<rparr>)" by (rule example_srfd_rows) (rule that)
  let ?a = "\<lparr>r_record_id = ''c1'', r_first_valid_time = ''t1'', r_side = ''ASK'', r_scope_id = ''S'', r_clock_id = ''15M'',
      r_state_key = k, r_reset_reason = None\<rparr>"
  let ?b = "\<lparr>r_record_id = ''c2'', r_first_valid_time = ''t2'', r_side = ''ASK'', r_scope_id = ''S'', r_clock_id = ''15M'',
      r_state_key = k, r_reset_reason = None\<rparr>"
  have le: "(''t1'', ''c1'') \<le> (''t2'', ''c2'')" by code_simp
  have st: "srfd_streams [?a, ?b] = [[?a, ?b]]"
    by (simp add: srfd_streams_def group_key_def sorted_set_def le)
  have s: "project_srfd_run_change [example_srfd ''c1'' ''t1'', example_srfd ''c2'' ''t2''] ''15M'' =
    Inr \<lparr>sp_row_count = 2, sp_stream_count = 1, sp_starts = [(''ASK'', ''t1'')],
      sp_transitions = [((''ASK'', ''t2''), \<lparr>st_previous = ?a, st_current = ?b, st_boundary = False\<rparr>)], sp_boundaries = []\<rparr>"
    using st by (simp add: project_srfd_run_change_def k Let_def stream_steps_def row_tkey_def put_all_def)
  obtain cmp where c: "compare_structural_boundaries example_ag2_frames example_ag2_events [example_srfd ''c1'' ''t1'', example_srfd ''c2'' ''t2''] = Inr cmp"
    and n: "map_of (cmp_counts cmp) ''C2E_ONLY'' = Some 1"
    unfolding compare_structural_boundaries_def example_ag2_c2e s bnd_Inr
    by (simp add: comparison_row_of_def example_ag2_frames_def ditem_def
        classify_def count_row_def add_count_def zero_counts_def CLASSES_def)
  show ?thesis using comparison_partitions [OF c] c n by blast
qed

end
