(* ===== verification/C2E_Persistence.thy ===== *)
theory C2E_Persistence
  imports C2E_Engine
begin

section \<open>C2E v0.2: persistence, checkpoints, hand-off to consumers, metrics\<close>

text \<open>
  \<^verbatim>\<open>persistence.py\<close>, \<^verbatim>\<open>checkpoint.py\<close>, \<^verbatim>\<open>downstream.py\<close>, \<^verbatim>\<open>remap.py\<close> and \<^verbatim>\<open>assurance_metrics.py\<close> of
  \<^verbatim>\<open>src/src/ovc/opt_b/c2e_v2/\<close>: the canonical order of records and the manifest of a stream, the
  recombination of partitions, restart from a checkpoint, the read-only hand-off of an episode,
  comparison-only remap records, and exact rates. The lemmas show that manifests and prefix hashes do
  not depend on the layout of the records, and what a checkpoint that verifies guarantees.
\<close>

subsection \<open>Persistence\<close>

definition ID_FIELDS :: "(string \<times> string) list" where
  "ID_FIELDS =
    [(''c2e_episode_genesis/v0_2'', ''episode_id''), (''c2e_episode_snapshot/v0_2'', ''snapshot_id''),
     (''c2e_phase_segment/v0_2'', ''phase_segment_id''), (''c2e_boundary_event/v0_2'', ''boundary_event_id''),
     (''c2e_lineage_edge/v0_2'', ''lineage_edge_id''), (''c2e_membership_delta/v0_2'', ''membership_delta_id''),
     (''c2e_remap_record/v0_2'', ''remap_record_id'')]"

definition semantic_record_id :: "pydict \<Rightarrow> string result" where
  "semantic_record_id rec =
    (let schema = py_str (dget rec ''schema'' (VStr []));
         err = Inl (Exn PersistenceError (''SEMANTIC_RECORD_ID_NOT_FOUND:'' @ schema)) in
     case map_of ID_FIELDS schema of
       None \<Rightarrow> err
     | Some field \<Rightarrow> (case dget rec field VNone of VStr i \<Rightarrow> Inr i | _ \<Rightarrow> err))"

text \<open>The sort key of \<^verbatim>\<open>canonical_record_order\<close>: five strings, compared in turn.\<close>

definition record_key :: "pydict \<Rightarrow> string \<times> string \<times> string \<times> string \<times> string" where
  "record_key item =
    (py_str (dget item ''first_valid_time'' (VStr [])),
     py_str (dget item ''effective_time'' (dget item ''birth_effective_time'' (dget item ''as_of_time'' (VStr [])))),
     py_str (dget item ''schema'' (VStr [])),
     projr (semantic_record_id item),
     py_str (dget item ''logical_hash'' VNone))"

definition check_record :: "pydict \<Rightarrow> unit result" where
  "check_record item =
    bnd (semantic_record_id item) (\<lambda>_.
    req PersistenceError (is_str (dget item ''logical_hash'' VNone)) ''LOGICAL_HASH_REQUIRED'')"

definition canonical_record_order :: "pydict list \<Rightarrow> pydict list result" where
  "canonical_record_order records =
    bnd (mapM check_record records) (\<lambda>_. Inr (sort_key record_key records))"

definition schema_counts :: "pydict list \<Rightarrow> pydict" where
  "schema_counts ordered =
    (let schemas = map (\<lambda>item. py_str (dget item ''schema'' (VStr []))) ordered;
         base = [(''attempted_records'', VInt (int (length ordered))), (''emitted_records'', VInt (int (length ordered)))] in
     fold (\<lambda>key d. AList.update key (VInt (int (count_list schemas key))) d) (sorted_set schemas) base)"

definition build_stream_manifest ::
  "pydict list \<Rightarrow> pydict \<Rightarrow> string \<Rightarrow> string list \<Rightarrow> string list \<Rightarrow> pydict list option \<Rightarrow> pydict result" where
  "build_stream_manifest records source_binding boundary_pack_id schema_ids code_hashes missingness =
    bnd (canonical_record_order records) (\<lambda>ordered.
    bnd (mapM semantic_record_id ordered) (\<lambda>ids.
    build_record ''stream_manifest''
      [(''source_binding'', VDict source_binding), (''boundary_pack_id'', VStr boundary_pack_id),
       (''schema_ids'', strs_list (sorted_set schema_ids)), (''code_hashes'', strs_list (sorted_set code_hashes)),
       (''ordered_record_ids'', strs_list ids),
       (''ordered_record_hashes'', strs_list (map (\<lambda>item. py_str (dget item ''logical_hash'' VNone)) ordered)),
       (''counts'', VDict (schema_counts ordered)),
       (''missingness'', VList (map VDict (case missingness of Some ms \<Rightarrow> ms | None \<Rightarrow> []))),
       (''authority'', VStr ''INACTIVE_NONCANONICAL_SHADOW'')]))"

definition recombine_partitions ::
  "(string \<times> pydict list) list \<Rightarrow> string list \<Rightarrow> pydict \<Rightarrow> string \<Rightarrow> string list \<Rightarrow> string list \<Rightarrow> pydict result" where
  "recombine_partitions partitions expected_partition_ids source_binding boundary_pack_id schema_ids code_hashes =
    (let expected = sorted_set expected_partition_ids; observed = sort (map fst partitions) in
     bnd (req PersistenceError (observed = expected) ''RECOVERY_PARTITION_SET_MISMATCH'') (\<lambda>_.
     bnd (foldM (\<lambda>(seen, flattened) rec.
            bnd (semantic_record_id rec) (\<lambda>i.
            bnd (req PersistenceError (i \<notin> set seen) ''RECOVERY_DUPLICATE_SEMANTIC_RECORD'') (\<lambda>_.
            Inr (i # seen, flattened @ [rec]))))
          ([], []) (concat (map (\<lambda>p. the (map_of partitions p)) observed))) (\<lambda>(seen, flattened).
     build_stream_manifest flattened source_binding boundary_pack_id schema_ids code_hashes None)))"

definition semantic_prefix_hash :: "pydict list \<Rightarrow> string result" where
  "semantic_prefix_hash records =
    bnd (canonical_record_order records) (\<lambda>ordered.
    sha256_hex (strs_list (map (\<lambda>item. py_str (dget item ''logical_hash'' VNone)) ordered)))"

definition read_only_records :: "pydict list \<Rightarrow> pydict list result" where
  "read_only_records records = canonical_record_order records"

subsection \<open>Checkpoints\<close>

definition create_checkpoint :: "pydict \<Rightarrow> string list \<Rightarrow> string \<Rightarrow> pydict list \<Rightarrow> pydict result" where
  "create_checkpoint manifest completed_partitions logical_cursor semantic_prefix_records =
    (case dget manifest ''stream_manifest_id'' VNone of
       VStr manifest_id \<Rightarrow>
         bnd (semantic_prefix_hash semantic_prefix_records) (\<lambda>h.
         build_record ''checkpoint''
           [(''stream_manifest_id'', VStr manifest_id),
            (''completed_partitions'', strs_list (sorted_set completed_partitions)),
            (''logical_cursor'', VStr logical_cursor), (''semantic_prefix_hash'', VStr h),
            (''replaceable'', VBool True), (''authority'', VStr ''OPERATIONAL_NON_SEMANTIC'')])
     | _ \<Rightarrow> Inl (Exn CheckpointError ''STREAM_MANIFEST_ID_REQUIRED''))"

definition verify_resume :: "pydict \<Rightarrow> pydict \<Rightarrow> pydict list \<Rightarrow> pydict result" where
  "verify_resume checkpoint manifest semantic_prefix_records =
    bnd (req CheckpointError (py_eq (dget checkpoint ''stream_manifest_id'' VNone) (dget manifest ''stream_manifest_id'' VNone))
      ''RESTART_BINDING_MISMATCH'') (\<lambda>_.
    bnd (semantic_prefix_hash semantic_prefix_records) (\<lambda>observed.
    bnd (req CheckpointError (dget checkpoint ''semantic_prefix_hash'' VNone = VStr observed) ''RESTART_LOGICAL_DIVERGENCE'') (\<lambda>_.
    Inr [(''status'', VStr ''PASS''), (''checkpoint_id'', dget checkpoint ''checkpoint_id'' VNone),
         (''stream_manifest_id'', dget manifest ''stream_manifest_id'' VNone), (''semantic_prefix_hash'', VStr observed),
         (''authority_effect'', VStr ''NONE'')])))"

subsection \<open>Hand-off to consumers\<close>

definition assert_base_episode_key :: "pyval \<Rightarrow> string result" where
  "assert_base_episode_key value =
    (let denied = Inl (Exn DownstreamBoundaryError ''C2E_REMAP_IDENTITY_USE_DENIED'');
         check = (\<lambda>v. let t = py_str v in
           if prefix ''C2E.REMAP.'' t \<or> \<not> prefix ''C2E.EPISODE.'' t then denied else Inr t) in
     case value of
       VDict d \<Rightarrow>
         if dget d ''schema'' VNone = VStr ''c2e_remap_record/v0_2'' \<or> dget d ''comparison_only'' VNone = VBool True
         then denied else check (dget d ''episode_id'' VNone)
     | _ \<Rightarrow> check value)"

record sri_refs =
  phase_refs :: "string list"
  boundary_refs :: "string list"
  lineage_refs :: "string list"
  membership_refs :: "string list"

definition sri_step :: "string \<Rightarrow> sri_refs \<Rightarrow> pydict \<Rightarrow> sri_refs result" where
  "sri_step episode_id refs item =
    (let schema = dget item ''schema'' VNone; same = (dget item ''episode_id'' VNone = VStr episode_id);
         lineage = (\<lambda>rest.
           if schema = VStr ''c2e_lineage_edge/v0_2'' then
             (let p = dget item ''parent_episode_id'' VNone; c = dget item ''child_episode_id'' VNone in
              if \<not> hashable p \<or> \<not> hashable c then Inl (Exn TypeError [])
              else if p = VStr episode_id \<or> c = VStr episode_id then
                bnd (ditem item ''lineage_edge_id'') (\<lambda>v. Inr (refs\<lparr>lineage_refs := lineage_refs refs @ [py_str v]\<rparr>))
              else rest)
           else rest);
         member = (if schema = VStr ''c2e_membership_delta/v0_2'' \<and> same then
             bnd (ditem item ''membership_delta_id'') (\<lambda>v. Inr (refs\<lparr>membership_refs := membership_refs refs @ [py_str v]\<rparr>))
           else Inr refs) in
     if schema = VStr ''c2e_phase_segment/v0_2'' \<and> same then
       bnd (ditem item ''phase_segment_id'') (\<lambda>v. Inr (refs\<lparr>phase_refs := phase_refs refs @ [py_str v]\<rparr>))
     else if schema = VStr ''c2e_boundary_event/v0_2'' then
       bnd (contains (dget item ''episode_ids'' (VList [])) episode_id) (\<lambda>mine.
       if mine then bnd (ditem item ''boundary_event_id'') (\<lambda>v. Inr (refs\<lparr>boundary_refs := boundary_refs refs @ [py_str v]\<rparr>))
       else lineage member)
     else lineage member)"

definition build_sri_handoff :: "pydict \<Rightarrow> pydict \<Rightarrow> pydict list \<Rightarrow> string \<Rightarrow> pydict result" where
  "build_sri_handoff genesis snap records first_valid_time =
    bnd (assert_base_episode_key (VDict genesis)) (\<lambda>episode_id.
    bnd (req DownstreamBoundaryError (dget snap ''episode_id'' VNone = VStr episode_id) ''SRI_SNAPSHOT_EPISODE_MISMATCH'') (\<lambda>_.
    bnd (foldM (sri_step episode_id) \<lparr>phase_refs = [], boundary_refs = [], lineage_refs = [], membership_refs = []\<rparr> records) (\<lambda>refs.
    bnd (mapM (\<lambda>k. bnd (ditem genesis k) (\<lambda>v. Inr (k, v)))
      [''boundary_pack_id'', ''source_release_id'', ''scope_id'', ''scale_id'', ''side'']) (\<lambda>gs.
    bnd (ditem snap ''status'') (\<lambda>st.
    bnd (ditem genesis ''episode_id'') (\<lambda>gref.
    bnd (ditem snap ''snapshot_id'') (\<lambda>sref.
    build_record ''sri_handoff''
      ([(''episode_id'', VStr episode_id)] @ gs @
       [(''status'', st), (''genesis_ref'', gref), (''snapshot_ref'', sref),
        (''phase_refs'', strs_list (sort (phase_refs refs))), (''boundary_refs'', strs_list (sort (boundary_refs refs))),
        (''lineage_refs'', strs_list (sort (lineage_refs refs))), (''membership_refs'', strs_list (sort (membership_refs refs))),
        (''availability'', VStr ''AVAILABLE''), (''first_valid_time'', VStr first_valid_time),
        (''authority'', VStr ''READ_ONLY_PRODUCER_HANDOFF'')]))))))))"

subsection \<open>Remap records and metrics\<close>

definition build_legacy_remap ::
  "string list \<Rightarrow> string list \<Rightarrow> string \<Rightarrow> string \<Rightarrow> string \<Rightarrow> string \<Rightarrow> pydict result" where
  "build_legacy_remap legacy_episode_ids v2_episode_ids from_boundary_pack_id to_boundary_pack_id mapping_type first_valid_time =
    bnd (req ValueError (legacy_episode_ids \<noteq> []) ''LEGACY_EPISODE_IDS_REQUIRED'') (\<lambda>_.
    bnd (req ValueError (list_all (prefix ''C2E.EP.'') legacy_episode_ids) ''LEGACY_EPISODE_ID_NAMESPACE_REQUIRED'') (\<lambda>_.
    bnd (req ValueError (\<not> list_ex (prefix ''C2E.EP.'') v2_episode_ids) ''LEGACY_ID_RELABEL_AS_V2_DENIED'') (\<lambda>_.
    build_record ''remap_record''
      [(''from_boundary_pack_id'', VStr from_boundary_pack_id), (''to_boundary_pack_id'', VStr to_boundary_pack_id),
       (''from_episode_ids'', strs_list (sorted_set legacy_episode_ids)), (''to_episode_ids'', strs_list (sorted_set v2_episode_ids)),
       (''mapping_type'', VStr mapping_type), (''comparison_only'', VBool True), (''first_valid_time'', VStr first_valid_time),
       (''authority'', VStr ''COMPARISON_ONLY'')])))"

definition exact_rate :: "int \<Rightarrow> int \<Rightarrow> pydict result" where
  "exact_rate numerator denominator =
    bnd (req AssuranceMetricError (\<not> (numerator < 0 \<or> denominator < 0 \<or> numerator > denominator)) ''INVALID_NUMERATOR_DENOMINATOR'') (\<lambda>_.
    Inr [(''numerator'', VInt numerator), (''denominator'', VInt denominator),
         (''exact_rate'', if denominator = 0 then VNone
            else VStr (int_str (numerator div gcd numerator denominator) @ ''/'' @ int_str (denominator div gcd numerator denominator)))])"

definition build_conflict_metrics ::
  "int \<Rightarrow> int \<Rightarrow> int \<Rightarrow> int \<Rightarrow> int \<Rightarrow> int \<Rightarrow> int \<Rightarrow> int \<Rightarrow> int \<Rightarrow> int \<Rightarrow> int \<Rightarrow> int \<Rightarrow> pydict result" where
  "build_conflict_metrics ambiguous_candidate_sets evaluated_candidate_sets conflict_resolutions resolved_boundary_transactions
      conflicted_episodes emitted_episodes peer_owner_collisions peer_ownership_frames compound_invalidated compound_candidates
      not_evaluable_rules applicable_rule_evaluations =
    mapM (\<lambda>(k, n, d). bnd (exact_rate n d) (\<lambda>r. Inr (k, VDict r)))
      [(''ambiguous_boundary_rate'', ambiguous_candidate_sets, evaluated_candidate_sets),
       (''explicit_conflict_rate'', conflict_resolutions, resolved_boundary_transactions),
       (''conflicted_episode_rate'', conflicted_episodes, emitted_episodes),
       (''peer_owner_collision_rate'', peer_owner_collisions, peer_ownership_frames),
       (''compound_invalidated_rate'', compound_invalidated, compound_candidates),
       (''not_evaluable_boundary_rate'', not_evaluable_rules, applicable_rule_evaluations)]"

definition build_conflict_metric_receipt :: "string \<Rightarrow> string \<Rightarrow> pydict \<Rightarrow> pydict result" where
  "build_conflict_metric_receipt run_id boundary_pack_id metrics =
    (let payload = [(''schema'', VStr ''c2e_conflict_metric_receipt/v0_1''), (''run_id'', VStr run_id),
        (''boundary_pack_id'', VStr boundary_pack_id), (''metrics'', VDict metrics),
        (''interpretation'', VStr ''DESCRIPTIVE_DIAGNOSTIC_ONLY''), (''selection_threshold'', VNone),
        (''authority_effect'', VStr ''NONE'')] in
     bnd (sha256_hex (VDict payload)) (\<lambda>h. Inr (payload @ [(''logical_sha256'', VStr h)])))"

subsection \<open>The canonical order\<close>

lemma canonical_record_order_Inr:
  "canonical_record_order rs = Inr ys \<longleftrightarrow>
    (\<forall>item \<in> set rs. is_ok (semantic_record_id item) \<and> is_str (dget item ''logical_hash'' VNone)) \<and>
    ys = sort_key record_key rs"
proof -
  have "(\<exists>us. mapM check_record rs = Inr us) \<longleftrightarrow>
      (\<forall>item \<in> set rs. is_ok (semantic_record_id item) \<and> is_str (dget item ''logical_hash'' VNone))"
    by (simp add: is_ok_iff [symmetric] check_record_def) (auto simp: req_def)
  then show ?thesis by (auto simp: canonical_record_order_def bnd_eq_Inr)
qed

text \<open>Records with distinct identifiers have distinct sort keys, so their order is canonical.\<close>

definition ids_distinct :: "pydict list \<Rightarrow> bool" where
  "ids_distinct rs \<longleftrightarrow> distinct (map semantic_record_id rs)"

lemma record_key_inj:
  assumes "ids_distinct rs" and "\<forall>item \<in> set rs. is_ok (semantic_record_id item)"
  shows "inj_on record_key (set rs)"
proof (rule inj_onI)
  fix x y assume xy: "x \<in> set rs" "y \<in> set rs" "record_key x = record_key y"
  then have "projr (semantic_record_id x) = projr (semantic_record_id y)" by (simp add: record_key_def)
  moreover obtain i j where "semantic_record_id x = Inr i" "semantic_record_id y = Inr j"
    using assms(2) xy unfolding is_ok_iff by blast
  ultimately have "semantic_record_id x = semantic_record_id y" by simp
  with assms(1) xy(1,2) show "x = y" unfolding ids_distinct_def by (metis distinct_map inj_onD)
qed

lemma canonical_record_order_layout:
  assumes "mset rs = mset rs'" and "ids_distinct rs" and "canonical_record_order rs = Inr ys"
  shows "canonical_record_order rs' = Inr ys"
proof -
  have "set rs = set rs'" using assms(1) by (metis set_mset_mset)
  moreover have "sort_key record_key rs = sort_key record_key rs'"
    using assms(3) by (intro sort_key_mset_cong [OF assms(1)] record_key_inj [OF assms(2)])
      (auto simp: canonical_record_order_Inr)
  ultimately show ?thesis using assms(3) by (simp add: canonical_record_order_Inr)
qed

lemma ids_distinct_mset: "mset rs = mset rs' \<Longrightarrow> ids_distinct rs = ids_distinct rs'"
  unfolding ids_distinct_def by (metis mset_eq_imp_distinct_iff mset_map)

lemma semantic_prefix_hash_layout:
  assumes "mset rs = mset rs'" and "ids_distinct rs" and "semantic_prefix_hash rs = Inr h"
  shows "semantic_prefix_hash rs' = Inr h"
  using assms(3) canonical_record_order_layout [OF assms(1,2)]
  by (auto simp: semantic_prefix_hash_def bnd_eq_Inr)

lemma build_stream_manifest_layout:
  assumes "mset rs = mset rs'" and "ids_distinct rs"
    and "build_stream_manifest rs sb bp sids chs ms = Inr m"
  shows "build_stream_manifest rs' sb bp sids chs ms = Inr m"
proof -
  obtain ordered where "canonical_record_order rs = Inr ordered"
    using assms(3) by (auto simp: build_stream_manifest_def bnd_eq_Inr)
  then show ?thesis
    using assms(3) canonical_record_order_layout [OF assms(1,2)] by (simp add: build_stream_manifest_def)
qed

subsection \<open>Recombination of partitions\<close>

lemma collect_unique:
  "foldM (\<lambda>(seen, flattened) rec.
      bnd (semantic_record_id rec) (\<lambda>i.
      bnd (req PersistenceError (i \<notin> set seen) m) (\<lambda>_. Inr (i # seen, flattened @ [rec]))))
    (seen, acc) rs = Inr (s', flat) \<Longrightarrow>
   flat = acc @ rs \<and> ids_distinct rs \<and> (\<forall>r \<in> set rs. \<exists>i. semantic_record_id r = Inr i \<and> i \<notin> set seen)"
proof (induction rs arbitrary: seen acc)
  case Nil
  then show ?case by (simp add: ids_distinct_def)
next
  case (Cons r rs)
  obtain i where i: "semantic_record_id r = Inr i" "i \<notin> set seen"
    using Cons.prems by (auto simp: bnd_eq_Inr req_eq_Inr)
  with Cons.prems have "flat = (acc @ [r]) @ rs \<and> ids_distinct rs \<and>
      (\<forall>r \<in> set rs. \<exists>j. semantic_record_id r = Inr j \<and> j \<notin> set (i # seen))"
    by (intro Cons.IH) simp
  with i show ?case by (fastforce simp: ids_distinct_def)
qed

lemma collect_unique_ok:
  assumes "ids_distinct rs" and "\<forall>r \<in> set rs. \<exists>i. semantic_record_id r = Inr i \<and> i \<notin> set seen"
  shows "\<exists>s'. foldM (\<lambda>(seen, flattened) rec.
      bnd (semantic_record_id rec) (\<lambda>i.
      bnd (req PersistenceError (i \<notin> set seen) m) (\<lambda>_. Inr (i # seen, flattened @ [rec]))))
    (seen, acc) rs = Inr (s', acc @ rs)"
  using assms
proof (induction rs arbitrary: seen acc)
  case Nil
  then show ?case by simp
next
  case (Cons r rs)
  obtain i where i: "semantic_record_id r = Inr i" "i \<notin> set seen" using Cons.prems(2) by auto
  have "ids_distinct rs" using Cons.prems(1) by (simp add: ids_distinct_def)
  moreover have "\<forall>r \<in> set rs. \<exists>j. semantic_record_id r = Inr j \<and> j \<notin> set (i # seen)"
    using Cons.prems i(1) by (force simp: ids_distinct_def image_iff)
  ultimately show ?case using Cons.IH [of "i # seen" "acc @ [r]"] i by simp
qed

text \<open>All records of a layout, in the order the partitions are read.\<close>

definition flatten :: "(string \<times> pydict list) list \<Rightarrow> pydict list" where
  "flatten parts = concat (map (\<lambda>p. the (map_of parts p)) (sort (map fst parts)))"

lemma mset_concat_cong: "mset xss = mset yss \<Longrightarrow> mset (concat xss) = mset (concat yss)"
  by (metis mset_concat mset_map sum_mset_sum_list)

lemma flatten_mset:
  assumes "wf_dict parts"
  shows "mset (flatten parts) = mset (concat (map snd parts))"
proof -
  have "map (\<lambda>p. the (map_of parts p)) (map fst parts) = map snd parts"
    using assms by (auto simp: wf_dict_def map_of_is_SomeI)
  then have "mset (map (\<lambda>p. the (map_of parts p)) (sort (map fst parts))) = mset (map snd parts)"
    by (metis mset_map mset_sort)
  then show ?thesis unfolding flatten_def by (rule mset_concat_cong)
qed

lemma recombine_Inr:
  "recombine_partitions parts pids sb bp sids chs = Inr m \<longleftrightarrow>
    sort (map fst parts) = sorted_set pids \<and> ids_distinct (flatten parts) \<and>
    (\<forall>r \<in> set (flatten parts). is_ok (semantic_record_id r)) \<and>
    build_stream_manifest (flatten parts) sb bp sids chs None = Inr m" (is "?l \<longleftrightarrow> ?r")
proof
  assume ?l
  then show ?r
    by (auto simp: recombine_partitions_def Let_def bnd_eq_Inr req_eq_Inr flatten_def is_ok_iff dest!: collect_unique)
next
  assume r: ?r
  then have "\<forall>r \<in> set (flatten parts). \<exists>i. semantic_record_id r = Inr i \<and> i \<notin> set []" by (auto simp: is_ok_iff)
  from collect_unique_ok [of "flatten parts" "[]" "''RECOVERY_DUPLICATE_SEMANTIC_RECORD''" "[]"] this r show ?l
    by (auto simp: recombine_partitions_def Let_def bnd_eq_Inr req_eq_Inr flatten_def)
qed

text \<open>C23: resharding. Two layouts with the same records, whatever the names, the number, the order
  and the contents of their partitions, recombine to the same stream manifest, which is the manifest of
  the records taken in any order at all.\<close>

theorem resharding_invisible:
  assumes "wf_dict parts" and "wf_dict parts'"
    and "mset (concat (map snd parts)) = mset (concat (map snd parts'))"
    and "recombine_partitions parts pids sb bp sids chs = Inr m"
    and "set pids' = set (map fst parts')"
  shows "recombine_partitions parts' pids' sb bp sids chs = Inr m \<and>
    (\<forall>rs. mset rs = mset (concat (map snd parts)) \<longrightarrow> build_stream_manifest rs sb bp sids chs None = Inr m)"
proof -
  note r = assms(4) [unfolded recombine_Inr]
  have b: "build_stream_manifest rs sb bp sids chs None = Inr m" if "mset rs = mset (concat (map snd parts))" for rs
    using build_stream_manifest_layout [of "flatten parts" rs] r that flatten_mset [OF assms(1)] by simp
  have ms: "mset (flatten parts') = mset (flatten parts)"
    using assms(3) flatten_mset [OF assms(1)] flatten_mset [OF assms(2)] by simp
  have "sort (map fst parts') = sorted_set pids'"
    using assms(2) sorted_set_cong [OF assms(5)] by (simp add: sorted_set_def wf_dict_def distinct_remdups_id)
  moreover have "ids_distinct (flatten parts')" using ids_distinct_mset [OF ms] r by simp
  moreover have "set (flatten parts') = set (flatten parts)" using ms by (metis set_mset_mset)
  moreover have "build_stream_manifest (flatten parts') sb bp sids chs None = Inr m"
    using b ms flatten_mset [OF assms(1)] by simp
  ultimately show ?thesis using r b by (simp add: recombine_Inr)
qed

subsection \<open>Example records\<close>

text \<open>Two records in two layouts, for the examples.\<close>

definition example_record :: "string \<Rightarrow> string \<Rightarrow> pydict" where
  "example_record i t =
    [(''schema'', VStr ''c2e_episode_genesis/v0_2''), (''episode_id'', VStr i), (''first_valid_time'', VStr t),
     (''logical_hash'', VStr (''h'' @ i))]"

definition example_layout_a :: "(string \<times> pydict list) list" where
  "example_layout_a = [(''p'', [example_record ''e2'' ''t1'', example_record ''e1'' ''t2''])]"

definition example_layout_b :: "(string \<times> pydict list) list" where
  "example_layout_b = [(''r'', [example_record ''e2'' ''t1'']), (''q'', [example_record ''e1'' ''t2''])]"

definition manifest_spec :: record_spec where
  "manifest_spec = the (map_of RECORD_SPECS ''stream_manifest'')"

lemma manifest_spec: "map_of RECORD_SPECS ''stream_manifest'' = Some manifest_spec"
  unfolding manifest_spec_def by (simp add: RECORD_SPECS_def)

definition example_manifest_payload :: pydict where
  "example_manifest_payload =
    [(''source_binding'', VDict [(''source'', VStr ''s'')]), (''boundary_pack_id'', VStr ''pack''),
     (''schema_ids'', strs_list [''a'']), (''code_hashes'', strs_list [''c'']),
     (''ordered_record_ids'', strs_list [''e2'', ''e1'']), (''ordered_record_hashes'', strs_list [''he2'', ''he1'']),
     (''counts'', VDict [(''attempted_records'', VInt 2), (''emitted_records'', VInt 2), (''c2e_episode_genesis/v0_2'', VInt 2)]),
     (''missingness'', VList []), (''authority'', VStr ''INACTIVE_NONCANONICAL_SHADOW'')]"

lemma hash_ok_strs_list [simp]: "hash_ok (strs_list ss)"
  by (simp add: strs_list_def)

lemma example_manifest:
  obtains m where "recombine_partitions example_layout_a [''p''] [(''source'', VStr ''s'')] ''pack'' [''a''] [''c''] = Inr m"
    and "\<exists>i. map_of m ''stream_manifest_id'' = Some (VStr i)"
proof -
  have eq: "recombine_partitions example_layout_a [''p''] [(''source'', VStr ''s'')] ''pack'' [''a''] [''c''] =
      build_record ''stream_manifest'' example_manifest_payload"
  proof -
    have "sort (map fst example_layout_a) = sorted_set [''p'']" by code_simp
    moreover have "foldM (\<lambda>(seen, flattened) rec.
        bnd (semantic_record_id rec) (\<lambda>i.
        bnd (req PersistenceError (i \<notin> set seen) ''RECOVERY_DUPLICATE_SEMANTIC_RECORD'') (\<lambda>_. Inr (i # seen, flattened @ [rec]))))
      ([], []) (concat (map (\<lambda>p. the (map_of example_layout_a p)) (sort (map fst example_layout_a)))) =
      Inr ([''e1'', ''e2''], [example_record ''e2'' ''t1'', example_record ''e1'' ''t2''])" by code_simp
    moreover have "canonical_record_order [example_record ''e2'' ''t1'', example_record ''e1'' ''t2''] =
      Inr [example_record ''e2'' ''t1'', example_record ''e1'' ''t2'']" by code_simp
    moreover have "mapM semantic_record_id [example_record ''e2'' ''t1'', example_record ''e1'' ''t2''] = Inr [''e2'', ''e1'']"
      by code_simp
    moreover have "schema_counts [example_record ''e2'' ''t1'', example_record ''e1'' ''t2''] =
      [(''attempted_records'', VInt 2), (''emitted_records'', VInt 2), (''c2e_episode_genesis/v0_2'', VInt 2)]" by code_simp
    moreover have "map (\<lambda>item. py_str (dget item ''logical_hash'' VNone)) [example_record ''e2'' ''t1'', example_record ''e1'' ''t2''] =
      [''he2'', ''he1'']" by code_simp
    moreover have "sorted_set [''a''] = [''a'']" "sorted_set [''c''] = [''c'']" by code_simp+
    ultimately show ?thesis
      unfolding recombine_partitions_def Let_def build_stream_manifest_def example_manifest_payload_def by simp
  qed
  have 1: "wf_dict example_manifest_payload" by code_simp
  have 2: "\<forall>(k, v) \<in> set example_manifest_payload. field_ok k v \<and> hash_ok v"
    unfolding example_manifest_payload_def by (simp add: field_ok_def SORTED_LIST_FIELDS_def strs_list_def wf_dict_def)
  have 3: "\<forall>f \<in> set (required manifest_spec). present example_manifest_payload f" by code_simp
  have 4: "is_ok (kind_checks ''stream_manifest'' manifest_spec (norm_payload example_manifest_payload))" by code_simp
  obtain m where m: "build_record ''stream_manifest'' example_manifest_payload = Inr m"
    using build_record_ok [OF manifest_spec 1 2 3 4] by blast
  have "id_field manifest_spec = ''stream_manifest_id''" by code_simp
  with build_record_map_of(3) [OF m manifest_spec] that eq m show ?thesis by simp
qed

theorem resharding_invisible_witness:
  "recombine_partitions example_layout_b [''q'', ''r''] [(''source'', VStr ''s'')] ''pack'' [''a''] [''c''] =
   recombine_partitions example_layout_a [''p''] [(''source'', VStr ''s'')] ''pack'' [''a''] [''c'']"
proof -
  obtain m where m: "recombine_partitions example_layout_a [''p''] [(''source'', VStr ''s'')] ''pack'' [''a''] [''c''] = Inr m"
    using example_manifest .
  have wf: "wf_dict example_layout_a" "wf_dict example_layout_b" by code_simp+
  have ms: "mset (concat (map snd example_layout_a)) = mset (concat (map snd example_layout_b))"
    by (simp add: example_layout_a_def example_layout_b_def)
  have ids: "set [''q'', ''r''] = set (map fst example_layout_b)" by (auto simp: example_layout_b_def)
  from resharding_invisible [OF wf ms m ids] m show ?thesis by simp
qed

subsection \<open>Restart\<close>

lemma sha256_hex_strs:
  "sha256_hex (strs_list xs) = Inr (sha256 (jtext (strs_list xs)))"
proof -
  have c: "canonical (strs_list xs)" by (simp add: strs_list_def list_all_iff)
  then show ?thesis
    using canonical_bytes_jtext [OF canonical_wf [OF c] canonicalize_id [OF c]] by (simp add: sha256_hex_def)
qed

lemma strs_list_inj: "strs_list xs = strs_list ys \<longleftrightarrow> xs = ys"
  by (auto simp: strs_list_def inj_map_eq_map inj_def)

definition prefix_hashes :: "pydict list \<Rightarrow> string list" where
  "prefix_hashes rs = map (\<lambda>item. py_str (dget item ''logical_hash'' VNone)) (sort_key record_key rs)"

lemma semantic_prefix_hash_Inr:
  "semantic_prefix_hash rs = Inr h \<longleftrightarrow>
    is_ok (canonical_record_order rs) \<and> h = sha256 (jtext (strs_list (prefix_hashes rs)))"
proof (cases "canonical_record_order rs")
  case (Inr ys)
  moreover from this have "ys = sort_key record_key rs" by (simp add: canonical_record_order_Inr)
  ultimately show ?thesis by (auto simp: semantic_prefix_hash_def sha256_hex_strs prefix_hashes_def)
qed (simp add: semantic_prefix_hash_def)

lemma create_checkpoint_Inr:
  assumes "create_checkpoint manifest cp cur rs = Inr c"
  obtains mid h where "dget manifest ''stream_manifest_id'' VNone = VStr mid" and "semantic_prefix_hash rs = Inr h"
    and "dget c ''stream_manifest_id'' VNone = VStr mid" and "dget c ''semantic_prefix_hash'' VNone = VStr h"
proof -
  from assms obtain mid h where mh: "dget manifest ''stream_manifest_id'' VNone = VStr mid" "semantic_prefix_hash rs = Inr h"
    and b: "build_record ''checkpoint''
           [(''stream_manifest_id'', VStr mid),
            (''completed_partitions'', strs_list (sorted_set cp)),
            (''logical_cursor'', VStr cur), (''semantic_prefix_hash'', VStr h),
            (''replaceable'', VBool True), (''authority'', VStr ''OPERATIONAL_NON_SEMANTIC'')] = Inr c"
    unfolding create_checkpoint_def by (auto simp: bnd_eq_Inr split: pyval.splits)
  have "id_field checkpoint_spec = ''checkpoint_id''" by code_simp
  then have "dget c ''stream_manifest_id'' VNone = VStr mid" "dget c ''semantic_prefix_hash'' VNone = VStr h"
    using build_record_map_of(2) [OF b checkpoint_spec, of "''stream_manifest_id''"]
      build_record_map_of(2) [OF b checkpoint_spec, of "''semantic_prefix_hash''"]
    by (simp_all add: derived_fields_def dget_def norm_field_def)
  with mh that show ?thesis by blast
qed

text \<open>C24: a restart from a checkpoint passes for the manifest the checkpoint was made for and the same
  records in any order.\<close>

theorem restart_roundtrip:
  assumes "create_checkpoint manifest cp cur rs = Inr c" and "ids_distinct rs" and "mset rs' = mset rs"
  shows "\<exists>h. semantic_prefix_hash rs = Inr h \<and> verify_resume c manifest rs' =
    Inr [(''status'', VStr ''PASS''), (''checkpoint_id'', dget c ''checkpoint_id'' VNone),
         (''stream_manifest_id'', dget manifest ''stream_manifest_id'' VNone), (''semantic_prefix_hash'', VStr h),
         (''authority_effect'', VStr ''NONE'')]"
proof -
  obtain mid h where mh: "dget manifest ''stream_manifest_id'' VNone = VStr mid" "semantic_prefix_hash rs = Inr h"
    "dget c ''stream_manifest_id'' VNone = VStr mid" "dget c ''semantic_prefix_hash'' VNone = VStr h"
    using create_checkpoint_Inr [OF assms(1)] .
  have "semantic_prefix_hash rs' = Inr h"
    using semantic_prefix_hash_layout [OF _ assms(2) mh(2)] assms(3) by metis
  then show ?thesis using mh by (simp add: verify_resume_def)
qed

text \<open>C25: a restart that passes is bound to the manifest of the checkpoint and to its records: the
  two prefixes have the same sequence of record hashes in canonical order, unless SHA-256 collides on
  the two prefix texts; any other manifest or prefix raises.\<close>

theorem restart_detects_divergence:
  assumes "create_checkpoint manifest cp cur rs = Inr c"
    and "inj_on sha256 {jtext (strs_list (prefix_hashes rs)), jtext (strs_list (prefix_hashes rs'))}"
    and "is_ok (canonical_record_order rs')"
  shows "verify_resume c manifest' rs' =
    (if dget manifest' ''stream_manifest_id'' VNone \<noteq> dget manifest ''stream_manifest_id'' VNone
     then Inl (Exn CheckpointError ''RESTART_BINDING_MISMATCH'')
     else if prefix_hashes rs' \<noteq> prefix_hashes rs
     then Inl (Exn CheckpointError ''RESTART_LOGICAL_DIVERGENCE'')
     else Inr [(''status'', VStr ''PASS''), (''checkpoint_id'', dget c ''checkpoint_id'' VNone),
       (''stream_manifest_id'', dget manifest ''stream_manifest_id'' VNone),
       (''semantic_prefix_hash'', dget c ''semantic_prefix_hash'' VNone), (''authority_effect'', VStr ''NONE'')])"
proof -
  obtain mid h where mh: "dget manifest ''stream_manifest_id'' VNone = VStr mid" "semantic_prefix_hash rs = Inr h"
    "dget c ''stream_manifest_id'' VNone = VStr mid" "dget c ''semantic_prefix_hash'' VNone = VStr h"
    using create_checkpoint_Inr [OF assms(1)] .
  let ?t = "\<lambda>rs. jtext (strs_list (prefix_hashes rs))"
  have h: "h = sha256 (?t rs)" "semantic_prefix_hash rs' = Inr (sha256 (?t rs'))"
    using mh(2) assms(3) by (simp_all add: semantic_prefix_hash_Inr)
  have c: "canonical (strs_list xs)" for xs by (simp add: strs_list_def list_all_iff)
  have "?t rs' = ?t rs \<longleftrightarrow> prefix_hashes rs' = prefix_hashes rs"
    using jtext_prefix_code [OF c c, of "[]" "[]"] by (auto simp: strs_list_inj)
  then have eq: "sha256 (?t rs') = sha256 (?t rs) \<longleftrightarrow> prefix_hashes rs' = prefix_hashes rs"
    using assms(2) by (auto dest: inj_onD)
  show ?thesis using mh(1,3,4) h eq by (auto simp: verify_resume_def bnd_req)
qed

text \<open>A checkpoint of the example layout.\<close>

lemma example_checkpoint_made:
  assumes "dget m ''stream_manifest_id'' VNone = VStr ''m''"
  obtains c where "create_checkpoint m [''p''] ''cur'' [example_record ''e2'' ''t1'', example_record ''e1'' ''t2''] = Inr c"
proof -
  let ?rs = "[example_record ''e2'' ''t1'', example_record ''e1'' ''t2'']"
  have "is_ok (canonical_record_order ?rs)" by code_simp
  then have h: "semantic_prefix_hash ?rs = Inr (sha256 (jtext (strs_list (prefix_hashes ?rs))))"
    by (simp only: semantic_prefix_hash_Inr)
  define h where "h = sha256 (jtext (strs_list (prefix_hashes ?rs)))"
  have ne: "h \<noteq> []" unfolding h_def by (metis length_sha256 list.size(3) zero_neq_numeral)
  let ?p = "[(''stream_manifest_id'', VStr ''m''), (''completed_partitions'', strs_list (sorted_set [''p''])),
    (''logical_cursor'', VStr ''cur''), (''semantic_prefix_hash'', VStr h),
    (''replaceable'', VBool True), (''authority'', VStr ''OPERATIONAL_NON_SEMANTIC'')]"
  have 1: "wf_dict ?p" by (simp add: wf_dict_def)
  have 2: "\<forall>(k, v) \<in> set ?p. field_ok k v \<and> hash_ok v"
    by (simp add: field_ok_def SORTED_LIST_FIELDS_def strs_list_def)
  have 3: "\<forall>f \<in> set (required checkpoint_spec). present ?p f"
    using ne by (simp add: checkpoint_spec_def RECORD_SPECS_def present_def strs_list_def)
  have 4: "is_ok (kind_checks ''checkpoint'' checkpoint_spec (norm_payload ?p))"
    by (simp add: kind_checks_def ditem_def norm_field_def)
  obtain c where "build_record ''checkpoint'' ?p = Inr c"
    using build_record_ok [OF checkpoint_spec 1 2 3 4] by blast
  then show ?thesis using that assms h by (simp add: create_checkpoint_def h_def)
qed

theorem restart_roundtrip_witness:
  "\<exists>c. create_checkpoint [(''stream_manifest_id'', VStr ''m'')] [''p''] ''cur''
      [example_record ''e2'' ''t1'', example_record ''e1'' ''t2''] = Inr c \<and>
    is_ok (verify_resume c [(''stream_manifest_id'', VStr ''m'')] [example_record ''e1'' ''t2'', example_record ''e2'' ''t1''])"
proof -
  let ?rs = "[example_record ''e2'' ''t1'', example_record ''e1'' ''t2'']"
  have "dget [(''stream_manifest_id'', VStr ''m'')] ''stream_manifest_id'' VNone = VStr ''m''" by (simp add: dget_def)
  from example_checkpoint_made [OF this] obtain c
    where c: "create_checkpoint [(''stream_manifest_id'', VStr ''m'')] [''p''] ''cur'' ?rs = Inr c" .
  have "ids_distinct ?rs" by code_simp
  moreover have "mset [example_record ''e1'' ''t2'', example_record ''e2'' ''t1''] = mset ?rs" by simp
  ultimately show ?thesis using restart_roundtrip [OF c] c is_ok_simps(1) by metis
qed

theorem restart_detects_divergence_witness:
  "\<exists>c. create_checkpoint [(''stream_manifest_id'', VStr ''m'')] [''p''] ''cur''
      [example_record ''e2'' ''t1'', example_record ''e1'' ''t2''] = Inr c \<and>
    verify_resume c [(''stream_manifest_id'', VStr ''n'')] [example_record ''e1'' ''t2'', example_record ''e2'' ''t1''] =
      Inl (Exn CheckpointError ''RESTART_BINDING_MISMATCH'')"
proof -
  let ?rs = "[example_record ''e2'' ''t1'', example_record ''e1'' ''t2'']"
  let ?rs' = "[example_record ''e1'' ''t2'', example_record ''e2'' ''t1'']"
  have "dget [(''stream_manifest_id'', VStr ''m'')] ''stream_manifest_id'' VNone = VStr ''m''" by (simp add: dget_def)
  from example_checkpoint_made [OF this] obtain c
    where c: "create_checkpoint [(''stream_manifest_id'', VStr ''m'')] [''p''] ''cur'' ?rs = Inr c" .
  have "prefix_hashes ?rs = prefix_hashes ?rs'" by code_simp
  then have "inj_on sha256 {jtext (strs_list (prefix_hashes ?rs)), jtext (strs_list (prefix_hashes ?rs'))}" by simp
  moreover have "is_ok (canonical_record_order ?rs')" by code_simp
  ultimately show ?thesis
    using restart_detects_divergence [OF c, of ?rs' "[(''stream_manifest_id'', VStr ''n'')]"] c by (simp add: dget_def)
qed

subsection \<open>Remap records are not episodes\<close>

text \<open>Comparison-only evidence cannot become an episode. A remap record is refused as a base
  episode key, as are its own identifier and every legacy identifier it lists; and no legacy identifier
  is listed as a v0.2 episode.\<close>

theorem remap_never_a_key:
  assumes "build_legacy_remap legacy v2 fp tp mt fvt = Inr r"
  shows "assert_base_episode_key (VDict r) = Inl (Exn DownstreamBoundaryError ''C2E_REMAP_IDENTITY_USE_DENIED'') \<and>
    assert_base_episode_key (dget r ''remap_record_id'' VNone) = Inl (Exn DownstreamBoundaryError ''C2E_REMAP_IDENTITY_USE_DENIED'') \<and>
    (\<forall>e. dget r ''from_episode_ids'' VNone = VList e \<longrightarrow> (\<forall>v \<in> set e.
       assert_base_episode_key v = Inl (Exn DownstreamBoundaryError ''C2E_REMAP_IDENTITY_USE_DENIED''))) \<and>
    (\<forall>e. dget r ''to_episode_ids'' VNone = VList e \<longrightarrow> (\<forall>v \<in> set e. \<not> prefix ''C2E.EP.'' (py_str v)))"
proof -
  let ?p = "[(''from_boundary_pack_id'', VStr fp), (''to_boundary_pack_id'', VStr tp),
       (''from_episode_ids'', strs_list (sorted_set legacy)), (''to_episode_ids'', strs_list (sorted_set v2)),
       (''mapping_type'', VStr mt), (''comparison_only'', VBool True), (''first_valid_time'', VStr fvt),
       (''authority'', VStr ''COMPARISON_ONLY'')]"
  have leg: "list_all (prefix ''C2E.EP.'') legacy" and v2: "\<not> list_ex (prefix ''C2E.EP.'') v2"
    and b: "build_record ''remap_record'' ?p = Inr r"
    using assms by (auto simp: build_legacy_remap_def bnd_eq_Inr req_eq_Inr)
  define spec where "spec = the (map_of RECORD_SPECS ''remap_record'')"
  have spec: "map_of RECORD_SPECS ''remap_record'' = Some spec" and idf: "id_field spec = ''remap_record_id''"
    and sch: "schema_of spec = ''c2e_remap_record/v0_2''" and pre: "prefix_of spec = ''C2E.REMAP''"
    unfolding spec_def by code_simp+
  have dict: "assert_base_episode_key (VDict r) = Inl (Exn DownstreamBoundaryError ''C2E_REMAP_IDENTITY_USE_DENIED'')"
    using build_record_map_of(1) [OF b spec] sch by (simp add: assert_base_episode_key_def dget_def)
  obtain i where i: "map_of r ''remap_record_id'' = Some (VStr i)"
    "digest ''C2E.REMAP'' (VDict (identity_payload spec r)) 32 = Inr i"
    using build_record_id [OF b spec] idf pre by metis
  then have "prefix ''C2E.REMAP.'' i" by (auto simp: digest_Inr)
  then have own: "assert_base_episode_key (dget r ''remap_record_id'' VNone) = Inl (Exn DownstreamBoundaryError ''C2E_REMAP_IDENTITY_USE_DENIED'')"
    using i(1) by (simp add: assert_base_episode_key_def dget_def)
  have f: "map_of r ''from_episode_ids'' = Some (norm_field ''from_episode_ids'' (strs_list (sorted_set legacy)))"
    "map_of r ''to_episode_ids'' = Some (norm_field ''to_episode_ids'' (strs_list (sorted_set v2)))"
    using build_record_map_of(2) [OF b spec] idf by (simp_all add: derived_fields_def)
  have denied: "assert_base_episode_key (VStr e) = Inl (Exn DownstreamBoundaryError ''C2E_REMAP_IDENTITY_USE_DENIED'')"
    if "prefix ''C2E.EP.'' e" for e
    using that by (auto simp: assert_base_episode_key_def prefix_def)
  obtain ys zs where ys: "norm_field ''from_episode_ids'' (strs_list (sorted_set legacy)) = VList (map VStr ys)" "set ys = set legacy"
    and zs: "norm_field ''to_episode_ids'' (strs_list (sorted_set v2)) = VList (map VStr zs)" "set zs = set v2"
    using norm_field_strs [of "''from_episode_ids''" "sorted_set legacy"] norm_field_strs [of "''to_episode_ids''" "sorted_set v2"]
    by (auto simp: strs_list_def)
  have "\<forall>e. dget r ''from_episode_ids'' VNone = VList e \<longrightarrow> (\<forall>v \<in> set e.
       assert_base_episode_key v = Inl (Exn DownstreamBoundaryError ''C2E_REMAP_IDENTITY_USE_DENIED''))"
    using leg denied f(1) ys by (auto simp: dget_def list_all_iff)
  moreover have "\<forall>e. dget r ''to_episode_ids'' VNone = VList e \<longrightarrow> (\<forall>v \<in> set e. \<not> prefix ''C2E.EP.'' (py_str v))"
    using v2 f(2) zs by (auto simp: dget_def list_ex_iff)
  ultimately show ?thesis using dict own by blast
qed

subsection \<open>Exact rates\<close>

text \<open>A rate is refused exactly when the counts are out of range; otherwise it is reported as the
  fraction in lowest terms, or as missing when nothing was counted.\<close>

theorem exact_rate_lowest_terms:
  "exact_rate n d =
    (if 0 \<le> n \<and> n \<le> d \<and> 0 \<le> d then
       Inr [(''numerator'', VInt n), (''denominator'', VInt d),
            (''exact_rate'', if d = 0 then VNone
              else VStr (int_str (fst (quotient_of (of_int n / of_int d))) @ ''/'' @ int_str (snd (quotient_of (of_int n / of_int d)))))]
     else Inl (Exn AssuranceMetricError ''INVALID_NUMERATOR_DENOMINATOR''))"
proof -
  have "quotient_of (of_int n / of_int d) = (n div gcd n d, d div gcd n d)" if "0 < d"
    using that by (simp add: quotient_of_div quotient_of_Fract normalize_def Let_def flip: Fract_of_int_quotient)
  then show ?thesis by (auto simp: exact_rate_def bnd_req)
qed

subsection \<open>The hand-off of an episode\<close>

text \<open>What the hand-off refers to, as filters of the records.\<close>

definition refs_where :: "(pydict \<Rightarrow> bool) \<Rightarrow> string \<Rightarrow> pydict list \<Rightarrow> string list" where
  "refs_where P field rs = map (\<lambda>r. py_str (dget r field VNone)) (filter P rs)"

abbreviation is_phase_of :: "string \<Rightarrow> pydict \<Rightarrow> bool" where
  "is_phase_of e r \<equiv> dget r ''schema'' VNone = VStr ''c2e_phase_segment/v0_2'' \<and> dget r ''episode_id'' VNone = VStr e"

abbreviation is_event_of :: "string \<Rightarrow> pydict \<Rightarrow> bool" where
  "is_event_of e r \<equiv> dget r ''schema'' VNone = VStr ''c2e_boundary_event/v0_2'' \<and>
     contains (dget r ''episode_ids'' (VList [])) e = Inr True"

abbreviation is_edge_of :: "string \<Rightarrow> pydict \<Rightarrow> bool" where
  "is_edge_of e r \<equiv> dget r ''schema'' VNone = VStr ''c2e_lineage_edge/v0_2'' \<and>
     (dget r ''parent_episode_id'' VNone = VStr e \<or> dget r ''child_episode_id'' VNone = VStr e)"

abbreviation is_delta_of :: "string \<Rightarrow> pydict \<Rightarrow> bool" where
  "is_delta_of e r \<equiv> dget r ''schema'' VNone = VStr ''c2e_membership_delta/v0_2'' \<and> dget r ''episode_id'' VNone = VStr e"

definition refs_ok :: "string \<Rightarrow> sri_refs \<Rightarrow> pydict list \<Rightarrow> bool" where
  "refs_ok e refs rs \<longleftrightarrow>
     phase_refs refs = refs_where (is_phase_of e) ''phase_segment_id'' rs \<and>
     boundary_refs refs = refs_where (is_event_of e) ''boundary_event_id'' rs \<and>
     lineage_refs refs = refs_where (is_edge_of e) ''lineage_edge_id'' rs \<and>
     membership_refs refs = refs_where (is_delta_of e) ''membership_delta_id'' rs"

lemma refs_where_snoc: "refs_where P f (rs @ [r]) = refs_where P f rs @ (if P r then [py_str (dget r f VNone)] else [])"
  by (simp add: refs_where_def)

lemma schema_neq:
  "(VStr ''c2e_phase_segment/v0_2'' = VStr ''c2e_boundary_event/v0_2'') = False"
  "(VStr ''c2e_phase_segment/v0_2'' = VStr ''c2e_lineage_edge/v0_2'') = False"
  "(VStr ''c2e_phase_segment/v0_2'' = VStr ''c2e_membership_delta/v0_2'') = False"
  "(VStr ''c2e_boundary_event/v0_2'' = VStr ''c2e_phase_segment/v0_2'') = False"
  "(VStr ''c2e_boundary_event/v0_2'' = VStr ''c2e_lineage_edge/v0_2'') = False"
  "(VStr ''c2e_boundary_event/v0_2'' = VStr ''c2e_membership_delta/v0_2'') = False"
  "(VStr ''c2e_lineage_edge/v0_2'' = VStr ''c2e_phase_segment/v0_2'') = False"
  "(VStr ''c2e_lineage_edge/v0_2'' = VStr ''c2e_boundary_event/v0_2'') = False"
  "(VStr ''c2e_lineage_edge/v0_2'' = VStr ''c2e_membership_delta/v0_2'') = False"
  "(VStr ''c2e_membership_delta/v0_2'' = VStr ''c2e_phase_segment/v0_2'') = False"
  "(VStr ''c2e_membership_delta/v0_2'' = VStr ''c2e_boundary_event/v0_2'') = False"
  "(VStr ''c2e_membership_delta/v0_2'' = VStr ''c2e_lineage_edge/v0_2'') = False"
  by simp_all

lemma sri_step_refs:
  assumes "sri_step e refs r = Inr refs'" and "refs_ok e refs rs"
  shows "refs_ok e refs' (rs @ [r])"
proof -
  note s = assms(1) [unfolded sri_step_def Let_def]
  note k = assms(2) [unfolded refs_ok_def] 
  consider (phase) "dget r ''schema'' VNone = VStr ''c2e_phase_segment/v0_2''" | (event) "dget r ''schema'' VNone = VStr ''c2e_boundary_event/v0_2''"
    | (edge) "dget r ''schema'' VNone = VStr ''c2e_lineage_edge/v0_2''" | (delta) "dget r ''schema'' VNone = VStr ''c2e_membership_delta/v0_2''"
    | (other) "dget r ''schema'' VNone \<noteq> VStr ''c2e_phase_segment/v0_2''" "dget r ''schema'' VNone \<noteq> VStr ''c2e_boundary_event/v0_2''"
      "dget r ''schema'' VNone \<noteq> VStr ''c2e_lineage_edge/v0_2''" "dget r ''schema'' VNone \<noteq> VStr ''c2e_membership_delta/v0_2''"
    by blast
  then show ?thesis
  proof cases
    case phase
    then show ?thesis using s k by (simp only: schema_neq if_False if_True simp_thms refs_ok_def refs_where_snoc split: if_splits)
        (auto simp: bnd_eq_Inr ditem_Inr dget_Some)
  next
    case event
    obtain mine where m: "contains (dget r ''episode_ids'' (VList [])) e = Inr mine"
      using s event by (simp only: schema_neq if_False if_True simp_thms) (auto simp: bnd_eq_Inr)
    show ?thesis using s k event by (cases mine; simp only: m schema_neq if_False if_True simp_thms refs_ok_def refs_where_snoc bnd_Inr)
        (auto simp: bnd_eq_Inr ditem_Inr dget_Some)
  next
    case edge
    then show ?thesis using s k by (simp only: schema_neq if_False if_True simp_thms refs_ok_def refs_where_snoc split: if_splits)
        (auto simp: bnd_eq_Inr ditem_Inr dget_Some)
  next
    case delta
    then show ?thesis using s k by (simp only: schema_neq if_False if_True simp_thms refs_ok_def refs_where_snoc split: if_splits)
        (auto simp: bnd_eq_Inr ditem_Inr dget_Some)
  next
    case other
    then show ?thesis using s k unfolding refs_ok_def refs_where_snoc by simp
  qed
qed

lemma sri_steps_refs:
  assumes "foldM (sri_step e) \<lparr>phase_refs = [], boundary_refs = [], lineage_refs = [], membership_refs = []\<rparr> rs = Inr refs"
  shows "refs_ok e refs rs"
  using assms
proof (induction rs arbitrary: refs rule: rev_induct)
  case Nil
  then show ?case by (auto simp: refs_ok_def refs_where_def)
next
  case (snoc r rs)
  then show ?case by (auto simp: foldM_snoc bnd_eq_Inr intro: sri_step_refs)
qed

lemma norm_field_sorted_strs:
  "k \<in> set SORTED_LIST_FIELDS \<Longrightarrow> norm_field k (strs_list (sort xs)) = strs_list (sort xs)"
proof -
  have "sorted (map py_str (map VStr (sort xs)))" by (simp add: comp_def)
  then have "sort_key py_str (map VStr (sort xs)) = map VStr (sort xs)" by (rule sort_key_id_if_sorted)
  then show "k \<in> set SORTED_LIST_FIELDS \<Longrightarrow> norm_field k (strs_list (sort xs)) = strs_list (sort xs)"
    by (simp add: norm_field_def strs_list_def)
qed

lemma handoff_spec:
  obtains spec where "map_of RECORD_SPECS ''sri_handoff'' = Some spec" and "id_field spec = ''handoff_id''"
    by (simp add: RECORD_SPECS_def)

text \<open>A hand-off names the episode of the genesis record, under its own boundary pack, and the
  status of the snapshot of that episode, and refers in sorted order to exactly the phases, events,
  lineage edges and membership deltas of that episode among the records.\<close>

theorem handoff_refers_exactly:
  assumes "build_sri_handoff genesis snap rs fvt = Inr h"
  shows "\<exists>e. py_str (dget genesis ''episode_id'' VNone) = e \<and> prefix ''C2E.EPISODE.'' e \<and>
    dget snap ''episode_id'' VNone = VStr e \<and> map_of h ''episode_id'' = Some (VStr e) \<and>
    map_of h ''boundary_pack_id'' = map_of genesis ''boundary_pack_id'' \<and> map_of h ''status'' = map_of snap ''status'' \<and>
    map_of h ''phase_refs'' = Some (strs_list (sort (refs_where (is_phase_of e) ''phase_segment_id'' rs))) \<and>
    map_of h ''boundary_refs'' = Some (strs_list (sort (refs_where (is_event_of e) ''boundary_event_id'' rs))) \<and>
    map_of h ''lineage_refs'' = Some (strs_list (sort (refs_where (is_edge_of e) ''lineage_edge_id'' rs))) \<and>
    map_of h ''membership_refs'' = Some (strs_list (sort (refs_where (is_delta_of e) ''membership_delta_id'' rs)))"
proof -
  obtain e refs gs st gref sref where
      key: "assert_base_episode_key (VDict genesis) = Inr e" and sn: "dget snap ''episode_id'' VNone = VStr e"
    and fo: "foldM (sri_step e) \<lparr>phase_refs = [], boundary_refs = [], lineage_refs = [], membership_refs = []\<rparr> rs = Inr refs"
    and gs: "mapM (\<lambda>k. bnd (ditem genesis k) (\<lambda>v. Inr (k, v)))
      [''boundary_pack_id'', ''source_release_id'', ''scope_id'', ''scale_id'', ''side''] = Inr gs"
    and st: "ditem snap ''status'' = Inr st"
    and b: "build_record ''sri_handoff''
      ([(''episode_id'', VStr e)] @ gs @
       [(''status'', st), (''genesis_ref'', gref), (''snapshot_ref'', sref),
        (''phase_refs'', strs_list (sort (phase_refs refs))), (''boundary_refs'', strs_list (sort (boundary_refs refs))),
        (''lineage_refs'', strs_list (sort (lineage_refs refs))), (''membership_refs'', strs_list (sort (membership_refs refs))),
        (''availability'', VStr ''AVAILABLE''), (''first_valid_time'', VStr fvt),
        (''authority'', VStr ''READ_ONLY_PRODUCER_HANDOFF'')]) = Inr h" (is "build_record _ ?p = _")
    using assms unfolding build_sri_handoff_def bnd_eq_Inr req_eq_Inr by blast
  obtain spec where spec: "map_of RECORD_SPECS ''sri_handoff'' = Some spec" "id_field spec = ''handoff_id''"
    using handoff_spec .
  have e: "py_str (dget genesis ''episode_id'' VNone) = e" "prefix ''C2E.EPISODE.'' e"
    using key by (auto simp: assert_base_episode_key_def Let_def split: if_splits)
  have G: "map_of genesis ''boundary_pack_id'' = Some (the (map_of genesis ''boundary_pack_id''))"
    and gl: "gs = map (\<lambda>f. (f, the (map_of genesis f))) [''boundary_pack_id'', ''source_release_id'', ''scope_id'', ''scale_id'', ''side'']"
    using gs unfolding mapM_ditem by auto
  note nf = norm_field_sorted_strs
  have plain: "''boundary_pack_id'' \<notin> set SORTED_LIST_FIELDS" "''status'' \<notin> set SORTED_LIST_FIELDS"
    "''episode_id'' \<notin> set SORTED_LIST_FIELDS" by code_simp+
  have listed: "''phase_refs'' \<in> set SORTED_LIST_FIELDS" "''boundary_refs'' \<in> set SORTED_LIST_FIELDS"
    "''lineage_refs'' \<in> set SORTED_LIST_FIELDS" "''membership_refs'' \<in> set SORTED_LIST_FIELDS" by code_simp+
  note bf = built_field [OF b spec(1), unfolded spec(2)]
  have "map_of h ''episode_id'' = Some (VStr e)" using bf [of "''episode_id''"] plain by simp
  moreover note e sn
  moreover have "map_of h ''boundary_pack_id'' = map_of genesis ''boundary_pack_id''"
    using bf [of "''boundary_pack_id''"] plain(1) G by (cases "map_of genesis ''boundary_pack_id''") (simp_all add: gl)
  moreover have "map_of h ''status'' = map_of snap ''status''"
    using bf [of "''status''"] plain st by (simp add: gl ditem_Inr)
  moreover have "map_of h ''phase_refs'' = Some (strs_list (sort (phase_refs refs)))"
    using bf [of "''phase_refs''"] nf [OF listed(1)] by (simp add: gl)
  moreover have "map_of h ''boundary_refs'' = Some (strs_list (sort (boundary_refs refs)))"
    using bf [of "''boundary_refs''"] nf [OF listed(2)] by (simp add: gl)
  moreover have "map_of h ''lineage_refs'' = Some (strs_list (sort (lineage_refs refs)))"
    using bf [of "''lineage_refs''"] nf [OF listed(3)] by (simp add: gl)
  moreover have "map_of h ''membership_refs'' = Some (strs_list (sort (membership_refs refs)))"
    using bf [of "''membership_refs''"] nf [OF listed(4)] by (simp add: gl)
  ultimately show ?thesis using sri_steps_refs [OF fo] unfolding refs_ok_def by metis
qed

text \<open>Examples for the two properties above.\<close>

definition example_handoff_records :: "pydict list" where
  "example_handoff_records =
    [[(''schema'', VStr ''c2e_membership_delta/v0_2''), (''episode_id'', VStr ''C2E.EPISODE.a''), (''membership_delta_id'', VStr ''m2'')],
     [(''schema'', VStr ''c2e_membership_delta/v0_2''), (''episode_id'', VStr ''C2E.EPISODE.b''), (''membership_delta_id'', VStr ''m0'')],
     [(''schema'', VStr ''c2e_membership_delta/v0_2''), (''episode_id'', VStr ''C2E.EPISODE.a''), (''membership_delta_id'', VStr ''m1'')]]"

definition example_handoff_genesis :: pydict where
  "example_handoff_genesis =
    [(''episode_id'', VStr ''C2E.EPISODE.a''), (''boundary_pack_id'', VStr ''p''), (''source_release_id'', VStr ''r''),
     (''scope_id'', VStr ''s''), (''scale_id'', VStr ''c''), (''side'', VStr ''BID'')]"

definition example_handoff_snapshot :: pydict where
  "example_handoff_snapshot = [(''episode_id'', VStr ''C2E.EPISODE.a''), (''snapshot_id'', VStr ''n''), (''status'', VStr ''ACTIVE'')]"

lemma example_handoff_built:
  obtains h where "build_sri_handoff example_handoff_genesis example_handoff_snapshot example_handoff_records ''t'' = Inr h"
proof -
  let ?p = "[(''episode_id'', VStr ''C2E.EPISODE.a''), (''boundary_pack_id'', VStr ''p''), (''source_release_id'', VStr ''r''),
     (''scope_id'', VStr ''s''), (''scale_id'', VStr ''c''), (''side'', VStr ''BID''), (''status'', VStr ''ACTIVE''),
     (''genesis_ref'', VStr ''C2E.EPISODE.a''), (''snapshot_ref'', VStr ''n''), (''phase_refs'', VList []),
     (''boundary_refs'', VList []), (''lineage_refs'', VList []), (''membership_refs'', VList [VStr ''m1'', VStr ''m2'']),
     (''availability'', VStr ''AVAILABLE''), (''first_valid_time'', VStr ''t''), (''authority'', VStr ''READ_ONLY_PRODUCER_HANDOFF'')]"
  obtain spec where spec: "map_of RECORD_SPECS ''sri_handoff'' = Some spec" "spec = the (map_of RECORD_SPECS ''sri_handoff'')"
    using handoff_spec by (metis option.sel)
  have key: "assert_base_episode_key (VDict example_handoff_genesis) = Inr ''C2E.EPISODE.a''" by code_simp
  have fo: "foldM (sri_step ''C2E.EPISODE.a'') \<lparr>phase_refs = [], boundary_refs = [], lineage_refs = [], membership_refs = []\<rparr>
      example_handoff_records = Inr \<lparr>phase_refs = [], boundary_refs = [], lineage_refs = [], membership_refs = [''m2'', ''m1'']\<rparr>"
    by code_simp
  have gs: "mapM (\<lambda>k. bnd (ditem example_handoff_genesis k) (\<lambda>v. Inr (k, v)))
      [''boundary_pack_id'', ''source_release_id'', ''scope_id'', ''scale_id'', ''side''] =
      Inr [(''boundary_pack_id'', VStr ''p''), (''source_release_id'', VStr ''r''),
     (''scope_id'', VStr ''s''), (''scale_id'', VStr ''c''), (''side'', VStr ''BID'')]" by code_simp
  have items: "dget example_handoff_snapshot ''episode_id'' VNone = VStr ''C2E.EPISODE.a''"
    "ditem example_handoff_snapshot ''status'' = Inr (VStr ''ACTIVE'')" "ditem example_handoff_snapshot ''snapshot_id'' = Inr (VStr ''n'')"
    "ditem example_handoff_genesis ''episode_id'' = Inr (VStr ''C2E.EPISODE.a'')" by code_simp+
  have srt: "sort [''m2'', ''m1''] = [''m1'', ''m2'']" by code_simp
  have eq: "build_sri_handoff example_handoff_genesis example_handoff_snapshot example_handoff_records ''t'' = build_record ''sri_handoff'' ?p"
    unfolding build_sri_handoff_def key fo gs items bnd_Inr by (simp add: srt strs_list_def)
  have 1: "wf_dict ?p" by code_simp
  have 2: "\<forall>(k, v) \<in> set ?p. field_ok k v \<and> hash_ok v" by (simp add: field_ok_def SORTED_LIST_FIELDS_def)
  have 3: "\<forall>f \<in> set (required spec). present ?p f" unfolding spec(2) by code_simp
  have 4: "is_ok (kind_checks ''sri_handoff'' spec (norm_payload ?p))" unfolding spec(2) by code_simp
  show ?thesis using build_record_ok [OF spec(1) 1 2 3 4] that unfolding eq by blast
qed

theorem handoff_refers_exactly_witness:
  "\<exists>h. build_sri_handoff example_handoff_genesis example_handoff_snapshot example_handoff_records ''t'' = Inr h \<and>
    map_of h ''membership_refs'' = Some (strs_list [''m1'', ''m2''])"
proof -
  obtain h where h: "build_sri_handoff example_handoff_genesis example_handoff_snapshot example_handoff_records ''t'' = Inr h"
    using example_handoff_built .
  have e: "py_str (dget example_handoff_genesis ''episode_id'' VNone) = ''C2E.EPISODE.a''" by code_simp
  have m: "sort (refs_where (is_delta_of ''C2E.EPISODE.a'') ''membership_delta_id'' example_handoff_records) = [''m1'', ''m2'']"
  proof -
    have "refs_where (is_delta_of ''C2E.EPISODE.a'') ''membership_delta_id'' example_handoff_records = [''m2'', ''m1'']"
      by (simp add: refs_where_def example_handoff_records_def dget_def)
    moreover have "sort [''m2'', ''m1''] = [''m1'', ''m2'']" by code_simp
    ultimately show ?thesis by metis
  qed
  show ?thesis using handoff_refers_exactly [OF h] h unfolding e by (auto simp: m)
qed

theorem remap_never_a_key_witness:
  "\<exists>r. build_legacy_remap [''C2E.EP.1''] [''C2E.EPISODE.a''] ''f'' ''g'' ''ONE_TO_ONE'' ''t'' = Inr r \<and>
    assert_base_episode_key (VDict r) = Inl (Exn DownstreamBoundaryError ''C2E_REMAP_IDENTITY_USE_DENIED'')"
proof -
  let ?p = "[(''from_boundary_pack_id'', VStr ''f''), (''to_boundary_pack_id'', VStr ''g''),
       (''from_episode_ids'', strs_list (sorted_set [''C2E.EP.1''])), (''to_episode_ids'', strs_list (sorted_set [''C2E.EPISODE.a''])),
       (''mapping_type'', VStr ''ONE_TO_ONE''), (''comparison_only'', VBool True), (''first_valid_time'', VStr ''t''),
       (''authority'', VStr ''COMPARISON_ONLY'')]"
  have spec: "map_of RECORD_SPECS ''remap_record'' = Some (the (map_of RECORD_SPECS ''remap_record''))" by (simp add: RECORD_SPECS_def)
  have 1: "wf_dict ?p" by code_simp
  have 2: "\<forall>(k, v) \<in> set ?p. field_ok k v \<and> hash_ok v" by (simp add: field_ok_def SORTED_LIST_FIELDS_def strs_list_def)
  have 3: "\<forall>f \<in> set (required (the (map_of RECORD_SPECS ''remap_record''))). present ?p f" by code_simp
  have 4: "is_ok (kind_checks ''remap_record'' (the (map_of RECORD_SPECS ''remap_record'')) (norm_payload ?p))" by code_simp
  obtain r where "build_record ''remap_record'' ?p = Inr r"
    using build_record_ok [OF spec 1 2 3 4] by blast
  then have r: "build_legacy_remap [''C2E.EP.1''] [''C2E.EPISODE.a''] ''f'' ''g'' ''ONE_TO_ONE'' ''t'' = Inr r"
    by (simp add: build_legacy_remap_def)
  then show ?thesis using remap_never_a_key [OF r] by blast
qed
end
