(* ===== verification/Py_Float.thy ===== *)
theory Py_Float
  imports Py_Decimal
begin

section \<open>Floats: the quotient of two counts\<close>

text \<open>
  A float is kept as the text of its \<^verbatim>\<open>repr\<close>. The only float the modelled code computes is the
  quotient of two counts, so this theory defines that operation: \<open>float_round\<close> is the nearest
  binary fraction of 53 bits, ties to even, and \<open>float_text\<close> the shortest decimal text that rounds
  to it. The exponent range is not bounded: a quotient of counts is far from both of its ends.
\<close>

fun bit_len :: "nat \<Rightarrow> nat" where
  "bit_len n = (if n = 0 then 0 else Suc (bit_len (n div 2)))"

declare bit_len.simps [simp del]

text \<open>\<open>n / (d * 2 ^ e)\<close> rounded to an integer, ties to even.\<close>

definition scaled_round :: "nat \<Rightarrow> nat \<Rightarrow> int \<Rightarrow> nat" where
  "scaled_round n d e =
    (let num = n * 2 ^ nat (- e); den = d * 2 ^ nat e; q = num div den; r = num mod den in
     if 2 * r > den \<or> 2 * r = den \<and> odd q then q + 1 else q)"

text \<open>The mantissa, of 53 bits, and the binary exponent of the float nearest to \<open>n / d\<close>.\<close>

definition float_round :: "nat \<Rightarrow> nat \<Rightarrow> nat \<times> int" where
  "float_round n d =
    (if n = 0 then (0, 0)
     else
       let k = int (bit_len n) - int (bit_len d) - 53;
           e = (if n * 2 ^ nat (- k) \<ge> d * 2 ^ nat k * 2 ^ 53 then k + 1 else k);
           m = scaled_round n d e in
       if m = 2 ^ 53 then (2 ^ 52, e + 1) else (m, e))"

text \<open>The decimal exponent of \<open>n / d\<close>.\<close>

function small_exp :: "nat \<Rightarrow> nat \<Rightarrow> int" where
  "small_exp n d = (if n = 0 \<or> d \<le> n then 0 else small_exp (10 * n) d - 1)"
  by pat_completeness auto
termination
  by (relation "measure (\<lambda>(n, d). d - n)") auto

declare small_exp.simps [simp del]

definition dec_exp :: "nat \<Rightarrow> nat \<Rightarrow> int" where
  "dec_exp n d = (if n < d then small_exp n d else int (length (nat_str (n div d))) - 1)"

text \<open>The decimal \<open>c * 10 ^ (- s)\<close> as a fraction, and the candidates with \<open>k\<close> digits.\<close>

definition dec_frac :: "nat \<Rightarrow> int \<Rightarrow> nat \<times> nat" where
  "dec_frac c s = (c * 10 ^ nat (- s), 10 ^ nat s)"

definition short_digits :: "nat \<times> int \<Rightarrow> nat \<Rightarrow> nat option" where
  "short_digits v k =
    (let n = fst v * 2 ^ nat (snd v); d = 2 ^ nat (- snd v);
         s = int k - 1 - dec_exp n d;
         num = n * 10 ^ nat s; den = d * 10 ^ nat (- s);
         lo = num div den; r = num mod den;
         ok = (\<lambda>c. case dec_frac c s of (a, b) \<Rightarrow> float_round a b = v) in
     if ok lo \<and> (\<not> ok (lo + 1) \<or> 2 * r < den \<or> 2 * r = den \<and> even lo) then Some lo
     else if ok (lo + 1) then Some (lo + 1) else None)"

definition shortest :: "nat \<times> int \<Rightarrow> nat" where
  "shortest v = (case List.find (\<lambda>k. short_digits v k \<noteq> None) [1..<18] of
     Some k \<Rightarrow> the (short_digits v k) | None \<Rightarrow> 0)"

definition float_text :: "nat \<times> int \<Rightarrow> string" where
  "float_text v =
    (if fst v = 0 then ''0.0''
     else
       let ds = nat_str (shortest v); k = int (length ds);
           p = dec_exp (fst v * 2 ^ nat (snd v)) (2 ^ nat (- snd v)) + 1;
           x = p - 1 in
       if - 4 < p \<and> p \<le> 16 then
         (if p \<le> 0 then ''0.'' @ replicate (nat (- p)) (CHR ''0'') @ ds
          else if k \<le> p then ds @ replicate (nat (p - k)) (CHR ''0'') @ ''.0''
          else take (nat p) ds @ ''.'' @ drop (nat p) ds)
       else
         take 1 ds @ (if k = 1 then [] else ''.'' @ drop 1 ds) @ ''e'' @ (if x < 0 then ''-'' else ''+'') @
         (if \<bar>x\<bar> < 10 then ''0'' else []) @ nat_str (nat \<bar>x\<bar>))"

text \<open>\<^verbatim>\<open>m / n\<close> of two counts, as the text of the float.\<close>

definition count_ratio :: "nat \<Rightarrow> nat \<Rightarrow> string" where
  "count_ratio m n = float_text (float_round m n)"

end
