(* ===== verification/C2V_Computability.thy ===== *)
theory C2V_Computability
  imports Py_Json Py_Sha256 Py_Walk Py_Float
begin

section \<open>C2 vNext: computability and population accounting\<close>

text \<open>
  \<^verbatim>\<open>src/src/ovc/opt_b/c2_vnext/computability.py\<close>. A component is evaluated against its declared
  dependencies, a consumer policy is applied to the record, the records of a population are counted
  into numerators and denominators, and overlapping clusters of units are reported. Arguments
  annotated as text, flags, mappings or sequences have these types here; the values inside them
  are arbitrary. The lemmas show which dependencies decide the status, when a consumer is eligible and
  how the counts of a population fit together.
\<close>

definition cp_req :: "bool \<Rightarrow> string \<Rightarrow> unit result" where
  "cp_req = req ComputabilityError"

definition AUTHORITY :: string where
  "AUTHORITY = ''SHADOW_FROZEN_READ_ONLY''"

definition DEPENDENCY_GRAPH_ID :: string where
  "DEPENDENCY_GRAPH_ID = ''C2.COMPUTABILITY.DEPENDENCY.GRAPH.v1''"

definition OVERLAP_POLICY_ID :: string where
  "OVERLAP_POLICY_ID = ''C2.OVERLAP.CLAIM_SPECIFIC.v1''"

definition EDGE_TYPES :: "string list" where
  "EDGE_TYPES = [''REQUIRED'', ''OPTIONAL'', ''WARNING_ONLY'', ''ALTERNATIVE'', ''PROHIBITED'']"

definition DEPENDENCY_SUCCESS :: "string list" where
  "DEPENDENCY_SUCCESS = [''AVAILABLE'', ''COMPUTABLE'', ''ASSURED'', ''PRESENT'']"

definition PROHIBITED_FIELDS :: "string list" where
  "PROHIBITED_FIELDS =
    [''outcome'', ''profit'', ''profitability'', ''mfe'', ''mae'', ''probability'', ''risk'', ''exposure'', ''trade'', ''trading'',
     ''execution'', ''validation'', ''active_selector'', ''canonical_selector'', ''semantic_label'', ''event_promotion'',
     ''episode_promotion'']"

definition COMPARABILITY_FIELDS :: "string list" where
  "COMPARABILITY_FIELDS =
    [''unit_type'', ''scope_definition'', ''instrument_scope'', ''side_handling'', ''release_id'', ''calendar_id'',
     ''clock_and_lattice_profile'', ''dependency_graph_id'', ''consumer_policy_id'', ''eligibility_policy_version'',
     ''denominator_definition'', ''overlap_policy_id'', ''censor_conflict_treatment'']"

definition cp_canonical :: "pyval \<Rightarrow> string result" where
  "cp_canonical v = json_gen '','' '':'' True False v"

definition cp_digest :: "string \<Rightarrow> pyval \<Rightarrow> string result" where
  "cp_digest pre v = bnd (cp_canonical v) (\<lambda>b. Inr (pre @ ''.'' @ take 24 (sha256 b)))"

definition cp_scan :: "pyval \<Rightarrow> unit result" where
  "cp_scan v =
    scan_tree (\<lambda>key. py_lower key \<in> set PROHIBITED_FIELDS) (\<lambda>_. False)
      (\<lambda>p. Exn ComputabilityError (''PROHIBITED_FIELD:'' @ p)) (\<lambda>p. Exn ComputabilityError p) v ''$''"

text \<open>The identifier of a body, then the hash of the body with its identifier.\<close>

definition seal :: "string \<Rightarrow> string \<Rightarrow> pydict \<Rightarrow> pydict result" where
  "seal key pre body =
    bnd (cp_digest pre (VDict body)) (\<lambda>i.
    let body' = AList.update key (VStr i) body in
    bnd (cp_canonical (VDict body')) (\<lambda>b. Inr (AList.update ''content_sha256'' (VStr (sha256 b)) body')))"

definition str_list :: "string list \<Rightarrow> pyval" where
  "str_list xs = VList (map VStr xs)"

definition is_val :: "pydict \<Rightarrow> string \<Rightarrow> string \<Rightarrow> bool" where
  "is_val d k s \<longleftrightarrow> py_eq (dget d k VNone) (VStr s)"

text \<open>\<^verbatim>\<open>{"active": False, "canonical": False, "authority": AUTHORITY}\<close>\<close>

definition inactive :: pydict where
  "inactive = [(''active'', VBool False), (''canonical'', VBool False), (''authority'', VStr AUTHORITY)]"

subsection \<open>Components\<close>

definition dependency_status :: "pydict \<Rightarrow> string" where
  "dependency_status result' = py_upper (py_str (dget result' ''status'' (VStr ''MISSING'')))"

record component_request =
  cr_component_id :: string
  cr_profile_id :: string
  cr_unit_id :: string
  cr_as_of_time :: string
  cr_edges :: "pydict list"
  cr_results :: "(string \<times> pydict) list"
  cr_applicable :: bool
  cr_requested :: bool
  cr_censored :: bool
  cr_conflicts :: "pyval list"
  cr_assurance :: pyval
  cr_source_ids :: "pyval list"
  cr_age :: "pydict option"

record edge_scan =
  es_ids :: "string list"
  es_edges :: "pydict list"
  es_failures :: "string list"
  es_prohibited :: "string list"
  es_warnings :: "string list"
  es_groups :: "(string \<times> string list) list"
  es_success :: "(string \<times> string list) list"
  es_evidence :: "pydict list"

definition edge_scan_init :: edge_scan where
  "edge_scan_init = \<lparr>es_ids = [], es_edges = [], es_failures = [], es_prohibited = [], es_warnings = [],
     es_groups = [], es_success = [], es_evidence = []\<rparr>"

definition edge_id_of :: "pydict \<Rightarrow> string" where
  "edge_id_of edge = py_str (dget edge ''dependency_id'' (VStr []))"

definition edge_type_of :: "pydict \<Rightarrow> string" where
  "edge_type_of edge = py_upper (py_str (dget edge ''edge_type'' (VStr [])))"

definition edge_group_of :: "pydict \<Rightarrow> string" where
  "edge_group_of edge = py_str (dget edge ''group_id'' (VStr []))"

definition result_of :: "(string \<times> pydict) list \<Rightarrow> string \<Rightarrow> pydict" where
  "result_of results did = (case map_of results did of None \<Rightarrow> [(''status'', VStr ''MISSING'')] | Some r \<Rightarrow> r)"

definition dep_successful :: "string \<Rightarrow> bool" where
  "dep_successful st \<longleftrightarrow> st \<in> set DEPENDENCY_SUCCESS"

definition dep_present :: "string \<Rightarrow> bool" where
  "dep_present st \<longleftrightarrow> st \<notin> {''MISSING'', ''UNAVAILABLE'', ''NOT_COMPUTABLE'', ''NOT_APPLICABLE''}"

text \<open>\<^verbatim>\<open>groups[key].append(x)\<close> of a default dictionary of lists.\<close>

definition group_append :: "string \<Rightarrow> string \<Rightarrow> (string \<times> string list) list \<Rightarrow> (string \<times> string list) list" where
  "group_append key x groups = AList.update key ((case map_of groups key of None \<Rightarrow> [] | Some xs \<Rightarrow> xs) @ [x]) groups"

text \<open>The effect of an edge by its type.\<close>

definition edge_effect :: "string \<Rightarrow> string \<Rightarrow> string \<Rightarrow> string \<Rightarrow> edge_scan \<Rightarrow> edge_scan result" where
  "edge_effect et did gid st s =
    (if et = ''REQUIRED'' \<and> \<not> dep_successful st then Inr (s\<lparr>es_failures := es_failures s @ [did]\<rparr>)
     else if et = ''OPTIONAL'' \<and> \<not> dep_successful st then
       Inr (s\<lparr>es_warnings := es_warnings s @ [''OPTIONAL_DEPENDENCY_UNAVAILABLE:'' @ did]\<rparr>)
     else if et = ''WARNING_ONLY'' \<and> \<not> dep_successful st then
       Inr (s\<lparr>es_warnings := es_warnings s @ [''WARNING_DEPENDENCY_UNAVAILABLE:'' @ did]\<rparr>)
     else if et = ''PROHIBITED'' \<and> dep_present st then Inr (s\<lparr>es_prohibited := es_prohibited s @ [did]\<rparr>)
     else if et = ''ALTERNATIVE'' then
       bnd (cp_req (gid \<noteq> []) ''ALTERNATIVE_GROUP_ID_REQUIRED'') (\<lambda>_.
       Inr (s\<lparr>es_groups := group_append gid did (es_groups s),
              es_success := (if dep_successful st then group_append gid did (es_success s) else es_success s)\<rparr>))
     else Inr s)"

definition scan_edge :: "(string \<times> pydict) list \<Rightarrow> edge_scan \<Rightarrow> pydict \<Rightarrow> edge_scan result" where
  "scan_edge results s raw_edge =
    (let did = edge_id_of raw_edge; et = edge_type_of raw_edge in
     bnd (cp_req (did \<noteq> []) ''DEPENDENCY_ID_REQUIRED'') (\<lambda>_.
     bnd (cp_req (did \<notin> set (es_ids s)) ''DUPLICATE_DEPENDENCY_ID'') (\<lambda>_.
     bnd (cp_req (et \<in> set EDGE_TYPES) ''UNKNOWN_DEPENDENCY_EDGE_TYPE'') (\<lambda>_.
     let edge = AList.update ''edge_type'' (VStr et) (AList.update ''dependency_id'' (VStr did) raw_edge);
         st = dependency_status (result_of results did) in
     bnd (iter_of (dget (result_of results did) ''reason_codes'' (VList []))) (\<lambda>codes.
     edge_effect et did (edge_group_of edge) st
       (s\<lparr>es_ids := es_ids s @ [did], es_edges := es_edges s @ [edge],
          es_evidence := es_evidence s @ [[(''dependency_id'', VStr did), (''edge_type'', VStr et), (''status'', VStr st),
            (''reason_codes'', str_list (sorted_set (map py_str codes)))]]\<rparr>))))))"

definition unsatisfied_groups :: "edge_scan \<Rightarrow> string list" where
  "unsatisfied_groups s = sort (filter (\<lambda>g. map_of (es_success s) g \<in> {None, Some []}) (map fst (es_groups s)))"

text \<open>Availability, computability and the reasons, in the order in which the code decides.\<close>

definition disposition :: "component_request \<Rightarrow> edge_scan \<Rightarrow> string \<times> string \<times> string list" where
  "disposition r s =
    (if \<not> cr_requested r then (''NOT_REQUESTED'', ''NOT_APPLICABLE'', [''NOT_REQUESTED''])
     else if \<not> cr_applicable r then (''AVAILABLE'', ''NOT_APPLICABLE'', [''NOT_APPLICABLE''])
     else if cr_conflicts r \<noteq> [] \<or> es_prohibited s \<noteq> [] then
       (''AVAILABLE'', ''CONFLICTED'', map py_str (cr_conflicts r) @ map (\<lambda>d. ''PROHIBITED_DEPENDENCY_PRESENT:'' @ d) (es_prohibited s))
     else if cr_censored r then (''AVAILABLE'', ''CENSORED'', [''SOURCE_CENSORED''])
     else if es_failures s \<noteq> [] \<or> unsatisfied_groups s \<noteq> [] then
       (''AVAILABLE'', ''NOT_COMPUTABLE'', map (\<lambda>d. ''DEPENDENCY_NOT_COMPUTABLE:'' @ d) (sort (es_failures s)) @
          map (\<lambda>g. ''ALTERNATIVE_GROUP_UNSATISFIED:'' @ g) (unsatisfied_groups s))
     else (''AVAILABLE'', ''COMPUTABLE'', []))"

definition component_body :: "component_request \<Rightarrow> edge_scan \<Rightarrow> pydict" where
  "component_body r s =
    (case disposition r s of (availability, computability, reasons) \<Rightarrow>
     [(''schema'', VStr ''c2_computability_record/vnext-r1''), (''component_id'', VStr (cr_component_id r)),
      (''profile_id'', VStr (cr_profile_id r)), (''unit_id'', VStr (cr_unit_id r)), (''as_of_time'', VStr (cr_as_of_time r)),
      (''availability_status'', VStr availability), (''computability_status'', VStr computability),
      (''assurance_status'', VStr (py_upper (py_str (cr_assurance r)))), (''consumer_policy_id'', VNone),
      (''consumer_eligibility_status'', VStr ''NOT_EVALUATED''), (''authority_status'', VStr ''UNAUTHORIZED''),
      (''dependency_graph_id'', VStr DEPENDENCY_GRAPH_ID),
      (''dependency_edges'', VList (map VDict (sort_key (\<lambda>e. str_of (dget e ''edge_type'' VNone))
         (sort_key (\<lambda>e. str_of (dget e ''dependency_id'' VNone)) (es_edges s))))),
      (''dependency_results'', VList (map VDict (sort_key (\<lambda>e. str_of (dget e ''dependency_id'' VNone)) (es_evidence s)))),
      (''missing_dependency_ids'', str_list (sort (es_failures s))),
      (''satisfied_alternative_groups'', VDict (map (\<lambda>(k, xs). (k, str_list (sort xs)))
         (sort_key fst (filter (\<lambda>(k, xs). xs \<noteq> []) (es_success s))))),
      (''reason_codes'', str_list (sorted_set reasons)), (''warnings'', str_list (sorted_set (es_warnings s))),
      (''age_evidence'', VDict (case cr_age r of None \<Rightarrow> [] | Some a \<Rightarrow> a)),
      (''source_ids'', str_list (sorted_set (map py_str (cr_source_ids r))))] @ inactive)"

definition component_checks :: "component_request \<Rightarrow> unit result" where
  "component_checks r =
    bnd (cp_req (cr_component_id r \<noteq> []) ''COMPONENT_ID_REQUIRED'') (\<lambda>_.
    bnd (cp_req (cr_profile_id r \<noteq> []) ''PROFILE_ID_REQUIRED'') (\<lambda>_.
    bnd (cp_req (cr_unit_id r \<noteq> []) ''UNIT_ID_REQUIRED'') (\<lambda>_.
    bnd (cp_req (cr_as_of_time r \<noteq> []) ''AS_OF_TIME_REQUIRED'') (\<lambda>_.
    bnd (cp_scan (VList (map VDict (cr_edges r)))) (\<lambda>_.
    bnd (cp_scan (VDict (map (\<lambda>(k, d). (k, VDict d)) (cr_results r)))) (\<lambda>_.
    cp_scan (VDict (case cr_age r of None \<Rightarrow> [] | Some a \<Rightarrow> a))))))))"

definition evaluate_component :: "component_request \<Rightarrow> pydict result" where
  "evaluate_component r =
    bnd (component_checks r) (\<lambda>_.
    bnd (foldM (scan_edge (cr_results r)) edge_scan_init (cr_edges r)) (\<lambda>s.
    seal ''record_id'' ''C2.COMPUTABILITY'' (component_body r s)))"

subsection \<open>Consumer policies\<close>

definition policy_checks :: "pydict \<Rightarrow> unit result" where
  "policy_checks policy =
    (let policy_id = py_str (dget policy ''consumer_policy_id'' (VStr [])) in
     bnd (cp_req (policy_id \<noteq> []) ''CONSUMER_POLICY_ID_REQUIRED'') (\<lambda>_.
     bnd (cp_req (policy_id \<noteq> ''ACTIVE'') ''ACTIVE_CONSUMER_POLICY_PROHIBITED'') (\<lambda>_.
     bnd (cp_req (dget policy ''active'' VNone = VBool False) ''CONSUMER_POLICY_MUST_BE_INACTIVE'') (\<lambda>_.
     bnd (cp_req (dget policy ''canonical'' VNone = VBool False) ''CONSUMER_POLICY_MUST_BE_NONCANONICAL'') (\<lambda>_.
     bnd (cp_req (\<not> dhas policy ''numeric_staleness_threshold'') ''NUMERIC_STALENESS_THRESHOLD_PROHIBITED'') (\<lambda>_.
     cp_req (\<not> dhas policy ''freshness_threshold'') ''NUMERIC_FRESHNESS_THRESHOLD_PROHIBITED''))))))"

text \<open>The reasons against a consumer; it is eligible when there is none.\<close>

definition policy_objections :: "pydict \<Rightarrow> pydict \<Rightarrow> bool \<Rightarrow> string list result" where
  "policy_objections result' policy authorized =
    (let age = py_or (dget result' ''age_evidence'' VNone) (VDict []) in
     bnd (iter_of (dget policy ''required_age_dimensions'' (VList []))) (\<lambda>dims.
     bnd (mapM (\<lambda>dim. bnd (contains age dim) (\<lambda>b. Inr (if b then [] else [''AGE_EVIDENCE_UNAVAILABLE:'' @ dim]))) (map py_str dims)) (\<lambda>missing.
     Inr ((if is_val result' ''computability_status'' ''COMPUTABLE'' then [] else [''COMPONENT_NOT_COMPUTABLE'']) @
          (if py_bool (dget policy ''assurance_required'' (VBool False)) \<and> \<not> is_val result' ''assurance_status'' ''ASSURED''
           then [''ASSURANCE_REQUIRED''] else []) @
          concat missing @
          (if py_bool (dget policy ''staleness_policy_id'' VNone) \<and> \<not> py_bool age then [''AGE_EVIDENCE_UNAVAILABLE''] else []) @
          (if authorized then [] else [''CONSUMER_UNAUTHORIZED''])))))"

definition put_all_fields :: "pydict \<Rightarrow> pydict \<Rightarrow> pydict" where
  "put_all_fields kvs d = fold (\<lambda>(k, v) d. AList.update k v d) kvs d"

definition apply_consumer_policy :: "pydict \<Rightarrow> pydict \<Rightarrow> bool \<Rightarrow> pydict result" where
  "apply_consumer_policy record' policy authorized =
    bnd (cp_scan (VDict policy)) (\<lambda>_.
    bnd (policy_checks policy) (\<lambda>_.
    bnd (iter_of (dget record' ''reason_codes'' (VList []))) (\<lambda>codes.
    bnd (policy_objections record' policy authorized) (\<lambda>objections.
    seal ''record_id'' ''C2.CONSUMER.ELIGIBILITY''
      (AList.delete ''content_sha256'' (put_all_fields
        ([(''consumer_policy_id'', VStr (py_str (dget policy ''consumer_policy_id'' (VStr [])))),
          (''consumer_eligibility_status'', VStr (if objections = [] then ''ELIGIBLE'' else ''INELIGIBLE'')),
          (''authority_status'', VStr (if authorized then ''AUTHORIZED'' else ''UNAUTHORIZED'')),
          (''eligibility_policy_version'', VStr (py_str (dget policy ''version'' (VStr ''1'')))),
          (''staleness_policy_id'', dget policy ''staleness_policy_id'' VNone),
          (''reason_codes'', str_list (sorted_set (map py_str codes @ objections)))] @ inactive) record'))))))"

subsection \<open>Populations\<close>

definition UNIT_TYPES :: "string list" where
  "UNIT_TYPES = [''OBSERVATION'', ''TRANSITION_PAIR'', ''OBJECT_TRACK'', ''WINDOW'', ''BUNDLE'', ''RELATION'', ''DETECTOR_OUTPUT'']"

record population_scope =
  ps_scope_id :: string
  ps_scope_definition :: string
  ps_unit_type :: string
  ps_consumer_policy_id :: string
  ps_overlap_policy_id :: string
  ps_release_id :: string
  ps_calendar_id :: string
  ps_clock_profile :: string
  ps_instrument_scope :: string
  ps_side_handling :: string
  ps_treatment :: string

definition unit_key :: "pydict \<Rightarrow> string" where
  "unit_key row = py_str (dget row ''record_id'' (dget row ''unit_id'' (VStr [])))"

definition unit_label :: "pydict \<Rightarrow> string" where
  "unit_label row = py_str (dget row ''record_id'' (dget row ''unit_id'' VNone))"

definition requested_row :: "pydict \<Rightarrow> bool" where
  "requested_row row \<longleftrightarrow> \<not> is_val row ''availability_status'' ''NOT_REQUESTED''"

definition applicable_row :: "pydict \<Rightarrow> bool" where
  "applicable_row row \<longleftrightarrow> requested_row row \<and> \<not> is_val row ''computability_status'' ''NOT_APPLICABLE''"

definition eligible_row :: "pydict \<Rightarrow> bool" where
  "eligible_row row \<longleftrightarrow> is_val row ''consumer_eligibility_status'' ''ELIGIBLE''"

definition numerator_row :: "pydict \<Rightarrow> bool" where
  "numerator_row row \<longleftrightarrow> py_bool (dget row ''numerator_member'' (VBool False))"

definition count_rows :: "(pydict \<Rightarrow> bool) \<Rightarrow> pydict list \<Rightarrow> nat" where
  "count_rows P rows = length (filter P rows)"

definition disposition_count :: "string \<Rightarrow> pydict list \<Rightarrow> nat" where
  "disposition_count st rows = count_rows (\<lambda>r. is_val r ''computability_status'' st) (filter applicable_row rows)"

text \<open>The counts, with the rows of the denominator and of the numerator.\<close>

definition population_counts :: "pydict list \<Rightarrow> pydict list \<Rightarrow> pydict list \<Rightarrow> (string \<times> nat) list" where
  "population_counts rows included numerator =
    [(''population_count'', length rows),
     (''requested_count'', count_rows requested_row rows),
     (''not_requested_count'', length rows - count_rows requested_row rows),
     (''applicable_count'', count_rows applicable_row rows),
     (''not_applicable_count'', count_rows (\<lambda>r. is_val r ''computability_status'' ''NOT_APPLICABLE'' \<and> requested_row r) rows),
     (''available_count'', count_rows (\<lambda>r. is_val r ''availability_status'' ''AVAILABLE'') rows),
     (''computable_count'', disposition_count ''COMPUTABLE'' rows),
     (''not_computable_count'', disposition_count ''NOT_COMPUTABLE'' rows),
     (''censored_count'', disposition_count ''CENSORED'' rows),
     (''conflicted_count'', disposition_count ''CONFLICTED'' rows),
     (''assured_count'', count_rows (\<lambda>r. is_val r ''assurance_status'' ''ASSURED'') rows),
     (''eligible_count'', count_rows eligible_row rows),
     (''included_count'', length included),
     (''numerator_count'', length numerator),
     (''denominator_count'', length included)]"

definition count_of :: "(string \<times> nat) list \<Rightarrow> string \<Rightarrow> nat" where
  "count_of counts k = (case map_of counts k of Some n \<Rightarrow> n | None \<Rightarrow> 0)"

definition partition_checks :: "(string \<times> nat) list \<Rightarrow> (string \<times> bool) list" where
  "partition_checks c =
    [(''population_equals_requested_plus_not_requested'',
        count_of c ''population_count'' = count_of c ''requested_count'' + count_of c ''not_requested_count''),
     (''requested_equals_applicable_plus_not_applicable'',
        count_of c ''requested_count'' = count_of c ''applicable_count'' + count_of c ''not_applicable_count''),
     (''applicable_equals_terminal_dispositions'',
        count_of c ''applicable_count'' = count_of c ''computable_count'' + count_of c ''not_computable_count'' +
          count_of c ''censored_count'' + count_of c ''conflicted_count''),
     (''eligible_lte_computable'', count_of c ''eligible_count'' \<le> count_of c ''computable_count''),
     (''included_lte_eligible'', count_of c ''included_count'' \<le> count_of c ''eligible_count''),
     (''numerator_lte_denominator'', count_of c ''numerator_count'' \<le> count_of c ''denominator_count'')]"

definition scope_checks :: "population_scope \<Rightarrow> unit result" where
  "scope_checks sc =
    bnd (cp_req (ps_scope_id sc \<noteq> []) ''SCOPE_ID_REQUIRED'') (\<lambda>_.
    bnd (cp_req (ps_scope_definition sc \<noteq> []) ''SCOPE_DEFINITION_REQUIRED'') (\<lambda>_.
    bnd (cp_req (ps_unit_type sc \<in> set UNIT_TYPES) ''UNSUPPORTED_UNIT_TYPE'') (\<lambda>_.
    bnd (cp_req (ps_consumer_policy_id sc \<noteq> []) ''CONSUMER_POLICY_ID_REQUIRED'') (\<lambda>_.
    cp_req (ps_overlap_policy_id sc \<noteq> []) ''OVERLAP_POLICY_ID_REQUIRED''))))"

definition denominator_body :: "population_scope \<Rightarrow> pydict list \<Rightarrow> pydict list \<Rightarrow> pydict list \<Rightarrow> (string \<times> nat) list \<Rightarrow> pydict" where
  "denominator_body sc rows included numerator counts =
    [(''schema'', VStr ''c2_denominator_record/vnext-r1''), (''scope_id'', VStr (ps_scope_id sc)),
     (''scope_definition'', VStr (ps_scope_definition sc)), (''unit_type'', VStr (ps_unit_type sc)),
     (''consumer_policy_id'', VStr (ps_consumer_policy_id sc)), (''dependency_graph_id'', VStr DEPENDENCY_GRAPH_ID),
     (''eligibility_policy_version'', VStr ''1''), (''denominator_definition'', VStr ''EXACT_CONSUMER_ELIGIBLE_INCLUDED_UNITS''),
     (''numerator_definition'', VStr ''EXACT_INCLUDED_UNITS_MATCHING_DECLARED_NUMERATOR_SELECTOR''),
     (''overlap_policy_id'', VStr (ps_overlap_policy_id sc)), (''censor_conflict_treatment'', VStr (ps_treatment sc)),
     (''instrument_scope'', VStr (ps_instrument_scope sc)), (''side_handling'', VStr (ps_side_handling sc)),
     (''release_id'', VStr (ps_release_id sc)), (''calendar_id'', VStr (ps_calendar_id sc)),
     (''clock_and_lattice_profile'', VStr (ps_clock_profile sc)),
     (''counts'', VDict (map (\<lambda>(k, n). (k, VInt (int n))) counts)),
     (''population_unit_ids'', str_list (sort (map unit_key rows))),
     (''included_unit_ids'', str_list (sort (map unit_label included))),
     (''numerator_unit_ids'', str_list (sort (map unit_label numerator))),
     (''partition_checks'', VDict (map (\<lambda>(k, b). (k, VBool b)) (partition_checks counts))),
     (''rate'', if length included = 0 then VNone else VFloat (count_ratio (length numerator) (length included))),
     (''raw_counts_separate_from_rate'', VBool True)] @ inactive"

definition build_denominator_record ::
  "population_scope \<Rightarrow> (pydict \<Rightarrow> bool) option \<Rightarrow> (pydict \<Rightarrow> bool) option \<Rightarrow> pydict list \<Rightarrow> pydict result" where
  "build_denominator_record sc numerator_selector denominator_selector rows =
    (let ids = map unit_key rows;
         included = filter (case denominator_selector of None \<Rightarrow> eligible_row | Some f \<Rightarrow> f) rows;
         numerator = filter (case numerator_selector of None \<Rightarrow> numerator_row | Some f \<Rightarrow> f) included;
         counts = population_counts rows included numerator in
     bnd (scope_checks sc) (\<lambda>_.
     bnd (cp_req (list_all (\<lambda>i. i \<noteq> []) ids) ''RECORD_OR_UNIT_ID_REQUIRED'') (\<lambda>_.
     bnd (cp_req (distinct ids) ''DUPLICATE_POPULATION_UNIT'') (\<lambda>_.
     bnd (cp_req (count_of counts ''applicable_count'' = count_of counts ''computable_count'' + count_of counts ''not_computable_count'' +
       count_of counts ''censored_count'' + count_of counts ''conflicted_count'') ''TERMINAL_DISPOSITION_PARTITION_MISMATCH'') (\<lambda>_.
     bnd (cp_req (count_of counts ''eligible_count'' \<le> count_of counts ''computable_count'') ''ELIGIBLE_EXCEEDS_COMPUTABLE'') (\<lambda>_.
     bnd (cp_req (length included \<le> count_of counts ''eligible_count'') ''INCLUDED_EXCEEDS_ELIGIBLE'') (\<lambda>_.
     bnd (cp_req (length numerator \<le> length included) ''NUMERATOR_EXCEEDS_DENOMINATOR'') (\<lambda>_.
     bnd (cp_req (list_all snd (partition_checks counts)) ''DENOMINATOR_RECONCILIATION_FAILED'') (\<lambda>_.
     seal ''denominator_record_id'' ''C2.DENOMINATOR'' (denominator_body sc rows included numerator counts))))))))))"

subsection \<open>Overlaps, comparisons and the legacy projection\<close>

definition CLUSTER_TYPES :: "string list" where
  "CLUSTER_TYPES = [''SHARED_OBSERVATION'', ''SHARED_WINDOW'', ''SHARED_OBJECT_TRACK'', ''SHARED_BUNDLE'', ''BID_ASK_PAIR'', ''SHARED_EPISODE'']"

record overlap_claim =
  oc_claim_id :: string
  oc_unit_type :: string
  oc_cluster_policy_id :: string

type_synonym cluster = "string \<times> string \<times> string list"

text \<open>A cluster as its identifier, its type and its members; \<open>seen\<close> are the clusters before it.\<close>

definition cluster_of :: "string list \<Rightarrow> cluster list \<Rightarrow> pydict \<Rightarrow> cluster list result" where
  "cluster_of raw seen d =
    (let cid = py_str (dget d ''cluster_id'' (VStr [])); ct = py_str (dget d ''cluster_type'' (VStr [])) in
     bnd (iter_of (dget d ''member_unit_ids'' (VList []))) (\<lambda>items.
     let members = sorted_set (map py_str items) in
     bnd (cp_req (cid \<noteq> []) ''CLUSTER_ID_REQUIRED'') (\<lambda>_.
     bnd (cp_req (cid \<notin> set (map fst seen)) ''DUPLICATE_CLUSTER_ID'') (\<lambda>_.
     bnd (cp_req (ct \<in> set CLUSTER_TYPES) ''UNKNOWN_CLUSTER_TYPE'') (\<lambda>_.
     bnd (cp_req (members \<noteq> []) ''EMPTY_CLUSTER_PROHIBITED'') (\<lambda>_.
     bnd (cp_req (set members \<subseteq> set raw) ''CLUSTER_MEMBER_OUTSIDE_RAW_POPULATION'') (\<lambda>_.
     bnd (if ct = ''SHARED_EPISODE'' then cp_req (is_val d ''episode_authority'' ''SEPARATELY_AUTHORIZED'') ''SHARED_EPISODE_AUTHORITY_REQUIRED''
          else Inr ()) (\<lambda>_.
     Inr (seen @ [(cid, ct, members)])))))))))"

definition membership_list :: "cluster list \<Rightarrow> string list" where
  "membership_list clusters = concat (map (\<lambda>(cid, ct, ms). ms) clusters)"

definition cluster_val :: "overlap_claim \<Rightarrow> cluster \<Rightarrow> pyval" where
  "cluster_val oc = (\<lambda>(cid, ct, ms). VDict
     [(''cluster_id'', VStr cid), (''cluster_type'', VStr ct), (''member_unit_ids'', str_list ms),
      (''claim_id'', VStr (oc_claim_id oc)), (''unit_type'', VStr (oc_unit_type oc)),
      (''cluster_policy_id'', VStr (oc_cluster_policy_id oc))])"

definition overlap_body :: "overlap_claim \<Rightarrow> string list \<Rightarrow> cluster list \<Rightarrow> pydict" where
  "overlap_body oc raw clusters =
    (let ms = membership_list clusters in
     [(''schema'', VStr ''c2_overlap_report/vnext-r1''), (''claim_id'', VStr (oc_claim_id oc)), (''unit_type'', VStr (oc_unit_type oc)),
      (''cluster_policy_id'', VStr (oc_cluster_policy_id oc)), (''raw_unit_ids'', str_list (sort raw)),
      (''raw_unit_count'', VInt (int (length raw))), (''cluster_count'', VInt (int (length clusters))),
      (''clustered_unique_unit_count'', VInt (int (length (remdups ms)))),
      (''unclustered_unit_ids'', str_list (sorted_set (filter (\<lambda>u. u \<notin> set ms) raw))),
      (''multi_cluster_unit_ids'', str_list (sort (filter (\<lambda>u. count_list ms u > 1) (remdups ms)))),
      (''clusters'', VList (map (cluster_val oc) (sort_key fst clusters))),
      (''canonical_weighting_selected'', VBool False), (''canonical_deduplication_selected'', VBool False),
      (''numeric_adjustment_selected'', VBool False), (''raw_population_mutated'', VBool False)] @ inactive)"

definition build_overlap_report :: "overlap_claim \<Rightarrow> pyval list \<Rightarrow> pydict list \<Rightarrow> pydict result" where
  "build_overlap_report oc raw_unit_ids clusters =
    (let raw = map py_str raw_unit_ids in
     bnd (cp_req (oc_claim_id oc \<noteq> []) ''CLAIM_ID_REQUIRED'') (\<lambda>_.
     bnd (cp_req (oc_cluster_policy_id oc \<noteq> []) ''CLUSTER_POLICY_ID_REQUIRED'') (\<lambda>_.
     bnd (cp_req (list_all (\<lambda>u. u \<noteq> []) raw) ''RAW_UNIT_ID_REQUIRED'') (\<lambda>_.
     bnd (cp_req (distinct raw) ''DUPLICATE_RAW_UNIT_ID'') (\<lambda>_.
     bnd (foldM (cluster_of raw) [] clusters) (\<lambda>normalized.
     seal ''overlap_report_id'' ''C2.OVERLAP'' (overlap_body oc raw normalized)))))))"

definition mismatch_fields :: "pydict \<Rightarrow> pydict \<Rightarrow> string list" where
  "mismatch_fields l r = filter (\<lambda>f. \<not> py_eq (dget l f VNone) (dget r f VNone)) COMPARABILITY_FIELDS"

definition compare_population_records :: "pydict \<Rightarrow> pydict \<Rightarrow> pydict result" where
  "compare_population_records l r =
    (let mismatches = mismatch_fields l r in
     seal ''comparison_id'' ''C2.POPULATION.COMPARISON''
      ([(''schema'', VStr ''c2_population_comparison/vnext-r1''), (''left_id'', dget l ''denominator_record_id'' VNone),
        (''right_id'', dget r ''denominator_record_id'' VNone),
        (''status'', VStr (if mismatches = [] then ''COMPARABLE'' else ''NOT_COMPARABLE'')),
        (''mismatch_fields'', str_list (sort mismatches)),
        (''reason_codes'', str_list (sort (map (\<lambda>f. ''POLICY_OR_UNIT_MISMATCH:'' @ f) mismatches)))] @ inactive))"

definition project_legacy_quality :: "pydict list \<Rightarrow> pydict result" where
  "project_legacy_quality rows =
    (let statuses = map (\<lambda>d. py_str (dget d ''computability_status'' (VStr ''UNKNOWN''))) rows in
     bnd (mapM (\<lambda>d. iter_of (dget d ''reason_codes'' (VList []))) rows) (\<lambda>codes.
     seal ''projection_id'' ''C2.LEGACY.QUALITY''
      ([(''schema'', VStr ''c2_legacy_quality_compatibility_projection/vnext-r1''),
        (''source_record_ids'', str_list (sort (map (\<lambda>d. py_str (dget d ''record_id'' (VStr []))) rows))),
        (''component_status_counts'', VDict (map (\<lambda>st. (st, VInt (int (count_list statuses st)))) (sorted_set statuses))),
        (''source_reason_codes'', str_list (sorted_set (map py_str (concat codes)))), (''global_quality_status'', VNone),
        (''governing'', VBool False), (''may_drive_eligibility'', VBool False), (''may_drive_denominator_inclusion'', VBool False),
        (''may_hide_component_status'', VBool False)] @ inactive)))"

subsection \<open>Sealed bodies\<close>

definition printable :: "pyval \<Rightarrow> bool" where
  "printable v \<longleftrightarrow> is_ok (cp_canonical v)"

lemma printable_simps [simp]:
  "printable VNone" "printable (VBool b)" "printable (VInt i)" "printable (VStr s)" "printable (VFloat t)"
  "printable (VList xs) \<longleftrightarrow> (\<forall>x \<in> set xs. printable x)"
  "printable (VDict kvs) \<longleftrightarrow> (\<forall>(k, v) \<in> set kvs. printable v)"
  by (auto simp: printable_def cp_canonical_def case_prod_unfold)

lemma printable_str_list [simp]: "printable (str_list xs)"
  by (auto simp: str_list_def)

lemma printable_inactive: "(k, v) \<in> set inactive \<Longrightarrow> printable v"
  by (auto simp: inactive_def)

lemma seal_Inr:
  assumes "seal key pre body = Inr out"
  obtains i h where "out = AList.update ''content_sha256'' (VStr h) (AList.update key (VStr i) body)"
  using assms unfolding seal_def Let_def by (elim bndE) (drule sym, simp)

lemma seal_field:
  "seal key pre body = Inr out \<Longrightarrow> f \<noteq> key \<Longrightarrow> f \<noteq> ''content_sha256'' \<Longrightarrow> map_of out f = map_of body f"
  by (elim seal_Inr) (simp add: map_of_update)

lemma printable_update: "printable (VDict d) \<Longrightarrow> printable v \<Longrightarrow> printable (VDict (AList.update k v d))"
  using set_update_subset [of k v d] by auto

lemma seal_ok:
  assumes "\<forall>(k, v) \<in> set body. printable v"
  shows "is_ok (seal key pre body)"
proof -
  have 1: "is_ok (cp_canonical (VDict body))" using assms by (simp add: printable_def [symmetric])
  have "printable (VDict (AList.update key (VStr i) body))" for i using assms by (intro printable_update) simp_all
  then have 2: "is_ok (cp_canonical (VDict (AList.update key (VStr i) body)))" for i by (simp only: printable_def [symmetric])
  show ?thesis unfolding seal_def cp_digest_def Let_def using 1 2 by simp
qed

subsection \<open>Which dependencies decide the status\<close>

definition edge_status :: "component_request \<Rightarrow> pydict \<Rightarrow> string" where
  "edge_status r e = dependency_status (result_of (cr_results r) (edge_id_of e))"

definition component_status :: "component_request \<Rightarrow> string" where
  "component_status r =
    (if \<not> cr_requested r \<or> \<not> cr_applicable r then ''NOT_APPLICABLE''
     else if cr_conflicts r \<noteq> [] \<or> (\<exists>e \<in> set (cr_edges r). edge_type_of e = ''PROHIBITED'' \<and> dep_present (edge_status r e))
       then ''CONFLICTED''
     else if cr_censored r then ''CENSORED''
     else if (\<exists>e \<in> set (cr_edges r). edge_type_of e = ''REQUIRED'' \<and> \<not> dep_successful (edge_status r e)) \<or>
       (\<exists>e \<in> set (cr_edges r). edge_type_of e = ''ALTERNATIVE'' \<and>
         \<not> (\<exists>e' \<in> set (cr_edges r). edge_type_of e' = ''ALTERNATIVE'' \<and> edge_group_of e' = edge_group_of e \<and>
           dep_successful (edge_status r e')))
       then ''NOT_COMPUTABLE''
     else ''COMPUTABLE'')"

text \<open>What the scan has recorded of the edges it has seen.\<close>

definition scanned :: "component_request \<Rightarrow> pydict list \<Rightarrow> edge_scan \<Rightarrow> bool" where
  "scanned r es s \<longleftrightarrow>
    set (es_failures s) = edge_id_of ` {e \<in> set es. edge_type_of e = ''REQUIRED'' \<and> \<not> dep_successful (edge_status r e)} \<and>
    set (es_prohibited s) = edge_id_of ` {e \<in> set es. edge_type_of e = ''PROHIBITED'' \<and> dep_present (edge_status r e)} \<and>
    fst ` set (es_groups s) = edge_group_of ` {e \<in> set es. edge_type_of e = ''ALTERNATIVE''} \<and>
    fst ` set (es_success s) = edge_group_of ` {e \<in> set es. edge_type_of e = ''ALTERNATIVE'' \<and> dep_successful (edge_status r e)} \<and>
    (\<forall>g. map_of (es_success s) g \<noteq> Some [])"

lemma keys_group_append: "fst ` set (group_append g x groups) = insert g (fst ` set groups)"
  by (simp add: group_append_def dom_update)

lemma map_of_group_append: "map_of (group_append g x groups) h \<noteq> Some [] \<longleftrightarrow> h = g \<or> map_of groups h \<noteq> Some []"
  by (simp add: group_append_def map_of_update)

lemma group_of_updated: "edge_group_of (AList.update ''edge_type'' a (AList.update ''dependency_id'' b e)) = edge_group_of e"
  by (simp add: edge_group_of_def dget_def map_of_update)

lemma edge_cases:
  assumes "et \<in> set EDGE_TYPES"
  obtains "et = ''REQUIRED''" | "et = ''OPTIONAL''" | "et = ''WARNING_ONLY''" | "et = ''ALTERNATIVE''" | "et = ''PROHIBITED''"
proof -
  from assms have "et = ''REQUIRED'' \<or> et = ''OPTIONAL'' \<or> et = ''WARNING_ONLY'' \<or> et = ''ALTERNATIVE'' \<or> et = ''PROHIBITED''"
    by (simp add: EDGE_TYPES_def)
  then show ?thesis by (elim disjE) (erule that)+
qed

lemma insert_image_if: "f ` {x. (x = e \<or> x \<in> A) \<and> P x} = (if P e then insert (f e) else id) (f ` {x \<in> A. P x})"
  by auto

lemma scan_edge_step:
  assumes "scanned r es s" and "scan_edge (cr_results r) s e = Inr s'"
  shows "scanned r (es @ [e]) s'"
proof -
  obtain s0 where et: "edge_type_of e \<in> set EDGE_TYPES"
    and s0: "es_failures s0 = es_failures s" "es_prohibited s0 = es_prohibited s" "es_groups s0 = es_groups s" "es_success s0 = es_success s"
    and ef: "edge_effect (edge_type_of e) (edge_id_of e) (edge_group_of e) (edge_status r e) s0 = Inr s'"
    using assms(2) unfolding scan_edge_def Let_def group_of_updated
  proof (elim bndE, goal_cases)
    case (1 u1 u2 u3 codes)
    show ?case by (rule 1(1) [OF _ _ _ _ _ 1(6) [folded edge_status_def]]) (use 1(4) in \<open>simp_all add: cp_req_def req_eq_Inr\<close>)
  qed
  note sc = assms(1) [unfolded scanned_def]
  show ?thesis using et
  proof (cases rule: edge_cases)
    case 1
    then have "s' = (if dep_successful (edge_status r e) then s0 else s0\<lparr>es_failures := es_failures s0 @ [edge_id_of e]\<rparr>)"
      using ef by (simp add: edge_effect_def split: if_splits)
    then show ?thesis using 1 sc unfolding scanned_def by (simp add: s0 insert_image_if conj_commute)
  next
    case 2
    then have "es_failures s' = es_failures s0 \<and> es_prohibited s' = es_prohibited s0 \<and> es_groups s' = es_groups s0 \<and> es_success s' = es_success s0"
      using ef by (auto simp: edge_effect_def split: if_splits)
    then show ?thesis using 2 sc unfolding scanned_def by (simp add: s0 insert_image_if)
  next
    case 3
    then have "es_failures s' = es_failures s0 \<and> es_prohibited s' = es_prohibited s0 \<and> es_groups s' = es_groups s0 \<and> es_success s' = es_success s0"
      using ef by (auto simp: edge_effect_def split: if_splits)
    then show ?thesis using 3 sc unfolding scanned_def by (simp add: s0 insert_image_if)
  next
    case 4
    then have "s' = s0\<lparr>es_groups := group_append (edge_group_of e) (edge_id_of e) (es_groups s0),
        es_success := (if dep_successful (edge_status r e) then group_append (edge_group_of e) (edge_id_of e) (es_success s0) else es_success s0)\<rparr>"
      using ef by (auto simp: edge_effect_def bnd_eq_Inr cp_req_def)
    then show ?thesis using 4 sc unfolding scanned_def by (simp add: s0 insert_image_if keys_group_append map_of_group_append)
  next
    case 5
    then have "s' = (if dep_present (edge_status r e) then s0\<lparr>es_prohibited := es_prohibited s0 @ [edge_id_of e]\<rparr> else s0)"
      using ef by (simp add: edge_effect_def split: if_splits)
    then show ?thesis using 5 sc unfolding scanned_def by (simp add: s0 insert_image_if)
  qed
qed

lemma scan_edges: "foldM (scan_edge (cr_results r)) edge_scan_init es = Inr s \<Longrightarrow> scanned r es s"
proof (induction es arbitrary: s rule: rev_induct)
  case Nil
  then show ?case by (auto simp: scanned_def edge_scan_init_def)
next
  case (snoc e es)
  then obtain s1 where "foldM (scan_edge (cr_results r)) edge_scan_init es = Inr s1" "scan_edge (cr_results r) s1 e = Inr s"
    by (auto simp: foldM_snoc bnd_eq_Inr)
  then show ?case using snoc.IH scan_edge_step by blast
qed

lemma image_nonempty: "set xs = f ` {e \<in> A. P e} \<Longrightarrow> xs \<noteq> [] \<longleftrightarrow> (\<exists>e \<in> A. P e)"
  by (cases xs) auto

lemma image_collect: "{g \<in> f ` A. P g} = f ` {e \<in> A. P (f e)}"
  by auto

lemma status_if:
  "fst (snd (if \<not> a then (x1, n, y1) else if \<not> b then (x2, n, y2) else if c \<or> p then (x3, k, y3)
      else if d then (x4, l, y4) else if f \<or> u then (x5, m, y5) else (x6, z, y6))) =
    (if \<not> a \<or> \<not> b then n else if c \<or> p then k else if d then l else if f \<or> u then m else z)"
  by simp

lemma scanned_disposition:
  assumes "scanned r (cr_edges r) s"
  shows "fst (snd (disposition r s)) = component_status r"
proof -
  note sc = assms [unfolded scanned_def]
  let ?alt = "{e \<in> set (cr_edges r). edge_type_of e = ''ALTERNATIVE''}"
  have f: "es_failures s \<noteq> [] \<longleftrightarrow> (\<exists>e \<in> set (cr_edges r). edge_type_of e = ''REQUIRED'' \<and> \<not> dep_successful (edge_status r e))"
    by (rule image_nonempty [OF conjunct1 [OF sc]])
  have p: "es_prohibited s \<noteq> [] \<longleftrightarrow> (\<exists>e \<in> set (cr_edges r). edge_type_of e = ''PROHIBITED'' \<and> dep_present (edge_status r e))"
    by (rule image_nonempty [OF conjunct1 [OF conjunct2 [OF sc]]])
  have m: "map_of (es_success s) g \<in> {None, Some []} \<longleftrightarrow> \<not> (\<exists>e \<in> ?alt. edge_group_of e = g \<and> dep_successful (edge_status r e))" for g
  proof -
    have "map_of (es_success s) g \<in> {None, Some []} \<longleftrightarrow> g \<notin> fst ` set (es_success s)"
      using sc by (simp add: map_of_eq_None_iff)
    also have "\<dots> \<longleftrightarrow> g \<notin> edge_group_of ` {e \<in> set (cr_edges r). edge_type_of e = ''ALTERNATIVE'' \<and> dep_successful (edge_status r e)}"
      using sc by simp
    finally show ?thesis by blast
  qed
  have "set (unsatisfied_groups s) = {g \<in> edge_group_of ` ?alt. map_of (es_success s) g \<in> {None, Some []}}"
    using sc by (auto simp: unsatisfied_groups_def)
  then have us: "set (unsatisfied_groups s) = edge_group_of ` {e \<in> ?alt.
      \<not> (\<exists>e' \<in> ?alt. edge_group_of e' = edge_group_of e \<and> dep_successful (edge_status r e'))}"
    unfolding m by (rule trans) (rule image_collect)
  have "unsatisfied_groups s \<noteq> [] \<longleftrightarrow> (\<exists>e \<in> ?alt. \<not> (\<exists>e' \<in> ?alt. edge_group_of e' = edge_group_of e \<and> dep_successful (edge_status r e')))"
    by (rule image_nonempty [OF us])
  then have u: "unsatisfied_groups s \<noteq> [] \<longleftrightarrow> (\<exists>e \<in> set (cr_edges r). edge_type_of e = ''ALTERNATIVE'' \<and>
      \<not> (\<exists>e' \<in> set (cr_edges r). edge_type_of e' = ''ALTERNATIVE'' \<and> edge_group_of e' = edge_group_of e \<and> dep_successful (edge_status r e')))"
    by blast
  show ?thesis unfolding disposition_def component_status_def f p u by (rule status_if)
qed

lemma evaluate_component_Inr:
  assumes "evaluate_component r = Inr body"
  obtains s where "foldM (scan_edge (cr_results r)) edge_scan_init (cr_edges r) = Inr s"
    "seal ''record_id'' ''C2.COMPUTABILITY'' (component_body r s) = Inr body"
  using assms unfolding evaluate_component_def by (elim bndE) simp


subsection \<open>Who may consume a component\<close>

lemma put_all_fields_other: "f \<notin> fst ` set kvs \<Longrightarrow> map_of (put_all_fields kvs d) f = map_of d f"
  unfolding put_all_fields_def by (induction kvs arbitrary: d) (auto simp: map_of_update)

lemma put_all_fields_last:
  "distinct (map fst kvs) \<Longrightarrow> (f, v) \<in> set kvs \<Longrightarrow> map_of (put_all_fields kvs d) f = Some v"
proof (induction kvs arbitrary: d)
  case (Cons kv kvs)
  obtain k w where kv: "kv = (k, w)" by (cases kv)
  show ?case
  proof (cases "(f, v) = (k, w)")
    case True
    then have "map_of (put_all_fields kvs (AList.update k w d)) f = map_of (AList.update k w d) f"
      using Cons.prems(1) kv by (intro put_all_fields_other) auto
    then show ?thesis using True kv by (simp add: put_all_fields_def map_of_update)
  next
    case False
    then show ?thesis using Cons kv by (auto simp: put_all_fields_def)
  qed
qed simp

text \<open>The consumer conditions of a policy on a record.\<close>

definition consumable :: "pydict \<Rightarrow> pydict \<Rightarrow> bool \<Rightarrow> bool" where
  "consumable rec policy authorized \<longleftrightarrow>
    authorized \<and> is_val rec ''computability_status'' ''COMPUTABLE'' \<and>
    (py_bool (dget policy ''assurance_required'' (VBool False)) \<longrightarrow> is_val rec ''assurance_status'' ''ASSURED'') \<and>
    (\<forall>dims. iter_of (dget policy ''required_age_dimensions'' (VList [])) = Inr dims \<longrightarrow>
      (\<forall>dim \<in> set dims. contains (py_or (dget rec ''age_evidence'' VNone) (VDict [])) (py_str dim) = Inr True)) \<and>
    (py_bool (dget policy ''staleness_policy_id'' VNone) \<longrightarrow> py_bool (py_or (dget rec ''age_evidence'' VNone) (VDict [])))"

lemma objections_none:
  assumes "policy_objections rec policy authorized = Inr objections"
  shows "objections = [] \<longleftrightarrow> consumable rec policy authorized"
proof -
  let ?age = "py_or (dget rec ''age_evidence'' VNone) (VDict [])"
  obtain dims missing where d: "iter_of (dget policy ''required_age_dimensions'' (VList [])) = Inr dims"
    and m: "mapM (\<lambda>dim. bnd (contains ?age dim) (\<lambda>b. Inr (if b then [] else [''AGE_EVIDENCE_UNAVAILABLE:'' @ dim]))) (map py_str dims) = Inr missing"
    and o: "objections = (if is_val rec ''computability_status'' ''COMPUTABLE'' then [] else [''COMPONENT_NOT_COMPUTABLE'']) @
          (if py_bool (dget policy ''assurance_required'' (VBool False)) \<and> \<not> is_val rec ''assurance_status'' ''ASSURED''
           then [''ASSURANCE_REQUIRED''] else []) @ concat missing @
          (if py_bool (dget policy ''staleness_policy_id'' VNone) \<and> \<not> py_bool ?age then [''AGE_EVIDENCE_UNAVAILABLE''] else []) @
          (if authorized then [] else [''CONSUMER_UNAUTHORIZED''])"
    using assms unfolding policy_objections_def Let_def
  proof (elim bndE, goal_cases)
    case (1 dims missing)
    show ?case by (rule 1(1) [OF 1(2) 1(3) 1(4) [unfolded sum.inject, symmetric]])
  qed
  have "concat missing = [] \<longleftrightarrow> (\<forall>dim \<in> set dims. contains ?age (py_str dim) = Inr True)"
    using m
  proof (induction dims arbitrary: missing)
    case Nil
    then show ?case by simp
  next
    case (Cons dim dims)
    then obtain b rest where b: "contains ?age (py_str dim) = Inr b" and missing: "missing = (if b then [] else [''AGE_EVIDENCE_UNAVAILABLE:'' @ py_str dim]) # rest"
      and r: "mapM (\<lambda>dim. bnd (contains ?age dim) (\<lambda>b. Inr (if b then [] else [''AGE_EVIDENCE_UNAVAILABLE:'' @ dim]))) (map py_str dims) = Inr rest"
      by (auto simp: bnd_eq_Inr)
    show ?case using Cons.IH [OF r] b by (cases b) (simp_all add: missing)
  qed
  then show ?thesis using d unfolding o consumable_def by (auto split: if_splits)
qed

text \<open>C13: who may consume a component. After a policy is applied the consumer is ELIGIBLE exactly when it is
  authorized, the component is COMPUTABLE, assured where the policy asks for it, and has the age
  evidence the policy asks for; the policy is an inactive one without a numeric threshold, and the
  result stays inactive and non-canonical, authorized only by the caller.\<close>

theorem consumer_eligibility_exact:
  assumes "apply_consumer_policy rec policy authorized = Inr out"
  shows "map_of out ''consumer_eligibility_status'' = Some (VStr (if consumable rec policy authorized then ''ELIGIBLE'' else ''INELIGIBLE'')) \<and>
    map_of out ''authority_status'' = Some (VStr (if authorized then ''AUTHORIZED'' else ''UNAUTHORIZED'')) \<and>
    map_of out ''active'' = Some (VBool False) \<and> map_of out ''canonical'' = Some (VBool False) \<and>
    dget policy ''active'' VNone = VBool False \<and> dget policy ''canonical'' VNone = VBool False \<and>
    \<not> dhas policy ''numeric_staleness_threshold'' \<and> \<not> dhas policy ''freshness_threshold''"
proof -
  obtain codes objections where pc: "policy_checks policy = Inr ()"
    and ob: "policy_objections rec policy authorized = Inr objections"
    and se: "seal ''record_id'' ''C2.CONSUMER.ELIGIBILITY''
      (AList.delete ''content_sha256'' (put_all_fields
        ([(''consumer_policy_id'', VStr (py_str (dget policy ''consumer_policy_id'' (VStr [])))),
          (''consumer_eligibility_status'', VStr (if objections = [] then ''ELIGIBLE'' else ''INELIGIBLE'')),
          (''authority_status'', VStr (if authorized then ''AUTHORIZED'' else ''UNAUTHORIZED'')),
          (''eligibility_policy_version'', VStr (py_str (dget policy ''version'' (VStr ''1'')))),
          (''staleness_policy_id'', dget policy ''staleness_policy_id'' VNone),
          (''reason_codes'', str_list (sorted_set (map py_str codes @ objections)))] @ inactive) rec)) = Inr out"
    (is "seal _ _ (AList.delete _ (put_all_fields ?kvs rec)) = _")
    using assms unfolding apply_consumer_policy_def by (elim bndE) auto
  have d: "distinct (map fst ?kvs)" by (simp add: inactive_def)
  have f: "map_of out k = Some v" if "(k, v) \<in> set ?kvs" "k \<noteq> ''record_id''" "k \<noteq> ''content_sha256''" for k v
    using seal_field [OF se that(2,3)] put_all_fields_last [OF d that(1)] that(3) by (simp add: map_of_delete)
  have p: "dget policy ''active'' VNone = VBool False" "dget policy ''canonical'' VNone = VBool False"
    "\<not> dhas policy ''numeric_staleness_threshold''" "\<not> dhas policy ''freshness_threshold''"
    using pc unfolding policy_checks_def Let_def by (auto simp: bnd_eq_Inr cp_req_def req_eq_Inr)
  have "map_of out ''consumer_eligibility_status'' = Some (VStr (if objections = [] then ''ELIGIBLE'' else ''INELIGIBLE''))"
    "map_of out ''authority_status'' = Some (VStr (if authorized then ''AUTHORIZED'' else ''UNAUTHORIZED''))"
    "map_of out ''active'' = Some (VBool False)" "map_of out ''canonical'' = Some (VBool False)"
    by (rule f; simp add: inactive_def)+
  then show ?thesis using p objections_none [OF ob] by simp
qed

subsection \<open>How the counts of a population fit together\<close>

definition TERMINAL :: "string list" where
  "TERMINAL = [''COMPUTABLE'', ''NOT_COMPUTABLE'', ''CENSORED'', ''CONFLICTED'']"

definition terminal_row :: "pydict \<Rightarrow> bool" where
  "terminal_row row \<longleftrightarrow> (\<exists>st \<in> set TERMINAL. is_val row ''computability_status'' st)"

lemma is_val_eq [simp]: "is_val d k s \<longleftrightarrow> dget d k VNone = VStr s"
  by (simp add: is_val_def)

lemma count_split:
  assumes "\<And>r. P r \<longleftrightarrow> Q r \<or> R r" and "\<And>r. \<not> (Q r \<and> R r)"
  shows "count_rows P rows = count_rows Q rows + count_rows R rows"
  unfolding count_rows_def by (induction rows) (use assms in auto)

lemma count_le: "(\<And>r. P r \<Longrightarrow> Q r) \<Longrightarrow> count_rows P rows \<le> count_rows Q rows"
  unfolding count_rows_def by (induction rows) auto

lemma requested_split:
  "count_rows requested_row rows =
    count_rows applicable_row rows + count_rows (\<lambda>r. is_val r ''computability_status'' ''NOT_APPLICABLE'' \<and> requested_row r) rows"
  by (rule count_split) (auto simp: applicable_row_def)

lemma disposition_sum:
  "disposition_count ''COMPUTABLE'' rows + disposition_count ''NOT_COMPUTABLE'' rows +
    disposition_count ''CENSORED'' rows + disposition_count ''CONFLICTED'' rows =
    count_rows (\<lambda>r. applicable_row r \<and> terminal_row r) rows"
  unfolding disposition_count_def count_rows_def
  by (induction rows) (auto simp: terminal_row_def TERMINAL_def)

lemma terminal_partition:
  "count_rows applicable_row rows = disposition_count ''COMPUTABLE'' rows + disposition_count ''NOT_COMPUTABLE'' rows +
      disposition_count ''CENSORED'' rows + disposition_count ''CONFLICTED'' rows \<longleftrightarrow>
    (\<forall>row \<in> set rows. applicable_row row \<longrightarrow> terminal_row row)"
  unfolding disposition_sum
proof -
  have le: "count_rows (\<lambda>r. applicable_row r \<and> terminal_row r) rows \<le> count_rows applicable_row rows" for rows
    by (rule count_le) simp
  show "count_rows applicable_row rows = count_rows (\<lambda>r. applicable_row r \<and> terminal_row r) rows \<longleftrightarrow>
      (\<forall>row \<in> set rows. applicable_row row \<longrightarrow> terminal_row row)"
  proof (induction rows)
    case (Cons row rows)
    then show ?case using le [of rows] by (auto simp: count_rows_def)
  qed (simp add: count_rows_def)
qed

lemma count_of_counts:
  "count_of (population_counts rows included num) ''population_count'' = length rows"
  "count_of (population_counts rows included num) ''requested_count'' = count_rows requested_row rows"
  "count_of (population_counts rows included num) ''not_requested_count'' = length rows - count_rows requested_row rows"
  "count_of (population_counts rows included num) ''applicable_count'' = count_rows applicable_row rows"
  "count_of (population_counts rows included num) ''not_applicable_count'' =
    count_rows (\<lambda>r. is_val r ''computability_status'' ''NOT_APPLICABLE'' \<and> requested_row r) rows"
  "count_of (population_counts rows included num) ''computable_count'' = disposition_count ''COMPUTABLE'' rows"
  "count_of (population_counts rows included num) ''not_computable_count'' = disposition_count ''NOT_COMPUTABLE'' rows"
  "count_of (population_counts rows included num) ''censored_count'' = disposition_count ''CENSORED'' rows"
  "count_of (population_counts rows included num) ''conflicted_count'' = disposition_count ''CONFLICTED'' rows"
  "count_of (population_counts rows included num) ''eligible_count'' = count_rows eligible_row rows"
  "count_of (population_counts rows included num) ''included_count'' = length included"
  "count_of (population_counts rows included num) ''numerator_count'' = length num"
  "count_of (population_counts rows included num) ''denominator_count'' = length included"
  by (simp_all add: count_of_def population_counts_def)

definition scope_ok :: "population_scope \<Rightarrow> bool" where
  "scope_ok sc \<longleftrightarrow> ps_scope_id sc \<noteq> [] \<and> ps_scope_definition sc \<noteq> [] \<and> ps_unit_type sc \<in> set UNIT_TYPES \<and>
    ps_consumer_policy_id sc \<noteq> [] \<and> ps_overlap_policy_id sc \<noteq> []"

lemma scope_checks_ok: "scope_checks sc = Inr u \<longleftrightarrow> scope_ok sc"
  by (auto simp: scope_checks_def scope_ok_def cp_req_def bnd_eq_Inr req_eq_Inr)

lemma population_printable:
  "(k, v) \<in> set (denominator_body sc rows included num counts) \<Longrightarrow> printable v"
  unfolding denominator_body_def set_append by (elim UnE) (auto simp: printable_inactive)

definition units_ok :: "pydict list \<Rightarrow> bool" where
  "units_ok rows \<longleftrightarrow> (\<forall>row \<in> set rows. unit_key row \<noteq> []) \<and> distinct (map unit_key rows)"

lemma denominator_default:
  "build_denominator_record sc None None rows =
    (let included = filter eligible_row rows; num = filter numerator_row included in
     bnd (scope_checks sc) (\<lambda>_.
     bnd (cp_req (list_all (\<lambda>i. i \<noteq> []) (map unit_key rows)) ''RECORD_OR_UNIT_ID_REQUIRED'') (\<lambda>_.
     bnd (cp_req (distinct (map unit_key rows)) ''DUPLICATE_POPULATION_UNIT'') (\<lambda>_.
     bnd (cp_req (\<forall>row \<in> set rows. applicable_row row \<longrightarrow> terminal_row row) ''TERMINAL_DISPOSITION_PARTITION_MISMATCH'') (\<lambda>_.
     bnd (cp_req (count_rows eligible_row rows \<le> disposition_count ''COMPUTABLE'' rows) ''ELIGIBLE_EXCEEDS_COMPUTABLE'') (\<lambda>_.
     seal ''denominator_record_id'' ''C2.DENOMINATOR'' (denominator_body sc rows included num (population_counts rows included num))))))))"
proof -
  have a: "length (filter eligible_row rows) \<le> count_rows eligible_row rows" by (simp add: count_rows_def)
  have b: "length (filter numerator_row (filter eligible_row rows)) \<le> length (filter eligible_row rows)" by (rule length_filter_le)
  have c: "length rows = count_rows requested_row rows + (length rows - count_rows requested_row rows)"
    by (simp add: count_rows_def)
  define t where "t \<longleftrightarrow> (\<forall>row \<in> set rows. applicable_row row \<longrightarrow> terminal_row row)"
  define inc where "inc = filter eligible_row rows"
  define num where "num = filter numerator_row inc"
  have q: "cp_req True m = Inr ()" for m by (simp add: cp_req_def)
  have f: "bnd (cp_req False m) g = Inl (Exn ComputabilityError m)" for m and g :: "unit \<Rightarrow> 'z result" by (simp add: cp_req_def)
  have pc: "list_all snd (partition_checks (population_counts rows inc num)) \<longleftrightarrow> t \<and> count_rows eligible_row rows \<le> disposition_count ''COMPUTABLE'' rows"
    unfolding partition_checks_def count_of_counts terminal_partition [folded t_def]
    using a b c requested_split [of rows] by (simp add: inc_def num_def t_def del: filter_filter)
  have le: "length inc \<le> count_rows eligible_row rows" "length num \<le> length inc" using a b by (simp_all add: inc_def num_def)
  show ?thesis
    unfolding build_denominator_record_def Let_def option.case inc_def [symmetric] num_def [symmetric] count_of_counts
      terminal_partition [folded t_def] t_def [symmetric] pc
    by (cases t; cases "count_rows eligible_row rows \<le> disposition_count ''COMPUTABLE'' rows") (simp_all add: q f le)
qed

lemma denominator_returns:
  "is_ok (build_denominator_record sc None None rows) \<longleftrightarrow>
    scope_ok sc \<and> units_ok rows \<and> (\<forall>row \<in> set rows. applicable_row row \<longrightarrow> terminal_row row) \<and>
    count_rows eligible_row rows \<le> disposition_count ''COMPUTABLE'' rows"
proof -
  have s [simp]: "is_ok (seal k p (denominator_body sc rows i n c))" for k p i n c
    by (rule seal_ok) (use population_printable in blast)
  have r: "is_ok (cp_req P m) \<longleftrightarrow> P" for P m by (simp add: cp_req_def req_def)
  have sc: "is_ok (scope_checks sc) \<longleftrightarrow> scope_ok sc" using scope_checks_ok by (auto simp: is_ok_iff)
  show ?thesis unfolding denominator_default Let_def is_ok_bnd s r sc units_ok_def by (simp add: list_all_iff del: filter_filter)
qed


definition example_scope :: population_scope where
  "example_scope = \<lparr>ps_scope_id = ''s'', ps_scope_definition = ''all'', ps_unit_type = ''OBSERVATION'', ps_consumer_policy_id = ''p'',
     ps_overlap_policy_id = OVERLAP_POLICY_ID, ps_release_id = ''SHADOW'', ps_calendar_id = ''OVC.CALENDAR'', ps_clock_profile = ''DECLARED'',
     ps_instrument_scope = ''DECLARED'', ps_side_handling = ''SEPARATE'', ps_treatment = ''EXCLUDE_FROM_DENOMINATOR_REPORT_SEPARATELY''\<rparr>"

definition example_rows :: "pydict list" where
  "example_rows =
    [[(''record_id'', VStr ''a''), (''computability_status'', VStr ''NOT_COMPUTABLE''), (''consumer_eligibility_status'', VStr ''ELIGIBLE'')],
     [(''record_id'', VStr ''b''), (''computability_status'', VStr ''COMPUTABLE''), (''consumer_eligibility_status'', VStr ''INELIGIBLE'')]]"

text \<open>The check that no more units are eligible than computable compares counts only: a unit that is not
  computable can be the whole denominator, as long as another unit is computable but not eligible.\<close>

lemma eligible_not_computable:
  "is_ok (build_denominator_record example_scope None None example_rows) \<and>
   filter eligible_row example_rows = [hd example_rows] \<and> \<not> is_val (hd example_rows) ''computability_status'' ''COMPUTABLE''"
proof -
  have "scope_ok example_scope" by (simp add: scope_ok_def example_scope_def UNIT_TYPES_def OVERLAP_POLICY_ID_def)
  moreover have "units_ok example_rows" by (simp add: units_ok_def unit_key_def example_rows_def dget_def)
  moreover have "\<forall>row \<in> set example_rows. applicable_row row \<longrightarrow> terminal_row row"
    by (simp add: example_rows_def terminal_row_def TERMINAL_def dget_def)
  moreover have "count_rows eligible_row example_rows \<le> disposition_count ''COMPUTABLE'' example_rows"
    by (simp add: count_rows_def disposition_count_def eligible_row_def applicable_row_def requested_row_def example_rows_def dget_def)
  ultimately have "is_ok (build_denominator_record example_scope None None example_rows)" by (simp only: denominator_returns)
  then show ?thesis by (simp add: example_rows_def eligible_row_def dget_def)
qed

subsection \<open>Overlaps\<close>

definition cluster_members :: "pydict \<Rightarrow> string set" where
  "cluster_members d = (case iter_of (dget d ''member_unit_ids'' (VList [])) of Inr items \<Rightarrow> py_str ` set items | Inl _ \<Rightarrow> {})"

lemma cluster_of_Inr:
  assumes "cluster_of raw seen d = Inr cs"
  obtains cid ct ms where "cs = seen @ [(cid, ct, ms)]" "set ms = cluster_members d" "distinct ms" "set ms \<subseteq> set raw" "ms \<noteq> []"
  using assms unfolding cluster_of_def Let_def
proof (elim bndE, goal_cases)
  case (1 items u1 u2 u3 u4 u5 u6)
  show ?case
    by (rule 1(1) [OF 1(9) [unfolded sum.inject, symmetric]])
      (use 1(2,6,7) in \<open>auto simp: cluster_members_def cp_req_def req_eq_Inr\<close>)
qed

lemma clusters_scanned:
  assumes "foldM (cluster_of raw) [] ds = Inr cs"
  shows "list_all2 (\<lambda>d c. set (snd (snd c)) = cluster_members d \<and> distinct (snd (snd c)) \<and> set (snd (snd c)) \<subseteq> set raw) ds cs"
  using assms
proof (induction ds arbitrary: cs rule: rev_induct)
  case Nil
  then show ?case by simp
next
  case (snoc d ds)
  then obtain cs1 where f: "foldM (cluster_of raw) [] ds = Inr cs1" and c: "cluster_of raw cs1 d = Inr cs"
    by (auto simp: foldM_snoc bnd_eq_Inr)
  obtain cid ct ms where "cs = cs1 @ [(cid, ct, ms)]" "set ms = cluster_members d" "distinct ms" "set ms \<subseteq> set raw"
    using cluster_of_Inr [OF c] by metis
  then show ?case using snoc.IH [OF f] by (simp add: list_all2_appendI)
qed

lemma count_distinct: "distinct xs \<Longrightarrow> count_list xs u = (if u \<in> set xs then 1 else 0)"
  by (induction xs) auto

lemma membership_count:
  assumes "list_all2 (\<lambda>d c. set (snd (snd c)) = cluster_members d \<and> distinct (snd (snd c)) \<and> set (snd (snd c)) \<subseteq> set raw) ds cs"
  shows "count_list (membership_list cs) u = length (filter (\<lambda>d. u \<in> cluster_members d) ds)"
    and "set (membership_list cs) \<subseteq> set raw"
    and "u \<in> set (membership_list cs) \<longleftrightarrow> (\<exists>d \<in> set ds. u \<in> cluster_members d)"
  using assms
proof (induction rule: list_all2_induct)
  case (Cons d ds c cs)
  obtain cid ct ms where c: "c = (cid, ct, ms)" by (cases c)
  {
    case 1
    have "count_list ms u = (if u \<in> set ms then 1 else 0)" using Cons(1) by (simp add: c count_distinct)
    then show ?case using Cons by (simp add: membership_list_def c)
  next
    case 2
    then show ?case using Cons by (auto simp: membership_list_def c)
  next
    case 3
    then show ?case using Cons by (auto simp: membership_list_def c)
  }
qed (simp_all add: membership_list_def)

lemma sorted_units:
  assumes "distinct xs" "sorted xs" "distinct ys" "set xs = set ys"
  shows "xs = sort ys"
  using assms by (metis distinct_sort set_sort sorted_distinct_set_unique sorted_sort)

definition memberships :: "pydict list \<Rightarrow> string \<Rightarrow> nat" where
  "memberships ds u = length (filter (\<lambda>d. u \<in> cluster_members d) ds)"

text \<open>C15: the overlap report keeps the raw population and is exact about it: its raw units are the given ones,
  in order of their identifiers; the units it lists as shared are those that at least two of the given
  clusters contain, the units it lists as unclustered those that none contains, and the clustered
  ones are counted once each.\<close>

theorem overlap_report_exact:
  assumes "build_overlap_report oc raw_unit_ids ds = Inr out"
  shows "map_of out ''raw_unit_ids'' = Some (str_list (sort (map py_str raw_unit_ids))) \<and>
    map_of out ''multi_cluster_unit_ids'' = Some (str_list (filter (\<lambda>u. memberships ds u \<ge> 2) (sort (map py_str raw_unit_ids)))) \<and>
    map_of out ''unclustered_unit_ids'' = Some (str_list (filter (\<lambda>u. memberships ds u = 0) (sort (map py_str raw_unit_ids)))) \<and>
    map_of out ''clustered_unique_unit_count'' =
      Some (VInt (int (length (filter (\<lambda>u. memberships ds u \<noteq> 0) (map py_str raw_unit_ids)))))"
proof -
  let ?raw = "map py_str raw_unit_ids"
  obtain cs where d: "distinct ?raw" and cs: "foldM (cluster_of ?raw) [] ds = Inr cs"
    and se: "seal ''overlap_report_id'' ''C2.OVERLAP'' (overlap_body oc ?raw cs) = Inr out"
    using assms unfolding build_overlap_report_def Let_def by (elim bndE) (auto simp: cp_req_def req_eq_Inr)
  note f = seal_field [OF se] and m = membership_count [OF clusters_scanned [OF cs]]
  let ?ms = "membership_list cs"
  have mem: "u \<in> set ?ms \<longleftrightarrow> memberships ds u \<noteq> 0" for u by (simp add: memberships_def m(3) filter_empty_conv)
  have 1: "sort (filter (\<lambda>u. count_list ?ms u > 1) (remdups ?ms)) = filter (\<lambda>u. memberships ds u \<ge> 2) (sort ?raw)"
  proof (rule sym, rule sorted_units)
    show "set (filter (\<lambda>u. memberships ds u \<ge> 2) (sort ?raw)) = set (filter (\<lambda>u. count_list ?ms u > 1) (remdups ?ms))"
      using m(2) mem by (auto simp: m(1) memberships_def [symmetric] Suc_le_eq)
  qed (use d in \<open>simp_all add: sorted_wrt_filter\<close>)
  have 2: "sorted_set (filter (\<lambda>u. u \<notin> set ?ms) ?raw) = filter (\<lambda>u. memberships ds u = 0) (sort ?raw)"
    unfolding sorted_set_def
    by (rule sym, rule sorted_units) (use d in \<open>auto simp: mem sorted_wrt_filter\<close>)
  have "set (remdups ?ms) = set (filter (\<lambda>u. memberships ds u \<noteq> 0) ?raw)" using m(2) mem by auto
  then have 3: "length (remdups ?ms) = length (filter (\<lambda>u. memberships ds u \<noteq> 0) ?raw)"
    using d by (metis distinct_card distinct_filter distinct_remdups)
  have "map_of (overlap_body oc ?raw cs) ''raw_unit_ids'' = Some (str_list (sort ?raw))"
    "map_of (overlap_body oc ?raw cs) ''multi_cluster_unit_ids'' = Some (str_list (sort (filter (\<lambda>u. count_list ?ms u > 1) (remdups ?ms))))"
    "map_of (overlap_body oc ?raw cs) ''unclustered_unit_ids'' = Some (str_list (sorted_set (filter (\<lambda>u. u \<notin> set ?ms) ?raw)))"
    "map_of (overlap_body oc ?raw cs) ''clustered_unique_unit_count'' = Some (VInt (int (length (remdups ?ms))))"
    by (simp_all add: overlap_body_def Let_def)
  then show ?thesis unfolding 1 2 3 by (simp add: f)
qed

subsection \<open>Examples\<close>

definition example_request :: component_request where
  "example_request = \<lparr>cr_component_id = ''c'', cr_profile_id = ''p'', cr_unit_id = ''u'', cr_as_of_time = ''2026-07-01T00:00:00Z'',
     cr_edges = [[(''dependency_id'', VStr ''a''), (''edge_type'', VStr ''alternative''), (''group_id'', VStr ''g'')],
       [(''dependency_id'', VStr ''b''), (''edge_type'', VStr ''ALTERNATIVE''), (''group_id'', VStr ''g'')],
       [(''dependency_id'', VStr ''o''), (''edge_type'', VStr ''OPTIONAL'')]],
     cr_results = [(''b'', [(''status'', VStr ''available'')])], cr_applicable = True, cr_requested = True, cr_censored = False,
     cr_conflicts = [], cr_assurance = VStr ''ASSURED'', cr_source_ids = [], cr_age = None\<rparr>"

lemma edge_effect_edges:
  "edge_effect et did gid st s = Inr s' \<Longrightarrow> es_edges s' = es_edges s \<and> es_evidence s' = es_evidence s"
  unfolding edge_effect_def by (auto simp: bnd_eq_Inr split: if_splits)

lemma scan_printable:
  assumes "foldM (scan_edge results) edge_scan_init es = Inr s" and "\<forall>e \<in> set es. printable (VDict e)"
  shows "\<forall>e \<in> set (es_edges s) \<union> set (es_evidence s). printable (VDict e)"
  using assms
proof (induction es arbitrary: s rule: rev_induct)
  case Nil
  then show ?case by (auto simp: edge_scan_init_def)
next
  case (snoc e es)
  then obtain s1 where f: "foldM (scan_edge results) edge_scan_init es = Inr s1" and c: "scan_edge results s1 e = Inr s"
    by (auto simp: foldM_snoc bnd_eq_Inr)
  have IH: "\<forall>e \<in> set (es_edges s1) \<union> set (es_evidence s1). printable (VDict e)" using snoc f by simp
  obtain a b ev where "es_edges s = es_edges s1 @ [AList.update ''edge_type'' (VStr a) (AList.update ''dependency_id'' (VStr b) e)]"
    "es_evidence s = es_evidence s1 @ [ev]" "printable (VDict ev)"
    using c unfolding scan_edge_def Let_def
  proof (elim bndE, goal_cases)
    case (1 u1 u2 u3 codes)
    note x = edge_effect_edges [OF 1(6), simplified]
    show ?case by (rule 1(1) [OF conjunct1 [OF x] conjunct2 [OF x]]) simp
  qed
  moreover have "printable (VDict (AList.update ''edge_type'' (VStr a) (AList.update ''dependency_id'' (VStr b) e)))" for a b
    using snoc.prems(2) by (intro printable_update) simp_all
  ultimately show ?case using IH by (simp del: printable_simps(7))
qed

lemma example_evaluates: "is_ok (evaluate_component example_request)" "component_status example_request = ''COMPUTABLE''"
proof -
  have c: "component_checks example_request = Inr ()"
    by code_simp
  have t: "py_upper ''alternative'' = ''ALTERNATIVE''" "py_upper ''ALTERNATIVE'' = ''ALTERNATIVE''" "py_upper ''OPTIONAL'' = ''OPTIONAL''"
    "py_upper ''available'' = ''AVAILABLE''" "py_upper ''MISSING'' = ''MISSING''" by code_simp+
  have "is_ok (foldM (scan_edge (cr_results example_request)) edge_scan_init (cr_edges example_request))"
    by (simp add: example_request_def scan_edge_def edge_scan_init_def edge_id_of_def edge_type_of_def edge_group_of_def edge_effect_def
      result_of_def dependency_status_def dget_def t EDGE_TYPES_def cp_req_def Let_def)
  then obtain s where s: "foldM (scan_edge (cr_results example_request)) edge_scan_init (cr_edges example_request) = Inr s"
    by (auto simp: is_ok_iff)
  have p: "\<forall>e \<in> set (es_edges s) \<union> set (es_evidence s). printable (VDict e)"
    by (rule scan_printable [OF s]) (simp add: example_request_def)
  have l: "printable (VList (map VDict (sort_key f xs)))" if "\<forall>e \<in> set xs. printable (VDict e)" for f :: "pydict \<Rightarrow> string" and xs
    using that by simp
  have e: "\<forall>e \<in> set (es_edges s). printable (VDict e)" "\<forall>e \<in> set (es_evidence s). printable (VDict e)" using p by blast+
  have e': "\<forall>e \<in> set (sort_key f (es_edges s)). printable (VDict e)" for f :: "pydict \<Rightarrow> string" using e(1) by simp
  obtain a b c where d: "disposition example_request s = (a, b, c)" by (cases "disposition example_request s")
  have "\<forall>(k, v) \<in> set (component_body example_request s). printable v"
    unfolding component_body_def d prod.case set_append
    using l [OF e'] l [OF e(2)]
    by (simp add: example_request_def inactive_def del: printable_simps(6))
  then have "is_ok (seal ''record_id'' ''C2.COMPUTABILITY'' (component_body example_request s))" by (rule seal_ok)
  then show "is_ok (evaluate_component example_request)" by (simp add: evaluate_component_def c s)
  show "component_status example_request = ''COMPUTABLE''"
    by (simp add: component_status_def example_request_def edge_status_def edge_id_of_def edge_type_of_def edge_group_of_def
      result_of_def dependency_status_def dget_def t dep_successful_def DEPENDENCY_SUCCESS_def)
qed


definition example_policy :: pydict where
  "example_policy = [(''consumer_policy_id'', VStr ''p''), (''active'', VBool False), (''canonical'', VBool False),
     (''assurance_required'', VBool True), (''required_age_dimensions'', VList [VStr ''bar''])]"

definition example_record :: pydict where
  "example_record = [(''computability_status'', VStr ''COMPUTABLE''), (''assurance_status'', VStr ''ASSURED''),
     (''age_evidence'', VDict [(''bar'', VInt 1)])]"

lemma example_applies: "is_ok (apply_consumer_policy example_record example_policy True)"
proof -
  have s: "cp_scan (VDict example_policy) = Inr ()"
    by code_simp
  have c: "policy_checks example_policy = Inr ()" by (simp add: policy_checks_def example_policy_def dget_def dhas_def cp_req_def)
  have i: "iter_of (dget example_record ''reason_codes'' (VList [])) = Inr []" by (simp add: example_record_def dget_def)
  have o: "policy_objections example_record example_policy True = Inr []"
    by (simp add: policy_objections_def example_policy_def example_record_def dget_def py_or_def)
  show ?thesis unfolding apply_consumer_policy_def s c i o bnd_Inr
    by (rule seal_ok) (simp add: put_all_fields_def example_record_def example_policy_def inactive_def dget_def)
qed

theorem consumer_eligibility_exact_witness:
  "\<exists>out. apply_consumer_policy example_record example_policy True = Inr out \<and>
    map_of out ''consumer_eligibility_status'' = Some (VStr ''ELIGIBLE'') \<and> map_of out ''active'' = Some (VBool False)"
proof -
  obtain out where "apply_consumer_policy example_record example_policy True = Inr out" using example_applies by (auto simp: is_ok_iff)
  moreover have "consumable example_record example_policy True"
    by (simp add: consumable_def example_record_def example_policy_def dget_def py_or_def)
  ultimately show ?thesis using consumer_eligibility_exact [of example_record example_policy True] by auto
qed


definition example_clusters :: "pydict list" where
  "example_clusters =
    [[(''cluster_id'', VStr ''k''), (''cluster_type'', VStr ''SHARED_WINDOW''), (''member_unit_ids'', VList [VStr ''x'', VStr ''y''])],
     [(''cluster_id'', VStr ''l''), (''cluster_type'', VStr ''SHARED_BUNDLE''), (''member_unit_ids'', VList [VStr ''y''])]]"

lemma example_overlap:
  "is_ok (build_overlap_report \<lparr>oc_claim_id = ''c'', oc_unit_type = ''WINDOW'', oc_cluster_policy_id = ''p''\<rparr>
    [VStr ''x'', VStr ''y'', VStr ''z''] example_clusters)"
proof -
  have s: "sorted_set [''x'', ''y''] = [''x'', ''y'']" "sorted_set [''y''] = [''y'']" by code_simp+
  have f: "foldM (cluster_of [''x'', ''y'', ''z'']) [] example_clusters =
      Inr [(''k'', ''SHARED_WINDOW'', [''x'', ''y'']), (''l'', ''SHARED_BUNDLE'', [''y''])]"
    by (simp add: example_clusters_def cluster_of_def dget_def s cp_req_def CLUSTER_TYPES_def Let_def)
  have "\<forall>(k, v) \<in> set (overlap_body oc raw cs). printable v" for oc raw cs
    by (auto simp: overlap_body_def Let_def inactive_def cluster_val_def)
  then show ?thesis unfolding build_overlap_report_def Let_def by (simp add: f cp_req_def seal_ok)
qed

theorem overlap_report_exact_witness:
  "\<exists>out. build_overlap_report \<lparr>oc_claim_id = ''c'', oc_unit_type = ''WINDOW'', oc_cluster_policy_id = ''p''\<rparr>
      [VStr ''x'', VStr ''y'', VStr ''z''] example_clusters = Inr out \<and>
    map_of out ''multi_cluster_unit_ids'' = Some (str_list [''y'']) \<and> map_of out ''unclustered_unit_ids'' = Some (str_list [''z''])"
proof -
  have "sort [''x'', ''y'', ''z''] = [''x'', ''y'', ''z'']" by code_simp
  moreover have "map (memberships example_clusters) [''x'', ''y'', ''z''] = [1, 2, 0]"
    by (simp add: memberships_def example_clusters_def cluster_members_def dget_def)
  ultimately show ?thesis using example_overlap overlap_report_exact by (auto simp: is_ok_iff)
qed

end
