(* ===== verification/C2V_Transitions.thy ===== *)
theory C2V_Transitions
  imports Py_Json Py_Sha256 Py_Walk Py_Time
begin

section \<open>C2 vNext: transitions\<close>

text \<open>
  \<^verbatim>\<open>src/src/ovc/opt_b/c2_vnext/transitions.py\<close>. A transition between two records is classified by which of
  the compared fields changed, and six raw detectors report what happened to a fixed object: crossing,
  touch, entry into and exit from a container, change of distance, of a reference and of a structural graph.
  Paths given as a set are compared in sorted order, which decides only which missing path is named. The
  lemmas show that the classes are exactly the kinds of change that occurred, that a crossing is
  reported exactly when the path gets from strictly one side of the object to the other, and when a
  change of a graph is computable.
\<close>

definition tr_req :: "bool \<Rightarrow> string \<Rightarrow> unit result" where
  "tr_req = req TransitionDetectorError"

definition CLASSIFIER_ID :: string where
  "CLASSIFIER_ID = ''C2AR.TRANSITION.CLASSIFIER.v1''"

definition CLASS_PRECEDENCE :: "string list" where
  "CLASS_PRECEDENCE = [''STRUCTURAL_CHANGE'', ''REFERENCE_IDENTITY_CHANGE'', ''COMPUTABILITY_CHANGE'', ''CATEGORICAL_CHANGE'',
     ''MEASUREMENT_CHANGE'', ''NO_CHANGE'']"

definition DETECTOR_IDS :: "(string \<times> string) list" where
  "DETECTOR_IDS =
    [(''crossing'', ''C2.DETECTOR.FIXED_OBJECT_CROSSING.v1''), (''touch'', ''C2.DETECTOR.PRECISION_TOUCH.v1''),
     (''container'', ''C2.DETECTOR.CONTAINER_ENTRY_EXIT.v1''), (''distance'', ''C2.DETECTOR.RAW_DISTANCE_CHANGE.v1''),
     (''reference'', ''C2.DETECTOR.REFERENCE_IDENTITY_CHANGE.v1''), (''structure'', ''C2.DETECTOR.STRUCTURAL_GRAPH_CHANGE.v1'')]"

definition detector_id_of :: "string \<Rightarrow> string" where
  "detector_id_of name = the (map_of DETECTOR_IDS name)"

definition TR_PROHIBITED_KEYS :: "string list" where
  "TR_PROHIBITED_KEYS = [''future_value'', ''outcome'', ''probability'', ''risk'', ''exposure'', ''trade'', ''trading'', ''execution'',
     ''position_size'', ''target'', ''stop'', ''event_id'', ''episode_id'', ''semantic_label'', ''approaching'', ''testing'', ''rejecting'',
     ''accepting'']"

definition tr_parse_time :: "string \<Rightarrow> int result" where
  "tr_parse_time s =
    bnd (fromisoformat (str_replace ''Z'' ''+00:00'' s)) (\<lambda>d.
    bnd (tr_req (offset d \<noteq> None) ''TIMEZONE_REQUIRED'') (\<lambda>_.
    astimezone_utc d))"

text \<open>\<^verbatim>\<open>_iso\<close> of an instant and of a text.\<close>

definition tr_iso_instant :: "int \<Rightarrow> string" where
  "tr_iso_instant t = str_replace ''+00:00'' ''Z'' (isoformat_utc t)"

definition tr_iso :: "string \<Rightarrow> string result" where
  "tr_iso s = bnd (tr_parse_time s) (\<lambda>t. Inr (tr_iso_instant t))"

definition tr_canonical :: "pyval \<Rightarrow> string result" where
  "tr_canonical v = json_gen '','' '':'' True False v"

definition tr_digest :: "string \<Rightarrow> pyval \<Rightarrow> string result" where
  "tr_digest pre v = bnd (tr_canonical v) (\<lambda>b. Inr (pre @ ''.'' @ take 24 (sha256 b)))"

definition tr_scan :: "pyval \<Rightarrow> unit result" where
  "tr_scan v =
    scan_tree (\<lambda>key. py_lower key \<in> set TR_PROHIBITED_KEYS) (\<lambda>_. False)
      (\<lambda>p. Exn TransitionDetectorError (''PROHIBITED_FIELD:'' @ p)) (\<lambda>p. Exn TransitionDetectorError p) v ''$''"

subsection \<open>Classification\<close>

definition get_path :: "pydict \<Rightarrow> string \<Rightarrow> pyval result" where
  "get_path rec path =
    foldM (\<lambda>v token. case v of
        VDict d \<Rightarrow> (case map_of d token of Some w \<Rightarrow> Inr w | None \<Rightarrow> Inl (Exn TransitionDetectorError (''MISSING_COMPARISON_PATH:'' @ path)))
      | _ \<Rightarrow> Inl (Exn TransitionDetectorError (''MISSING_COMPARISON_PATH:'' @ path)))
      (VDict rec) (split_on CHR ''.'' path)"

definition path_differs :: "pydict \<Rightarrow> pydict \<Rightarrow> string \<Rightarrow> bool result" where
  "path_differs previous current path =
    bnd (get_path previous path) (\<lambda>v. bnd (get_path current path) (\<lambda>w. Inr (\<not> py_eq v w)))"

definition changed_paths :: "pydict \<Rightarrow> pydict \<Rightarrow> string list \<Rightarrow> string list result" where
  "changed_paths previous current paths =
    bnd (mapM (\<lambda>p. bnd (path_differs previous current p) (\<lambda>b. Inr (p, b))) (sorted_set paths)) (\<lambda>ps.
    Inr (map fst (filter snd ps)))"

text \<open>The compared fields, by the key under which their changes are listed.\<close>

record compared =
  measurement_fields :: "string list"
  categorical_fields :: "string list"
  reference_fields :: "string list"
  structural_fields :: "string list"
  computability_fields :: "string list"

record changes =
  ch_measurements :: "string list"
  ch_categories :: "string list"
  ch_references :: "string list"
  ch_structure :: "string list"
  ch_computability :: "string list"

definition changes_val :: "changes \<Rightarrow> pyval" where
  "changes_val c = VDict
    [(''measurements'', VList (map VStr (ch_measurements c))), (''categories'', VList (map VStr (ch_categories c))),
     (''references'', VList (map VStr (ch_references c))), (''structure'', VList (map VStr (ch_structure c))),
     (''computability'', VList (map VStr (ch_computability c)))]"

definition classes_of :: "changes \<Rightarrow> string list" where
  "classes_of c =
    (let classes =
       (if ch_measurements c \<noteq> [] then [''MEASUREMENT_CHANGE''] else []) @
       (if ch_categories c \<noteq> [] then [''CATEGORICAL_CHANGE''] else []) @
       (if ch_references c \<noteq> [] then [''REFERENCE_IDENTITY_CHANGE''] else []) @
       (if ch_structure c \<noteq> [] then [''STRUCTURAL_CHANGE''] else []) @
       (if ch_computability c \<noteq> [] then [''COMPUTABILITY_CHANGE''] else []);
       classes' = (if classes = [] then [''NO_CHANGE''] else classes) in
     filter (\<lambda>item. item \<in> set classes') CLASS_PRECEDENCE)"

definition compare_fields :: "pydict \<Rightarrow> pydict \<Rightarrow> compared \<Rightarrow> changes result" where
  "compare_fields previous current f =
    bnd (changed_paths previous current (measurement_fields f)) (\<lambda>m.
    bnd (changed_paths previous current (categorical_fields f)) (\<lambda>c.
    bnd (changed_paths previous current (reference_fields f)) (\<lambda>r.
    bnd (changed_paths previous current (structural_fields f)) (\<lambda>s.
    bnd (changed_paths previous current (computability_fields f)) (\<lambda>k.
    Inr \<lparr>ch_measurements = m, ch_categories = c, ch_references = r, ch_structure = s, ch_computability = k\<rparr>)))))"

definition record_id_of :: "pydict \<Rightarrow> string" where
  "record_id_of rec = py_str (py_or (py_or (dget rec ''record_id'' VNone) (dget rec ''profile_output_id'' VNone)) (VStr []))"

text \<open>\<^verbatim>\<open>record.get(f) is None or str(record[f]) == expected\<close>\<close>

definition agrees :: "pydict \<Rightarrow> string \<Rightarrow> string \<Rightarrow> bool" where
  "agrees rec f expected \<longleftrightarrow> dget rec f VNone = VNone \<or> py_str (dget rec f VNone) = expected"

text \<open>The record of a transition before its identifier; \<open>t\<close> and \<open>u\<close> are the two times.\<close>

definition transition_body :: "pydict \<Rightarrow> pydict \<Rightarrow> int \<Rightarrow> int \<Rightarrow> string \<Rightarrow> string \<Rightarrow> changes \<Rightarrow> pydict" where
  "transition_body previous current t u profile_id scope_id changed =
    (let classes = classes_of changed in
     [(''schema'', VStr ''c2_transition_record/vnext-r1''), (''classifier_id'', VStr CLASSIFIER_ID),
      (''previous_record_id'', VStr (record_id_of previous)), (''current_record_id'', VStr (record_id_of current)),
      (''previous_time'', VStr (tr_iso_instant t)), (''current_time'', VStr (tr_iso_instant u)),
      (''profile_id'', VStr profile_id), (''scope_id'', VStr scope_id), (''classes'', VList (map VStr classes)),
      (''primary_class'', VStr (hd classes)), (''changed_paths'', changes_val changed), (''computability'', VStr ''COMPUTABLE''),
      (''reason_codes'', VList []), (''active'', VBool False), (''canonical'', VBool False), (''semantic_authority'', VStr ''NONE''),
      (''authority'', VStr ''SHADOW_FROZEN_READ_ONLY'')])"

definition classify_transition ::
  "pydict \<Rightarrow> pydict \<Rightarrow> string \<Rightarrow> string \<Rightarrow> string \<Rightarrow> string \<Rightarrow> compared \<Rightarrow> pydict result" where
  "classify_transition previous current previous_time current_time profile_id scope_id f =
    bnd (tr_scan (VDict previous)) (\<lambda>_.
    bnd (tr_scan (VDict current)) (\<lambda>_.
    bnd (tr_parse_time previous_time) (\<lambda>before'.
    bnd (tr_parse_time current_time) (\<lambda>after'.
    bnd (tr_req (before' < after') ''TRANSITION_CHRONOLOGY_REQUIRED'') (\<lambda>_.
    bnd (tr_req (profile_id \<noteq> []) ''PROFILE_ID_REQUIRED'') (\<lambda>_.
    bnd (tr_req (scope_id \<noteq> []) ''SCOPE_ID_REQUIRED'') (\<lambda>_.
    bnd (tr_req (record_id_of previous \<noteq> [] \<and> record_id_of current \<noteq> []) ''TRANSITION_RECORD_IDS_REQUIRED'') (\<lambda>_.
    bnd (tr_req (agrees previous ''profile_id'' profile_id) ''PREVIOUS_PROFILE_MISMATCH'') (\<lambda>_.
    bnd (tr_req (agrees current ''profile_id'' profile_id) ''CURRENT_PROFILE_MISMATCH'') (\<lambda>_.
    bnd (tr_req (agrees previous ''scope_id'' scope_id) ''PREVIOUS_SCOPE_MISMATCH'') (\<lambda>_.
    bnd (tr_req (agrees current ''scope_id'' scope_id) ''CURRENT_SCOPE_MISMATCH'') (\<lambda>_.
    bnd (compare_fields previous current f) (\<lambda>changed.
    let body = transition_body previous current before' after' profile_id scope_id changed in
    bnd (tr_digest ''C2.TRANSITION'' (VDict body)) (\<lambda>i.
    Inr (body @ [(''transition_id'', VStr i)])))))))))))))))"

subsection \<open>The output of a detector\<close>

definition detector_body :: "string \<Rightarrow> string \<Rightarrow> string list \<Rightarrow> string list \<Rightarrow> bool \<Rightarrow> string list \<Rightarrow> pydict \<Rightarrow> pydict" where
  "detector_body detector_id t object_ids outputs computable reason_codes evidence =
    [(''schema'', VStr ''c2_raw_detector_output/vnext-r1''), (''detector_id'', VStr detector_id), (''as_of_time'', VStr t),
     (''object_ids'', VList (map VStr (sorted_set (filter (\<lambda>i. i \<noteq> []) object_ids)))), (''outputs'', VList (map VStr (sorted_set outputs))),
     (''computability'', VStr (if computable then ''COMPUTABLE'' else ''NOT_COMPUTABLE'')),
     (''reason_codes'', VList (map VStr (sorted_set reason_codes))), (''evidence'', VDict evidence), (''numeric_thresholds'', VList []),
     (''active'', VBool False), (''canonical'', VBool False), (''semantic_authority'', VStr ''NONE''),
     (''authority'', VStr ''SHADOW_FROZEN_READ_ONLY'')]"

definition detector_output ::
  "string \<Rightarrow> string \<Rightarrow> string list \<Rightarrow> string list \<Rightarrow> bool \<Rightarrow> string list \<Rightarrow> pydict \<Rightarrow> pydict result" where
  "detector_output detector_id as_of_time object_ids outputs computable reason_codes evidence =
    bnd (tr_scan (VDict evidence)) (\<lambda>_.
    bnd (tr_req (detector_id \<in> snd ` set DETECTOR_IDS) ''UNKNOWN_DETECTOR_ID'') (\<lambda>_.
    bnd (tr_iso as_of_time) (\<lambda>t.
    let body = detector_body detector_id t object_ids outputs computable reason_codes evidence in
    bnd (tr_req (outputs \<noteq> []) ''DETECTOR_OUTPUT_REQUIRED'') (\<lambda>_.
    bnd (tr_digest ''C2.DETECTOR.OUTPUT'' (VDict body)) (\<lambda>i.
    Inr (body @ [(''detector_output_id'', VStr i)]))))))"

subsection \<open>Crossing of a fixed object\<close>

text \<open>\<^verbatim>\<open>Decimal(str(value)).quantize(Decimal(1).scaleb(-precision))\<close>\<close>

definition quantized :: "pyval \<Rightarrow> int \<Rightarrow> decimal result" where
  "quantized v precision =
    bnd (tr_req (0 \<le> precision \<and> precision \<le> 18) ''SOURCE_PRECISION_INVALID'') (\<lambda>_.
    case bnd (decimal_of (py_str v)) (\<lambda>d. dec_quantize d (nat precision)) of
      Inr d \<Rightarrow> Inr d
    | Inl e \<Rightarrow> Inl (Exn TransitionDetectorError ''NUMERIC_VALUE_INVALID''))"

text \<open>\<^verbatim>\<open>-1 if value < target else 1 if value > target else 0\<close>\<close>

definition sign_of :: "decimal \<Rightarrow> decimal \<Rightarrow> int result" where
  "sign_of value target =
    bnd (dec_lt value target) (\<lambda>below. if below then Inr (- 1) else bnd (dec_lt target value) (\<lambda>above. Inr (if above then 1 else 0)))"

record path_point =
  pp_time :: int
  pp_value :: decimal
  pp_sign :: int

definition read_point :: "decimal \<Rightarrow> int \<Rightarrow> pydict \<Rightarrow> path_point result" where
  "read_point target source_precision point =
    bnd (tr_req (dhas point ''time'' \<and> dhas point ''value'') ''ORDERED_PATH_POINT_INVALID'') (\<lambda>_.
    bnd (tr_parse_time (py_str (dget point ''time'' VNone))) (\<lambda>t.
    bnd (quantized (dget point ''value'' VNone) source_precision) (\<lambda>v.
    bnd (sign_of v target) (\<lambda>s. Inr \<lparr>pp_time = t, pp_value = v, pp_sign = s\<rparr>))))"

text \<open>The directions between neighbours among the points off the object.\<close>

fun directions :: "int list \<Rightarrow> string list" where
  "directions (l # r # xs) =
     (if l < r then [''CROSS_UP''] else if l > r then [''CROSS_DOWN''] else []) @ directions (r # xs)"
| "directions _ = []"

definition crossing_outputs :: "int list \<Rightarrow> string list" where
  "crossing_outputs signs =
    (let outputs = directions (filter (\<lambda>s. s \<noteq> 0) signs) in
     if outputs = [] then [if 0 \<in> set signs then ''TOUCH_ONLY'' else ''NO_CROSS''] else outputs)"

definition insufficient_path :: "string \<Rightarrow> string \<Rightarrow> string \<Rightarrow> nat \<Rightarrow> string \<Rightarrow> pydict result" where
  "insufficient_path object_id as_of_time evidence_mode n reason =
    detector_output (detector_id_of ''crossing'') as_of_time [object_id] [''INSUFFICIENT_ORDERED_PATH''] False [reason]
      [(''evidence_mode'', VStr evidence_mode), (''path_count'', VInt (int n))]"

definition detect_fixed_object_crossing :: "string \<Rightarrow> pyval \<Rightarrow> pydict list \<Rightarrow> int \<Rightarrow> string \<Rightarrow> string \<Rightarrow> pydict result" where
  "detect_fixed_object_crossing object_id object_value ordered_path source_precision as_of_time evidence_mode =
    (let n = length ordered_path; insufficient = insufficient_path object_id as_of_time evidence_mode n in
     if evidence_mode \<notin> {''M1'', ''TICK''} then insufficient ''EVIDENCE_MODE_HAS_NO_DIRECTIONAL_PATH_AUTHORITY''
     else if n < 2 then insufficient ''AT_LEAST_TWO_ORDERED_POINTS_REQUIRED''
     else
       bnd (quantized object_value source_precision) (\<lambda>target.
       bnd (mapM (read_point target source_precision) ordered_path) (\<lambda>points.
       if \<not> sorted_wrt (<) (map pp_time points) then insufficient ''PATH_NOT_STRICTLY_ORDERED''
       else
         detector_output (detector_id_of ''crossing'') as_of_time [object_id] (crossing_outputs (map pp_sign points)) True []
           [(''evidence_mode'', VStr evidence_mode), (''source_precision'', VInt source_precision), (''object_value'', VStr (dec_str target)),
            (''ordered_times'', VList (map (\<lambda>p. VStr (tr_iso_instant (pp_time p))) points)),
            (''ordered_values'', VList (map (\<lambda>p. VStr (dec_str (pp_value p))) points)),
            (''relative_signs'', VList (map (\<lambda>p. VInt (pp_sign p)) points)), (''same_immutable_object'', VBool True),
            (''ohlc_directional_authority'', VBool False)])))"

subsection \<open>The other detectors\<close>

definition detect_precision_touch :: "string \<Rightarrow> string \<Rightarrow> string \<Rightarrow> int \<Rightarrow> string \<Rightarrow> pydict result" where
  "detect_precision_touch object_id probe_id raw_topology source_precision as_of_time =
    bnd (tr_req (0 \<le> source_precision) ''SOURCE_PRECISION_INVALID'') (\<lambda>_.
    let base = [(''probe_id'', VStr probe_id), (''raw_topology'', VStr raw_topology), (''source_precision'', VInt source_precision)];
        answer = (\<lambda>output. detector_output (detector_id_of ''touch'') as_of_time [object_id] [output] True []
          (base @ [(''proximity_substitution'', VBool False)])) in
    if raw_topology \<in> {''EQUAL'', ''AT_LOWER'', ''AT_UPPER'', ''TOUCH''} then answer ''TOUCH''
    else if raw_topology \<in> {''BELOW'', ''ABOVE'', ''INSIDE'', ''OUTSIDE''} then answer ''NO_TOUCH''
    else detector_output (detector_id_of ''touch'') as_of_time [object_id] [''NOT_COMPUTABLE''] False
      [''RAW_TOPOLOGY_UNRECOGNISED_OR_AMBIGUOUS''] base)"

definition CONTAINER_MOVES :: "((string \<times> string) \<times> string) list" where
  "CONTAINER_MOVES =
    [((''BELOW'', ''INSIDE''), ''ENTRY_FROM_BELOW''), ((''ABOVE'', ''INSIDE''), ''ENTRY_FROM_ABOVE''), ((''INSIDE'', ''BELOW''), ''EXIT_TO_BELOW''),
     ((''INSIDE'', ''ABOVE''), ''EXIT_TO_ABOVE''), ((''INSIDE'', ''INSIDE''), ''REMAIN_INSIDE''), ((''BELOW'', ''BELOW''), ''REMAIN_OUTSIDE''),
     ((''ABOVE'', ''ABOVE''), ''REMAIN_OUTSIDE'')]"

definition CONTAINER_BOUNDARY :: "string list" where
  "CONTAINER_BOUNDARY = [''AT_LOWER'', ''AT_UPPER'', ''EQUAL'']"

text \<open>Output, computability and reasons of a move between two topologies.\<close>

definition container_move :: "string \<Rightarrow> string \<Rightarrow> string \<times> bool \<times> string list" where
  "container_move previous current =
    (if previous \<in> set CONTAINER_BOUNDARY \<or> current \<in> set CONTAINER_BOUNDARY then (''BOUNDARY_ONLY'', True, [])
     else case map_of CONTAINER_MOVES (previous, current) of
       Some output \<Rightarrow> (output, True, [])
     | None \<Rightarrow> (''NOT_COMPUTABLE'', False, [''TOPOLOGY_PAIR_REQUIRES_ORDERED_INTRABAR_PATH_OR_IS_AMBIGUOUS'']))"

definition detect_container_entry_exit :: "string \<Rightarrow> string \<Rightarrow> string \<Rightarrow> bool \<Rightarrow> string \<Rightarrow> pydict result" where
  "detect_container_entry_exit container_id previous_topology current_topology positive_width as_of_time =
    (let base = [(''previous_topology'', VStr previous_topology), (''current_topology'', VStr current_topology), (''same_container_id'', VBool True)] in
     if \<not> positive_width then
       detector_output (detector_id_of ''container'') as_of_time [container_id] [''NOT_COMPUTABLE''] False [''POSITIVE_WIDTH_CONTAINER_REQUIRED''] base
     else case container_move previous_topology current_topology of
       (output, computable, reasons) \<Rightarrow>
         detector_output (detector_id_of ''container'') as_of_time [container_id] [output] computable reasons
           (base @ [(''positive_width'', VBool positive_width), (''acceptance_or_rejection_authority'', VBool False)]))"

definition detect_raw_distance_change :: "string \<Rightarrow> string \<Rightarrow> pyval \<Rightarrow> string \<Rightarrow> string \<Rightarrow> pydict result" where
  "detect_raw_distance_change object_id previous_object_id absolute_distance_delta relation_delta_id as_of_time =
    (if object_id \<noteq> previous_object_id then
       detector_output (detector_id_of ''distance'') as_of_time [previous_object_id, object_id] [''NOT_COMPUTABLE''] False
         [''SAME_IMMUTABLE_OBJECT_REQUIRED''] [(''relation_delta_id'', VStr relation_delta_id), (''same_object_id'', VBool False)]
     else if absolute_distance_delta = VNone then
       detector_output (detector_id_of ''distance'') as_of_time [object_id] [''NOT_COMPUTABLE''] False
         [''ABSOLUTE_DISTANCE_DELTA_REQUIRED''] [(''relation_delta_id'', VStr relation_delta_id), (''same_object_id'', VBool True)]
     else
       bnd (decimal_of (py_str absolute_distance_delta)) (\<lambda>delta.
       bnd (sign_of delta (DFin False 0 0)) (\<lambda>s.
       detector_output (detector_id_of ''distance'') as_of_time [object_id]
         [if s < 0 then ''DISTANCE_DECREASED'' else if s > 0 then ''DISTANCE_INCREASED'' else ''DISTANCE_UNCHANGED''] True []
         [(''relation_delta_id'', VStr relation_delta_id), (''absolute_distance_delta'', VStr (dec_str delta)), (''same_object_id'', VBool True),
          (''approaching_label_authority'', VBool False)])))"

definition detect_reference_identity_change :: "string \<Rightarrow> string \<Rightarrow> string \<Rightarrow> string \<Rightarrow> pydict result" where
  "detect_reference_identity_change previous_reference_id current_reference_id reference_kind as_of_time =
    detector_output (detector_id_of ''reference'') as_of_time [previous_reference_id, current_reference_id]
      [if previous_reference_id \<noteq> current_reference_id then ''REFERENCE_CHANGED'' else ''REFERENCE_UNCHANGED''] True []
      [(''previous_reference_id'', VStr previous_reference_id), (''current_reference_id'', VStr current_reference_id),
       (''reference_kind'', VStr reference_kind), (''is_crossing'', VBool False)]"

subsection \<open>Change of a structural graph\<close>

definition edge_id :: "pyval \<Rightarrow> string result" where
  "edge_id edge =
    (case edge of
      VDict d \<Rightarrow>
        (let v = py_or (py_or (dget d ''edge_id'' VNone) (dget d ''container_edge_id'' VNone)) (dget d ''swing_edge_id'' VNone) in
         if py_bool v then Inr (py_str v) else tr_digest ''EDGE'' edge)
    | _ \<Rightarrow> Inr (py_str edge))"

definition graph_id_of :: "pydict \<Rightarrow> string" where
  "graph_id_of g =
    py_str (py_or (py_or (py_or (dget g ''graph_id'' VNone) (dget g ''container_graph_id'' VNone)) (dget g ''swing_graph_id'' VNone)) (VStr []))"

text \<open>The sets of nodes and edges of a graph, as sorted lists, and its depths.\<close>

record graph =
  gr_nodes :: "string list"
  gr_edges :: "string list"
  gr_depths :: pydict

definition nodes_of :: "pydict \<Rightarrow> string list result" where
  "nodes_of g = bnd (iter_of (dget g ''node_ids'' (VList []))) (\<lambda>xs. Inr (sorted_set (map py_str xs)))"

definition edges_of :: "pydict \<Rightarrow> string list result" where
  "edges_of g = bnd (iter_of (dget g ''edges'' (VList []))) (\<lambda>xs. bnd (mapM edge_id xs) (\<lambda>es. Inr (sorted_set es)))"

definition depths_of :: "pydict \<Rightarrow> pydict result" where
  "depths_of g = as_dict (dget g ''depths'' (VDict []))"

definition superseded_pairs :: "pydict list \<Rightarrow> (string \<times> string) list result" where
  "superseded_pairs items =
    bnd (mapM (\<lambda>item. bnd (ditem item ''previous_id'') (\<lambda>p. bnd (ditem item ''current_id'') (\<lambda>c. Inr (py_str p, py_str c)))) items) (\<lambda>ps.
    Inr (sorted_set ps))"

definition minus_list :: "string list \<Rightarrow> string list \<Rightarrow> string list" where
  "minus_list xs ys = filter (\<lambda>x. x \<notin> set ys) xs"

definition changed_depths :: "pydict \<Rightarrow> pydict \<Rightarrow> string list" where
  "changed_depths p c =
    sorted_set (filter (\<lambda>k. dhas c k \<and> \<not> py_eq (dget p k VNone) (dget c k VNone)) (map fst p))"

text \<open>Outputs, reasons and evidence from the two graphs and the supersessions.\<close>

definition unexplained_nodes :: "graph \<Rightarrow> graph \<Rightarrow> (string \<times> string) list \<Rightarrow> string list" where
  "unexplained_nodes p c superseded = minus_list (minus_list (gr_nodes p) (gr_nodes c)) (map fst superseded)"

definition graph_outputs :: "graph \<Rightarrow> graph \<Rightarrow> (string \<times> string) list \<Rightarrow> string list" where
  "graph_outputs p c superseded =
    (let outputs =
       (if minus_list (gr_nodes c) (gr_nodes p) \<noteq> [] then [''NODE_ADDED''] else []) @
       (if superseded \<noteq> [] then [''NODE_SUPERSEDED''] else []) @
       (if minus_list (gr_edges c) (gr_edges p) \<noteq> [] then [''EDGE_ADDED''] else []) @
       (if minus_list (gr_edges p) (gr_edges c) \<noteq> [] then [''EDGE_REMOVED''] else []) @
       (if changed_depths (gr_depths p) (gr_depths c) \<noteq> [] then [''DEPTH_CHANGED''] else []) @
       (if unexplained_nodes p c superseded \<noteq> [] then [''NOT_COMPUTABLE''] else []) in
     if outputs = [] then [''NO_STRUCTURAL_CHANGE''] else outputs)"

definition graph_evidence :: "string \<Rightarrow> string \<Rightarrow> graph \<Rightarrow> graph \<Rightarrow> (string \<times> string) list \<Rightarrow> pydict" where
  "graph_evidence previous_id current_id p c superseded =
    (let strs = (\<lambda>xs. VList (map VStr xs)) in
     [(''previous_graph_id'', VStr previous_id), (''current_graph_id'', VStr current_id),
      (''nodes_added'', strs (minus_list (gr_nodes c) (gr_nodes p))), (''nodes_removed'', strs (minus_list (gr_nodes p) (gr_nodes c))),
      (''supersessions'', VList (map (\<lambda>(l, r). VDict [(''previous_id'', VStr l), (''current_id'', VStr r)]) superseded)),
      (''edges_added'', strs (minus_list (gr_edges c) (gr_edges p))), (''edges_removed'', strs (minus_list (gr_edges p) (gr_edges c))),
      (''depths_changed'', strs (changed_depths (gr_depths p) (gr_depths c))), (''complete_inventories'', VBool True),
      (''regime_authority'', VBool False)])"

definition detect_structural_graph_change :: "pydict \<Rightarrow> pydict \<Rightarrow> pydict list \<Rightarrow> string \<Rightarrow> pydict result" where
  "detect_structural_graph_change previous_graph current_graph supersessions as_of_time =
    (let previous_id = graph_id_of previous_graph; current_id = graph_id_of current_graph in
     if dget previous_graph ''complete_inventory'' VNone \<noteq> VBool True \<or> dget current_graph ''complete_inventory'' VNone \<noteq> VBool True then
       detector_output (detector_id_of ''structure'') as_of_time [previous_id, current_id] [''NOT_COMPUTABLE''] False
         [''COMPLETE_GRAPH_INVENTORIES_REQUIRED''] [(''previous_graph_id'', VStr previous_id), (''current_graph_id'', VStr current_id)]
     else
       bnd (nodes_of previous_graph) (\<lambda>pn. bnd (nodes_of current_graph) (\<lambda>cn.
       bnd (edges_of previous_graph) (\<lambda>pe. bnd (edges_of current_graph) (\<lambda>ce.
       bnd (depths_of previous_graph) (\<lambda>pd. bnd (depths_of current_graph) (\<lambda>cd.
       bnd (superseded_pairs supersessions) (\<lambda>superseded.
       let p = \<lparr>gr_nodes = pn, gr_edges = pe, gr_depths = pd\<rparr>; c = \<lparr>gr_nodes = cn, gr_edges = ce, gr_depths = cd\<rparr>;
           computable = (unexplained_nodes p c superseded = []) in
       detector_output (detector_id_of ''structure'') as_of_time [previous_id, current_id] (graph_outputs p c superseded) computable
         (if computable then [] else [''REMOVED_NODE_REQUIRES_EXPLICIT_SUPERSESSION''])
         (graph_evidence previous_id current_id p c superseded)))))))))"

subsection \<open>What a classification says\<close>

lemma changed_paths_Inr:
  assumes "changed_paths previous current paths = Inr ps"
  shows "p \<in> set ps \<longleftrightarrow> p \<in> set paths \<and> path_differs previous current p = Inr True" and "distinct ps" and "sorted ps"
proof -
  obtain qs where m: "mapM (\<lambda>p. bnd (path_differs previous current p) (\<lambda>b. Inr (p, b))) (sorted_set paths) = Inr qs"
    and ps: "ps = map fst (filter snd qs)"
    using assms by (auto simp: changed_paths_def bnd_eq_Inr)
  define d where "d p = projr (path_differs previous current p)" for p
  have all: "path_differs previous current p = Inr (d p)" if "p \<in> set paths" for p
  proof -
    have "is_ok (mapM (\<lambda>p. bnd (path_differs previous current p) (\<lambda>b. Inr (p, b))) (sorted_set paths))" unfolding m by simp
    then have "is_ok (path_differs previous current p)" using that by simp
    then show ?thesis by (auto simp: d_def is_ok_iff)
  qed
  have "mapM (\<lambda>p. bnd (path_differs previous current p) (\<lambda>b. Inr (p, b))) (sorted_set paths) = Inr (map (\<lambda>p. (p, d p)) (sorted_set paths))"
    by (rule mapM_eq_map) (simp add: all)
  then have q: "ps = filter d (sorted_set paths)" using m ps by (simp add: filter_map comp_def)
  show "p \<in> set ps \<longleftrightarrow> p \<in> set paths \<and> path_differs previous current p = Inr True" unfolding q using all by auto
  show "distinct ps" "sorted ps" unfolding q by (simp_all add: List.sorted_wrt_filter)
qed

lemma classes_of_eq:
  "classes_of c =
    (if ch_structure c = [] then [] else [''STRUCTURAL_CHANGE'']) @ (if ch_references c = [] then [] else [''REFERENCE_IDENTITY_CHANGE'']) @
    (if ch_computability c = [] then [] else [''COMPUTABILITY_CHANGE'']) @ (if ch_categories c = [] then [] else [''CATEGORICAL_CHANGE'']) @
    (if ch_measurements c = [] then [] else [''MEASUREMENT_CHANGE'']) @
    (if ch_measurements c = [] \<and> ch_categories c = [] \<and> ch_references c = [] \<and> ch_structure c = [] \<and> ch_computability c = []
     then [''NO_CHANGE''] else [])"
  by (cases "ch_measurements c = []"; cases "ch_categories c = []"; cases "ch_references c = []"; cases "ch_structure c = []";
      cases "ch_computability c = []") (simp_all add: classes_of_def CLASS_PRECEDENCE_def)

lemma classes_of_mem:
  "''MEASUREMENT_CHANGE'' \<in> set (classes_of c) \<longleftrightarrow> ch_measurements c \<noteq> []"
  "''CATEGORICAL_CHANGE'' \<in> set (classes_of c) \<longleftrightarrow> ch_categories c \<noteq> []"
  "''REFERENCE_IDENTITY_CHANGE'' \<in> set (classes_of c) \<longleftrightarrow> ch_references c \<noteq> []"
  "''STRUCTURAL_CHANGE'' \<in> set (classes_of c) \<longleftrightarrow> ch_structure c \<noteq> []"
  "''COMPUTABILITY_CHANGE'' \<in> set (classes_of c) \<longleftrightarrow> ch_computability c \<noteq> []"
  "''NO_CHANGE'' \<in> set (classes_of c) \<longleftrightarrow> classes_of c = [''NO_CHANGE'']"
  by (simp_all add: classes_of_eq)

lemma classes_of_order: "subseq (classes_of c) CLASS_PRECEDENCE"
  by (simp add: classes_of_def Let_def subseq_filter_left)

lemma tr_scan_Inr: "tr_scan v = Inr u \<longleftrightarrow> clean (\<lambda>key. py_lower key \<in> set TR_PROHIBITED_KEYS) (\<lambda>_. False) v"
  unfolding tr_scan_def scan_tree_clean ..

lemma classify_parts:
  assumes "classify_transition previous current previous_time current_time profile_id scope_id f = Inr r"
  obtains t u ch where "tr_parse_time previous_time = Inr t" and "tr_parse_time current_time = Inr u" and "t < u"
    and "compare_fields previous current f = Inr ch" and "dget r ''changed_paths'' VNone = changes_val ch"
    and "dget r ''classes'' VNone = VList (map VStr (classes_of ch))" and "dget r ''primary_class'' VNone = VStr (hd (classes_of ch))"
    and "clean (\<lambda>key. py_lower key \<in> set TR_PROHIBITED_KEYS) (\<lambda>_. False) (VDict previous)"
    and "clean (\<lambda>key. py_lower key \<in> set TR_PROHIBITED_KEYS) (\<lambda>_. False) (VDict current)"
  using assms unfolding classify_transition_def Let_def
proof (elim bndE, goal_cases)
  case (1 u1 u2 t u u3 u4 u5 u6 u7 u8 u9 u10 ch i)
  show ?case
    by (rule 1(1) [OF 1(4,5) _ 1(14) _ _ _ 1(2,3) [unfolded tr_scan_Inr]])
      (use 1(6) 1(16) [symmetric] in \<open>simp_all add: tr_req_def req_eq_Inr dget_def transition_body_def Let_def\<close>)
qed

text \<open>C17: a transition is classified by exactly what changed. The paths listed under a kind are the declared paths
  of that kind whose values differ in the two records, sorted and without repetition; the classes, in
  their order of precedence, are those of the kinds with a change, or \<open>NO_CHANGE\<close> if there is none; the
  primary class is the first; the records are in chronological order and have no prohibited field.\<close>

theorem classification_exact:
  assumes "classify_transition previous current previous_time current_time profile_id scope_id f = Inr r"
  shows "\<exists>t u ch. tr_parse_time previous_time = Inr t \<and> tr_parse_time current_time = Inr u \<and> t < u \<and>
    dget r ''changed_paths'' VNone = changes_val ch \<and>
    (\<forall>p. (p \<in> set (ch_measurements ch) \<longleftrightarrow> p \<in> set (measurement_fields f) \<and> path_differs previous current p = Inr True) \<and>
      (p \<in> set (ch_categories ch) \<longleftrightarrow> p \<in> set (categorical_fields f) \<and> path_differs previous current p = Inr True) \<and>
      (p \<in> set (ch_references ch) \<longleftrightarrow> p \<in> set (reference_fields f) \<and> path_differs previous current p = Inr True) \<and>
      (p \<in> set (ch_structure ch) \<longleftrightarrow> p \<in> set (structural_fields f) \<and> path_differs previous current p = Inr True) \<and>
      (p \<in> set (ch_computability ch) \<longleftrightarrow> p \<in> set (computability_fields f) \<and> path_differs previous current p = Inr True)) \<and>
    dget r ''classes'' VNone = VList (map VStr (classes_of ch)) \<and> subseq (classes_of ch) CLASS_PRECEDENCE \<and>
    (''MEASUREMENT_CHANGE'' \<in> set (classes_of ch) \<longleftrightarrow> ch_measurements ch \<noteq> []) \<and>
    (''CATEGORICAL_CHANGE'' \<in> set (classes_of ch) \<longleftrightarrow> ch_categories ch \<noteq> []) \<and>
    (''REFERENCE_IDENTITY_CHANGE'' \<in> set (classes_of ch) \<longleftrightarrow> ch_references ch \<noteq> []) \<and>
    (''STRUCTURAL_CHANGE'' \<in> set (classes_of ch) \<longleftrightarrow> ch_structure ch \<noteq> []) \<and>
    (''COMPUTABILITY_CHANGE'' \<in> set (classes_of ch) \<longleftrightarrow> ch_computability ch \<noteq> []) \<and>
    (''NO_CHANGE'' \<in> set (classes_of ch) \<longleftrightarrow> classes_of ch = [''NO_CHANGE'']) \<and>
    dget r ''primary_class'' VNone = VStr (hd (classes_of ch)) \<and>
    clean (\<lambda>key. py_lower key \<in> set TR_PROHIBITED_KEYS) (\<lambda>_. False) (VDict previous) \<and>
    clean (\<lambda>key. py_lower key \<in> set TR_PROHIBITED_KEYS) (\<lambda>_. False) (VDict current)"
proof (rule classify_parts [OF assms], goal_cases)
  case (1 t u ch)
  have c: "changed_paths previous current (measurement_fields f) = Inr (ch_measurements ch)"
    "changed_paths previous current (categorical_fields f) = Inr (ch_categories ch)"
    "changed_paths previous current (reference_fields f) = Inr (ch_references ch)"
    "changed_paths previous current (structural_fields f) = Inr (ch_structure ch)"
    "changed_paths previous current (computability_fields f) = Inr (ch_computability ch)"
    using 1(4) by (auto simp: compare_fields_def bnd_eq_Inr)
  show ?case
    by (intro exI conjI allI, rule 1(1), rule 1(2), rule 1(3), rule 1(5))
      (simp_all only: changed_paths_Inr(1) [OF c(1)] changed_paths_Inr(1) [OF c(2)] changed_paths_Inr(1) [OF c(3)]
        changed_paths_Inr(1) [OF c(4)] changed_paths_Inr(1) [OF c(5)] classes_of_mem classes_of_order 1(6-9))
qed

subsection \<open>What a crossing is\<close>

lemma directions_up: "''CROSS_UP'' \<notin> set (directions xs) \<longleftrightarrow> sorted_wrt (\<ge>) xs"
  by (induction xs rule: directions.induct) (auto intro: order_trans)

lemma directions_down: "''CROSS_DOWN'' \<notin> set (directions xs) \<longleftrightarrow> sorted_wrt (\<le>) xs"
  by (induction xs rule: directions.induct) (auto intro: order_trans less_imp_le)

lemma directions_only: "set (directions xs) \<subseteq> {''CROSS_UP'', ''CROSS_DOWN''}"
  by (induction xs rule: directions.induct) auto

lemma sorted_wrt_filter_iff: "sorted_wrt P (filter Q xs) \<longleftrightarrow> sorted_wrt (\<lambda>a b. Q a \<and> Q b \<longrightarrow> P a b) xs"
  by (induction xs) auto

definition jumps :: "int list \<Rightarrow> int \<Rightarrow> int \<Rightarrow> bool" where
  "jumps ss a b \<longleftrightarrow> (\<exists>i j. i < j \<and> j < length ss \<and> ss ! i = a \<and> ss ! j = b)"

lemma crossing_outputs_mem:
  assumes "set ss \<subseteq> {- 1, 0, 1}"
  shows "''CROSS_UP'' \<in> set (crossing_outputs ss) \<longleftrightarrow> jumps ss (- 1) 1"
    and "''CROSS_DOWN'' \<in> set (crossing_outputs ss) \<longleftrightarrow> jumps ss 1 (- 1)"
    and "''TOUCH_ONLY'' \<in> set (crossing_outputs ss) \<longleftrightarrow> \<not> jumps ss (- 1) 1 \<and> \<not> jumps ss 1 (- 1) \<and> 0 \<in> set ss"
    and "''NO_CROSS'' \<in> set (crossing_outputs ss) \<longleftrightarrow> \<not> jumps ss (- 1) 1 \<and> \<not> jumps ss 1 (- 1) \<and> 0 \<notin> set ss"
proof -
  let ?d = "directions (filter (\<lambda>s. s \<noteq> 0) ss)"
  have nth: "ss ! i = - 1 \<or> ss ! i = 0 \<or> ss ! i = 1" if "i < length ss" for i using assms nth_mem [OF that] by blast
  have up: "''CROSS_UP'' \<in> set ?d \<longleftrightarrow> jumps ss (- 1) 1"
  proof -
    have "''CROSS_UP'' \<in> set ?d \<longleftrightarrow> \<not> sorted_wrt (\<lambda>a b. a \<noteq> 0 \<and> b \<noteq> 0 \<longrightarrow> a \<ge> b) ss"
      using directions_up [of "filter (\<lambda>s. s \<noteq> 0) ss"] unfolding sorted_wrt_filter_iff by blast
    also have "\<dots> \<longleftrightarrow> jumps ss (- 1) 1"
      unfolding sorted_wrt_iff_nth_less jumps_def using nth by (smt (verit) order.strict_trans)
    finally show ?thesis .
  qed
  have down: "''CROSS_DOWN'' \<in> set ?d \<longleftrightarrow> jumps ss 1 (- 1)"
  proof -
    have "''CROSS_DOWN'' \<in> set ?d \<longleftrightarrow> \<not> sorted_wrt (\<lambda>a b. a \<noteq> 0 \<and> b \<noteq> 0 \<longrightarrow> a \<le> b) ss"
      using directions_down [of "filter (\<lambda>s. s \<noteq> 0) ss"] unfolding sorted_wrt_filter_iff by blast
    also have "\<dots> \<longleftrightarrow> jumps ss 1 (- 1)"
      unfolding sorted_wrt_iff_nth_less jumps_def using nth by (smt (verit) order.strict_trans)
    finally show ?thesis .
  qed
  have e: "?d = [] \<longleftrightarrow> \<not> jumps ss (- 1) 1 \<and> \<not> jumps ss 1 (- 1)"
    using up down directions_only [of "filter (\<lambda>s. s \<noteq> 0) ss"] by (cases ?d) auto
  have o: "''TOUCH_ONLY'' \<notin> set ?d" "''NO_CROSS'' \<notin> set ?d" using directions_only [of "filter (\<lambda>s. s \<noteq> 0) ss"] by auto
  show "''CROSS_UP'' \<in> set (crossing_outputs ss) \<longleftrightarrow> jumps ss (- 1) 1" "''CROSS_DOWN'' \<in> set (crossing_outputs ss) \<longleftrightarrow> jumps ss 1 (- 1)"
    "''TOUCH_ONLY'' \<in> set (crossing_outputs ss) \<longleftrightarrow> \<not> jumps ss (- 1) 1 \<and> \<not> jumps ss 1 (- 1) \<and> 0 \<in> set ss"
    "''NO_CROSS'' \<in> set (crossing_outputs ss) \<longleftrightarrow> \<not> jumps ss (- 1) 1 \<and> \<not> jumps ss 1 (- 1) \<and> 0 \<notin> set ss"
    using up down e o by (auto simp: crossing_outputs_def Let_def)
qed

lemma quantized_finite:
  assumes "quantized v p = Inr d" and "d \<noteq> DNaN"
  shows "dec_is_finite d"
proof -
  obtain e where "dec_quantize e (nat p) = Inr d"
    using assms(1) by (auto simp: quantized_def tr_req_def bnd_eq_Inr split: sum.splits)
  then show ?thesis using assms(2) by (cases e) (auto simp: Let_def split: if_splits)
qed

lemma sign_of_Inr:
  assumes "sign_of v t = Inr s"
  shows "v \<noteq> DNaN" "t \<noteq> DNaN" "s \<in> {- 1, 0, 1}"
  using assms by (auto simp: sign_of_def dec_lt_def bnd_eq_Inr split: if_splits)

lemma sign_of_val:
  assumes "sign_of v t = Inr s" and "dec_is_finite v" and "dec_is_finite t"
  shows "s = - 1 \<longleftrightarrow> dec_val v < dec_val t" and "s = 1 \<longleftrightarrow> dec_val t < dec_val v" and "s = 0 \<longleftrightarrow> dec_val v = dec_val t"
  using assms(1) dec_cmp_lt_val [OF assms(2,3)] dec_cmp_lt_val [OF assms(3,2)]
  by (auto simp: sign_of_def dec_lt_def bnd_eq_Inr split: if_splits)

lemma read_point_Inr:
  assumes "read_point target prec point = Inr p" and "quantized v prec = Inr target"
  shows "pp_sign p \<in> {- 1, 0, 1}"
    and "pp_sign p = - 1 \<longleftrightarrow> dec_val (pp_value p) < dec_val target" and "pp_sign p = 1 \<longleftrightarrow> dec_val target < dec_val (pp_value p)"
    and "pp_sign p = 0 \<longleftrightarrow> dec_val (pp_value p) = dec_val target"
proof -
  obtain w where q: "quantized w prec = Inr (pp_value p)" and s: "sign_of (pp_value p) target = Inr (pp_sign p)"
    using assms(1) by (auto simp: read_point_def bnd_eq_Inr)
  note fin = quantized_finite [OF q sign_of_Inr(1) [OF s]] quantized_finite [OF assms(2) sign_of_Inr(2) [OF s]]
  show "pp_sign p \<in> {- 1, 0, 1}" "pp_sign p = - 1 \<longleftrightarrow> dec_val (pp_value p) < dec_val target"
    "pp_sign p = 1 \<longleftrightarrow> dec_val target < dec_val (pp_value p)" "pp_sign p = 0 \<longleftrightarrow> dec_val (pp_value p) = dec_val target"
    using sign_of_Inr(3) [OF s] sign_of_val [OF s fin] by simp_all
qed

lemma detector_output_Inr:
  assumes "detector_output i t ids outputs computable reasons evidence = Inr r"
  shows "dget r ''outputs'' VNone = VList (map VStr (sorted_set outputs))"
    and "dget r ''computability'' VNone = VStr (if computable then ''COMPUTABLE'' else ''NOT_COMPUTABLE'')"
    and "dget r ''reason_codes'' VNone = VList (map VStr (sorted_set reasons))"
    and "dget r ''evidence'' VNone = VDict evidence"
  using assms by (auto simp: detector_output_def detector_body_def bnd_eq_Inr Let_def dget_def)

text \<open>What a detector reports.\<close>

definition reported :: "pydict \<Rightarrow> string \<Rightarrow> bool" where
  "reported r output \<longleftrightarrow> (case dget r ''outputs'' VNone of VList xs \<Rightarrow> VStr output \<in> set xs | _ \<Rightarrow> False)"

lemma reported_output: "detector_output i t ids outputs computable reasons evidence = Inr r \<Longrightarrow> reported r o' \<longleftrightarrow> o' \<in> set outputs"
  by (auto simp: reported_def detector_output_Inr(1))

text \<open>C16: a crossing is reported exactly when the path changes sides. A computable answer rests on at least two
  points of an ordered M1 or tick path in strictly increasing time; an upward crossing is reported exactly
  when some point is strictly below the object and a later one strictly above, at the precision of the
  source; a downward crossing likewise; without a crossing the answer is a touch when some point is on
  the object and no crossing otherwise.\<close>

theorem crossing_exact:
  assumes "detect_fixed_object_crossing object_id object_value ordered_path source_precision as_of_time evidence_mode = Inr r"
    and "dget r ''computability'' VNone = VStr ''COMPUTABLE''"
  shows "\<exists>target points. quantized object_value source_precision = Inr target \<and>
    mapM (read_point target source_precision) ordered_path = Inr points \<and> evidence_mode \<in> {''M1'', ''TICK''} \<and> 2 \<le> length points \<and>
    sorted_wrt (<) (map pp_time points) \<and>
    (let val = (\<lambda>i. dec_val (pp_value (points ! i))); t = dec_val target; n = length points;
         up = (\<exists>i j. i < j \<and> j < n \<and> val i < t \<and> t < val j); down = (\<exists>i j. i < j \<and> j < n \<and> t < val i \<and> val j < t) in
     (reported r ''CROSS_UP'' \<longleftrightarrow> up) \<and> (reported r ''CROSS_DOWN'' \<longleftrightarrow> down) \<and>
     (reported r ''TOUCH_ONLY'' \<longleftrightarrow> \<not> up \<and> \<not> down \<and> (\<exists>i < n. val i = t)) \<and>
     (reported r ''NO_CROSS'' \<longleftrightarrow> \<not> up \<and> \<not> down \<and> (\<forall>i < n. val i \<noteq> t)))"
proof -
  have ins: "insufficient_path a b c n reason = Inr r \<longleftrightarrow> False" for a b c n reason
    using detector_output_Inr(2) assms(2) by (fastforce simp: insufficient_path_def)
  obtain target points i e where m: "evidence_mode \<in> {''M1'', ''TICK''}" and n: "2 \<le> length ordered_path"
    and q: "quantized object_value source_precision = Inr target" and ps: "mapM (read_point target source_precision) ordered_path = Inr points"
    and st: "sorted_wrt (<) (map pp_time points)"
    and o: "detector_output i as_of_time [object_id] (crossing_outputs (map pp_sign points)) True [] e = Inr r"
    using assms(1) by (auto simp: detect_fixed_object_crossing_def ins Let_def bnd_eq_Inr not_less split: if_splits)
  have len: "length points = length ordered_path" using ps by (rule mapM_length)
  have rp: "\<exists>x. read_point target source_precision x = Inr (points ! i)" if "i < length points" for i
    using mapM_mem [OF ps nth_mem [OF that]] by blast
  have sg: "set (map pp_sign points) \<subseteq> {- 1, 0, 1}" using mapM_mem [OF ps] read_point_Inr(1) [OF _ q] by fastforce
  have val: "pp_sign (points ! i) = - 1 \<longleftrightarrow> dec_val (pp_value (points ! i)) < dec_val target"
    "pp_sign (points ! i) = 1 \<longleftrightarrow> dec_val target < dec_val (pp_value (points ! i))"
    "pp_sign (points ! i) = 0 \<longleftrightarrow> dec_val (pp_value (points ! i)) = dec_val target" if "i < length points" for i
    using rp [OF that] read_point_Inr(2-4) [OF _ q] by blast+
  have up: "jumps (map pp_sign points) (- 1) 1 \<longleftrightarrow>
      (\<exists>i j. i < j \<and> j < length points \<and> dec_val (pp_value (points ! i)) < dec_val target \<and> dec_val target < dec_val (pp_value (points ! j)))"
    unfolding jumps_def length_map by (intro ex_cong1 conj_cong refl) (simp_all add: val order.strict_trans)
  have down: "jumps (map pp_sign points) 1 (- 1) \<longleftrightarrow>
      (\<exists>i j. i < j \<and> j < length points \<and> dec_val target < dec_val (pp_value (points ! i)) \<and> dec_val (pp_value (points ! j)) < dec_val target)"
    unfolding jumps_def length_map by (intro ex_cong1 conj_cong refl) (simp_all add: val order.strict_trans)
  have on: "0 \<in> set (map pp_sign points) \<longleftrightarrow> (\<exists>i < length points. dec_val (pp_value (points ! i)) = dec_val target)"
    unfolding in_set_conv_nth length_map using val(3) by auto
  show ?thesis
    unfolding Let_def reported_output [OF o] crossing_outputs_mem [OF sg] up down on using m n q ps st len by auto
qed

subsection \<open>When a change of a graph is computable\<close>

text \<open>A change of a graph is computable exactly between complete inventories in which every node that
  disappeared is superseded; otherwise the answer says so and never that nothing changed.\<close>

theorem graph_change_computable:
  assumes "detect_structural_graph_change p c ss t = Inr r"
  shows "(dget r ''computability'' VNone = VStr ''COMPUTABLE'' \<longleftrightarrow>
      (dget p ''complete_inventory'' VNone = VBool True \<and> dget c ''complete_inventory'' VNone = VBool True) \<and>
      (\<exists>pn cn ps. nodes_of p = Inr pn \<and> nodes_of c = Inr cn \<and> superseded_pairs ss = Inr ps \<and> set pn - set cn \<subseteq> fst ` set ps)) \<and>
    (dget r ''computability'' VNone \<noteq> VStr ''COMPUTABLE'' \<longrightarrow> reported r ''NOT_COMPUTABLE'' \<and> \<not> reported r ''NO_STRUCTURAL_CHANGE'')"
proof (cases "dget p ''complete_inventory'' VNone = VBool True \<and> dget c ''complete_inventory'' VNone = VBool True")
  case False
  then obtain e ids rs where o: "detector_output (detector_id_of ''structure'') t ids [''NOT_COMPUTABLE''] False rs e = Inr r"
    using assms by (auto simp: detect_structural_graph_change_def Let_def)
  show ?thesis using False by (auto simp: detector_output_Inr(2) [OF o] reported_output [OF o])
next
  case True
  have "\<exists>g h ps ids rs e. nodes_of p = Inr (gr_nodes g) \<and> nodes_of c = Inr (gr_nodes h) \<and> superseded_pairs ss = Inr ps \<and>
    detector_output (detector_id_of ''structure'') t ids (graph_outputs g h ps) (unexplained_nodes g h ps = []) rs e = Inr r"
    using assms True unfolding detect_structural_graph_change_def Let_def
  proof (simp only: True simp_thms if_False, elim conjE bndE, goal_cases)
    case (1 pn cn pe ce pd cd ps)
    show ?case
      by (rule exI [of _ "\<lparr>gr_nodes = pn, gr_edges = pe, gr_depths = pd\<rparr>"], rule exI [of _ "\<lparr>gr_nodes = cn, gr_edges = ce, gr_depths = cd\<rparr>"],
        rule exI [of _ ps]) (use 1 in \<open>simp only: graph.simps simp_thms\<close>, blast)
  qed
  then obtain g h ps ids rs e where n: "nodes_of p = Inr (gr_nodes g)" "nodes_of c = Inr (gr_nodes h)" "superseded_pairs ss = Inr ps"
    and o: "detector_output (detector_id_of ''structure'') t ids (graph_outputs g h ps) (unexplained_nodes g h ps = []) rs e = Inr r"
    by blast
  have u: "unexplained_nodes g h ps = [] \<longleftrightarrow> set (gr_nodes g) - set (gr_nodes h) \<subseteq> fst ` set ps"
    by (auto simp: unexplained_nodes_def minus_list_def filter_empty_conv)
  show ?thesis
    using True by (simp add: detector_output_Inr(2) [OF o] reported_output [OF o] u n) (simp add: graph_outputs_def u [symmetric] Let_def)
qed

subsection \<open>Examples\<close>

lemma tr_digest_ok: "plain_data v \<Longrightarrow> \<exists>i. tr_digest pre v = Inr i"
  using plain_json [of v "'',''" "'':''" True False] by (auto simp: tr_digest_def tr_canonical_def is_ok_iff)

lemma detector_output_ok:
  assumes "plain_data (VDict evidence)" and "tr_scan (VDict evidence) = Inr ()" and "detector_id \<in> snd ` set DETECTOR_IDS"
    and "tr_iso t = Inr s" and "outputs \<noteq> []"
  shows "\<exists>r. detector_output detector_id t ids outputs computable reasons evidence = Inr r"
proof -
  have "plain_data (VDict (detector_body detector_id s ids outputs computable reasons evidence))"
    using assms(1) by (simp add: detector_body_def list_all_iff)
  then obtain i where "tr_digest ''C2.DETECTOR.OUTPUT'' (VDict (detector_body detector_id s ids outputs computable reasons evidence)) = Inr i"
    using tr_digest_ok by blast
  then show ?thesis using assms(2-5) by (simp add: detector_output_def tr_req_def)
qed

definition example_path :: "pydict list" where
  "example_path = [[(''time'', VStr ''2026-01-01T00:15:00Z''), (''value'', VStr ''1'')], [(''time'', VStr ''2026-01-01T00:30:00Z''), (''value'', VStr ''3'')]]"

lemma tr_zulu: "0 \<le> t \<Longrightarrow> t < max_ord * day_us \<Longrightarrow> tr_parse_time (iso_base t @ ''Z'') = Inr t"
  by (simp add: tr_parse_time_def zulu_iso fromisoformat_def from_iso_isoformat tr_req_def astimezone_utc_def instant_def)

lemma example_moments:
  "tr_parse_time ''2026-01-01T00:15:00Z'' = Inr 63902823300000000" "tr_parse_time ''2026-01-01T00:30:00Z'' = Inr 63902824200000000"
proof -
  have "iso_base 63902823300000000 @ ''Z'' = ''2026-01-01T00:15:00Z''" "iso_base 63902824200000000 @ ''Z'' = ''2026-01-01T00:30:00Z''"
    by code_simp+
  with tr_zulu [of 63902823300000000] tr_zulu [of 63902824200000000]
  show "tr_parse_time ''2026-01-01T00:15:00Z'' = Inr 63902823300000000" "tr_parse_time ''2026-01-01T00:30:00Z'' = Inr 63902824200000000"
    by (simp_all add: max_ord_def day_us_def)
qed

lemma example_points:
  "quantized (VInt 2) 0 = Inr (DFin False 2 0)"
  "mapM (read_point (DFin False 2 0) 0) example_path = Inr
    [\<lparr>pp_time = 63902823300000000, pp_value = DFin False 1 0, pp_sign = - 1\<rparr>,
     \<lparr>pp_time = 63902824200000000, pp_value = DFin False 3 0, pp_sign = 1\<rparr>]"
proof -
  have q: "quantized (VStr ''1'') 0 = Inr (DFin False 1 0)" "quantized (VStr ''3'') 0 = Inr (DFin False 3 0)"
    "sign_of (DFin False 1 0) (DFin False 2 0) = Inr (- 1)" "sign_of (DFin False 3 0) (DFin False 2 0) = Inr 1"
    by code_simp+
  show "quantized (VInt 2) 0 = Inr (DFin False 2 0)" by code_simp
  show "mapM (read_point (DFin False 2 0) 0) example_path = Inr
    [\<lparr>pp_time = 63902823300000000, pp_value = DFin False 1 0, pp_sign = - 1\<rparr>,
     \<lparr>pp_time = 63902824200000000, pp_value = DFin False 3 0, pp_sign = 1\<rparr>]"
    by (simp add: example_path_def read_point_def dhas_def dget_def example_moments q tr_req_def del: One_nat_def)
qed

theorem crossing_exact_witness:
  "\<exists>r. detect_fixed_object_crossing ''O'' (VInt 2) example_path 0 ''2026-01-01T00:30:00Z'' ''M1'' = Inr r \<and>
    reported r ''CROSS_UP'' \<and> \<not> reported r ''CROSS_DOWN''"
proof -
  let ?e = "[(''evidence_mode'', VStr ''M1''), (''source_precision'', VInt 0), (''object_value'', VStr (dec_str (DFin False 2 0))),
    (''ordered_times'', VList [VStr (tr_iso_instant 63902823300000000), VStr (tr_iso_instant 63902824200000000)]),
    (''ordered_values'', VList [VStr (dec_str (DFin False 1 0)), VStr (dec_str (DFin False 3 0))]), (''relative_signs'', VList [VInt (- 1), VInt 1]),
    (''same_immutable_object'', VBool True), (''ohlc_directional_authority'', VBool False)]"
  have p: "plain_data (VDict ?e)" by simp
  have "list_all (\<lambda>k. py_lower k \<notin> set TR_PROHIBITED_KEYS) [''evidence_mode'', ''source_precision'', ''object_value'', ''ordered_times'',
    ''ordered_values'', ''relative_signs'', ''same_immutable_object'', ''ohlc_directional_authority'']" by code_simp
  then have s: "tr_scan (VDict ?e) = Inr ()" by (simp add: tr_scan_Inr clean_VDict clean_items clean_atoms)
  have d: "detector_id_of ''crossing'' \<in> snd ` set DETECTOR_IDS" by code_simp
  have c: "crossing_outputs [- 1, 1] = [''CROSS_UP'']" by code_simp
  have i: "tr_iso ''2026-01-01T00:30:00Z'' = Inr (tr_iso_instant 63902824200000000)" by (simp add: tr_iso_def example_moments)
  obtain r where o: "detector_output (detector_id_of ''crossing'') ''2026-01-01T00:30:00Z'' [''O''] [''CROSS_UP''] True [] ?e = Inr r"
    using detector_output_ok [OF p s d i, of "[''CROSS_UP'']" "[''O'']" True "[]"] by blast
  have r: "detect_fixed_object_crossing ''O'' (VInt 2) example_path 0 ''2026-01-01T00:30:00Z'' ''M1'' = Inr r"
    using o by (simp add: detect_fixed_object_crossing_def Let_def example_points c) (simp add: example_path_def)
  have k: "dget r ''computability'' VNone = VStr ''COMPUTABLE''" using detector_output_Inr(2) [OF o] by simp
  let ?points = "[\<lparr>pp_time = 63902823300000000, pp_value = DFin False 1 0, pp_sign = - 1\<rparr>,
     \<lparr>pp_time = 63902824200000000, pp_value = DFin False 3 0, pp_sign = 1\<rparr>]"
  have v: "dec_val (DFin False 1 0) < dec_val (DFin False 2 0)" "dec_val (DFin False 2 0) < dec_val (DFin False 3 0)" by code_simp+
  obtain target points where q: "quantized (VInt 2) 0 = Inr target" and m: "mapM (read_point target 0) example_path = Inr points"
    and u: "reported r ''CROSS_UP'' \<longleftrightarrow> (\<exists>i j. i < j \<and> j < length points \<and> dec_val (pp_value (points ! i)) < dec_val target \<and> dec_val target < dec_val (pp_value (points ! j)))"
    and w: "reported r ''CROSS_DOWN'' \<longleftrightarrow> (\<exists>i j. i < j \<and> j < length points \<and> dec_val target < dec_val (pp_value (points ! i)) \<and> dec_val (pp_value (points ! j)) < dec_val target)"
    using crossing_exact [OF r k] unfolding Let_def by (elim exE conjE) (rule that; assumption)
  have t: "target = DFin False 2 0" using q example_points(1) by simp
  have p: "points = ?points" using m unfolding t example_points(2) by simp
  have "reported r ''CROSS_UP''"
    unfolding u t p by (rule exI [of _ 0], rule exI [of _ 1]) (use v in \<open>simp del: One_nat_def\<close>)
  moreover have "\<not> reported r ''CROSS_DOWN''"
    unfolding w t p
  proof clarify
    fix i j assume ij: "i < j" "j < length ?points" and g: "dec_val (DFin False 2 0) < dec_val (pp_value (?points ! i))"
    have "i = 0" using ij by simp
    then show False using g v(1) by (simp del: One_nat_def)
  qed
  ultimately show ?thesis using r by blast
qed

definition example_before :: pydict where
  "example_before = [(''record_id'', VStr ''a''), (''x'', VDict [(''y'', VInt 1)]), (''z'', VInt 5)]"

definition example_after :: pydict where
  "example_after = [(''record_id'', VStr ''b''), (''x'', VDict [(''y'', VInt 2)]), (''z'', VInt 5)]"

definition example_fields :: compared where
  "example_fields = \<lparr>measurement_fields = [''z''], categorical_fields = [''x.y''], reference_fields = [], structural_fields = [], computability_fields = []\<rparr>"

theorem classification_exact_witness:
  "\<exists>r. classify_transition example_before example_after ''2026-01-01T00:15:00Z'' ''2026-01-01T00:30:00Z'' ''P'' ''S'' example_fields = Inr r \<and>
    dget r ''primary_class'' VNone = VStr ''CATEGORICAL_CHANGE''"
proof -
  have sc: "tr_scan (VDict example_before) = Inr ()" "tr_scan (VDict example_after) = Inr ()" by code_simp+
  have id: "record_id_of example_before = ''a''" "record_id_of example_after = ''b''" by code_simp+
  have e: "\<not> py_eq (VInt 1) (VInt 2)" "py_eq (VInt 5) (VInt 5)" by code_simp+
  have dp: "path_differs example_before example_after ''x.y'' = Inr True" "path_differs example_before example_after ''z'' = Inr False"
    using e by (simp_all add: path_differs_def get_path_def example_before_def example_after_def)
  have c: "compare_fields example_before example_after example_fields =
      Inr \<lparr>ch_measurements = [], ch_categories = [''x.y''], ch_references = [], ch_structure = [], ch_computability = []\<rparr>"
    by (simp add: compare_fields_def changed_paths_def example_fields_def sorted_set_def dp)
  have ag: "agrees example_before f s" "agrees example_after f s" if "f = ''profile_id'' \<or> f = ''scope_id''" for f s
    using that by (auto simp: agrees_def example_before_def example_after_def dget_def)
  have cl: "classes_of \<lparr>ch_measurements = [], ch_categories = [''x.y''], ch_references = [], ch_structure = [], ch_computability = []\<rparr> = [''CATEGORICAL_CHANGE'']"
    by (simp add: classes_of_eq)
  let ?c = "\<lparr>ch_measurements = [], ch_categories = [''x.y''], ch_references = [], ch_structure = [], ch_computability = []\<rparr>"
  let ?b = "transition_body example_before example_after 63902823300000000 63902824200000000 ''P'' ''S'' ?c"
  have "plain_data (VDict ?b)" by (simp add: transition_body_def changes_val_def cl Let_def)
  then obtain i where i: "tr_digest ''C2.TRANSITION'' (VDict ?b) = Inr i" using tr_digest_ok by blast
  have r: "classify_transition example_before example_after ''2026-01-01T00:15:00Z'' ''2026-01-01T00:30:00Z'' ''P'' ''S'' example_fields
      = Inr (?b @ [(''transition_id'', VStr i)])"
    unfolding classify_transition_def example_moments id c by (simp add: sc tr_req_def ag i)
  obtain ch where "dget (?b @ [(''transition_id'', VStr i)]) ''changed_paths'' VNone = changes_val ch"
    and "dget (?b @ [(''transition_id'', VStr i)]) ''primary_class'' VNone = VStr (hd (classes_of ch))"
    using classification_exact [OF r] by blast
  moreover have "dget (?b @ [(''transition_id'', VStr i)]) ''changed_paths'' VNone = changes_val ?c" by (simp add: transition_body_def Let_def dget_def)
  ultimately have "dget (?b @ [(''transition_id'', VStr i)]) ''primary_class'' VNone = VStr ''CATEGORICAL_CHANGE''"
    by (auto simp: changes_val_def classes_of_eq)
  then show ?thesis using r by blast
qed

end
