(* ===== verification/OC_Context.thy ===== *)
theory OC_Context
  imports Py_Json Py_Sha256 Py_Time Py_Walk
begin

section \<open>OccurrenceContext: identity and context of an occurrence\<close>

text \<open>
  \<^verbatim>\<open>src/src/ovc/context/occurrence_context/\<close>: \<^verbatim>\<open>serialization.py\<close>, \<^verbatim>\<open>firewall.py\<close>, \<^verbatim>\<open>chronology.py\<close>,
  \<^verbatim>\<open>models.py\<close>, \<^verbatim>\<open>anchors.py\<close>, \<^verbatim>\<open>dependencies.py\<close>, the adapters of clocks, calendars and C2 states,
  \<^verbatim>\<open>builder.py\<close>, \<^verbatim>\<open>supersession.py\<close> and \<^verbatim>\<open>replay.py\<close>. A time is its instant in microseconds. The lemmas
  show that a context is never valid before anything it depends on, that its identity and its hash
  ignore the order and the repetition of what it refers to and the transient entries of its lineage,
  that no forbidden field gets into a record, and that a replay ignores the order of its requests.
  The reason code that an \<^verbatim>\<open>OccurrenceContextError\<close> carries beside its message is not modelled.
\<close>

subsection \<open>Serialization and the forbidden fields\<close>

fun has_float :: "pyval \<Rightarrow> bool" where
  "has_float (VFloat t) = True"
| "has_float (VList xs) = list_ex has_float xs"
| "has_float (VTuple xs) = list_ex has_float xs"
| "has_float (VDict kvs) = list_ex (\<lambda>(k, v). has_float v) kvs"
| "has_float _ = False"

definition canonical_json :: "pyval \<Rightarrow> string result" where
  "canonical_json v =
    (if has_float v then Inl (Exn TypeError ''binary float is forbidden in canonical OccurrenceContext serialization'')
     else json_gen '','' '':'' True False v)"

definition sha256_payload :: "string \<Rightarrow> pyval \<Rightarrow> string result" where
  "sha256_payload namespace v = bnd (canonical_json v) (\<lambda>s. Inr (''sha256:'' @ sha256 (namespace @ [CHR 0x00] @ s)))"

definition oc_logical_hash :: "pyval \<Rightarrow> string result" where
  "oc_logical_hash v = sha256_payload ''OVC.LOGICAL'' v"

definition FORBIDDEN_KEYS :: "string list" where
  "FORBIDDEN_KEYS =
    [''outcome'', ''future_return'', ''mfe'', ''mae'', ''probability'', ''edge'', ''risk'', ''exposure'', ''trade'', ''execution'',
     ''validation_occurrence_payload'', ''vector'', ''vectors'', ''embedding'', ''embeddings'', ''features'', ''feature_vector'',
     ''normalized_features'', ''normalised_features'']"

definition oc_forbidden :: "string \<Rightarrow> bool" where
  "oc_forbidden key \<longleftrightarrow> py_lower key \<in> set FORBIDDEN_KEYS"

text \<open>\<^verbatim>\<open>_walk\<close>, which names the key it refuses, for any test and error.\<close>

fun walk :: "(string \<Rightarrow> bool) \<Rightarrow> (string \<Rightarrow> exn) \<Rightarrow> pyval \<Rightarrow> unit result" where
  "walk bad err (VDict kvs) =
     bnd (mapM (\<lambda>(key, child). if bad key then Inl (err key) else walk bad err child) kvs) (\<lambda>_. Inr ())"
| "walk bad err (VList xs) = bnd (mapM (walk bad err) xs) (\<lambda>_. Inr ())"
| "walk bad err (VTuple xs) = bnd (mapM (walk bad err) xs) (\<lambda>_. Inr ())"
| "walk bad err v = Inr ()"

definition assert_no_forbidden_fields :: "pyval \<Rightarrow> unit result" where
  "assert_no_forbidden_fields v = walk oc_forbidden (\<lambda>key. Exn ValueError (''OC_DEP_FORBIDDEN_FIELD:'' @ key)) v"

definition assert_upstream_unchanged :: "string \<Rightarrow> pyval \<Rightarrow> unit result" where
  "assert_upstream_unchanged before_fingerprint value_after =
    bnd (oc_logical_hash value_after) (\<lambda>h. req ValueError (h = before_fingerprint) ''OC_ID_ANCHOR_MUTATION'')"

subsection \<open>Chronology\<close>

definition parse_rfc3339 :: "string \<Rightarrow> int result" where
  "parse_rfc3339 s =
    bnd (fromisoformat (str_replace ''Z'' ''+00:00'' s)) (\<lambda>d.
    bnd (req ValueError (offset d \<noteq> None) ''OccurrenceContext timestamps must be timezone-aware'') (\<lambda>_.
    astimezone_utc d))"

text \<open>\<^verbatim>\<open>parse_rfc3339(v)\<close> of a value of unknown type.\<close>

definition parse_value :: "pyval \<Rightarrow> int result" where
  "parse_value v = (case v of VStr s \<Rightarrow> parse_rfc3339 s | _ \<Rightarrow> Inl (Exn AttributeError []))"

text \<open>Microseconds are printed exactly when they are not zero, as \<^verbatim>\<open>isoformat\<close> does by itself.\<close>

definition format_rfc3339 :: "int \<Rightarrow> string" where
  "format_rfc3339 t = str_replace ''+00:00'' ''Z'' (isoformat_utc t)"

definition compute_first_valid_time :: "string \<Rightarrow> string list \<Rightarrow> string list \<Rightarrow> string \<Rightarrow> string result" where
  "compute_first_valid_time anchor_time dependency_times registry_times confirmation =
    bnd (parse_rfc3339 anchor_time) (\<lambda>a.
    bnd (parse_rfc3339 confirmation) (\<lambda>c.
    bnd (mapM parse_rfc3339 dependency_times) (\<lambda>ds.
    bnd (mapM parse_rfc3339 registry_times) (\<lambda>rs.
    Inr (format_rfc3339 (fold max (c # ds @ rs) a))))))"

fun any_later :: "int \<Rightarrow> string list \<Rightarrow> bool result" where
  "any_later candidate [] = Inr False"
| "any_later candidate (x # xs) = bnd (parse_rfc3339 x) (\<lambda>t. if t > candidate then Inr True else any_later candidate xs)"

definition assert_not_backdated :: "string \<Rightarrow> string list \<Rightarrow> unit result" where
  "assert_not_backdated proposed required_times =
    bnd (parse_rfc3339 proposed) (\<lambda>candidate.
    bnd (any_later candidate required_times) (\<lambda>late.
    req ValueError (\<not> late) ''OC_TIME_BACKDATE_DENIED''))"

subsection \<open>Anchors and dependencies\<close>

record anchor_ref =
  an_kind :: string
  an_id :: string
  an_schema_id :: string
  an_logical_hash :: string
  an_first_valid_time :: string
  an_release_id :: pyval
  an_structural :: pyval

definition anchor_dict :: "anchor_ref \<Rightarrow> pydict result" where
  "anchor_dict a =
    bnd (if an_structural a = VNone then Inr VNone else bnd (as_dict (an_structural a)) (\<lambda>d. Inr (VDict d))) (\<lambda>structural.
    Inr [(''anchor_kind'', VStr (an_kind a)), (''anchor_id'', VStr (an_id a)), (''anchor_schema_id'', VStr (an_schema_id a)),
         (''anchor_logical_hash'', VStr (an_logical_hash a)), (''anchor_first_valid_time'', VStr (an_first_valid_time a)),
         (''source_release_id'', an_release_id a), (''structural_anchor_ref'', structural)])"

record dependency_ref =
  dr_kind :: string
  dr_record_id :: string
  dr_schema_id :: string
  dr_logical_hash :: string
  dr_first_valid_time :: string
  dr_role :: string
  dr_required :: bool
  dr_release_id :: "string option"

text \<open>A text or \<^verbatim>\<open>None\<close>.\<close>

definition opt_text :: "string option \<Rightarrow> pyval" where
  "opt_text v = (case v of None \<Rightarrow> VNone | Some s \<Rightarrow> VStr s)"

definition dependency_dict :: "dependency_ref \<Rightarrow> pydict" where
  "dependency_dict d =
    [(''dependency_kind'', VStr (dr_kind d)), (''record_id'', VStr (dr_record_id d)), (''schema_id'', VStr (dr_schema_id d)),
     (''logical_hash'', VStr (dr_logical_hash d)), (''first_valid_time'', VStr (dr_first_valid_time d)),
     (''dependency_role'', VStr (dr_role d)), (''source_release_id'', opt_text (dr_release_id d)), (''required'', VBool (dr_required d))]"

definition ANCHOR_FIELDS :: "string list" where
  "ANCHOR_FIELDS = [''anchor_kind'', ''anchor_id'', ''anchor_schema_id'', ''anchor_logical_hash'', ''anchor_first_valid_time'']"

definition anchor_from_mapping :: "pydict \<Rightarrow> anchor_ref result" where
  "anchor_from_mapping d =
    (let missing = filter (\<lambda>f. \<not> py_bool (dget d f VNone)) ANCHOR_FIELDS;
         text_of = (\<lambda>f. py_str (dget d f VNone)) in
     bnd (req ValueError (missing = []) (''OC_AVAIL_ANCHOR_MISSING:'' @ join '','' missing)) (\<lambda>_.
     Inr \<lparr>an_kind = text_of ''anchor_kind'', an_id = text_of ''anchor_id'', an_schema_id = text_of ''anchor_schema_id'',
          an_logical_hash = text_of ''anchor_logical_hash'', an_first_valid_time = text_of ''anchor_first_valid_time'',
          an_release_id = dget d ''source_release_id'' VNone, an_structural = dget d ''structural_anchor_ref'' VNone\<rparr>))"

text \<open>\<^verbatim>\<open>dependency_set_hash\<close> of \<^verbatim>\<open>dependencies.py\<close>: the list is sorted by its texts, repetitions kept.\<close>

definition dependency_list_hash :: "dependency_ref list \<Rightarrow> string result" where
  "dependency_list_hash deps =
    (let rows = map dependency_dict deps in
     bnd (mapM (\<lambda>d. canonical_json (VDict d)) rows) (\<lambda>texts.
     sha256_payload ''OVC.OCCURRENCE_CONTEXT.DEPENDENCIES'' (VList (map VDict (map fst (sort_key snd (zip rows texts)))))))"

definition dependency_first_valid_times :: "dependency_ref list \<Rightarrow> string list" where
  "dependency_first_valid_times deps = map dr_first_valid_time deps"

definition OC_CLOCKS :: "string list" where
  "OC_CLOCKS = [''15M'', ''2H_A_L'']"

text \<open>\<^verbatim>\<open>scale_id or clock_id\<close> and the authority of a lattice.\<close>

definition clock_scale_context :: "string \<Rightarrow> string option \<Rightarrow> string option \<Rightarrow> pyval \<Rightarrow> pydict result" where
  "clock_scale_context clock_id scale_id lattice_id position =
    bnd (req OccurrenceContextError (clock_id \<in> set OC_CLOCKS) ''OC_AUTH_NEW_CLOCK_DENIED'') (\<lambda>_.
    Inr [(''clock_id'', VStr clock_id),
         (''scale_id'', VStr (case scale_id of Some s \<Rightarrow> if s = [] then clock_id else s | None \<Rightarrow> clock_id)),
         (''lattice_id'', opt_text lattice_id), (''canonical_clock_position'', position),
         (''lattice_authority'', VStr (if lattice_id \<noteq> None \<and> lattice_id \<noteq> Some [] then ''REFERENCE_ONLY_NO_ACTIVATION'' else ''NONE''))])"

definition SESSION_REGISTRY_ID :: string where
  "SESSION_REGISTRY_ID = ''OC.CALENDAR_SESSION_BINDINGS.v0.1''"

definition calendar_context_for_interval :: "string \<Rightarrow> pydict option \<Rightarrow> pydict result" where
  "calendar_context_for_interval start source_quality =
    bnd (parse_rfc3339 start) (\<lambda>t.
    case ord2ymd (t div day_us + 1) of (y, m, d) \<Rightarrow>
    Inr [(''calendar_year'', VInt y), (''calendar_month'', VInt (int m)), (''calendar_quarter'', VInt ((int m - 1) div 3 + 1)),
         (''era_partition_ids'', VList []),
         (''calendar_quality_context'', VDict (case source_quality of None \<Rightarrow> [(''status'', VStr ''AVAILABLE'')]
            | Some q \<Rightarrow> if q = [] then [(''status'', VStr ''AVAILABLE'')] else q))])"

definition session_context_for_interval :: "string \<Rightarrow> pydict result" where
  "session_context_for_interval start =
    bnd (parse_rfc3339 start) (\<lambda>_.
    Inr [(''session_membership_ids'', VList []), (''a_l_block_id'', VNone), (''registry_id'', VStr SESSION_REGISTRY_ID),
         (''status'', VStr ''UNAVAILABLE''), (''reason_codes'', VList [VStr ''OC_SESSION_UNRESOLVED''])])"

definition assert_session_not_guessed :: "pydict \<Rightarrow> unit result" where
  "assert_session_not_guessed session_context =
    req OccurrenceContextError
      (\<not> (py_bool (dget session_context ''session_membership_ids'' VNone) \<or> dget session_context ''a_l_block_id'' VNone \<noteq> VNone))
      ''session/A-L membership requires a governed registry''"

subsection \<open>C2 states\<close>

definition C2_ANCHOR_FIELDS :: "string list" where
  "C2_ANCHOR_FIELDS = [''c2_state_id'', ''first_valid_time'', ''clock'', ''side'', ''evaluation_scope_id'']"

definition c2_anchor_from_state :: "pydict \<Rightarrow> anchor_ref result" where
  "c2_anchor_from_state state =
    (let missing = filter (\<lambda>f. \<not> py_bool (dget state f VNone)) C2_ANCHOR_FIELDS in
     bnd (req OccurrenceContextError (missing = []) (join '','' missing)) (\<lambda>_.
     bnd (ditem state ''evaluation_scope_id'') (\<lambda>scope.
     bnd (req OccurrenceContextError (prefix ''GBPUSD-'' (py_str scope)) ''OC_AUTH_NEW_INSTRUMENT_DENIED'') (\<lambda>_.
     bnd (bnd (ditem state ''side'') (\<lambda>v. in_strs v [''BID'', ''ASK''])) (\<lambda>side_ok.
     bnd (req OccurrenceContextError side_ok ''OC_AUTH_NEW_SIDE_DENIED'') (\<lambda>_.
     bnd (bnd (ditem state ''clock'') (\<lambda>v. in_strs v OC_CLOCKS)) (\<lambda>clock_ok.
     bnd (req OccurrenceContextError clock_ok ''OC_AUTH_NEW_CLOCK_DENIED'') (\<lambda>_.
     bnd (oc_logical_hash (VDict state)) (\<lambda>h.
     bnd (ditem state ''c2_state_id'') (\<lambda>sid.
     bnd (ditem state ''first_valid_time'') (\<lambda>fvt.
     Inr \<lparr>an_kind = ''C2_OBSERVATION'', an_id = py_str sid, an_schema_id = ''c2_parallel_state/v0_1'', an_logical_hash = h,
          an_first_valid_time = py_str fvt,
          an_release_id = VStr (py_str (py_or (py_or (dget state ''opt_a_release_id'' VNone) (dget state ''c1_release_id'' VNone)) (VStr []))),
          an_structural = VNone\<rparr>)))))))))))"

definition c2_source_context :: "pydict \<Rightarrow> pydict result" where
  "c2_source_context state =
    bnd (c2_anchor_from_state state) (\<lambda>anchor.
    bnd (ditem state ''side'') (\<lambda>side.
    Inr [(''instrument_id'', VStr ''GBPUSD''), (''price_side'', VStr (py_str side)), (''source_release_id'', an_release_id anchor),
         (''manifest_id'', VStr (py_str (py_or (py_or (dget state ''opt_a_manifest_id'' VNone) (dget state ''c1_manifest_id'' VNone)) (VStr [])))),
         (''source_manifest_hash'', VNone)]))"

definition c2_dependency :: "pydict \<Rightarrow> dependency_ref result" where
  "c2_dependency state =
    bnd (c2_anchor_from_state state) (\<lambda>anchor.
    Inr \<lparr>dr_kind = ''C2_STATE'', dr_record_id = an_id anchor, dr_schema_id = an_schema_id anchor,
         dr_logical_hash = an_logical_hash anchor, dr_first_valid_time = an_first_valid_time anchor, dr_role = ''ANCHOR'',
         dr_required = True, dr_release_id = (case an_release_id anchor of VStr s \<Rightarrow> Some s | _ \<Rightarrow> None)\<rparr>)"

subsection \<open>Building a context\<close>

definition ALLOWED_ANCHORS :: "string list" where
  "ALLOWED_ANCHORS = [''C2_OBSERVATION'', ''C2E_EPISODE_GENESIS'', ''C2E_EPISODE_SNAPSHOT'', ''C2E_PHASE_SEGMENT'',
     ''SRI_OCCURRENCE_REPRESENTATION'', ''FDI_OCCURRENCE_ASSIGNMENT'']"

definition ALIAS_ANCHORS :: "string list" where
  "ALIAS_ANCHORS = [''SRI_OCCURRENCE_REPRESENTATION'', ''FDI_OCCURRENCE_ASSIGNMENT'']"

definition ALLOWED_AUTHORITY_STATES :: "string list" where
  "ALLOWED_AUTHORITY_STATES = [''INACTIVE'', ''SHADOW'', ''RESEARCH_ONLY'', ''UNAVAILABLE'', ''QUARANTINED'']"

definition ALLOWED_AVAILABILITY :: "string list" where
  "ALLOWED_AVAILABILITY = [''AVAILABLE'', ''PARTIAL'', ''NOT_EVALUABLE'', ''UNAVAILABLE'', ''STALE'', ''CONFLICT'', ''CENSORED'', ''QUARANTINED'']"

definition EPHEMERAL_LINEAGE_KEYS :: "string list" where
  "EPHEMERAL_LINEAGE_KEYS = [''path'', ''local_path'', ''hostname'', ''host'', ''worker'', ''worker_id'', ''pid'', ''runtime'',
     ''runtime_seconds'', ''wall_clock_runtime'', ''presentation_order'']"

record build_request =
  br_anchor :: anchor_ref
  br_source :: pydict
  br_research_role :: string
  br_interval :: pydict
  br_calendar :: pydict
  br_session :: pydict
  br_clock :: pydict
  br_confirmation_time :: string
  br_pack_id :: string
  br_pack_version :: string
  br_role_map_id :: string
  br_parents :: "pydict list"
  br_market :: "pydict option"
  br_episode :: "pydict option"
  br_auxiliary :: "pydict list"
  br_dependencies :: "dependency_ref list"
  br_registries :: pydict
  br_registry_times :: "string list"
  br_availability :: string
  br_reasons :: "string list"
  br_authority :: string
  br_lineage :: pydict

definition oc_error :: "string \<Rightarrow> 'a result" where
  "oc_error message = Inl (Exn OccurrenceContextError message)"

definition structural_identity_anchor :: "anchor_ref \<Rightarrow> pydict result" where
  "structural_identity_anchor a =
    (if an_kind a \<notin> set ALIAS_ANCHORS then anchor_dict a
     else case an_structural a of
       VDict nested \<Rightarrow>
         bnd (mapM (\<lambda>f. req OccurrenceContextError (py_bool (dget nested f VNone)) (''alias structural anchor missing '' @ f))
           [''anchor_kind'', ''anchor_id'', ''anchor_schema_id'', ''anchor_logical_hash'']) (\<lambda>_. Inr nested)
     | _ \<Rightarrow> oc_error ''alias anchor lacks structural_anchor_ref'')"

definition build_occurrence_key :: "anchor_ref \<Rightarrow> string result" where
  "build_occurrence_key a =
    bnd (req OccurrenceContextError (an_kind a \<in> set ALLOWED_ANCHORS) (''unsupported anchor kind '' @ an_kind a)) (\<lambda>_.
    bnd (structural_identity_anchor a) (\<lambda>structural.
    bnd (mapM (\<lambda>f. bnd (ditem structural f) (\<lambda>v. Inr (f, v)))
      [''anchor_kind'', ''anchor_id'', ''anchor_schema_id'', ''anchor_logical_hash'']) (\<lambda>payload.
    sha256_payload ''OVC.OCCURRENCE'' (VDict payload))))"

text \<open>\<^verbatim>\<open>_canonical_mapping_sequence\<close>: one mapping per text, the last one, in the order of the texts.\<close>

definition row_text :: "pydict \<Rightarrow> string result" where
  "row_text d = canonical_json (VDict d)"

definition canonical_rows :: "pydict list \<Rightarrow> pydict list result" where
  "canonical_rows rows =
    bnd (mapM row_text rows) (\<lambda>texts.
    Inr (map (\<lambda>s. the (map_of (rev (zip texts rows)) s)) (sorted_set texts)))"

definition rows_val :: "pydict list \<Rightarrow> pyval" where
  "rows_val rows = VList (map VDict rows)"

fun strip_ephemeral_lineage :: "pyval \<Rightarrow> pyval" where
  "strip_ephemeral_lineage (VDict kvs) =
     VDict (map (\<lambda>(k, v). (k, strip_ephemeral_lineage v)) (filter (\<lambda>(k, v). py_lower k \<notin> set EPHEMERAL_LINEAGE_KEYS) kvs))"
| "strip_ephemeral_lineage (VTuple xs) = VList (map strip_ephemeral_lineage xs)"
| "strip_ephemeral_lineage (VList xs) = VList (map strip_ephemeral_lineage xs)"
| "strip_ephemeral_lineage v = v"

definition dict_of :: "pyval \<Rightarrow> pydict" where
  "dict_of v = (case v of VDict kvs \<Rightarrow> kvs | _ \<Rightarrow> [])"

definition canonical_context_mapping :: "pydict \<Rightarrow> string list \<Rightarrow> pydict" where
  "canonical_context_mapping d names =
    fold (\<lambda>f d. case map_of d f of
        Some (VList xs) \<Rightarrow> AList.update f (VList (map VStr (sorted_set (map py_str xs)))) d
      | Some (VTuple xs) \<Rightarrow> AList.update f (VList (map VStr (sorted_set (map py_str xs)))) d
      | _ \<Rightarrow> d) names d"

definition opt_dict :: "pydict option \<Rightarrow> pyval" where
  "opt_dict d = (case d of None \<Rightarrow> VNone | Some kvs \<Rightarrow> VDict kvs)"

definition screened :: "build_request \<Rightarrow> pyval" where
  "screened r = VDict
    [(''source_context'', VDict (br_source r)), (''calendar_context'', VDict (br_calendar r)),
     (''session_context'', VDict (br_session r)), (''clock_scale_context'', VDict (br_clock r)),
     (''parent_context_refs'', rows_val (br_parents r)), (''market_condition_context'', opt_dict (br_market r)),
     (''episode_relative_context'', opt_dict (br_episode r)), (''auxiliary_refs'', rows_val (br_auxiliary r)),
     (''lineage'', VDict (br_lineage r))]"

definition validate_request :: "build_request \<Rightarrow> unit result" where
  "validate_request r =
    bnd (req OccurrenceContextError (py_eq (dget (br_source r) ''instrument_id'' VNone) (VStr ''GBPUSD'')) ''OC_AUTH_NEW_INSTRUMENT_DENIED'') (\<lambda>_.
    bnd (in_strs (dget (br_source r) ''price_side'' VNone) [''BID'', ''ASK'']) (\<lambda>side_ok.
    bnd (req OccurrenceContextError side_ok ''OC_AUTH_NEW_SIDE_DENIED'') (\<lambda>_.
    bnd (req OccurrenceContextError (br_research_role r \<noteq> ''VALIDATION_METADATA_ONLY'') ''OC_AUTH_VALIDATION_ACCESS_DENIED'') (\<lambda>_.
    bnd (req OccurrenceContextError (br_research_role r \<in> {''DISCOVERY'', ''DEVELOPMENT''}) ''unsupported research role'') (\<lambda>_.
    bnd (req OccurrenceContextError (br_authority r \<in> set ALLOWED_AUTHORITY_STATES) ''activating authority state denied'') (\<lambda>_.
    bnd (req OccurrenceContextError (br_availability r \<in> set ALLOWED_AVAILABILITY) ''invalid availability state'') (\<lambda>_.
    bnd (req OccurrenceContextError (br_episode r = None \<or> prefix ''C2E_'' (an_kind (br_anchor r))) ''OC_C2E_REQUIRED_FOR_ELAPSED_DURATION'') (\<lambda>_.
    assert_no_forbidden_fields (screened r)))))))))"

definition context_identity :: "build_request \<Rightarrow> pydict \<Rightarrow> string \<Rightarrow> string \<Rightarrow> string \<Rightarrow> string \<Rightarrow> pyval" where
  "context_identity r anchor key deps_hash registry_hash fvt = VDict
    [(''schema_version'', VStr ''0.1''), (''context_pack_id'', VStr (br_pack_id r)), (''context_pack_version'', VStr (br_pack_version r)),
     (''occurrence_key'', VStr key), (''anchor_ref'', VDict anchor), (''context_role_map_id'', VStr (br_role_map_id r)),
     (''dependency_set_hash'', VStr deps_hash), (''registry_binding_hash'', VStr registry_hash), (''first_valid_time'', VStr fvt)]"

definition context_record ::
  "build_request \<Rightarrow> pydict \<Rightarrow> string \<Rightarrow> string \<Rightarrow> string \<Rightarrow> string \<Rightarrow> string \<Rightarrow> pydict list \<Rightarrow> pydict list \<Rightarrow> pydict list \<Rightarrow> pydict" where
  "context_record r anchor key deps_hash registry_hash fvt cid deps parents auxiliary =
    [(''schema'', VStr ''occurrence_context/v0_1''), (''schema_version'', VStr ''0.1''), (''occurrence_context_id'', VStr cid),
     (''occurrence_key'', VStr key), (''context_pack_id'', VStr (br_pack_id r)), (''context_pack_version'', VStr (br_pack_version r)),
     (''anchor_ref'', VDict anchor), (''source_context'', VDict (br_source r)), (''research_role'', VStr (br_research_role r)),
     (''occurrence_interval'', VDict (br_interval r)),
     (''calendar_context'', VDict (canonical_context_mapping (br_calendar r) [''era_partition_ids''])),
     (''session_context'', VDict (canonical_context_mapping (br_session r) [''session_membership_ids'', ''reason_codes''])),
     (''clock_scale_context'', VDict (br_clock r)), (''parent_context_refs'', rows_val parents),
     (''market_condition_context'', opt_dict (br_market r)), (''episode_relative_context'', opt_dict (br_episode r)),
     (''auxiliary_refs'', rows_val auxiliary), (''context_role_map_id'', VStr (br_role_map_id r)), (''dependency_refs'', rows_val deps),
     (''first_valid_time'', VStr fvt), (''availability'', VDict [(''status'', VStr (br_availability r))]),
     (''reason_codes'', VList (map VStr (sorted_set (br_reasons r)))), (''authority_state'', VStr (br_authority r)),
     (''lineage'', VDict (AList.update ''registry_binding_hash'' (VStr registry_hash) (AList.update ''dependency_set_hash'' (VStr deps_hash)
        (dict_of (strip_ephemeral_lineage (VDict (br_lineage r)))))))]"

definition build_context :: "build_request \<Rightarrow> pydict result" where
  "build_context r =
    bnd (validate_request r) (\<lambda>_.
    bnd (anchor_dict (br_anchor r)) (\<lambda>anchor.
    bnd (build_occurrence_key (br_anchor r)) (\<lambda>key.
    bnd (compute_first_valid_time (an_first_valid_time (br_anchor r)) (map dr_first_valid_time (br_dependencies r))
      (br_registry_times r) (br_confirmation_time r)) (\<lambda>fvt.
    bnd (canonical_rows (map dependency_dict (br_dependencies r))) (\<lambda>deps.
    bnd (sha256_payload ''OVC.OCCURRENCE_CONTEXT.DEPENDENCIES'' (rows_val deps)) (\<lambda>deps_hash.
    bnd (sha256_payload ''OVC.OCCURRENCE_CONTEXT.REGISTRIES'' (VDict (br_registries r))) (\<lambda>registry_hash.
    bnd (sha256_payload ''OVC.OCCURRENCE_CONTEXT'' (context_identity r anchor key deps_hash registry_hash fvt)) (\<lambda>cid.
    bnd (canonical_rows (br_parents r)) (\<lambda>parents.
    bnd (canonical_rows (br_auxiliary r)) (\<lambda>auxiliary.
    let record = context_record r anchor key deps_hash registry_hash fvt cid deps parents auxiliary in
    bnd (assert_no_forbidden_fields (VDict record)) (\<lambda>_.
    bnd (oc_logical_hash (VDict record)) (\<lambda>h.
    Inr (AList.update ''logical_hash'' (VStr h) record)))))))))))))"

subsection \<open>Supersession and replay\<close>

definition create_supersession :: "pydict \<Rightarrow> pydict \<Rightarrow> string \<Rightarrow> string list \<Rightarrow> string list \<Rightarrow> pydict result" where
  "create_supersession prior' successor reason_code changed_dependencies changed_registries =
    bnd (ditem prior' ''occurrence_key'') (\<lambda>pk.
    bnd (ditem successor ''occurrence_key'') (\<lambda>sk.
    bnd (req ValueError (py_eq pk sk) ''OC_ID_ANCHOR_MUTATION'') (\<lambda>_.
    bnd (ditem prior' ''occurrence_context_id'') (\<lambda>pi'.
    bnd (ditem successor ''occurrence_context_id'') (\<lambda>si.
    bnd (req ValueError (\<not> py_eq pi' si) ''OC_ID_LOGICAL_HASH_MISMATCH'') (\<lambda>_.
    bnd (ditem successor ''first_valid_time'') (\<lambda>sf.
    bnd (parse_value sf) (\<lambda>st.
    bnd (bnd (ditem prior' ''first_valid_time'') parse_value) (\<lambda>pt.
    bnd (req ValueError (\<not> st < pt) ''OC_TIME_BACKDATE_DENIED'') (\<lambda>_.
    let payload = [(''occurrence_key'', pk), (''prior_occurrence_context_id'', pi'), (''successor_occurrence_context_id'', si),
          (''reason_code'', VStr reason_code), (''changed_dependency_ids'', VList (map VStr (sorted_set changed_dependencies))),
          (''changed_registry_ids'', VList (map VStr (sorted_set changed_registries))), (''first_valid_time'', sf),
          (''authority_effect'', VStr ''NONE'')] in
    bnd (sha256_payload ''OVC.OCCURRENCE_CONTEXT.SUPERSESSION'' (VDict payload)) (\<lambda>i.
    let result' = (''supersession_id'', VStr i) # payload in
    bnd (oc_logical_hash (VDict result')) (\<lambda>h.
    Inr (result' @ [(''logical_hash'', VStr h)])))))))))))))"

definition context_key :: "pydict \<Rightarrow> string" where
  "context_key d = str_of (dget d ''occurrence_context_id'' VNone)"

definition replay_contexts :: "build_request list \<Rightarrow> pydict result" where
  "replay_contexts requests =
    bnd (mapM build_context requests) (\<lambda>built.
    let records = sort_key context_key built in
    bnd (req ValueError (distinct (map context_key records)) ''OC_ID_LOGICAL_HASH_MISMATCH'') (\<lambda>_.
    let payload = [(''schema'', VStr ''occurrence_context_replay/v0_1''), (''records'', rows_val records)] in
    bnd (oc_logical_hash (VDict payload)) (\<lambda>h.
    Inr (payload @ [(''logical_hash'', VStr h)]))))"

subsection \<open>Times\<close>

lemma parse_rfc3339_Inr:
  "parse_rfc3339 v = Inr t \<longleftrightarrow> (\<exists>d. from_iso (str_replace ''Z'' ''+00:00'' v) = Some d \<and> offset d \<noteq> None \<and>
     t = instant d \<and> 0 \<le> t \<and> t < max_ord * day_us)"
  by (auto simp: parse_rfc3339_def fromisoformat_def bnd_eq_Inr req_eq_Inr astimezone_utc_def split: option.splits if_splits)

lemma parse_formatted: "parse_rfc3339 s = Inr t \<Longrightarrow> parse_rfc3339 (format_rfc3339 t) = Inr t"
proof -
  assume "parse_rfc3339 s = Inr t"
  then have rg: "0 \<le> t" "t < max_ord * day_us" by (auto simp: parse_rfc3339_Inr)
  show ?thesis
    unfolding parse_rfc3339_Inr format_rfc3339_def iso_zulu zulu_iso from_iso_isoformat [OF rg] using rg by (simp add: instant_def)
qed

lemma any_later_Inr:
  "mapM parse_rfc3339 xs = Inr ts \<Longrightarrow> any_later t xs = Inr (\<exists>u \<in> set ts. t < u)"
  by (induction xs arbitrary: ts) (auto simp: bnd_eq_Inr)

lemma not_backdated_Inr:
  assumes "parse_rfc3339 p = Inr t" and "mapM parse_rfc3339 xs = Inr ts"
  shows "assert_not_backdated p xs = Inr u \<longleftrightarrow> (\<forall>x \<in> set ts. x \<le> t)"
  using assms by (auto simp: assert_not_backdated_def any_later_Inr req_eq_Inr not_less)

lemma fold_max: "fold max xs (a :: int) = Max (set (a # xs))"
  by (simp only: Max.set_eq_fold)

lemma compute_first_valid_time_Inr:
  "compute_first_valid_time a ds rs c = Inr s \<longleftrightarrow>
     (\<exists>ts. mapM parse_rfc3339 (a # c # ds @ rs) = Inr ts \<and> s = format_rfc3339 (Max (set ts)))"
proof -
  have "compute_first_valid_time a ds rs c =
    bnd (mapM parse_rfc3339 (a # c # ds @ rs)) (\<lambda>ts. Inr (format_rfc3339 (Max (set ts))))"
    unfolding compute_first_valid_time_def by (simp only: mapM.simps mapM_append bnd_assoc bnd_Inr fold_max)
  then show ?thesis by (simp only: bnd_eq_Inr sum.inject) blast
qed

lemma parsed_member: "mapM parse_rfc3339 xs = Inr ts \<Longrightarrow> t \<in> set ts \<Longrightarrow> parse_rfc3339 (format_rfc3339 t) = Inr t"
  by (drule (1) mapM_mem) (elim bexE, rule parse_formatted)

subsection \<open>Loops over the same set of items\<close>

lemma mapM_set:
  assumes "mapM f xs = Inr ys" and "set zs \<subseteq> set xs"
  shows "mapM f zs = Inr (map (projr \<circ> f) zs)" and "\<And>z. z \<in> set zs \<Longrightarrow> f z = Inr (projr (f z))"
    and "ys = map (projr \<circ> f) xs"
proof -
  have "\<forall>x \<in> set xs. is_ok (f x)" using assms(1) is_ok_mapM [of f xs] by simp
  then have all: "f x = Inr (projr (f x))" if "x \<in> set xs" for x using that by (auto simp: is_ok_iff)
  show "f z = Inr (projr (f z))" if "z \<in> set zs" for z using all assms(2) that by blast
  then show "mapM f zs = Inr (map (projr \<circ> f) zs)" by (intro mapM_eq_map) simp
  have "mapM f xs = Inr (map (projr \<circ> f) xs)" by (intro mapM_eq_map) (use all in simp)
  then show "ys = map (projr \<circ> f) xs" using assms(1) by simp
qed

lemma mapM_map: "mapM f (map g xs) = mapM (f \<circ> g) xs"
  by (induction xs) simp_all

lemma mapM_same_set:
  assumes "mapM f xs = Inr ys" and "set zs = set xs"
  shows "\<exists>ws. mapM f zs = Inr ws \<and> set ws = set ys"
  using mapM_set [OF assms(1), of zs] assms(2) by auto

lemma times_same_set:
  assumes "compute_first_valid_time a ds rs c = Inr s" and "set ds' = set ds" and "set rs' = set rs"
  shows "compute_first_valid_time a ds' rs' c = Inr s"
proof -
  obtain ts where ts: "mapM parse_rfc3339 (a # c # ds @ rs) = Inr ts" and s: "s = format_rfc3339 (Max (set ts))"
    using assms(1) by (auto simp only: compute_first_valid_time_Inr)
  have "set (a # c # ds' @ rs') = set (a # c # ds @ rs)" using assms by simp
  from mapM_same_set [OF ts this] show ?thesis unfolding compute_first_valid_time_Inr s by auto
qed

subsection \<open>The canonical text\<close>

lemma canonical_json_Inr: "canonical_json v = Inr s \<longleftrightarrow> \<not> has_float v \<and> json_gen '','' '':'' True False v = Inr s"
  by (simp add: canonical_json_def)

lemma plain_no_float: "plain_data v \<Longrightarrow> \<not> has_float v"
  by (induction v rule: plain_data.induct) (fastforce simp: list_all_iff list_ex_iff)+

lemma printable_text: "plain_data v \<Longrightarrow> \<not> has_float v \<and> is_ok (json_gen '','' '':'' True False v)"
  using plain_no_float plain_json by blast

lemma printable_hash: "plain_data v \<Longrightarrow> \<exists>h. sha256_payload n v = Inr h"
  using printable_text [of v] by (auto simp: sha256_payload_def canonical_json_def is_ok_iff)

lemma printable_texts [simp]: "plain_data (VList (map VStr ss))"
  by (simp add: list_all_iff)

lemma sort_key_map: "sort_key f (map g xs) = map g (sort_key (f \<circ> g) xs)"
proof (induction xs)
  case (Cons x xs)
  have "insort_key f (g x) (map g ys) = map g (insort_key (f \<circ> g) x ys)" for ys
    by (induction ys) simp_all
  with Cons show ?case by (simp add: comp_def)
qed simp

lemma sort_key_same: "(\<And>x. x \<in> set xs \<Longrightarrow> f x = g x) \<Longrightarrow> sort_key f xs = sort_key g xs"
proof (induction xs)
  case (Cons x xs)
  have "insort_key f x ys = insort_key g x ys" if "set ys \<subseteq> set xs" for ys
    using that Cons.prems by (induction ys) auto
  with Cons show ?case by simp
qed simp

text \<open>Mappings with the same keys and texts have the same text.\<close>

lemma canonical_json_dict_cong:
  assumes "canonical_json (VDict kvs) = Inr s"
    and "list_all2 (\<lambda>p q. fst q = fst p \<and> (\<forall>t. canonical_json (snd p) = Inr t \<longrightarrow> canonical_json (snd q) = Inr t)) kvs kws"
  shows "canonical_json (VDict kws) = Inr s"
proof -
  let ?g = "\<lambda>(k, v). bnd (json_gen '','' '':'' True False v) (\<lambda>s. Inr (json_str k @ '':'' @ s))"
  define ps where "ps = zip kvs kws"
  have len: "length kvs = length kws" using assms(2) by (rule list_all2_lengthD)
  have kv: "kvs = map fst ps" and kw: "kws = map snd ps" using len by (simp_all add: ps_def)
  have same: "fst (snd p) = fst (fst p)" "canonical_json (snd (fst p)) = Inr t \<Longrightarrow> canonical_json (snd (snd p)) = Inr t" if "p \<in> set ps" for p t
    using assms(2) that unfolding ps_def list_all2_iff by auto
  obtain ss where nf: "\<forall>p \<in> set ps. \<not> has_float (snd (fst p))" and m: "mapM ?g (sort_key fst kvs) = Inr ss"
    and s: "s = ''{'' @ join '','' ss @ ''}''"
    using assms(1) by (auto simp: canonical_json_Inr list_ex_iff kv bnd_eq_Inr case_prod_unfold)
  have sk: "sort_key fst kvs = map fst (sort_key (fst \<circ> fst) ps)" "sort_key fst kws = map snd (sort_key (fst \<circ> snd) ps)"
    by (simp_all add: kv kw sort_key_map)
  have "sort_key (fst \<circ> snd) ps = sort_key (fst \<circ> fst) ps" by (rule sort_key_same) (use same in simp)
  then have sw: "sort_key fst kws = map snd (sort_key (fst \<circ> fst) ps)" using sk by simp
  have ok: "is_ok (json_gen '','' '':'' True False (snd (fst p)))" if "p \<in> set ps" for p
  proof -
    have "fst p \<in> set (sort_key fst kvs)" using that by (simp add: kv)
    moreover have "\<forall>x \<in> set (sort_key fst kvs). is_ok (?g x)" using m is_ok_mapM [of ?g "sort_key fst kvs"] by simp
    ultimately show ?thesis by (auto simp: case_prod_unfold)
  qed
  have step: "\<not> has_float (snd (snd p)) \<and> ?g (snd p) = ?g (fst p)" if "p \<in> set ps" for p
  proof -
    note okp = ok [OF that]
    obtain t where t: "json_gen '','' '':'' True False (snd (fst p)) = Inr t" using okp by (auto simp: is_ok_iff)
    then have "canonical_json (snd (fst p)) = Inr t" using nf that by (simp add: canonical_json_Inr)
    then have "canonical_json (snd (snd p)) = Inr t" using same(2) [OF that] by blast
    then show ?thesis using t same(1) [OF that] by (simp add: canonical_json_Inr case_prod_unfold)
  qed
  have "mapM ?g (sort_key fst kws) = mapM ?g (sort_key fst kvs)"
  proof (rule mapM_list_all2 [symmetric])
    show "list_all2 (\<lambda>x y. ?g x = ?g y) (sort_key fst kvs) (sort_key fst kws)"
      unfolding sk(1) sw list_all2_map1 list_all2_map2 by (rule list.rel_refl_strong) (use step in simp)
  qed
  then show ?thesis using m s step by (auto simp: canonical_json_Inr list_ex_iff kw case_prod_unfold)
qed

lemma canonical_json_rows:
  assumes "mapM row_text rows = Inr texts"
  shows "canonical_json (rows_val rows) = Inr (''['' @ join '','' texts @ '']'')"
proof -
  note m = mapM_set [OF assms subset_refl]
  have nf: "\<not> has_float (VDict d) \<and> json_gen '','' '':'' True False (VDict d) = Inr (projr (row_text d))" if "d \<in> set rows" for d
    using m(2) [OF that] by (simp only: row_text_def canonical_json_Inr simp_thms)
  have "mapM (json_gen '','' '':'' True False) (map VDict rows) = Inr (map (projr \<circ> row_text) rows)"
    unfolding mapM_map by (rule mapM_eq_map) (simp add: nf del: json_gen.simps(10))
  then show ?thesis using nf m(3) by (simp add: canonical_json_Inr rows_val_def list_ex_iff del: json_gen.simps(10) has_float.simps(4))
qed

subsection \<open>One row per text\<close>

lemma canonical_rows_Inr:
  assumes "canonical_rows rows = Inr ys"
  obtains texts where "mapM row_text rows = Inr texts" and "mapM row_text ys = Inr (sorted_set texts)" and "set ys \<subseteq> set rows"
proof -
  obtain texts where m: "mapM row_text rows = Inr texts"
    and ys: "ys = map (\<lambda>s. the (map_of (rev (zip texts rows)) s)) (sorted_set texts)"
    using assms by (auto simp: canonical_rows_def bnd_eq_Inr)
  have len: "length texts = length rows" using m by (rule mapM_length)
  have pick: "the (map_of (rev (zip texts rows)) s) \<in> set rows \<and> row_text (the (map_of (rev (zip texts rows)) s)) = Inr s"
    if "s \<in> set texts" for s
  proof -
    have "s \<in> fst ` set (rev (zip texts rows))" using that len by (simp flip: set_map)
    then obtain d where d: "map_of (rev (zip texts rows)) s = Some d" by (metis map_of_eq_None_iff not_None_eq)
    then have "(s, d) \<in> set (zip texts rows)" using map_of_SomeD by fastforce
    then obtain i where "i < length rows" "texts ! i = s" "rows ! i = d" using len by (auto simp: set_zip)
    then show ?thesis using m d by (auto simp: mapM_Inr_iff list_all2_conv_all_nth)
  qed
  have "mapM row_text ys = Inr (sorted_set texts)"
    unfolding ys using pick by (simp add: mapM_Inr_iff list_all2_conv_all_nth) (metis nth_mem set_sorted_set)
  with that m ys pick show thesis by auto
qed

lemma canonical_rows_ok: "mapM row_text rows = Inr texts \<Longrightarrow> is_ok (canonical_rows rows)"
  by (simp add: canonical_rows_def)

text \<open>The rows of the same set have the same texts.\<close>

lemma canonical_rows_same_set:
  assumes "canonical_rows rows = Inr ys" and "set rows' = set rows"
  shows "\<exists>ys'. canonical_rows rows' = Inr ys' \<and> set ys' \<subseteq> set rows \<and> canonical_json (rows_val ys') = canonical_json (rows_val ys) \<and>
    is_ok (canonical_json (rows_val ys))"
proof -
  obtain texts where t: "mapM row_text rows = Inr texts" "mapM row_text ys = Inr (sorted_set texts)"
    by (rule canonical_rows_Inr [OF assms(1)])
  obtain texts' where m: "mapM row_text rows' = Inr texts'" and st: "set texts' = set texts"
    using mapM_same_set [OF t(1) assms(2)] by blast
  obtain ys' where c: "canonical_rows rows' = Inr ys'" using canonical_rows_ok [OF m] by (auto simp: is_ok_iff)
  have t': "mapM row_text ys' = Inr (sorted_set texts') \<and> set ys' \<subseteq> set rows'"
  proof (rule canonical_rows_Inr [OF c])
    fix us assume "mapM row_text rows' = Inr us" and "mapM row_text ys' = Inr (sorted_set us)" and "set ys' \<subseteq> set rows'"
    then show ?thesis using m by simp
  qed
  have "sorted_set texts' = sorted_set texts" using st by (rule sorted_set_cong)
  then show ?thesis using c t' assms(2) canonical_json_rows [OF t(2)] canonical_json_rows [of ys' "sorted_set texts'"] by simp
qed

subsection \<open>Forbidden fields\<close>

abbreviation "free_of bad \<equiv> clean bad (\<lambda>_. False)"

lemma walk_Inr: "walk bad err v = Inr u \<longleftrightarrow> free_of bad v"
proof (induction bad err v rule: walk.induct)
  case (1 bad err kvs)
  have "is_ok (mapM (\<lambda>(key, child). if bad key then Inl (err key) else walk bad err child) kvs) \<longleftrightarrow> free_of bad (VDict kvs)"
    unfolding is_ok_mapM clean_VDict by (rule ball_cong [OF refl]) (use 1 in \<open>auto simp: is_ok_iff split: if_splits\<close>)
  then show ?case by (simp add: bnd_eq_Inr is_ok_iff)
next
  case (2 bad err xs)
  then have "is_ok (mapM (walk bad err) xs) \<longleftrightarrow> free_of bad (VList xs)"
    unfolding is_ok_mapM clean_items by (intro ball_cong [OF refl]) (simp add: is_ok_iff)
  then show ?case by (simp add: bnd_eq_Inr is_ok_iff)
next
  case (3 bad err xs)
  then have "is_ok (mapM (walk bad err) xs) \<longleftrightarrow> free_of bad (VTuple xs)"
    unfolding is_ok_mapM clean_items by (intro ball_cong [OF refl]) (simp add: is_ok_iff)
  then show ?case by (simp add: bnd_eq_Inr is_ok_iff)
qed (simp_all add: clean_atoms)

lemma no_forbidden_Inr: "assert_no_forbidden_fields v = Inr u \<longleftrightarrow> free_of oc_forbidden v"
  by (simp add: assert_no_forbidden_fields_def walk_Inr)

lemma free_rows: "free_of bad (rows_val rows) \<longleftrightarrow> (\<forall>d \<in> set rows. free_of bad (VDict d))"
  by (auto simp: rows_val_def clean_items)

lemma clean_update:
  assumes "clean bk bt (VDict d)" and "\<not> bk k" and "clean bk bt v"
  shows "clean bk bt (VDict (AList.update k v d))"
  unfolding clean_VDict
proof
  fix p assume "p \<in> set (AList.update k v d)"
  then have "p = (k, v) \<or> p \<in> set d" using set_update_subset by fastforce
  then show "case p of (k, w) \<Rightarrow> \<not> bk k \<and> clean bk bt w" using assms by (auto simp: clean_VDict)
qed

subsection \<open>What a built context is\<close>

lemma lookup_update: "map_of (AList.update k v d) x = (if x = k then Some v else map_of d x)"
  by (simp add: update_conv')

lemma build_context_parts:
  assumes "build_context r = Inr c"
  obtains anchor key fvt deps deps_hash registry_hash cid parents auxiliary h where
    "validate_request r = Inr ()" and "anchor_dict (br_anchor r) = Inr anchor" and "build_occurrence_key (br_anchor r) = Inr key"
    and "compute_first_valid_time (an_first_valid_time (br_anchor r)) (map dr_first_valid_time (br_dependencies r))
      (br_registry_times r) (br_confirmation_time r) = Inr fvt"
    and "canonical_rows (map dependency_dict (br_dependencies r)) = Inr deps"
    and "sha256_payload ''OVC.OCCURRENCE_CONTEXT.DEPENDENCIES'' (rows_val deps) = Inr deps_hash"
    and "sha256_payload ''OVC.OCCURRENCE_CONTEXT.REGISTRIES'' (VDict (br_registries r)) = Inr registry_hash"
    and "sha256_payload ''OVC.OCCURRENCE_CONTEXT'' (context_identity r anchor key deps_hash registry_hash fvt) = Inr cid"
    and "canonical_rows (br_parents r) = Inr parents" and "canonical_rows (br_auxiliary r) = Inr auxiliary"
    and "free_of oc_forbidden (VDict (context_record r anchor key deps_hash registry_hash fvt cid deps parents auxiliary))"
    and "oc_logical_hash (VDict (context_record r anchor key deps_hash registry_hash fvt cid deps parents auxiliary)) = Inr h"
    and "c = AList.update ''logical_hash'' (VStr h) (context_record r anchor key deps_hash registry_hash fvt cid deps parents auxiliary)"
  using assms unfolding build_context_def Let_def
proof (elim bndE, goal_cases)
  case (1 u anchor key fvt deps deps_hash registry_hash cid parents auxiliary u' h)
  show ?case
    by (rule 1(1) [OF _ 1(3-11) _ 1(13)]) (use 1(2,12) 1(14) [symmetric] in \<open>simp_all add: no_forbidden_Inr\<close>)
qed

text \<open>The times a context depends on.\<close>

definition context_times :: "build_request \<Rightarrow> string list" where
  "context_times r = an_first_valid_time (br_anchor r) # br_confirmation_time r #
     map dr_first_valid_time (br_dependencies r) @ br_registry_times r"

lemma context_record_time:
  "map_of (context_record r anchor key deps_hash registry_hash fvt cid deps parents auxiliary) ''first_valid_time'' = Some (VStr fvt)"
  "map_of (context_record r anchor key deps_hash registry_hash fvt cid deps parents auxiliary) ''occurrence_context_id'' = Some (VStr cid)"
  "map_of (context_record r anchor key deps_hash registry_hash fvt cid deps parents auxiliary) ''logical_hash'' = None"
  by (simp_all add: context_record_def)

text \<open>C18: a context is never backdated. The first valid time of a built context is the latest of the times
  of its anchor, its confirmation, its dependencies and its registries, each read as an instant whatever
  its offset; reading it back gives that instant, and the check against backdating accepts it.\<close>

theorem context_not_backdated:
  assumes "build_context r = Inr c"
  shows "\<exists>ts. mapM parse_rfc3339 (context_times r) = Inr ts \<and>
    dget c ''first_valid_time'' VNone = VStr (format_rfc3339 (Max (set ts))) \<and>
    parse_rfc3339 (format_rfc3339 (Max (set ts))) = Inr (Max (set ts)) \<and>
    assert_not_backdated (format_rfc3339 (Max (set ts))) (context_times r) = Inr ()"
proof (rule build_context_parts [OF assms], goal_cases)
  case (1 anchor key fvt deps deps_hash registry_hash cid parents auxiliary h)
  obtain ts where ts: "mapM parse_rfc3339 (context_times r) = Inr ts" and f: "fvt = format_rfc3339 (Max (set ts))"
    using 1(4) by (auto simp only: compute_first_valid_time_Inr context_times_def)
  have "length ts = length (context_times r)" using ts by (rule mapM_length)
  then have "ts \<noteq> []" by (auto simp: context_times_def)
  then have "Max (set ts) \<in> set ts" by (intro Max_in) auto
  then have p: "parse_rfc3339 (format_rfc3339 (Max (set ts))) = Inr (Max (set ts))" by (rule parsed_member [OF ts])
  have "dget c ''first_valid_time'' VNone = VStr fvt"
    by (simp add: dget_def 1(13) lookup_update context_record_time)
  moreover have "assert_not_backdated (format_rfc3339 (Max (set ts))) (context_times r) = Inr ()"
    by (simp add: not_backdated_Inr [OF p ts])
  ultimately show ?case using ts p f by blast
qed

text \<open>No forbidden field gets into a context. At no depth of a built context, its anchor, its interval and
  its lineage included, is there a field whose name is forbidden in any letter case.\<close>

theorem context_free_of_outcomes:
  assumes "build_context r = Inr c" and "inside (VDict kvs) (VDict c)" and "(k, v) \<in> set kvs"
  shows "py_lower k \<notin> set FORBIDDEN_KEYS"
proof (rule build_context_parts [OF assms(1)], goal_cases)
  case (1 anchor key fvt deps deps_hash registry_hash cid parents auxiliary h)
  have "\<not> oc_forbidden ''logical_hash''" by code_simp
  then have "free_of oc_forbidden (VDict c)" unfolding 1(13) by (intro clean_update 1(11)) (simp_all add: clean_atoms)
  then have "passes oc_forbidden (\<lambda>_. False) (VDict kvs)" using assms(2) by (simp add: clean_def)
  then show ?case using assms(3) by (auto simp: passes_def oc_forbidden_def)
qed

subsection \<open>A context depends on what it refers to, not on how it is written down\<close>

text \<open>Two requests with the same content: the references, the reasons and the times of registries are the
  same sets, and the lineages are the same without their transient entries.\<close>

definition same_content :: "build_request \<Rightarrow> build_request \<Rightarrow> bool" where
  "same_content r q \<longleftrightarrow>
    set (br_dependencies q) = set (br_dependencies r) \<and> set (br_parents q) = set (br_parents r) \<and>
    set (br_auxiliary q) = set (br_auxiliary r) \<and> set (br_reasons q) = set (br_reasons r) \<and>
    set (br_registry_times q) = set (br_registry_times r) \<and>
    strip_ephemeral_lineage (VDict (br_lineage q)) = strip_ephemeral_lineage (VDict (br_lineage r)) \<and>
    q = r\<lparr>br_dependencies := br_dependencies q, br_parents := br_parents q, br_auxiliary := br_auxiliary q,
          br_reasons := br_reasons q, br_registry_times := br_registry_times q, br_lineage := br_lineage q\<rparr>"

lemma same_content_fixed:
  assumes "same_content r q"
  shows "br_anchor q = br_anchor r" "br_source q = br_source r" "br_research_role q = br_research_role r" "br_interval q = br_interval r"
    "br_calendar q = br_calendar r" "br_session q = br_session r" "br_clock q = br_clock r" "br_confirmation_time q = br_confirmation_time r"
    "br_pack_id q = br_pack_id r" "br_pack_version q = br_pack_version r" "br_role_map_id q = br_role_map_id r"
    "br_market q = br_market r" "br_episode q = br_episode r" "br_registries q = br_registries r"
    "br_availability q = br_availability r" "br_authority q = br_authority r"
proof -
  obtain a b c d e f where q: "q = r\<lparr>br_dependencies := a, br_parents := b, br_auxiliary := c, br_reasons := d, br_registry_times := e, br_lineage := f\<rparr>"
    using assms by (auto simp: same_content_def)
  show "br_anchor q = br_anchor r" "br_source q = br_source r" "br_research_role q = br_research_role r" "br_interval q = br_interval r"
    "br_calendar q = br_calendar r" "br_session q = br_session r" "br_clock q = br_clock r" "br_confirmation_time q = br_confirmation_time r"
    "br_pack_id q = br_pack_id r" "br_pack_version q = br_pack_version r" "br_role_map_id q = br_role_map_id r"
    "br_market q = br_market r" "br_episode q = br_episode r" "br_registries q = br_registries r"
    "br_availability q = br_availability r" "br_authority q = br_authority r"
    unfolding q by simp_all
qed

lemma screened_free:
  "free_of oc_forbidden (screened r) \<longleftrightarrow>
    free_of oc_forbidden (VDict (br_source r)) \<and> free_of oc_forbidden (VDict (br_calendar r)) \<and>
    free_of oc_forbidden (VDict (br_session r)) \<and> free_of oc_forbidden (VDict (br_clock r)) \<and>
    (\<forall>d \<in> set (br_parents r). free_of oc_forbidden (VDict d)) \<and> free_of oc_forbidden (opt_dict (br_market r)) \<and>
    free_of oc_forbidden (opt_dict (br_episode r)) \<and> (\<forall>d \<in> set (br_auxiliary r). free_of oc_forbidden (VDict d)) \<and>
    free_of oc_forbidden (VDict (br_lineage r))"
proof -
  have names: "\<not> oc_forbidden ''source_context''" "\<not> oc_forbidden ''calendar_context''" "\<not> oc_forbidden ''session_context''"
    "\<not> oc_forbidden ''clock_scale_context''" "\<not> oc_forbidden ''parent_context_refs''" "\<not> oc_forbidden ''market_condition_context''"
    "\<not> oc_forbidden ''episode_relative_context''" "\<not> oc_forbidden ''auxiliary_refs''" "\<not> oc_forbidden ''lineage''"
    by code_simp+
  show ?thesis unfolding screened_def clean_VDict [of _ _ "_ # _"] by (simp add: names free_rows)
qed

lemma same_content_validate:
  assumes "same_content r q" and "validate_request r = Inr ()" and "free_of oc_forbidden (VDict (br_lineage q))"
  shows "validate_request q = Inr ()"
proof -
  note fx = same_content_fixed [OF assms(1)]
  have "free_of oc_forbidden (screened r)" using assms(2) by (auto simp: validate_request_def bnd_eq_Inr no_forbidden_Inr)
  then have "free_of oc_forbidden (screened q)"
    using assms(1,3) unfolding screened_free fx by (simp add: same_content_def)
  then have "assert_no_forbidden_fields (screened q) = Inr ()" "assert_no_forbidden_fields (screened r) = Inr ()"
    using \<open>free_of oc_forbidden (screened r)\<close> by (simp_all add: no_forbidden_Inr)
  then show ?thesis using assms(2) unfolding validate_request_def fx by simp
qed

lemma sha256_payload_text:
  "canonical_json v = Inr s \<Longrightarrow> canonical_json w = Inr s \<Longrightarrow> sha256_payload n w = sha256_payload n v"
  by (simp add: sha256_payload_def)

lemma record_fields_free:
  assumes "free_of oc_forbidden (VDict (context_record r anchor key dh rh fvt cid deps parents auxiliary))"
    and "\<forall>d \<in> set deps' \<union> set parents' \<union> set auxiliary'. free_of oc_forbidden (VDict d)"
  shows "free_of oc_forbidden (VDict (context_record r anchor key dh rh fvt cid deps' parents' auxiliary'))"
  using assms unfolding context_record_def clean_VDict [of _ _ "_ # _"] by (simp add: free_rows)

lemma dependency_free: "free_of oc_forbidden (VDict (dependency_dict d))"
proof -
  have "\<not> oc_forbidden ''dependency_kind''" "\<not> oc_forbidden ''record_id''" "\<not> oc_forbidden ''schema_id''" "\<not> oc_forbidden ''logical_hash''"
    "\<not> oc_forbidden ''first_valid_time''" "\<not> oc_forbidden ''dependency_role''" "\<not> oc_forbidden ''source_release_id''"
    "\<not> oc_forbidden ''required''"
    by code_simp+
  then show ?thesis by (simp add: dependency_dict_def opt_text_def clean_VDict clean_atoms split: option.split)
qed

lemma strip_dict: "\<exists>kvs. strip_ephemeral_lineage (VDict d) = VDict kvs"
  by simp

lemma context_record_rel:
  assumes "same_content r q"
    and "canonical_json (rows_val deps') = canonical_json (rows_val deps)" "canonical_json (rows_val parents') = canonical_json (rows_val parents)"
      "canonical_json (rows_val auxiliary') = canonical_json (rows_val auxiliary)"
  shows "list_all2 (\<lambda>p q. fst q = fst p \<and> (\<forall>t. canonical_json (snd p) = Inr t \<longrightarrow> canonical_json (snd q) = Inr t))
    (context_record r anchor key dh rh fvt cid deps parents auxiliary) (context_record q anchor key dh rh fvt cid deps' parents' auxiliary')"
proof -
  note fx = same_content_fixed [OF assms(1)]
  have rs: "sorted_set (br_reasons q) = sorted_set (br_reasons r)"
    by (rule sorted_set_cong) (use assms(1) in \<open>simp add: same_content_def\<close>)
  have l: "strip_ephemeral_lineage (VDict (br_lineage q)) = strip_ephemeral_lineage (VDict (br_lineage r))"
    using assms(1) by (simp only: same_content_def)
  show ?thesis
    unfolding context_record_def fx rs l by (simp add: assms(2-4) del: strip_ephemeral_lineage.simps)
qed

lemma context_record_free:
  assumes "free_of oc_forbidden (VDict (context_record r anchor key dh rh fvt cid deps parents auxiliary))"
    and "same_content r q"
    and "\<forall>d \<in> set deps' \<union> set parents' \<union> set auxiliary'. free_of oc_forbidden (VDict d)"
  shows "free_of oc_forbidden (VDict (context_record q anchor key dh rh fvt cid deps' parents' auxiliary'))"
proof -
  note fx = same_content_fixed [OF assms(2)]
  have l: "strip_ephemeral_lineage (VDict (br_lineage q)) = strip_ephemeral_lineage (VDict (br_lineage r))"
    using assms(2) by (simp only: same_content_def)
  from record_fields_free [OF assms(1,3)] show ?thesis
    unfolding context_record_def fx l clean_VDict [of _ _ "_ # _"] by (simp add: clean_items clean_atoms del: strip_ephemeral_lineage.simps)
qed

lemma canonical_json_update:
  assumes "canonical_json (VDict d) = Inr s"
  shows "is_ok (canonical_json (VDict (d @ [(k, VStr v)])))"
proof -
  have nf: "\<not> has_float (VDict d)" and ok: "is_ok (json_gen '','' '':'' True False (VDict d))"
    using assms by (auto simp only: canonical_json_Inr is_ok_simps)
  have "\<not> has_float (VDict (d @ [(k, VStr v)]))" using nf by simp
  then show ?thesis using ok by (simp add: canonical_json_def)
qed

lemma same_content_build:
  assumes "build_context r = Inr c" and "same_content r q" and "free_of oc_forbidden (VDict (br_lineage q))"
  shows "\<exists>c'. build_context q = Inr c' \<and> canonical_json (VDict c') = canonical_json (VDict c) \<and>
    map_of c' ''occurrence_context_id'' = map_of c ''occurrence_context_id'' \<and>
    map_of c' ''first_valid_time'' = map_of c ''first_valid_time'' \<and> map_of c' ''logical_hash'' = map_of c ''logical_hash''"
proof (rule build_context_parts [OF assms(1)], goal_cases)
  case (1 anchor key fvt deps dh rh cid parents auxiliary h)
  let ?rec = "context_record r anchor key dh rh fvt cid deps parents auxiliary"
  note fx = same_content_fixed [OF assms(2)]
  have sets: "set (map dependency_dict (br_dependencies q)) = set (map dependency_dict (br_dependencies r))"
    "set (map dr_first_valid_time (br_dependencies q)) = set (map dr_first_valid_time (br_dependencies r))"
    "set (br_registry_times q) = set (br_registry_times r)" "set (br_parents q) = set (br_parents r)"
    "set (br_auxiliary q) = set (br_auxiliary r)"
    using assms(2) by (simp_all add: same_content_def)
  have fr: "\<forall>d \<in> set (br_parents r) \<union> set (br_auxiliary r). free_of oc_forbidden (VDict d)"
    using 1(1) by (auto simp: validate_request_def bnd_eq_Inr no_forbidden_Inr screened_free)
  obtain deps' where d: "canonical_rows (map dependency_dict (br_dependencies q)) = Inr deps'"
    "set deps' \<subseteq> set (map dependency_dict (br_dependencies r))" "canonical_json (rows_val deps') = canonical_json (rows_val deps)"
    "is_ok (canonical_json (rows_val deps))"
    using canonical_rows_same_set [OF 1(5) sets(1)] by blast
  obtain parents' where p: "canonical_rows (br_parents q) = Inr parents'" "set parents' \<subseteq> set (br_parents r)"
    "canonical_json (rows_val parents') = canonical_json (rows_val parents)"
    using canonical_rows_same_set [OF 1(9) sets(4)] by blast
  obtain auxiliary' where a: "canonical_rows (br_auxiliary q) = Inr auxiliary'" "set auxiliary' \<subseteq> set (br_auxiliary r)"
    "canonical_json (rows_val auxiliary') = canonical_json (rows_val auxiliary)"
    using canonical_rows_same_set [OF 1(10) sets(5)] by blast
  let ?rec' = "context_record q anchor key dh rh fvt cid deps' parents' auxiliary'"
  obtain s where s: "canonical_json (VDict ?rec) = Inr s" and h: "h = ''sha256:'' @ sha256 (''OVC.LOGICAL'' @ [CHR 0x00] @ s)"
    using 1(12) by (auto simp: oc_logical_hash_def sha256_payload_def bnd_eq_Inr)
  have s': "canonical_json (VDict ?rec') = Inr s" by (rule canonical_json_dict_cong [OF s context_record_rel [OF assms(2) d(3) p(3) a(3)]])
  have "free_of oc_forbidden (VDict ?rec')"
    by (rule context_record_free [OF 1(11) assms(2)]) (use fr d(2) p(2) a(2) dependency_free in auto)
  then have f: "assert_no_forbidden_fields (VDict ?rec') = Inr ()" by (simp add: no_forbidden_Inr)
  have dh: "sha256_payload ''OVC.OCCURRENCE_CONTEXT.DEPENDENCIES'' (rows_val deps') = Inr dh"
    using 1(6) d(3) by (simp add: sha256_payload_def)
  have ci: "context_identity q = context_identity r" by (intro ext) (simp add: context_identity_def fx)
  have hq: "oc_logical_hash (VDict ?rec') = Inr h" by (simp add: oc_logical_hash_def sha256_payload_def s' h)
  have t: "compute_first_valid_time (an_first_valid_time (br_anchor q)) (map dr_first_valid_time (br_dependencies q))
      (br_registry_times q) (br_confirmation_time q) = Inr fvt"
    unfolding fx by (rule times_same_set [OF 1(4) sets(2,3)])
  have b: "build_context q = Inr (AList.update ''logical_hash'' (VStr h) ?rec')"
    unfolding build_context_def same_content_validate [OF assms(2) 1(1) assms(3)] t d(1) dh ci p(1) a(1) unfolding fx
    by (simp add: 1(2,3,7,8) Let_def dh f hq)
  have l: "AList.update ''logical_hash'' (VStr h) (context_record x anchor key dh rh fvt cid u v w) =
    context_record x anchor key dh rh fvt cid u v w @ [(''logical_hash'', VStr h)]" for x u v w
    by (simp add: context_record_def)
  obtain z where z: "canonical_json (VDict (?rec @ [(''logical_hash'', VStr h)])) = Inr z"
    using canonical_json_update [OF s] by (auto simp: is_ok_iff)
  have "list_all2 (\<lambda>p q. fst q = fst p \<and> (\<forall>t. canonical_json (snd p) = Inr t \<longrightarrow> canonical_json (snd q) = Inr t)) ?rec ?rec'"
    by (rule context_record_rel [OF assms(2) d(3) p(3) a(3)])
  then have "canonical_json (VDict (?rec' @ [(''logical_hash'', VStr h)])) = Inr z"
    by (intro canonical_json_dict_cong [OF z] list_all2_appendI) simp_all
  then show ?case using b z 1(13) by (simp add: l context_record_time map_add_def)
qed

text \<open>C19: a context depends on its content only. Give the references, the reasons and the registry times in any
  order and any number of times, and lineages that differ in transient entries only, at any depth: if one
  request builds a context, so does the other, provided its lineage has no forbidden field; both
  contexts have one canonical text, one identifier, one first valid time and one logical hash.\<close>

theorem context_content_only:
  assumes "build_context r = Inr c" and "same_content r q" and "assert_no_forbidden_fields (VDict (br_lineage q)) = Inr ()"
  shows "\<exists>c'. build_context q = Inr c' \<and> canonical_json (VDict c') = canonical_json (VDict c) \<and>
    map_of c' ''occurrence_context_id'' = map_of c ''occurrence_context_id'' \<and>
    map_of c' ''first_valid_time'' = map_of c ''first_valid_time'' \<and> map_of c' ''logical_hash'' = map_of c ''logical_hash''"
  by (rule same_content_build [OF assms(1,2)]) (use assms(3) in \<open>simp add: no_forbidden_Inr\<close>)

subsection \<open>Aliases\<close>

text \<open>An alias is the occurrence it stands for. The occurrence key of an alias anchor is the key of the
  anchor its structural reference describes, so that it does not change with the alias.\<close>

theorem alias_has_structural_key:
  assumes "an_kind a \<in> set ALIAS_ANCHORS" and "an_structural a = VDict nested" and "anchor_from_mapping nested = Inr b"
    and "an_kind b \<in> set ALLOWED_ANCHORS - set ALIAS_ANCHORS" and "is_ok (anchor_dict b)"
    and "\<forall>f \<in> set ANCHOR_FIELDS. is_str (dget nested f VNone)"
  shows "build_occurrence_key a = build_occurrence_key b \<and> is_ok (build_occurrence_key a)"
proof -
  have ok: "\<exists>x. dget nested f VNone = VStr x \<and> ditem nested f = Inr (VStr x) \<and> x \<noteq> []" if "f \<in> set ANCHOR_FIELDS" for f
  proof -
    have "py_bool (dget nested f VNone)" and "is_str (dget nested f VNone)"
      using assms(3,6) that by (auto simp: anchor_from_mapping_def Let_def bnd_eq_Inr req_eq_Inr filter_empty_conv)
    then show ?thesis by (cases "map_of nested f") (auto simp: dget_def ditem_def elim: is_str.elims)
  qed
  have fs: "''anchor_kind'' \<in> set ANCHOR_FIELDS" "''anchor_id'' \<in> set ANCHOR_FIELDS" "''anchor_schema_id'' \<in> set ANCHOR_FIELDS"
    "''anchor_logical_hash'' \<in> set ANCHOR_FIELDS"
    by (simp_all add: ANCHOR_FIELDS_def)
  obtain k i s h where f:
    "dget nested ''anchor_kind'' VNone = VStr k" "ditem nested ''anchor_kind'' = Inr (VStr k)" "k \<noteq> []"
    "dget nested ''anchor_id'' VNone = VStr i" "ditem nested ''anchor_id'' = Inr (VStr i)" "i \<noteq> []"
    "dget nested ''anchor_schema_id'' VNone = VStr s" "ditem nested ''anchor_schema_id'' = Inr (VStr s)" "s \<noteq> []"
    "dget nested ''anchor_logical_hash'' VNone = VStr h" "ditem nested ''anchor_logical_hash'' = Inr (VStr h)" "h \<noteq> []"
    using ok [OF fs(1)] ok [OF fs(2)] ok [OF fs(3)] ok [OF fs(4)] by blast
  have b: "an_kind b = k" "an_id b = i" "an_schema_id b = s" "an_logical_hash b = h"
    using assms(3) by (auto simp: anchor_from_mapping_def Let_def bnd_eq_Inr f)
  obtain d where d: "anchor_dict b = Inr d" using assms(5) by (auto simp: is_ok_iff)
  have items: "ditem d ''anchor_kind'' = Inr (VStr k)" "ditem d ''anchor_id'' = Inr (VStr i)" "ditem d ''anchor_schema_id'' = Inr (VStr s)"
    "ditem d ''anchor_logical_hash'' = Inr (VStr h)"
    using d by (auto simp: anchor_dict_def bnd_eq_Inr ditem_def b)
  have "set ALIAS_ANCHORS \<subseteq> set ALLOWED_ANCHORS" by code_simp
  then have al: "an_kind a \<in> set ALLOWED_ANCHORS" using assms(1) by blast
  have "structural_identity_anchor a = Inr nested" using assms(1,2) f by (simp add: structural_identity_anchor_def)
  moreover have "structural_identity_anchor b = Inr d" using assms(4) d by (simp add: structural_identity_anchor_def)
  ultimately show ?thesis
    using al assms(4) f items
    by (simp add: build_occurrence_key_def sha256_payload_def canonical_json_def list_ex_iff)
qed

subsection \<open>Replay\<close>

lemma replay_permuted:
  assumes "replay_contexts rs = Inr p" and "mset qs = mset rs"
  shows "replay_contexts qs = Inr p"
proof -
  obtain built where b: "mapM build_context rs = Inr built" and d: "distinct (map context_key (sort_key context_key built))"
    using assms(1) by (auto simp: replay_contexts_def bnd_eq_Inr req_eq_Inr Let_def)
  obtain built' where b': "mapM build_context qs = Inr built'" and m: "mset built' = mset built"
    by (rule mapM_mset [OF b, of build_context qs]) (simp_all add: assms(2))
  have "mset (map context_key (sort_key context_key built)) = mset (map context_key built)" by simp
  then have "distinct (map context_key built)" using d mset_eq_imp_distinct_iff by blast
  moreover have "set built' = set built" using m by (metis set_mset_mset)
  ultimately have "inj_on context_key (set built')" by (simp add: distinct_map)
  then have "sort_key context_key built' = sort_key context_key built"
    by (intro sort_key_inj_key_eq) (use m in \<open>auto\<close>)
  then show ?thesis using assms(1) b b' by (simp add: replay_contexts_def)
qed

text \<open>A replay ignores the order of its requests. Of two arrangements of the same requests, either both
  return the same replay or none returns one.\<close>

theorem replay_ignores_order:
  assumes "mset qs = mset rs"
  shows "replay_contexts qs = Inr p \<longleftrightarrow> replay_contexts rs = Inr p"
  using replay_permuted assms by metis

text \<open>Superseding is exact. A supersession is recorded exactly for two contexts of the same occurrence with
  different identifiers of which the successor is not valid before the prior one, compared as instants.\<close>

theorem supersession_exact:
  assumes "\<forall>k \<in> {''occurrence_key'', ''occurrence_context_id'', ''first_valid_time''}. is_str (dget p k VNone) \<and> is_str (dget q k VNone)"
    and "parse_value (dget p ''first_valid_time'' VNone) = Inr pt'" and "parse_value (dget q ''first_valid_time'' VNone) = Inr qt"
  shows "(dget p ''occurrence_key'' VNone \<noteq> dget q ''occurrence_key'' VNone \<longrightarrow>
      create_supersession p q reason deps regs = Inl (Exn ValueError ''OC_ID_ANCHOR_MUTATION'')) \<and>
    (dget p ''occurrence_key'' VNone = dget q ''occurrence_key'' VNone \<and> dget p ''occurrence_context_id'' VNone = dget q ''occurrence_context_id'' VNone \<longrightarrow>
      create_supersession p q reason deps regs = Inl (Exn ValueError ''OC_ID_LOGICAL_HASH_MISMATCH'')) \<and>
    (dget p ''occurrence_key'' VNone = dget q ''occurrence_key'' VNone \<and> dget p ''occurrence_context_id'' VNone \<noteq> dget q ''occurrence_context_id'' VNone \<longrightarrow>
      (if qt < pt' then create_supersession p q reason deps regs = Inl (Exn ValueError ''OC_TIME_BACKDATE_DENIED'')
       else \<exists>s. create_supersession p q reason deps regs = Inr s \<and> dget s ''first_valid_time'' VNone = dget q ''first_valid_time'' VNone \<and>
         dget s ''authority_effect'' VNone = VStr ''NONE''))"
proof -
  have item: "\<exists>x. dget d k VNone = VStr x \<and> ditem d k = Inr (VStr x)" if "is_str (dget d k VNone)" for d k
    using that by (cases "map_of d k") (auto simp: dget_def ditem_def elim: is_str.elims)
  obtain pk qk pi' qi pf qf where
    "dget p ''occurrence_key'' VNone = VStr pk" "ditem p ''occurrence_key'' = Inr (VStr pk)"
    "dget q ''occurrence_key'' VNone = VStr qk" "ditem q ''occurrence_key'' = Inr (VStr qk)"
    "dget p ''occurrence_context_id'' VNone = VStr pi'" "ditem p ''occurrence_context_id'' = Inr (VStr pi')"
    "dget q ''occurrence_context_id'' VNone = VStr qi" "ditem q ''occurrence_context_id'' = Inr (VStr qi)"
    "dget p ''first_valid_time'' VNone = VStr pf" "ditem p ''first_valid_time'' = Inr (VStr pf)"
    "dget q ''first_valid_time'' VNone = VStr qf" "ditem q ''first_valid_time'' = Inr (VStr qf)"
    using assms(1) item by (metis insertCI)
  note f = this
  have t: "parse_value (VStr pf) = Inr pt'" "parse_value (VStr qf) = Inr qt" using assms(2,3) f by simp_all
  define payload where "payload = [(''occurrence_key'', VStr pk), (''prior_occurrence_context_id'', VStr pi'),
    (''successor_occurrence_context_id'', VStr qi), (''reason_code'', VStr reason),
    (''changed_dependency_ids'', VList (map VStr (sorted_set deps))), (''changed_registry_ids'', VList (map VStr (sorted_set regs))),
    (''first_valid_time'', VStr qf), (''authority_effect'', VStr ''NONE'')]"
  have p: "plain_data (VDict payload)" by (simp add: payload_def list_all_iff)
  obtain i where i: "sha256_payload ''OVC.OCCURRENCE_CONTEXT.SUPERSESSION'' (VDict payload) = Inr i" using printable_hash [OF p] by blast
  obtain h where h: "oc_logical_hash (VDict ((''supersession_id'', VStr i) # payload)) = Inr h"
    unfolding oc_logical_hash_def using printable_hash [of "VDict ((''supersession_id'', VStr i) # payload)"] p by auto
  have "create_supersession p q reason deps regs =
    (if pk \<noteq> qk then Inl (Exn ValueError ''OC_ID_ANCHOR_MUTATION'')
     else if pi' = qi then Inl (Exn ValueError ''OC_ID_LOGICAL_HASH_MISMATCH'')
     else if qt < pt' then Inl (Exn ValueError ''OC_TIME_BACKDATE_DENIED'')
     else Inr (((''supersession_id'', VStr i) # payload) @ [(''logical_hash'', VStr h)]))"
    unfolding create_supersession_def f bnd_Inr t Let_def payload_def [symmetric] by (simp add: bnd_req i h)
  then show ?thesis unfolding f by (auto simp: dget_def payload_def)
qed

subsection \<open>Building returns\<close>

definition request_printable :: "build_request \<Rightarrow> bool" where
  "request_printable r \<longleftrightarrow> list_all plain_data
    [VDict (br_source r), VDict (br_interval r), VDict (br_calendar r), VDict (br_session r), VDict (br_clock r), rows_val (br_parents r),
     opt_dict (br_market r), opt_dict (br_episode r), rows_val (br_auxiliary r), VDict (br_registries r), VDict (br_lineage r),
     an_release_id (br_anchor r), an_structural (br_anchor r)]"

text \<open>A property of a mapping that its values have and that survives what the builder does to a mapping.\<close>

lemma printable_dict_update: "plain_data (VDict d) \<Longrightarrow> plain_data v \<Longrightarrow> plain_data (VDict (AList.update k v d))"
  using set_update_subset [of k v d] by (fastforce simp: list_all_iff)

lemma canonical_context_mapping_keeps:
  assumes "P d" and "\<And>d f ss. P d \<Longrightarrow> f \<in> set names \<Longrightarrow> P (AList.update f (VList (map VStr ss)) d)"
  shows "P (canonical_context_mapping d names)"
  using assms by (induction names arbitrary: d) (auto simp: canonical_context_mapping_def split: option.split pyval.split)

lemma strip_printable: "plain_data v \<Longrightarrow> plain_data (strip_ephemeral_lineage v)"
  by (induction v rule: strip_ephemeral_lineage.induct) (auto simp: list_all_iff)

lemma strip_free: "free_of bad v \<Longrightarrow> free_of bad (strip_ephemeral_lineage v)"
  by (induction v rule: strip_ephemeral_lineage.induct) (fastforce simp: clean_simps)+

lemma rows_printable: "plain_data (rows_val rows) \<longleftrightarrow> (\<forall>d \<in> set rows. plain_data (VDict d))"
  by (simp add: rows_val_def list_all_iff)

lemma printable_rows:
  assumes "\<forall>d \<in> set rows. plain_data (VDict d)"
  shows "\<exists>ys. canonical_rows rows = Inr ys \<and> set ys \<subseteq> set rows \<and> plain_data (rows_val ys)"
proof -
  have "is_ok (mapM row_text rows)"
    using assms printable_text by (auto simp: row_text_def canonical_json_def simp del: json_gen.simps has_float.simps plain_data.simps)
  then obtain texts where "mapM row_text rows = Inr texts" by (auto simp: is_ok_iff)
  then obtain ys where ys: "canonical_rows rows = Inr ys" using canonical_rows_ok by (auto simp: is_ok_iff)
  then have "set ys \<subseteq> set rows" by (rule canonical_rows_Inr)
  then show ?thesis using assms ys by (auto simp: rows_printable simp del: plain_data.simps)
qed

lemma dependency_printable: "plain_data (VDict (dependency_dict d))"
  by (simp add: dependency_dict_def opt_text_def split: option.split)

lemma context_mapping_printable: "plain_data (VDict d) \<Longrightarrow> plain_data (VDict (canonical_context_mapping d names))"
  by (rule canonical_context_mapping_keeps) (auto simp: printable_dict_update simp del: plain_data.simps)

lemma context_mapping_free:
  "free_of bad (VDict d) \<Longrightarrow> \<forall>f \<in> set names. \<not> bad f \<Longrightarrow> free_of bad (VDict (canonical_context_mapping d names))"
  by (rule canonical_context_mapping_keeps) (auto intro!: clean_update simp: clean_items clean_atoms)

lemma lineage_parts:
  assumes "dict = dict_of (strip_ephemeral_lineage (VDict d))"
  shows "plain_data (VDict d) \<Longrightarrow> plain_data (VDict dict)" and "free_of bad (VDict d) \<Longrightarrow> free_of bad (VDict dict)"
proof -
  have "strip_ephemeral_lineage (VDict d) = VDict dict" by (simp add: assms dict_of_def)
  then show "plain_data (VDict d) \<Longrightarrow> plain_data (VDict dict)" "free_of bad (VDict d) \<Longrightarrow> free_of bad (VDict dict)"
    using strip_printable strip_free by metis+
qed

definition anchor_plain :: "anchor_ref \<Rightarrow> bool" where
  "anchor_plain a \<longleftrightarrow> an_kind a \<in> set ALLOWED_ANCHORS - set ALIAS_ANCHORS \<and> (an_structural a = VNone \<or> is_mapping (an_structural a)) \<and>
    free_of oc_forbidden (an_structural a) \<and> free_of oc_forbidden (an_release_id a)"

lemma anchor_dict_plain:
  assumes "anchor_plain a" and "plain_data (an_release_id a)" and "plain_data (an_structural a)"
  shows "\<exists>d key. anchor_dict a = Inr d \<and> plain_data (VDict d) \<and> free_of oc_forbidden (VDict d) \<and> build_occurrence_key a = Inr key"
proof -
  have fr: "\<not> oc_forbidden ''anchor_kind''" "\<not> oc_forbidden ''anchor_id''" "\<not> oc_forbidden ''anchor_schema_id''"
    "\<not> oc_forbidden ''anchor_logical_hash''" "\<not> oc_forbidden ''anchor_first_valid_time''" "\<not> oc_forbidden ''source_release_id''"
    "\<not> oc_forbidden ''structural_anchor_ref''"
    by code_simp+
  obtain d where d: "anchor_dict a = Inr d" and dd: "d = [(''anchor_kind'', VStr (an_kind a)), (''anchor_id'', VStr (an_id a)), (''anchor_schema_id'', VStr (an_schema_id a)),
       (''anchor_logical_hash'', VStr (an_logical_hash a)), (''anchor_first_valid_time'', VStr (an_first_valid_time a)),
       (''source_release_id'', an_release_id a), (''structural_anchor_ref'', an_structural a)]"
    using assms(1) by (cases "an_structural a") (auto simp: anchor_dict_def anchor_plain_def)
  have "structural_identity_anchor a = Inr d" using assms(1) d by (simp add: structural_identity_anchor_def anchor_plain_def)
  then have "is_ok (build_occurrence_key a)"
    using assms(1) by (simp add: build_occurrence_key_def anchor_plain_def ditem_def dd sha256_payload_def canonical_json_def list_ex_iff)
  moreover have "plain_data (VDict d)" "free_of oc_forbidden (VDict d)"
    using assms fr by (simp_all add: dd clean_VDict clean_atoms anchor_plain_def)
  ultimately show ?thesis using d by (auto simp: is_ok_iff)
qed

lemma record_names_free:
  "list_all (\<lambda>f. \<not> oc_forbidden f) [''schema'', ''schema_version'', ''occurrence_context_id'', ''occurrence_key'', ''context_pack_id'',
     ''context_pack_version'', ''anchor_ref'', ''source_context'', ''research_role'', ''occurrence_interval'', ''calendar_context'',
     ''session_context'', ''clock_scale_context'', ''parent_context_refs'', ''market_condition_context'', ''episode_relative_context'',
     ''auxiliary_refs'', ''context_role_map_id'', ''dependency_refs'', ''first_valid_time'', ''availability'', ''status'',
     ''reason_codes'', ''authority_state'', ''lineage'', ''registry_binding_hash'', ''dependency_set_hash'', ''era_partition_ids'',
     ''session_membership_ids'']"
  by code_simp

lemma context_record_sound:
  assumes "free_of oc_forbidden (screened r)" and "request_printable r" and "free_of oc_forbidden (VDict (br_interval r))"
    and "plain_data (VDict anchor)" "free_of oc_forbidden (VDict anchor)"
    and "\<forall>d \<in> set deps \<union> set parents \<union> set auxiliary. plain_data (VDict d) \<and> free_of oc_forbidden (VDict d)"
  shows "plain_data (VDict (context_record r anchor key dh rh fvt cid deps parents auxiliary)) \<and>
    free_of oc_forbidden (VDict (context_record r anchor key dh rh fvt cid deps parents auxiliary))"
proof -
  note names = record_names_free [unfolded list.pred_inject]
  note sc = assms(1) [unfolded screened_free]
  note rp = assms(2) [unfolded request_printable_def list.pred_inject]
  have pr: "plain_data (rows_val deps)" "plain_data (rows_val parents)" "plain_data (rows_val auxiliary)"
    "free_of oc_forbidden (rows_val deps)" "free_of oc_forbidden (rows_val parents)" "free_of oc_forbidden (rows_val auxiliary)"
    using assms(6) by (simp_all add: rows_printable free_rows del: plain_data.simps)
  define lin where "lin = dict_of (strip_ephemeral_lineage (VDict (br_lineage r)))"
  have l: "plain_data (VDict lin)" "free_of oc_forbidden (VDict lin)"
    using lineage_parts [OF lin_def] sc rp by blast+
  define lin2 where "lin2 = AList.update ''registry_binding_hash'' (VStr rh) (AList.update ''dependency_set_hash'' (VStr dh) lin)"
  have "plain_data (VDict lin2)" unfolding lin2_def by (intro printable_dict_update l) simp_all
  moreover have "free_of oc_forbidden (VDict lin2)"
    unfolding lin2_def by (intro clean_update l) (use names in \<open>simp_all add: clean_atoms\<close>)
  ultimately have lu: "plain_data (VDict lin2)" "free_of oc_forbidden (VDict lin2)" .
  have cm: "plain_data (VDict (canonical_context_mapping (br_calendar r) [''era_partition_ids'']))"
    "plain_data (VDict (canonical_context_mapping (br_session r) [''session_membership_ids'', ''reason_codes'']))"
    using rp by (simp_all only: context_mapping_printable)
  have cf: "free_of oc_forbidden (VDict (canonical_context_mapping (br_calendar r) [''era_partition_ids'']))"
    "free_of oc_forbidden (VDict (canonical_context_mapping (br_session r) [''session_membership_ids'', ''reason_codes'']))"
    using sc names by (intro context_mapping_free; simp)+
  have "plain_data (VDict (context_record r anchor key dh rh fvt cid deps parents auxiliary))"
    unfolding context_record_def plain_data.simps(6) [of "_ # _"] lin_def [symmetric] lin2_def [symmetric]
    using rp pr lu cm assms(4) by (simp add: plain_data.simps(6) [of "[_]"] del: plain_data.simps(4-6))
  moreover have "free_of oc_forbidden (VDict (context_record r anchor key dh rh fvt cid deps parents auxiliary))"
    unfolding context_record_def clean_VDict [of _ _ "_ # _"] lin_def [symmetric] lin2_def [symmetric]
    using sc pr lu cf assms(3,5) names by (simp add: clean_items clean_atoms clean_VDict [of _ _ "[_]"])
  ultimately show ?thesis ..
qed

lemma context_built:
  assumes "validate_request r = Inr ()" and "request_printable r" and "anchor_plain (br_anchor r)"
    and "assert_no_forbidden_fields (VDict (br_interval r)) = Inr ()" and "is_ok (mapM parse_rfc3339 (context_times r))"
  shows "is_ok (build_context r)"
proof -
  have sc: "free_of oc_forbidden (screened r)" using assms(1) by (auto simp: validate_request_def bnd_eq_Inr no_forbidden_Inr)
  have fi: "free_of oc_forbidden (VDict (br_interval r))" using assms(4) by (simp add: no_forbidden_Inr)
  note rp = assms(2) [unfolded request_printable_def list.pred_inject]
  obtain anchor key where a: "anchor_dict (br_anchor r) = Inr anchor" "plain_data (VDict anchor)" "free_of oc_forbidden (VDict anchor)"
    "build_occurrence_key (br_anchor r) = Inr key"
    using anchor_dict_plain [OF assms(3)] rp by blast
  obtain fvt where t: "compute_first_valid_time (an_first_valid_time (br_anchor r)) (map dr_first_valid_time (br_dependencies r))
      (br_registry_times r) (br_confirmation_time r) = Inr fvt"
    using assms(5) by (auto simp only: compute_first_valid_time_Inr context_times_def is_ok_iff)
  obtain deps where d: "canonical_rows (map dependency_dict (br_dependencies r)) = Inr deps" "plain_data (rows_val deps)"
    "set deps \<subseteq> set (map dependency_dict (br_dependencies r))"
    using printable_rows [of "map dependency_dict (br_dependencies r)"] dependency_printable by (auto simp del: plain_data.simps)
  obtain parents where p: "canonical_rows (br_parents r) = Inr parents" "set parents \<subseteq> set (br_parents r)" "plain_data (rows_val parents)"
    using printable_rows [of "br_parents r"] rp unfolding rows_printable by blast
  obtain auxiliary where x: "canonical_rows (br_auxiliary r) = Inr auxiliary" "set auxiliary \<subseteq> set (br_auxiliary r)" "plain_data (rows_val auxiliary)"
    using printable_rows [of "br_auxiliary r"] rp unfolding rows_printable by blast
  obtain dh where dh: "sha256_payload ''OVC.OCCURRENCE_CONTEXT.DEPENDENCIES'' (rows_val deps) = Inr dh" using printable_hash [OF d(2)] by blast
  obtain rh where rh: "sha256_payload ''OVC.OCCURRENCE_CONTEXT.REGISTRIES'' (VDict (br_registries r)) = Inr rh"
    using printable_hash rp by blast
  have "plain_data (context_identity r anchor key dh rh fvt)" using a(2) by (simp add: context_identity_def)
  then obtain cid where cid: "sha256_payload ''OVC.OCCURRENCE_CONTEXT'' (context_identity r anchor key dh rh fvt) = Inr cid"
    using printable_hash by blast
  let ?rec = "context_record r anchor key dh rh fvt cid deps parents auxiliary"
  have "\<forall>e \<in> set deps \<union> set parents \<union> set auxiliary. plain_data (VDict e) \<and> free_of oc_forbidden (VDict e)"
  proof -
    have "\<forall>e \<in> set deps. free_of oc_forbidden (VDict e)" using d(3) dependency_free by auto
    moreover have "\<forall>e \<in> set parents \<union> set auxiliary. free_of oc_forbidden (VDict e)"
      using p(2) x(2) sc unfolding screened_free by blast
    ultimately show ?thesis using d(2) p(3) x(3) unfolding rows_printable by blast
  qed
  then have rec: "plain_data (VDict ?rec)" "free_of oc_forbidden (VDict ?rec)"
    using context_record_sound [OF sc assms(2) fi a(2,3)] by blast+
  have f: "assert_no_forbidden_fields (VDict ?rec) = Inr ()" using rec(2) by (simp add: no_forbidden_Inr)
  obtain h where h: "oc_logical_hash (VDict ?rec) = Inr h" using printable_hash [OF rec(1)] by (auto simp: oc_logical_hash_def)
  show ?thesis
    unfolding build_context_def assms(1) a(1,4) t by (simp add: d(1) dh rh cid p(1) x(1) f h Let_def)
qed


subsection \<open>Examples\<close>

definition example_anchor :: anchor_ref where
  "example_anchor = \<lparr>an_kind = ''C2_OBSERVATION'', an_id = ''STRUCTURE.001'', an_schema_id = ''fixture/c2/v1'',
     an_logical_hash = ''sha256:structure001'', an_first_valid_time = ''2026-01-01T00:15:00Z'', an_release_id = VStr ''R'', an_structural = VNone\<rparr>"

definition example_dependency :: "string \<Rightarrow> string \<Rightarrow> dependency_ref" where
  "example_dependency i t = \<lparr>dr_kind = ''TIME_COORDINATE'', dr_record_id = i, dr_schema_id = ''fixture/time/v1'',
     dr_logical_hash = ''h'', dr_first_valid_time = t, dr_role = ''SOURCE'', dr_required = True, dr_release_id = None\<rparr>"

definition example_context_request :: "dependency_ref list \<Rightarrow> pydict \<Rightarrow> build_request" where
  "example_context_request deps lineage = \<lparr>br_anchor = example_anchor, br_source = [(''instrument_id'', VStr ''GBPUSD''), (''price_side'', VStr ''BID'')],
     br_research_role = ''DISCOVERY'', br_interval = [(''start'', VStr ''2026-01-01T00:00:00Z'')], br_calendar = [(''calendar_year'', VInt 2026)],
     br_session = [(''session_membership_ids'', VList [VStr ''S2'', VStr ''S1''])], br_clock = [(''clock_id'', VStr ''15M'')],
     br_confirmation_time = ''2026-01-01T00:15:00Z'', br_pack_id = ''OC.BASE.NONSTRUCTURAL.v0.1'', br_pack_version = ''0.1'',
     br_role_map_id = ''OC.ROLE_MAP.v0.1'', br_parents = [], br_market = None, br_episode = None, br_auxiliary = [],
     br_dependencies = deps, br_registries = [(''registry'', VStr ''REG.v1'')], br_registry_times = [''2025-12-31T00:00:00Z''],
     br_availability = ''AVAILABLE'', br_reasons = [], br_authority = ''SHADOW'', br_lineage = lineage\<rparr>"

lemma zulu_parsed: "0 \<le> t \<Longrightarrow> t < max_ord * day_us \<Longrightarrow> parse_rfc3339 (iso_base t @ ''Z'') = Inr t"
  unfolding parse_rfc3339_Inr zulu_iso by (simp add: from_iso_isoformat instant_def)

lemma example_instants:
  "parse_rfc3339 ''2026-01-01T00:15:00Z'' = Inr 63902823300000000"
  "parse_rfc3339 ''2026-01-01T00:30:00Z'' = Inr 63902824200000000"
  "parse_rfc3339 ''2025-12-31T00:00:00Z'' = Inr 63902736000000000"
proof -
  have "iso_base 63902823300000000 @ ''Z'' = ''2026-01-01T00:15:00Z''" "iso_base 63902824200000000 @ ''Z'' = ''2026-01-01T00:30:00Z''"
    "iso_base 63902736000000000 @ ''Z'' = ''2025-12-31T00:00:00Z''"
    by code_simp+
  with zulu_parsed [of 63902823300000000] zulu_parsed [of 63902824200000000] zulu_parsed [of 63902736000000000]
  show "parse_rfc3339 ''2026-01-01T00:15:00Z'' = Inr 63902823300000000"
    "parse_rfc3339 ''2026-01-01T00:30:00Z'' = Inr 63902824200000000"
    "parse_rfc3339 ''2025-12-31T00:00:00Z'' = Inr 63902736000000000"
    by (simp_all add: max_ord_def day_us_def)
qed

definition example_dependencies :: "dependency_ref list" where
  "example_dependencies = [example_dependency ''TIME.002'' ''2026-01-01T00:30:00Z'', example_dependency ''TIME.001'' ''2026-01-01T00:15:00Z'']"

lemma example_valid:
  "free_of oc_forbidden (VDict lineage) \<Longrightarrow> validate_request (example_context_request deps lineage) = Inr ()"
proof -
  assume l: "free_of oc_forbidden (VDict lineage)"
  have n: "\<not> oc_forbidden ''instrument_id''" "\<not> oc_forbidden ''price_side''" "\<not> oc_forbidden ''calendar_year''"
    "\<not> oc_forbidden ''session_membership_ids''" "\<not> oc_forbidden ''clock_id''" "''SHADOW'' \<in> set ALLOWED_AUTHORITY_STATES"
    "''AVAILABLE'' \<in> set ALLOWED_AVAILABILITY"
    by code_simp+
  have "free_of oc_forbidden (screened (example_context_request deps lineage))"
    unfolding screened_free by (simp add: example_context_request_def clean_simps n l [unfolded clean_VDict] opt_dict_def)
  then have "assert_no_forbidden_fields (screened (example_context_request deps lineage)) = Inr ()" by (simp add: no_forbidden_Inr)
  then show ?thesis by (simp add: validate_request_def) (simp add: example_context_request_def n dget_def)
qed

lemma example_lineages: "free_of oc_forbidden (VDict [(''builder'', VStr ''test'')])"
  "free_of oc_forbidden (VDict [(''host'', VStr ''a''), (''builder'', VStr ''test'')])"
proof -
  have "\<not> oc_forbidden ''builder''" "\<not> oc_forbidden ''host''" by code_simp+
  then show "free_of oc_forbidden (VDict [(''builder'', VStr ''test'')])"
    "free_of oc_forbidden (VDict [(''host'', VStr ''a''), (''builder'', VStr ''test'')])" by (simp_all add: clean_simps)
qed

lemma example_hypotheses:
  assumes "plain_data (VDict lineage)" and "set deps = set example_dependencies"
  shows "request_printable (example_context_request deps lineage)" and "anchor_plain (br_anchor (example_context_request deps lineage))"
    and "assert_no_forbidden_fields (VDict (br_interval (example_context_request deps lineage))) = Inr ()"
    and "is_ok (mapM parse_rfc3339 (context_times (example_context_request deps lineage)))"
proof -
  show "request_printable (example_context_request deps lineage)"
    using assms(1) by (simp add: request_printable_def example_context_request_def example_anchor_def rows_val_def opt_dict_def)
  have "''C2_OBSERVATION'' \<in> set ALLOWED_ANCHORS - set ALIAS_ANCHORS" by code_simp
  then show "anchor_plain (br_anchor (example_context_request deps lineage))"
    by (simp add: anchor_plain_def example_context_request_def example_anchor_def clean_atoms)
  have "\<not> oc_forbidden ''start''" by code_simp
  then show "assert_no_forbidden_fields (VDict (br_interval (example_context_request deps lineage))) = Inr ()"
    by (simp add: no_forbidden_Inr example_context_request_def clean_simps)
  show "is_ok (mapM parse_rfc3339 (context_times (example_context_request deps lineage)))"
    using assms(2) by (auto simp: context_times_def example_context_request_def example_anchor_def example_instants example_dependencies_def example_dependency_def)
qed


text \<open>What the examples have in common, without the property above.\<close>

lemma example_context_built:
  assumes "free_of oc_forbidden (VDict lineage)" and "plain_data (VDict lineage)" and "set deps = set example_dependencies"
  shows "is_ok (build_context (example_context_request deps lineage))"
  by (rule context_built [OF example_valid [OF assms(1)] example_hypotheses [OF assms(2,3)]])

definition example_plain :: build_request where
  "example_plain = example_context_request example_dependencies [(''builder'', VStr ''test'')]"

definition example_other :: build_request where
  "example_other = example_context_request (rev example_dependencies @ example_dependencies) [(''host'', VStr ''a''), (''builder'', VStr ''test'')]"

lemma example_plain_built: "is_ok (build_context example_plain)"
  unfolding example_plain_def by (rule example_context_built [OF example_lineages(1)]) simp_all

theorem context_not_backdated_witness:
  "\<exists>c. build_context example_plain = Inr c \<and> dget c ''first_valid_time'' VNone = VStr ''2026-01-01T00:30:00Z''"
proof -
  obtain c where c: "build_context example_plain = Inr c" using example_plain_built by (auto simp: is_ok_iff)
  have t: "mapM parse_rfc3339 (context_times example_plain) =
      Inr [63902823300000000, 63902823300000000, 63902824200000000, 63902823300000000, 63902736000000000]"
    by (simp add: context_times_def example_plain_def example_context_request_def example_anchor_def example_instants example_dependencies_def
        example_dependency_def)
  have "iso_base 63902824200000000 @ ''Z'' = ''2026-01-01T00:30:00Z''" by code_simp
  then have "format_rfc3339 63902824200000000 = ''2026-01-01T00:30:00Z''" by (simp add: format_rfc3339_def iso_zulu)
  with context_not_backdated [OF c] t c show ?thesis by simp
qed

theorem context_free_of_outcomes_witness:
  "\<exists>c kvs k v. build_context example_plain = Inr c \<and> inside (VDict kvs) (VDict c) \<and> (k, v) \<in> set kvs \<and> py_lower k \<notin> set FORBIDDEN_KEYS"
proof -
  obtain c where c: "build_context example_plain = Inr c" using example_plain_built by (auto simp: is_ok_iff)
  obtain t where "dget c ''first_valid_time'' VNone = VStr t" by (rule build_context_parts [OF c]) (simp add: dget_def lookup_update context_record_time)
  then have "(''first_valid_time'', VStr t) \<in> set c" by (auto simp: dget_def split: option.splits dest: map_of_SomeD)
  with context_free_of_outcomes [OF c here this] c here show ?thesis by blast
qed

theorem context_content_only_witness:
  "\<exists>c c'. build_context example_plain = Inr c \<and> build_context example_other = Inr c' \<and> map_of c' ''logical_hash'' = map_of c ''logical_hash''"
proof -
  obtain c where c: "build_context example_plain = Inr c" using example_plain_built by (auto simp: is_ok_iff)
  have l: "py_lower ''host'' \<in> set EPHEMERAL_LINEAGE_KEYS" "py_lower ''builder'' \<notin> set EPHEMERAL_LINEAGE_KEYS" by code_simp+
  have "same_content example_plain example_other"
    by (auto simp: same_content_def example_plain_def example_other_def example_context_request_def l)
  moreover have "assert_no_forbidden_fields (VDict (br_lineage example_other)) = Inr ()"
    using example_lineages(2) by (simp add: no_forbidden_Inr example_other_def example_context_request_def)
  ultimately show ?thesis using context_content_only [OF c] c by blast
qed

definition example_alias :: anchor_ref where
  "example_alias = \<lparr>an_kind = ''FDI_OCCURRENCE_ASSIGNMENT'', an_id = ''F1'', an_schema_id = ''f'', an_logical_hash = ''fh'',
     an_first_valid_time = ''2026-01-01T00:15:00Z'', an_release_id = VNone,
     an_structural = VDict [(''anchor_kind'', VStr ''C2_OBSERVATION''), (''anchor_id'', VStr ''S1''), (''anchor_schema_id'', VStr ''c''),
       (''anchor_logical_hash'', VStr ''h''), (''anchor_first_valid_time'', VStr ''2026-01-01T00:15:00Z'')]\<rparr>"

definition example_target :: anchor_ref where
  "example_target = \<lparr>an_kind = ''C2_OBSERVATION'', an_id = ''S1'', an_schema_id = ''c'', an_logical_hash = ''h'',
     an_first_valid_time = ''2026-01-01T00:15:00Z'', an_release_id = VNone, an_structural = VNone\<rparr>"

theorem alias_has_structural_key_witness:
  "build_occurrence_key example_alias = build_occurrence_key example_target \<and> is_ok (build_occurrence_key example_alias)"
proof -
  have k: "an_kind example_alias \<in> set ALIAS_ANCHORS" "an_kind example_target \<in> set ALLOWED_ANCHORS - set ALIAS_ANCHORS" by code_simp+
  have m: "anchor_from_mapping (dict_of (an_structural example_alias)) = Inr example_target"
    by (simp add: anchor_from_mapping_def example_alias_def example_target_def dict_of_def ANCHOR_FIELDS_def dget_def)
  show ?thesis
    by (rule alias_has_structural_key [OF k(1) _ m k(2)])
      (simp_all add: example_alias_def example_target_def dict_of_def anchor_dict_def ANCHOR_FIELDS_def dget_def)
qed

theorem replay_ignores_order_witness:
  "\<forall>p. replay_contexts [example_plain, example_other, example_plain\<lparr>br_reasons := [''X'']\<rparr>] = Inr p \<longleftrightarrow>
     replay_contexts [example_plain\<lparr>br_reasons := [''X'']\<rparr>, example_plain, example_other] = Inr p"
proof
  fix p
  show "replay_contexts [example_plain, example_other, example_plain\<lparr>br_reasons := [''X'']\<rparr>] = Inr p \<longleftrightarrow>
     replay_contexts [example_plain\<lparr>br_reasons := [''X'']\<rparr>, example_plain, example_other] = Inr p"
    by (rule replay_ignores_order) simp
qed

definition example_context :: "string \<Rightarrow> string \<Rightarrow> pydict" where
  "example_context i t = [(''occurrence_key'', VStr ''K''), (''occurrence_context_id'', VStr i), (''first_valid_time'', VStr t)]"

theorem supersession_exact_witness:
  "(\<exists>s. create_supersession (example_context ''A'' ''2026-01-01T00:15:00Z'') (example_context ''B'' ''2026-01-01T00:30:00Z'') ''R'' [] [] = Inr s) \<and>
   create_supersession (example_context ''A'' ''2026-01-01T00:30:00Z'') (example_context ''B'' ''2026-01-01T00:15:00Z'') ''R'' [] [] =
     Inl (Exn ValueError ''OC_TIME_BACKDATE_DENIED'')"
  using supersession_exact [of "example_context ''A'' ''2026-01-01T00:15:00Z''" "example_context ''B'' ''2026-01-01T00:30:00Z''"
      63902823300000000 63902824200000000 "''R''" "[]" "[]"]
    supersession_exact [of "example_context ''A'' ''2026-01-01T00:30:00Z''" "example_context ''B'' ''2026-01-01T00:15:00Z''"
      63902824200000000 63902823300000000 "''R''" "[]" "[]"]
  by (simp add: example_context_def dget_def parse_value_def example_instants) blast

end
