(* ===== verification/OC_Consumers.thy ===== *)
theory OC_Consumers
  imports OC_Context C2E_Models
begin

section \<open>OccurrenceContext: who reads a context, and what a context reads\<close>

text \<open>
  \<^verbatim>\<open>src/src/ovc/context/occurrence_context/\<close>: \<^verbatim>\<open>consumers.py\<close> (a consumer declares the fields it reads
  and gets those), \<^verbatim>\<open>research_operations.py\<close>, \<^verbatim>\<open>mcarb_refs.py\<close> (references to auxiliary records that a
  registry admits) and \<^verbatim>\<open>c2e_adapter.py\<close> (anchors and episode context from C2E records). The lemmas show
  that a projection holds exactly the declared fields, that an auxiliary reference needs an admission,
  and that an episode context is never a whole second or more before the birth of its episode.
\<close>

subsection \<open>Consumers\<close>

definition ALLOWED_CONSUMER_ROLES :: "string list" where
  "ALLOWED_CONSUMER_ROLES = [''IDENTITY_BINDING'', ''STRATIFIER'', ''FILTER'', ''DISPLAY_ONLY'']"

definition ALLOWED_DEPENDENCY_DISPOSITIONS :: "string list" where
  "ALLOWED_DEPENDENCY_DISPOSITIONS = [''REQUIRED'', ''OPTIONAL'', ''FORBIDDEN'']"

definition FORBIDDEN_WHOLE_ENVELOPE_PATHS :: "string list" where
  "FORBIDDEN_WHOLE_ENVELOPE_PATHS = [[], ''*'', ''.'', ''occurrence_context'', ''OccurrenceContext'']"

definition whole_envelope :: "string \<Rightarrow> bool" where
  "whole_envelope path \<longleftrightarrow> path \<in> set FORBIDDEN_WHOLE_ENVELOPE_PATHS \<or> suffix ''.*'' path"

definition path_step :: "string \<Rightarrow> pyval \<Rightarrow> string \<Rightarrow> pyval result" where
  "path_step path current part =
    (case current of
      VDict d \<Rightarrow> (case map_of d part of Some v \<Rightarrow> Inr v | None \<Rightarrow> Inl (Exn KeyError path))
    | _ \<Rightarrow> Inl (Exn KeyError path))"

definition resolve_path :: "pydict \<Rightarrow> string \<Rightarrow> pyval result" where
  "resolve_path d path =
    bnd (req OccurrenceContextError (\<not> whole_envelope path) ''whole-envelope consumption is forbidden'') (\<lambda>_.
    foldM (path_step path) (VDict d) (split_on CHR ''.'' path))"

definition MANIFEST_REQUIRED :: "string list" where
  "MANIFEST_REQUIRED = [''consumer_kind'', ''consumer_version'', ''accepted_context_schema_versions'',
     ''accepted_context_pack_versions'', ''field_dependencies'', ''admissible_cutoff_rule'', ''missingness_behavior'', ''authority_effect'']"

record field_dependency =
  fd_path :: string
  fd_dependency :: string
  fd_role :: string

text \<open>One row of \<^verbatim>\<open>field_dependencies\<close>, after rows with the paths \<open>seen\<close>.\<close>

definition field_row :: "string list \<Rightarrow> pyval \<Rightarrow> field_dependency result" where
  "field_row seen item =
    bnd (vget item ''field_path'' (VStr [])) (\<lambda>p.
    let path = py_str p in
    bnd (req OccurrenceContextError (\<not> whole_envelope path) ''whole-envelope dependency forbidden'') (\<lambda>_.
    bnd (req OccurrenceContextError (path \<notin> set seen) ''duplicate field dependency'') (\<lambda>_.
    bnd (vget item ''dependency'' (VStr [])) (\<lambda>d.
    bnd (vget item ''role'' (VStr [])) (\<lambda>ro.
    bnd (req OccurrenceContextError (py_str d \<in> set ALLOWED_DEPENDENCY_DISPOSITIONS) ''unknown dependency disposition'') (\<lambda>_.
    bnd (req OccurrenceContextError (\<not> (py_str ro = ''REPRESENTATION_INPUT'' \<or> py_str ro \<notin> set ALLOWED_CONSUMER_ROLES))
      ''OC_ROLE_REPRESENTATION_INPUT_UNAUTHORIZED'') (\<lambda>_.
    Inr \<lparr>fd_path = path, fd_dependency = py_str d, fd_role = py_str ro\<rparr>)))))))"

definition manifest_step :: "field_dependency list \<Rightarrow> pyval \<Rightarrow> field_dependency list result" where
  "manifest_step deps item = bnd (field_row (map fd_path deps) item) (\<lambda>f. Inr (deps @ [f]))"

text \<open>The payload that \<^verbatim>\<open>validate_consumption_manifest\<close> returns.\<close>

record consumption =
  cm_kind :: string
  cm_version :: string
  cm_schemas :: "string list"
  cm_packs :: "string list"
  cm_fields :: "field_dependency list"
  cm_cutoff :: string
  cm_missingness :: string

definition field_val :: "field_dependency \<Rightarrow> pyval" where
  "field_val f = VDict [(''field_path'', VStr (fd_path f)), (''dependency'', VStr (fd_dependency f)), (''role'', VStr (fd_role f))]"

definition consumption_dict :: "consumption \<Rightarrow> pydict" where
  "consumption_dict m =
    [(''consumer_kind'', VStr (cm_kind m)), (''consumer_version'', VStr (cm_version m)),
     (''accepted_context_schema_versions'', VList (map VStr (cm_schemas m))),
     (''accepted_context_pack_versions'', VList (map VStr (cm_packs m))),
     (''field_dependencies'', VList (map field_val (cm_fields m))), (''admissible_cutoff_rule'', VStr (cm_cutoff m)),
     (''missingness_behavior'', VStr (cm_missingness m)), (''authority_effect'', VStr ''NONE'')]"

text \<open>\<^verbatim>\<open>set(v)\<close> of an iterable, and \<^verbatim>\<open>sorted(set(str(item) for item in v))\<close>.\<close>

definition py_set :: "pyval \<Rightarrow> pyval list result" where
  "py_set v = bnd (iter_of v) (\<lambda>xs. if list_all hashable xs then Inr xs else Inl (Exn TypeError []))"

definition sorted_texts :: "pyval \<Rightarrow> string list result" where
  "sorted_texts v = bnd (iter_of v) (\<lambda>xs. Inr (sorted_set (map py_str xs)))"

definition validate_consumption_manifest :: "pydict \<Rightarrow> (consumption \<times> string) result" where
  "validate_consumption_manifest m =
    (let missing = sort (filter (\<lambda>f. \<not> dhas m f) MANIFEST_REQUIRED); text_of = (\<lambda>f. bnd (ditem m f) (\<lambda>v. Inr (py_str v))) in
     bnd (req OccurrenceContextError (missing = []) (join '','' missing)) (\<lambda>_.
     bnd (ditem m ''authority_effect'') (\<lambda>a.
     bnd (req OccurrenceContextError (a = VStr ''NONE'') ''consumer authority must remain NONE'') (\<lambda>_.
     bnd (bnd (ditem m ''accepted_context_schema_versions'') py_set) (\<lambda>schemas.
     bnd (req OccurrenceContextError (VStr ''0.1'' \<in> set schemas) ''schema v0.1 not accepted'') (\<lambda>_.
     bnd (bnd (ditem m ''field_dependencies'') iter_of) (\<lambda>items.
     bnd (foldM manifest_step [] items) (\<lambda>deps.
     bnd (text_of ''consumer_kind'') (\<lambda>kind.
     bnd (text_of ''consumer_version'') (\<lambda>version.
     bnd (bnd (ditem m ''accepted_context_schema_versions'') sorted_texts) (\<lambda>schema_texts.
     bnd (bnd (ditem m ''accepted_context_pack_versions'') sorted_texts) (\<lambda>pack_texts.
     bnd (text_of ''admissible_cutoff_rule'') (\<lambda>cutoff.
     bnd (text_of ''missingness_behavior'') (\<lambda>missingness.
     let payload = \<lparr>cm_kind = kind, cm_version = version, cm_schemas = schema_texts, cm_packs = pack_texts,
           cm_fields = sort_key fd_path deps, cm_cutoff = cutoff, cm_missingness = missingness\<rparr> in
     bnd (sha256_payload ''OVC.OCCURRENCE_CONTEXT.CONSUMER_MANIFEST'' (VDict (consumption_dict payload))) (\<lambda>h.
     Inr (payload, h))))))))))))))))"

text \<open>The value of one declared field: \<open>None\<close> where the loop continues without it.\<close>

definition project_field :: "pydict \<Rightarrow> field_dependency \<Rightarrow> pyval option result" where
  "project_field d f =
    (case resolve_path d (fd_path f) of
      Inr v \<Rightarrow>
        if fd_dependency f = ''FORBIDDEN''
        then (if v \<in> {VNone, VList [], VDict [], VStr []} then Inr None
              else oc_error (''forbidden consumer field populated: '' @ fd_path f))
        else Inr (Some v)
    | Inl (Exn c msg) \<Rightarrow>
        if c \<noteq> KeyError then Inl (Exn c msg)
        else if fd_dependency f = ''REQUIRED'' then oc_error (fd_path f)
        else Inr None)"

definition consume_step :: "pydict \<Rightarrow> pydict \<Rightarrow> field_dependency \<Rightarrow> pydict result" where
  "consume_step d projected f =
    bnd (project_field d f) (\<lambda>v. Inr (case v of None \<Rightarrow> projected | Some w \<Rightarrow> AList.update (fd_path f) w projected))"

definition project_context :: "pydict \<Rightarrow> pydict \<Rightarrow> pydict result" where
  "project_context d manifest =
    bnd (validate_consumption_manifest manifest) (\<lambda>(m, h).
    bnd (req OccurrenceContextError (py_str (dget d ''schema_version'' VNone) \<in> set (cm_schemas m)) ''context schema not accepted'') (\<lambda>_.
    bnd (req OccurrenceContextError (py_str (dget d ''context_pack_version'' VNone) \<in> set (cm_packs m)) ''context pack not accepted'') (\<lambda>_.
    bnd (foldM (consume_step d) [] (cm_fields m)) (\<lambda>projected.
    bnd (ditem d ''occurrence_context_id'') (\<lambda>i.
    bnd (ditem d ''first_valid_time'') (\<lambda>t.
    let result' = [(''consumer_kind'', VStr (cm_kind m)), (''consumer_version'', VStr (cm_version m)),
          (''occurrence_context_id'', VStr (py_str i)), (''context_first_valid_time'', VStr (py_str t)),
          (''fields'', VDict projected), (''manifest_hash'', VStr h), (''authority_effect'', VStr ''NONE'')] in
    bnd (canonical_json (VDict result')) (\<lambda>_. Inr result')))))))"

definition C2P_FORBIDDEN_TOKENS :: "string list" where
  "C2P_FORBIDDEN_TOKENS = [''occurrence_context_id'', ''session'', ''session_id'', ''a_l_block_id'', ''calendar_year'',
     ''calendar_month'', ''era'', ''market_condition'', ''mcarb'', ''auxiliary_refs'', ''family_id'']"

definition assert_c2p_identity_payload_context_free :: "pydict \<Rightarrow> unit result" where
  "assert_c2p_identity_payload_context_free payload =
    (let overlap = sorted_set (filter (\<lambda>k. k \<in> set C2P_FORBIDDEN_TOKENS) (map (\<lambda>p. py_lower (fst p)) payload)) in
     req OccurrenceContextError (overlap = []) (join '','' overlap))"

definition research_operations_projection :: "pydict \<Rightarrow> pydict \<Rightarrow> pydict result" where
  "research_operations_projection d manifest =
    bnd (project_context d manifest) (\<lambda>projected.
    bnd (ditem d ''occurrence_context_id'') (\<lambda>i.
    bnd (ditem d ''logical_hash'') (\<lambda>h.
    bnd (ditem d ''first_valid_time'') (\<lambda>t.
    Inr [(''schema'', VStr ''occurrence_context_research_operations_projection/v0_1''), (''projection'', VDict projected),
         (''lineage'', VDict [(''occurrence_context_id'', VStr (py_str i)), (''logical_hash'', VStr (py_str h)),
            (''first_valid_time'', VStr (py_str t))]),
         (''availability'', dget d ''availability'' (VDict [])), (''reason_codes'', dget d ''reason_codes'' (VList [])),
         (''authority_effect'', VStr ''NONE''), (''write_authority'', VStr ''NONE'')]))))"

subsection \<open>Auxiliary references\<close>

definition MCARB_KINDS :: "string list" where
  "MCARB_KINDS = [''ACTIVITY_LIQUIDITY'', ''INTRINSIC_EVENT_TIME'', ''VOLATILITY_STATE'', ''PROVIDER_SOURCE_CHARACTERISTIC'']"

definition FORBIDDEN_VECTOR_KEYS :: "string list" where
  "FORBIDDEN_VECTOR_KEYS = [''vector'', ''vectors'', ''embedding'', ''embeddings'', ''features'', ''feature_vector'',
     ''normalized_features'', ''normalised_features'']"

definition MCARB_REQUIRED :: "string list" where
  "MCARB_REQUIRED = [''kind'', ''record_id'', ''record_schema_id'', ''record_logical_hash'', ''candidate_or_pack_id'',
     ''candidate_or_pack_version'', ''first_valid_time'', ''availability_status'', ''qualification_record_id'', ''qualification_status'']"

definition vector_key :: "string \<Rightarrow> bool" where
  "vector_key key \<longleftrightarrow> py_lower key \<in> set FORBIDDEN_VECTOR_KEYS"

definition walk_forbidden :: "pyval \<Rightarrow> unit result" where
  "walk_forbidden v = walk vector_key (\<lambda>key. Exn OccurrenceContextError (''mutable/vector payload forbidden: '' @ key)) v"

definition admission_matches :: "pydict \<Rightarrow> pydict \<Rightarrow> bool" where
  "admission_matches admission payload \<longleftrightarrow> list_all (\<lambda>f. py_eq (dget admission f VNone) (dget payload f VNone))
     [''kind'', ''candidate_or_pack_id'', ''candidate_or_pack_version'', ''record_schema_id'']"

fun first_admission :: "pyval list \<Rightarrow> pydict \<Rightarrow> pydict option result" where
  "first_admission [] payload = Inr None"
| "first_admission (x # xs) payload =
     (case x of
       VDict admission \<Rightarrow> if admission_matches admission payload then Inr (Some admission) else first_admission xs payload
     | _ \<Rightarrow> Inl (Exn AttributeError []))"

definition find_admission :: "pydict \<Rightarrow> pydict \<Rightarrow> pydict option result" where
  "find_admission registry payload =
    bnd (iter_of (dget registry ''admissions'' (VList []))) (\<lambda>xs. first_admission xs payload)"

definition is_compound :: "pyval \<Rightarrow> bool" where
  "is_compound v \<longleftrightarrow> (case v of VDict _ \<Rightarrow> True | VList _ \<Rightarrow> True | VTuple _ \<Rightarrow> True | _ \<Rightarrow> False)"

text \<open>Who admits the reference: the fixture register, or the admission that was found.\<close>

definition admission_id :: "pydict \<Rightarrow> pydict option \<Rightarrow> bool \<Rightarrow> pyval \<Rightarrow> string result" where
  "admission_id registry admission fixture_only kind =
    (if fixture_only then
       bnd (py_set (dget registry ''fixture_only_categories'' (VList []))) (\<lambda>allowed.
       bnd (req OccurrenceContextError (kind \<in> set allowed) ''fixture category not registered'') (\<lambda>_.
       Inr ''OC.AUXILIARY.FIXTURE_ONLY.v0.1''))
     else if dget registry ''status'' VNone = VStr ''NO_SCIENTIFIC_ADMISSIONS'' then oc_error ''OC_MCARB_NOT_ADMITTED''
     else case admission of
         None \<Rightarrow> oc_error ''OC_MCARB_NOT_ADMITTED''
       | Some adm \<Rightarrow>
           bnd (req OccurrenceContextError (dget adm ''authority_effect'' (VStr ''NONE'') = VStr ''NONE'') ''activating admission forbidden'') (\<lambda>_.
           bnd (ditem adm ''context_admission_id'') (\<lambda>v. Inr (py_str v))))"

definition check_descriptor :: "pydict option \<Rightarrow> bool \<Rightarrow> pyval \<Rightarrow> pyval result" where
  "check_descriptor admission fixture_only descriptor =
    (if descriptor = VNone then Inr VNone
     else case descriptor of
       VDict kvs \<Rightarrow>
         bnd (walk_forbidden descriptor) (\<lambda>_.
         bnd (if fixture_only
              then req OccurrenceContextError (\<not> list_ex (\<lambda>(k, v). is_compound v) kvs) ''fixture descriptor must be compact scalars''
              else bnd (case admission of
                     None \<Rightarrow> Inr []
                   | Some adm \<Rightarrow> if adm = [] then Inr [] else py_set (dget adm ''compact_descriptor_allowlist'' (VList []))) (\<lambda>allowed.
                   req OccurrenceContextError (\<forall>p \<in> set kvs. VStr (fst p) \<in> set allowed) ''descriptor field not allowlisted'')) (\<lambda>_.
         Inr descriptor))
     | _ \<Rightarrow> oc_error ''compact descriptor must be a mapping'')"

definition build_mcarb_context_ref :: "pydict \<Rightarrow> pydict \<Rightarrow> bool \<Rightarrow> pydict result" where
  "build_mcarb_context_ref data registry fixture_only =
    (let missing = sort (filter (\<lambda>f. dget data f VNone \<in> {VNone, VStr []}) MCARB_REQUIRED);
         text_of = (\<lambda>f. VStr (py_str (dget data f VNone))) in
     bnd (req OccurrenceContextError (missing = []) (join '','' missing)) (\<lambda>_.
     bnd (in_strs (dget data ''kind'' VNone) MCARB_KINDS) (\<lambda>known.
     bnd (req OccurrenceContextError known ''unknown auxiliary kind'') (\<lambda>_.
     bnd (walk_forbidden (VDict data)) (\<lambda>_.
     bnd (find_admission registry data) (\<lambda>admission.
     bnd (admission_id registry admission fixture_only (dget data ''kind'' VNone)) (\<lambda>i.
     bnd (check_descriptor admission fixture_only (dget data ''compact_descriptor'' VNone)) (\<lambda>descriptor.
     bnd (sorted_texts (dget data ''source_record_ids'' (VList []))) (\<lambda>ids.
     let result' = [(''kind'', text_of ''kind''), (''record_id'', text_of ''record_id''), (''record_schema_id'', text_of ''record_schema_id''),
           (''record_logical_hash'', text_of ''record_logical_hash''), (''domain_id'', dget data ''domain_id'' VNone),
           (''candidate_or_pack_id'', text_of ''candidate_or_pack_id''),
           (''candidate_or_pack_version'', text_of ''candidate_or_pack_version''),
           (''source_release_id'', dget data ''source_release_id'' VNone), (''source_record_ids'', VList (map VStr ids)),
           (''first_valid_time'', text_of ''first_valid_time''), (''availability_status'', text_of ''availability_status''),
           (''qualification_record_id'', text_of ''qualification_record_id''), (''qualification_status'', text_of ''qualification_status''),
           (''context_admission_id'', VStr i), (''compact_descriptor'', descriptor), (''authority_effect'', VStr ''NONE'')] in
     bnd (canonical_json (VDict result')) (\<lambda>_. Inr result'))))))))))"

subsection \<open>C2E records\<close>

definition KIND_TO_ANCHOR :: "(string \<times> string \<times> string) list" where
  "KIND_TO_ANCHOR =
    [(''episode_genesis'', ''C2E_EPISODE_GENESIS'', ''episode_id''), (''episode_snapshot'', ''C2E_EPISODE_SNAPSHOT'', ''snapshot_id''),
     (''phase_segment'', ''C2E_PHASE_SEGMENT'', ''phase_segment_id'')]"

definition c2e_anchor :: "string \<Rightarrow> pydict \<Rightarrow> anchor_ref result" where
  "c2e_anchor kind rec =
    (case map_of KIND_TO_ANCHOR kind of
      None \<Rightarrow> oc_error (''unsupported C2E anchor kind '' @ kind)
    | Some (anchor_kind, field) \<Rightarrow>
        bnd (validate_record kind rec) (\<lambda>validated.
        bnd (ditem validated field) (\<lambda>i.
        bnd (ditem validated ''schema'') (\<lambda>s.
        bnd (ditem validated ''logical_hash'') (\<lambda>h.
        bnd (ditem validated ''first_valid_time'') (\<lambda>t.
        Inr \<lparr>an_kind = anchor_kind, an_id = py_str i, an_schema_id = py_str s, an_logical_hash = py_str h, an_first_valid_time = py_str t,
             an_release_id = VStr (py_str (py_or (dget validated ''source_release_id'' VNone) (VStr []))), an_structural = VNone\<rparr>))))))"

definition c2e_dependency :: "string \<Rightarrow> pydict \<Rightarrow> string \<Rightarrow> bool \<Rightarrow> dependency_ref result" where
  "c2e_dependency kind rec role' required' =
    bnd (c2e_anchor kind rec) (\<lambda>anchor.
    Inr \<lparr>dr_kind = py_upper kind, dr_record_id = an_id anchor, dr_schema_id = an_schema_id anchor, dr_logical_hash = an_logical_hash anchor,
         dr_first_valid_time = an_first_valid_time anchor, dr_role = role', dr_required = required',
         dr_release_id = (case an_release_id anchor of VStr s \<Rightarrow> Some s | _ \<Rightarrow> None)\<rparr>)"

text \<open>\<^verbatim>\<open>int(delta.total_seconds())\<close> cuts the fraction off; \<open>delta\<close> is in microseconds. The quotient is exact here
  and a float in the source, which agrees up to 272 years.\<close>

definition iso_duration :: "int \<Rightarrow> string result" where
  "iso_duration delta =
    (let seconds = (if delta < 0 then - (- delta div 1000000) else delta div 1000000) in
     bnd (req OccurrenceContextError (\<not> seconds < 0) ''OC_TIME_BACKDATE_DENIED'') (\<lambda>_.
     Inr (''PT'' @ int_str seconds @ ''S'')))"

text \<open>\<^verbatim>\<open>a > b\<close> of texts or of integers, and of pairs.\<close>

definition val_gt :: "pyval \<Rightarrow> pyval \<Rightarrow> bool result" where
  "val_gt v w = (case (v, w) of
      (VStr s, VStr t) \<Rightarrow> Inr (s > t)
    | _ \<Rightarrow> (case (as_num v, as_num w) of (Some i, Some j) \<Rightarrow> Inr (i > j) | _ \<Rightarrow> Inl (Exn TypeError [])))"

definition pair_gt :: "pyval \<times> pyval \<Rightarrow> pyval \<times> pyval \<Rightarrow> bool result" where
  "pair_gt p q =
    (if \<not> py_eq (fst p) (fst q) then val_gt (fst p) (fst q)
     else if \<not> py_eq (snd p) (snd q) then val_gt (snd p) (snd q)
     else Inr False)"

definition phase_key :: "pydict \<Rightarrow> (pyval \<times> pyval) result" where
  "phase_key phase =
    bnd (ditem phase ''first_valid_time'') (\<lambda>t. bnd (ditem phase ''phase_segment_id'') (\<lambda>i. Inr (t, i)))"

text \<open>\<^verbatim>\<open>max(phase_records, key=...)\<close>: the first of the largest.\<close>

definition phase_max :: "pydict \<Rightarrow> pydict list \<Rightarrow> pydict result" where
  "phase_max phase phases =
    foldM (\<lambda>best item. bnd (phase_key item) (\<lambda>k. bnd (phase_key best) (\<lambda>b. bnd (pair_gt k b) (\<lambda>gt. Inr (if gt then item else best)))))
      phase phases"

definition ref_of :: "pydict \<Rightarrow> string \<Rightarrow> pydict result" where
  "ref_of rec field =
    bnd (ditem rec field) (\<lambda>i. bnd (ditem rec ''logical_hash'') (\<lambda>h. bnd (ditem rec ''first_valid_time'') (\<lambda>t.
    Inr [(''record_id'', i), (''logical_hash'', h), (''first_valid_time'', t)])))"

definition status_context :: "string \<Rightarrow> pyval \<Rightarrow> pyval" where
  "status_context status' t = VDict [(''status'', VStr status'), (''first_valid_time'', t)]"

definition episode_relative_context :: "pydict \<Rightarrow> pydict \<Rightarrow> pydict list \<Rightarrow> pydict result" where
  "episode_relative_context genesis snapshot phases =
    bnd (validate_record ''episode_genesis'' genesis) (\<lambda>g.
    bnd (validate_record ''episode_snapshot'' snapshot) (\<lambda>s.
    bnd (ditem s ''episode_id'') (\<lambda>se.
    bnd (ditem g ''episode_id'') (\<lambda>ge.
    bnd (req OccurrenceContextError (py_eq se ge) ''snapshot/genesis episode mismatch'') (\<lambda>_.
    bnd (bnd (ditem g ''birth_effective_time'') (\<lambda>v. parse_rfc3339 (py_str v))) (\<lambda>birth.
    bnd (bnd (ditem s ''as_of_time'') (\<lambda>v. parse_rfc3339 (py_str v))) (\<lambda>as_of.
    bnd (mapM (validate_record ''phase_segment'') phases) (\<lambda>records.
    bnd (mapM (\<lambda>p. bnd (ditem p ''episode_id'') (\<lambda>e. req OccurrenceContextError (py_eq e ge) ''phase/genesis episode mismatch'')) records) (\<lambda>_.
    bnd (case records of [] \<Rightarrow> Inr None | p # ps \<Rightarrow> bnd (phase_max p ps) (\<lambda>x. Inr (Some x))) (\<lambda>current.
    bnd (bnd (ditem s ''status'') (\<lambda>v. Inr (py_str v))) (\<lambda>status'.
    bnd (ditem s ''first_valid_time'') (\<lambda>st.
    bnd (ref_of g ''episode_id'') (\<lambda>gref.
    bnd (ditem g ''boundary_pack_id'') (\<lambda>pack.
    bnd (ref_of s ''snapshot_id'') (\<lambda>sref.
    bnd (iso_duration (as_of - birth)) (\<lambda>elapsed.
    bnd (bnd (ditem s ''member_ids'') iter_of) (\<lambda>members.
    bnd (case current of None \<Rightarrow> Inr VNone | Some p \<Rightarrow> bnd (ref_of p ''phase_segment_id'') (\<lambda>d. Inr (VDict d))) (\<lambda>pref.
    bnd (ditem s ''as_of_time'') (\<lambda>as_of_text.
    Inr [(''episode_id'', ge), (''episode_genesis_ref'', VDict (gref @ [(''boundary_pack_id'', pack)])), (''snapshot_ref'', VDict sref),
         (''elapsed_duration'', VStr elapsed), (''elapsed_eligible_observation_count'', VInt (int (length members))),
         (''current_phase_ref'', pref), (''lifecycle_status'', VStr status'),
         (''censoring_context'', if status' = ''CENSORED'' then status_context status' st else VNone),
         (''completion_context'', if status' \<in> {''TERMINATED'', ''CONFLICTED''} then status_context status' st else VNone),
         (''as_of_time'', as_of_text)])))))))))))))))))))"

subsection \<open>What a consumer gets\<close>

lemma project_field_Some:
  "project_field d f = Inr (Some v) \<longleftrightarrow> fd_dependency f \<noteq> ''FORBIDDEN'' \<and> resolve_path d (fd_path f) = Inr v"
  by (auto simp: project_field_def oc_error_def split: sum.splits exn.splits if_splits)

lemma project_field_None:
  "project_field d f = Inr None \<longleftrightarrow>
    (fd_dependency f = ''FORBIDDEN'' \<and> (\<exists>v \<in> {VNone, VList [], VDict [], VStr []}. resolve_path d (fd_path f) = Inr v)) \<or>
    (fd_dependency f \<noteq> ''REQUIRED'' \<and> (\<exists>msg. resolve_path d (fd_path f) = Inl (Exn KeyError msg)))"
  by (auto simp: project_field_def oc_error_def split: sum.splits exn.splits if_splits)

lemma consume_Inr:
  assumes "foldM (consume_step d) acc fs = Inr res" and "\<forall>path v. map_of acc path = Some v \<longrightarrow> resolve_path d path = Inr v"
  shows "map_of res path = Some v \<longleftrightarrow>
    map_of acc path = Some v \<or> (\<exists>f \<in> set fs. fd_path f = path \<and> fd_dependency f \<noteq> ''FORBIDDEN'' \<and> resolve_path d path = Inr v)"
  using assms
proof (induction fs arbitrary: acc)
  case Nil
  then show ?case by simp
next
  case (Cons f fs)
  obtain r where r: "project_field d f = Inr r" using Cons.prems(1) by (auto simp: consume_step_def bnd_eq_Inr)
  show ?case
  proof (cases r)
    case None
    then have "consume_step d acc f = Inr acc" using r by (simp add: consume_step_def)
    then have "foldM (consume_step d) acc fs = Inr res" using Cons.prems(1) by simp
    note ih = Cons.IH [OF this Cons.prems(2)]
    have "\<not> (fd_dependency f \<noteq> ''FORBIDDEN'' \<and> resolve_path d (fd_path f) = Inr v)"
      using r None project_field_Some [of d f v] by simp
    then show ?thesis unfolding ih by auto
  next
    case (Some w)
    then have w: "fd_dependency f \<noteq> ''FORBIDDEN''" "resolve_path d (fd_path f) = Inr w" using r project_field_Some by simp_all
    have "consume_step d acc f = Inr (AList.update (fd_path f) w acc)" using r Some by (simp add: consume_step_def)
    then have s: "foldM (consume_step d) (AList.update (fd_path f) w acc) fs = Inr res" using Cons.prems(1) by simp
    have "\<forall>path v. map_of (AList.update (fd_path f) w acc) path = Some v \<longrightarrow> resolve_path d path = Inr v"
      using Cons.prems(2) w(2) by (simp add: lookup_update)
    note ih = Cons.IH [OF s this]
    show ?thesis unfolding ih using w Cons.prems(2) by (auto simp: lookup_update)
  qed
qed

lemma foldM_each:
  assumes "foldM (consume_step d) acc fs = Inr res" and "f \<in> set fs"
  shows "is_ok (project_field d f)"
  using assms by (induction fs arbitrary: acc) (auto simp: consume_step_def bnd_eq_Inr)

text \<open>The rows of a manifest are a table keyed by path.\<close>

interpretation manifest_fields: keyed_rows field_row fd_path
  by unfold_locales (auto simp: field_row_def bnd_eq_Inr req_eq_Inr Let_def)

lemma field_row_sound:
  "field_row seen item = Inr f \<Longrightarrow> \<not> whole_envelope (fd_path f) \<and> fd_dependency f \<in> set ALLOWED_DEPENDENCY_DISPOSITIONS \<and>
    fd_role f \<in> set ALLOWED_CONSUMER_ROLES"
  by (auto simp: field_row_def bnd_eq_Inr req_eq_Inr Let_def)

lemma consumption_sound:
  assumes "validate_consumption_manifest manifest = Inr (m, h)"
  shows "distinct (map fd_path (cm_fields m)) \<and> (\<forall>f \<in> set (cm_fields m). \<not> whole_envelope (fd_path f) \<and>
    fd_dependency f \<in> set ALLOWED_DEPENDENCY_DISPOSITIONS \<and> fd_role f \<in> set ALLOWED_CONSUMER_ROLES)"
proof -
  obtain items deps where f: "foldM manifest_step [] items = Inr deps" and m: "cm_fields m = sort_key fd_path deps"
    using assms by (clarsimp simp: validate_consumption_manifest_def Let_def bnd_eq_Inr req_eq_Inr)
  have "manifest_fields.table items = Inr (cm_fields m)"
    using f m by (simp add: manifest_fields.table_def manifest_step_def [abs_def])
  then show ?thesis using manifest_fields.table_distinct(1) manifest_fields.table_mem field_row_sound by blast
qed

text \<open>C21: a consumer gets what it declares. The projection of a context has a value for exactly the declared
  fields that are not forbidden and that the context has, each the value at that path; no declared path
  takes the whole envelope, no path is declared twice, every required field is present, and every
  forbidden one is absent or empty.\<close>

theorem projection_exact:
  assumes "project_context d manifest = Inr p" and "validate_consumption_manifest manifest = Inr (m, h)"
  shows "\<exists>projected. dget p ''fields'' VNone = VDict projected \<and>
    (\<forall>path v. map_of projected path = Some v \<longleftrightarrow>
      (\<exists>f \<in> set (cm_fields m). fd_path f = path \<and> fd_dependency f \<noteq> ''FORBIDDEN'' \<and> resolve_path d path = Inr v)) \<and>
    distinct (map fd_path (cm_fields m)) \<and>
    (\<forall>f \<in> set (cm_fields m). \<not> whole_envelope (fd_path f) \<and>
      (fd_dependency f = ''REQUIRED'' \<longrightarrow> map_of projected (fd_path f) \<noteq> None) \<and>
      (fd_dependency f = ''FORBIDDEN'' \<longrightarrow> (\<forall>v. resolve_path d (fd_path f) = Inr v \<longrightarrow> v \<in> {VNone, VList [], VDict [], VStr []})))"
proof -
  obtain projected where f: "foldM (consume_step d) [] (cm_fields m) = Inr projected" and p: "dget p ''fields'' VNone = VDict projected"
    using assms by (clarsimp simp: project_context_def Let_def bnd_eq_Inr req_eq_Inr) (rule that, assumption, simp add: dget_def)
  note look = consume_Inr [OF f, simplified]
  have each: "(fd_dependency g = ''REQUIRED'' \<longrightarrow> map_of projected (fd_path g) \<noteq> None) \<and>
      (fd_dependency g = ''FORBIDDEN'' \<longrightarrow> (\<forall>v. resolve_path d (fd_path g) = Inr v \<longrightarrow> v \<in> {VNone, VList [], VDict [], VStr []}))"
    if g: "g \<in> set (cm_fields m)" for g
  proof -
    obtain r where r: "project_field d g = Inr r" using foldM_each [OF f g] by (auto simp: is_ok_iff)
    show ?thesis
    proof (cases r)
      case None
      then show ?thesis using r project_field_None [of d g] by auto
    next
      case (Some w)
      then show ?thesis using r project_field_Some [of d g w] look [of "fd_path g" w] g by auto
    qed
  qed
  show ?thesis using p look each consumption_sound [OF assms(2)] by blast
qed

definition example_consumer_manifest :: pydict where
  "example_consumer_manifest =
    [(''consumer_kind'', VStr ''SRI''), (''consumer_version'', VStr ''0.1''),
     (''accepted_context_schema_versions'', VList [VStr ''0.1'']), (''accepted_context_pack_versions'', VList [VStr ''0.1'']),
     (''field_dependencies'', VList
        [VDict [(''field_path'', VStr ''calendar_context.calendar_year''), (''dependency'', VStr ''REQUIRED''), (''role'', VStr ''FILTER'')],
         VDict [(''field_path'', VStr ''market_condition_context''), (''dependency'', VStr ''FORBIDDEN''), (''role'', VStr ''DISPLAY_ONLY'')]]),
     (''admissible_cutoff_rule'', VStr ''FVT''), (''missingness_behavior'', VStr ''FAIL_CLOSED''), (''authority_effect'', VStr ''NONE'')]"

definition example_consumption_payload :: consumption where
  "example_consumption_payload = \<lparr>cm_kind = ''SRI'', cm_version = ''0.1'', cm_schemas = [''0.1''], cm_packs = [''0.1''],
     cm_fields = [\<lparr>fd_path = ''calendar_context.calendar_year'', fd_dependency = ''REQUIRED'', fd_role = ''FILTER''\<rparr>,
       \<lparr>fd_path = ''market_condition_context'', fd_dependency = ''FORBIDDEN'', fd_role = ''DISPLAY_ONLY''\<rparr>],
     cm_cutoff = ''FVT'', cm_missingness = ''FAIL_CLOSED''\<rparr>"

definition example_context_record :: pydict where
  "example_context_record = [(''schema_version'', VStr ''0.1''), (''context_pack_version'', VStr ''0.1''), (''occurrence_context_id'', VStr ''I''),
     (''first_valid_time'', VStr ''T''), (''calendar_context'', VDict [(''calendar_year'', VInt 2026)]), (''market_condition_context'', VNone)]"

lemma example_manifest_rows:
  "foldM manifest_step [] (case dget example_consumer_manifest ''field_dependencies'' VNone of VList xs \<Rightarrow> xs | _ \<Rightarrow> []) = Inr (cm_fields example_consumption_payload)"
  by code_simp

lemma example_consumption: "\<exists>h. validate_consumption_manifest example_consumer_manifest = Inr (example_consumption_payload, h)"
proof -
  have "plain_data (VDict (consumption_dict example_consumption_payload))" by code_simp
  then obtain h where h: "sha256_payload ''OVC.OCCURRENCE_CONTEXT.CONSUMER_MANIFEST'' (VDict (consumption_dict example_consumption_payload)) = Inr h"
    using printable_hash by blast
  have missing: "sort (filter (\<lambda>f. \<not> dhas example_consumer_manifest f) MANIFEST_REQUIRED) = []" by code_simp
  have texts: "sorted_texts (VList [VStr ''0.1'']) = Inr [''0.1'']" by code_simp
  have sorted: "sort_key fd_path (cm_fields example_consumption_payload) = cm_fields example_consumption_payload" by code_simp
  note rows = example_manifest_rows [unfolded example_consumer_manifest_def dget_def, simplified]
  have payload: "\<lparr>cm_kind = ''SRI'', cm_version = ''0.1'', cm_schemas = [''0.1''], cm_packs = [''0.1''],
     cm_fields = cm_fields example_consumption_payload, cm_cutoff = ''FVT'', cm_missingness = ''FAIL_CLOSED''\<rparr> = example_consumption_payload"
    by (simp add: example_consumption_payload_def)
  show ?thesis
    unfolding validate_consumption_manifest_def Let_def missing
    by (simp add: example_consumer_manifest_def ditem_def py_set_def texts rows sorted payload h)
qed

theorem projection_exact_witness:
  "\<exists>p projected. project_context example_context_record example_consumer_manifest = Inr p \<and> dget p ''fields'' VNone = VDict projected \<and>
    map_of projected ''calendar_context.calendar_year'' = Some (VInt 2026) \<and> map_of projected ''market_condition_context'' = None"
proof -
  obtain h where h: "validate_consumption_manifest example_consumer_manifest = Inr (example_consumption_payload, h)" using example_consumption by blast
  have f: "foldM (consume_step example_context_record) [] (cm_fields example_consumption_payload) = Inr [(''calendar_context.calendar_year'', VInt 2026)]"
    by code_simp
  obtain p where p: "project_context example_context_record example_consumer_manifest = Inr p"
    using h f by (simp add: project_context_def) (simp add: example_context_record_def example_consumption_payload_def dget_def ditem_def canonical_json_def list_ex_iff)
  have r: "resolve_path example_context_record ''calendar_context.calendar_year'' = Inr (VInt 2026)" by code_simp
  obtain projected where pr: "dget p ''fields'' VNone = VDict projected" and look: "\<forall>path v. map_of projected path = Some v \<longleftrightarrow>
      (\<exists>f \<in> set (cm_fields example_consumption_payload). fd_path f = path \<and> fd_dependency f \<noteq> ''FORBIDDEN'' \<and> resolve_path example_context_record path = Inr v)"
    using projection_exact [OF p h] by blast
  have "map_of projected ''calendar_context.calendar_year'' = Some (VInt 2026)" using look r by (simp add: example_consumption_payload_def)
  moreover have "map_of projected ''market_condition_context'' \<noteq> Some v" for v using look by (simp add: example_consumption_payload_def)
  ultimately show ?thesis using p pr by (metis not_None_eq)
qed

subsection \<open>What a registry admits\<close>

lemma first_admission_Some:
  "first_admission xs payload = Inr (Some adm) \<Longrightarrow> VDict adm \<in> set xs \<and> admission_matches adm payload"
  by (induction xs) (auto split: pyval.splits if_splits)

lemma mcarb_parts:
  assumes "build_mcarb_context_ref data registry fixture_only = Inr r"
  obtains admission i descriptor where "find_admission registry data = Inr admission"
    and "admission_id registry admission fixture_only (dget data ''kind'' VNone) = Inr i"
    and "check_descriptor admission fixture_only (dget data ''compact_descriptor'' VNone) = Inr descriptor"
    and "walk_forbidden (VDict data) = Inr ()" and "in_strs (dget data ''kind'' VNone) MCARB_KINDS = Inr True"
    and "dget r ''context_admission_id'' VNone = VStr i" and "dget r ''compact_descriptor'' VNone = descriptor"
    and "dget r ''authority_effect'' VNone = VStr ''NONE''"
  using assms unfolding build_mcarb_context_ref_def Let_def
proof (elim bndE, goal_cases)
  case (1 u1 known u2 u3 admission i descriptor ids out)
  show ?case by (rule 1(1) [OF 1(6-8)]) (use 1(3-5,11) in \<open>auto simp: req_eq_Inr dget_def\<close>)
qed

text \<open>An auxiliary reference needs an admission. Outside fixtures a reference is built only if the registry
  lists an admission of the same kind, candidate, version and schema that claims no authority, and
  is not closed; the reference carries the identifier of that admission and no authority, its data has no
  vector field at any depth, and its descriptor only fields the admission allows.\<close>

theorem auxiliary_reference_admitted:
  assumes "build_mcarb_context_ref data registry False = Inr r"
  shows "\<exists>xs adm. iter_of (dget registry ''admissions'' (VList [])) = Inr xs \<and> VDict adm \<in> set xs \<and> admission_matches adm data \<and>
    dget registry ''status'' VNone \<noteq> VStr ''NO_SCIENTIFIC_ADMISSIONS'' \<and> dget adm ''authority_effect'' (VStr ''NONE'') = VStr ''NONE'' \<and>
    dget r ''context_admission_id'' VNone = VStr (py_str (dget adm ''context_admission_id'' VNone)) \<and>
    dget r ''authority_effect'' VNone = VStr ''NONE'' \<and> free_of vector_key (VDict data) \<and>
    (\<forall>kvs. dget r ''compact_descriptor'' VNone = VDict kvs \<longrightarrow>
      (\<exists>allowed. iter_of (dget adm ''compact_descriptor_allowlist'' (VList [])) = Inr allowed \<and> (\<forall>(k, v) \<in> set kvs. VStr k \<in> set allowed)))"
proof -
  obtain admission i descriptor where fa: "find_admission registry data = Inr admission"
    and ai: "admission_id registry admission False (dget data ''kind'' VNone) = Inr i"
    and cd: "check_descriptor admission False (dget data ''compact_descriptor'' VNone) = Inr descriptor"
    and w: "walk_forbidden (VDict data) = Inr ()" and k: "in_strs (dget data ''kind'' VNone) MCARB_KINDS = Inr True"
    and r: "dget r ''context_admission_id'' VNone = VStr i" "dget r ''compact_descriptor'' VNone = descriptor"
      "dget r ''authority_effect'' VNone = VStr ''NONE''"
    using assms by (rule mcarb_parts)
  obtain adm where adm: "admission = Some adm" and st: "dget registry ''status'' VNone \<noteq> VStr ''NO_SCIENTIFIC_ADMISSIONS''"
    and ef: "dget adm ''authority_effect'' (VStr ''NONE'') = VStr ''NONE''" and i: "i = py_str (dget adm ''context_admission_id'' VNone)"
    using ai by (auto simp: admission_id_def oc_error_def bnd_eq_Inr req_eq_Inr ditem_Inr dget_Some split: if_splits option.splits)
  obtain xs where xs: "iter_of (dget registry ''admissions'' (VList [])) = Inr xs" and f: "first_admission xs data = Inr (Some adm)"
    using fa adm by (auto simp: find_admission_def bnd_eq_Inr)
  note m = first_admission_Some [OF f]
  obtain s where "dget data ''kind'' VNone = VStr s" using k by (auto simp: in_strs_True)
  then have "adm \<noteq> []" using m by (auto simp: admission_matches_def dget_def)
  then have al: "\<exists>allowed. iter_of (dget adm ''compact_descriptor_allowlist'' (VList [])) = Inr allowed \<and> (\<forall>(k, v) \<in> set kvs. VStr k \<in> set allowed)"
    if "descriptor = VDict kvs" for kvs
    using cd that unfolding adm
    by (cases "dget data ''compact_descriptor'' VNone") (auto simp: check_descriptor_def oc_error_def bnd_eq_Inr req_eq_Inr py_set_def split: if_splits)
  have "free_of vector_key (VDict data)" using w by (simp only: walk_forbidden_def walk_Inr)
  then show ?thesis using xs m st ef r i al by blast
qed

definition example_data :: pydict where
  "example_data = [(''kind'', VStr ''VOLATILITY_STATE''), (''record_id'', VStr ''r''), (''record_schema_id'', VStr ''s''),
     (''record_logical_hash'', VStr ''h''), (''candidate_or_pack_id'', VStr ''c''), (''candidate_or_pack_version'', VStr ''1''),
     (''first_valid_time'', VStr ''t''), (''availability_status'', VStr ''AVAILABLE''), (''qualification_record_id'', VStr ''q''),
     (''qualification_status'', VStr ''Q''), (''compact_descriptor'', VDict [(''level'', VStr ''HIGH'')])]"

definition example_registry :: pydict where
  "example_registry = [(''status'', VStr ''OPEN''), (''admissions'', VList
     [VDict [(''kind'', VStr ''VOLATILITY_STATE''), (''candidate_or_pack_id'', VStr ''c''), (''candidate_or_pack_version'', VStr ''1''),
        (''record_schema_id'', VStr ''s''), (''context_admission_id'', VStr ''ADM.1''), (''compact_descriptor_allowlist'', VList [VStr ''level''])]])]"

theorem auxiliary_reference_admitted_witness:
  "\<exists>r. build_mcarb_context_ref example_data example_registry False = Inr r \<and> dget r ''context_admission_id'' VNone = VStr ''ADM.1'' \<and>
    free_of vector_key (VDict example_data)"
proof -
  have missing: "sort (filter (\<lambda>f. dget example_data f VNone \<in> {VNone, VStr []}) MCARB_REQUIRED) = []"
    by (simp add: MCARB_REQUIRED_def example_data_def dget_def)
  have kind: "in_strs (dget example_data ''kind'' VNone) MCARB_KINDS = Inr True" by code_simp
  have walked: "walk_forbidden (VDict example_data) = Inr ()" by code_simp
  define adm where "adm = (case dget example_registry ''admissions'' VNone of VList [VDict a] \<Rightarrow> a | _ \<Rightarrow> [])"
  have found: "find_admission example_registry example_data = Inr (Some adm)"
    by (simp add: find_admission_def adm_def example_registry_def example_data_def dget_def admission_matches_def)
  have i: "admission_id example_registry (Some adm) False (dget example_data ''kind'' VNone) = Inr ''ADM.1''"
    by (simp add: admission_id_def adm_def example_registry_def dget_def ditem_def)
  have "walk_forbidden (VDict [(''level'', VStr ''HIGH'')]) = Inr ()" by code_simp
  then have d: "check_descriptor (Some adm) False (dget example_data ''compact_descriptor'' VNone) = Inr (VDict [(''level'', VStr ''HIGH'')])"
    by (simp add: check_descriptor_def adm_def example_registry_def example_data_def dget_def py_set_def)
  have ids: "sorted_texts (dget example_data ''source_record_ids'' (VList [])) = Inr []" by code_simp
  obtain r where r: "build_mcarb_context_ref example_data example_registry False = Inr r" "dget r ''context_admission_id'' VNone = VStr ''ADM.1''"
    unfolding build_mcarb_context_ref_def Let_def missing kind walked found i d ids bnd_Inr
    by (simp add: example_data_def dget_def canonical_json_def list_ex_iff)
  with auxiliary_reference_admitted [OF r(1)] show ?thesis by blast
qed

subsection \<open>The context of an episode\<close>

definition phase_rank :: "pydict \<Rightarrow> string \<times> string" where
  "phase_rank p = (str_of (dget p ''first_valid_time'' VNone), str_of (dget p ''phase_segment_id'' VNone))"

lemma phase_max_member: "phase_max p ps = Inr b \<Longrightarrow> b \<in> set (p # ps)"
  unfolding phase_max_def
  by (rule foldM_invariant [where P = "\<lambda>b. b \<in> set (p # ps)", rotated -1]) (auto simp: bnd_eq_Inr split: if_splits)

lemma pair_gt_strs: "pair_gt (VStr a, VStr b) (VStr c, VStr d) = Inr ((c, d) < (a, b))"
  by (auto simp: pair_gt_def val_gt_def)

lemma phase_max_upper:
  assumes "phase_max p ps = Inr b" and "\<forall>q \<in> set (p # ps). phase_key q = Inr (VStr (fst (phase_rank q)), VStr (snd (phase_rank q)))"
  shows "\<forall>q \<in> set (p # ps). phase_rank q \<le> phase_rank b"
  using assms
proof (induction ps arbitrary: p)
  case Nil
  then show ?case by (simp add: phase_max_def)
next
  case (Cons x xs)
  define n where "n = (if phase_rank p < phase_rank x then x else p)"
  have "pair_gt (VStr (fst (phase_rank x)), VStr (snd (phase_rank x))) (VStr (fst (phase_rank p)), VStr (snd (phase_rank p))) =
    Inr (phase_rank p < phase_rank x)"
    by (simp only: pair_gt_strs prod.collapse)
  then have "phase_max n xs = Inr b" using Cons.prems by (simp add: phase_max_def n_def)
  from Cons.IH [OF this] Cons.prems(2) have "\<forall>q \<in> set (n # xs). phase_rank q \<le> phase_rank b" by (simp add: n_def)
  moreover have "phase_rank p \<le> phase_rank n" "phase_rank x \<le> phase_rank n" by (auto simp: n_def)
  ultimately show ?case by (auto intro: order_trans)
qed

lemma iso_duration_Inr:
  "iso_duration delta = Inr s \<longleftrightarrow> - 1000000 < delta \<and> s = ''PT'' @ int_str (max 0 (delta div 1000000)) @ ''S''"
proof -
  have "\<not> - (- delta div 1000000) < 0 \<longleftrightarrow> - 1000000 < delta" "- 1000000 < delta \<Longrightarrow> - (- delta div 1000000) = max 0 (delta div 1000000)"
    if "delta < 0"
    using that by linarith+
  then show ?thesis by (auto simp: iso_duration_def Let_def bnd_eq_Inr req_eq_Inr max_def)
qed

lemma phase_spec: "map_of RECORD_SPECS ''phase_segment'' = Some (the (map_of RECORD_SPECS ''phase_segment''))"
  by (simp add: RECORD_SPECS_def)

lemma phase_key_validated:
  assumes "mapM (validate_record ''phase_segment'') phases = Inr records" and "x \<in> set records" and "is_str (dget x ''first_valid_time'' VNone)"
  shows "phase_key x = Inr (VStr (fst (phase_rank x)), VStr (snd (phase_rank x)))"
proof -
  obtain r where "validate_record ''phase_segment'' r = Inr x" using mapM_mem [OF assms(1,2)] by blast
  then obtain p where b: "build_record ''phase_segment'' p = Inr x" unfolding validate_record_Inr [OF phase_spec] by blast
  have "id_field (the (map_of RECORD_SPECS ''phase_segment'')) = ''phase_segment_id''" by (simp add: RECORD_SPECS_def)
  with build_record_map_of(3) [OF b phase_spec] obtain i where "map_of x ''phase_segment_id'' = Some (VStr i)" by auto
  moreover obtain t where "map_of x ''first_valid_time'' = Some (VStr t)"
    using assms(3) by (cases "map_of x ''first_valid_time''") (auto simp: dget_def is_str_iff)
  ultimately show ?thesis by (simp add: phase_key_def phase_rank_def ditem_def dget_def)
qed

lemma episode_context_parts:
  assumes "episode_relative_context genesis snapshot phases = Inr c"
  obtains g s ge se birth as_of records current elapsed pref where
    "validate_record ''episode_genesis'' genesis = Inr g" and "validate_record ''episode_snapshot'' snapshot = Inr s"
    and "map_of s ''episode_id'' = Some se" and "map_of g ''episode_id'' = Some ge" and "py_eq se ge"
    and "parse_rfc3339 (py_str (dget g ''birth_effective_time'' VNone)) = Inr birth"
    and "parse_rfc3339 (py_str (dget s ''as_of_time'' VNone)) = Inr as_of"
    and "mapM (validate_record ''phase_segment'') phases = Inr records"
    and "\<forall>p \<in> set records. py_eq (dget p ''episode_id'' VNone) ge"
    and "(case records of [] \<Rightarrow> Inr None | p # ps \<Rightarrow> bnd (phase_max p ps) (\<lambda>x. Inr (Some x))) = Inr current"
    and "iso_duration (as_of - birth) = Inr elapsed"
    and "(case current of None \<Rightarrow> Inr VNone | Some p \<Rightarrow> bnd (ref_of p ''phase_segment_id'') (\<lambda>d. Inr (VDict d))) = Inr pref"
    and "dget c ''elapsed_duration'' VNone = VStr elapsed" and "dget c ''current_phase_ref'' VNone = pref"
    and "dget c ''lifecycle_status'' VNone = VStr (py_str (dget s ''status'' VNone))"
    and "dget c ''censoring_context'' VNone \<noteq> VNone \<longleftrightarrow> py_str (dget s ''status'' VNone) = ''CENSORED''"
    and "dget c ''completion_context'' VNone \<noteq> VNone \<longleftrightarrow> py_str (dget s ''status'' VNone) \<in> {''TERMINATED'', ''CONFLICTED''}"
  using assms unfolding episode_relative_context_def
proof (elim bndE, goal_cases)
  case (1 g s se ge u birth bv as_of av records us current status' sv st gref pack sref elapsed members mv pref at')
  have c: "c = [(''episode_id'', ge), (''episode_genesis_ref'', VDict (gref @ [(''boundary_pack_id'', pack)])), (''snapshot_ref'', VDict sref),
      (''elapsed_duration'', VStr elapsed), (''elapsed_eligible_observation_count'', VInt (int (length members))),
      (''current_phase_ref'', pref), (''lifecycle_status'', VStr (py_str sv)),
      (''censoring_context'', if py_str sv = ''CENSORED'' then status_context (py_str sv) st else VNone),
      (''completion_context'', if py_str sv \<in> {''TERMINATED'', ''CONFLICTED''} then status_context (py_str sv) st else VNone),
      (''as_of_time'', at')]"
    using 1(25) unfolding 1(15) [unfolded sum.inject, symmetric] by (simp only: sum.inject)
  note looked = 1(7,9,14) [unfolded ditem_Inr, THEN dget_Some]
  have m: "\<forall>p \<in> set records. py_eq (dget p ''episode_id'' VNone) ge"
  proof
    fix p assume "p \<in> set records"
    moreover have "is_ok (mapM (\<lambda>p. bnd (ditem p ''episode_id'')
        (\<lambda>e. req OccurrenceContextError (py_eq e ge) ''phase/genesis episode mismatch'')) records)"
      unfolding 1(12) by simp
    ultimately have "is_ok (bnd (ditem p ''episode_id'') (\<lambda>e. req OccurrenceContextError (py_eq e ge) ''phase/genesis episode mismatch''))"
      unfolding is_ok_mapM by blast
    then show "py_eq (dget p ''episode_id'' VNone) ge" by (auto simp: is_ok_iff bnd_eq_Inr req_eq_Inr ditem_Inr dget_Some)
  qed
  show ?case
    by (rule 1(1) [OF 1(2,3) _ _ _ _ _ 1(11) m 1(13,20,23)])
      (use 1(4-6,8,10) in \<open>simp_all add: ditem_Inr req_eq_Inr looked, simp_all add: c dget_def status_context_def\<close>)
qed


definition example_birth :: pydict where
  "example_birth = [(''boundary_pack_id'', VStr ''P''), (''source_release_id'', VStr ''R''), (''instrument_id'', VStr ''GBPUSD''), (''side'', VStr ''BID''),
     (''scope_id'', VStr ''S''), (''scale_id'', VStr ''15M''), (''birth_frame_id'', VStr ''F''), (''birth_boundary_rule_id'', VStr ''B''),
     (''birth_effective_time'', VStr ''2026-01-01T00:15:00Z''), (''first_valid_time'', VStr ''2026-01-01T00:15:00Z''), (''authority'', VStr ''A'')]"

definition example_snapshot :: "string \<Rightarrow> pydict" where
  "example_snapshot e = [(''episode_id'', VStr e), (''as_of_time'', VStr ''2026-01-01T00:30:00Z''), (''first_valid_time'', VStr ''2026-01-01T00:30:00Z''),
     (''status'', VStr ''CENSORED''), (''member_ids'', VList [VStr ''F'']), (''phase_segment_ids'', VList []), (''boundary_event_ids'', VList []),
     (''authority'', VStr ''A'')]"

definition example_phase :: "string \<Rightarrow> pydict" where
  "example_phase e = [(''episode_id'', VStr e), (''phase_type'', VStr ''T''), (''start_time'', VStr ''2026-01-01T00:15:00Z''),
     (''end_time'', VStr ''2026-01-01T00:30:00Z''), (''first_valid_time'', VStr ''2026-01-01T00:30:00Z''), (''source_record_ids'', VList []),
     (''authority'', VStr ''A'')]"

lemma built_and_valid:
  assumes "map_of RECORD_SPECS kind = Some spec" and "wf_dict p" and "\<forall>(k, v) \<in> set p. field_ok k v \<and> hash_ok v"
    and "\<forall>f \<in> set (required spec). present p f" and "is_ok (kind_checks kind spec (norm_payload p))"
    and "\<forall>k \<in> fst ` set p. k \<notin> derived_fields spec"
  obtains r where "validate_record kind r = Inr r" and "build_record kind p = Inr r"
  using build_record_ok [OF assms(1-5)] built_validates assms(1,6) by blast

lemma example_episode_records:
  obtains g s p e where "validate_record ''episode_genesis'' g = Inr g" and "validate_record ''episode_snapshot'' s = Inr s"
    and "validate_record ''phase_segment'' p = Inr p" and "map_of g ''episode_id'' = Some (VStr e)"
    and "build_record ''episode_genesis'' example_birth = Inr g" and "build_record ''episode_snapshot'' (example_snapshot e) = Inr s"
    and "build_record ''phase_segment'' (example_phase e) = Inr p" and "e \<noteq> []"
proof -
  let ?G = "the (map_of RECORD_SPECS ''episode_genesis'')" and ?S = "the (map_of RECORD_SPECS ''episode_snapshot'')"
    and ?P = "the (map_of RECORD_SPECS ''phase_segment'')"
  have sp: "map_of RECORD_SPECS ''episode_genesis'' = Some ?G" "map_of RECORD_SPECS ''episode_snapshot'' = Some ?S"
    "map_of RECORD_SPECS ''phase_segment'' = Some ?P"
    by (simp_all add: RECORD_SPECS_def)
  note sd = field_ok_def SORTED_LIST_FIELDS_def
  have "wf_dict example_birth" by code_simp
  moreover have "\<forall>(k, v) \<in> set example_birth. field_ok k v \<and> hash_ok v" by (simp add: example_birth_def sd)
  moreover have "\<forall>f \<in> set (required ?G). present example_birth f" by code_simp
  moreover have "is_ok (kind_checks ''episode_genesis'' ?G (norm_payload example_birth))" by code_simp
  moreover have "\<forall>k \<in> fst ` set example_birth. k \<notin> derived_fields ?G" by code_simp
  ultimately obtain g where g: "validate_record ''episode_genesis'' g = Inr g" "build_record ''episode_genesis'' example_birth = Inr g"
    by (rule built_and_valid [OF sp(1)])
  obtain e where e: "map_of g (id_field ?G) = Some (VStr e)" and dg: "digest (prefix_of ?G) (VDict (identity_payload ?G g)) 32 = Inr e"
    by (rule build_record_id [OF g(2) sp(1)])
  have en: "e \<noteq> []" using dg by (auto simp: digest_def bnd_eq_Inr)
  have ge: "map_of g ''episode_id'' = Some (VStr e)" using e by (simp add: RECORD_SPECS_def)
  have "wf_dict (example_snapshot e)" by (simp add: example_snapshot_def wf_dict_def)
  moreover have "\<forall>(k, v) \<in> set (example_snapshot e). field_ok k v \<and> hash_ok v" by (simp add: example_snapshot_def sd)
  moreover have "\<forall>f \<in> set (required ?S). present (example_snapshot e) f" using en by (simp add: example_snapshot_def RECORD_SPECS_def present_def)
  moreover have "is_ok (kind_checks ''episode_snapshot'' ?S (norm_payload (example_snapshot e)))" by (simp add: kind_checks_def)
  moreover have "\<forall>k \<in> fst ` set (example_snapshot e). k \<notin> derived_fields ?S" by (simp add: example_snapshot_def derived_fields_def RECORD_SPECS_def)
  ultimately obtain s where s: "validate_record ''episode_snapshot'' s = Inr s" "build_record ''episode_snapshot'' (example_snapshot e) = Inr s"
    by (rule built_and_valid [OF sp(2)])
  have "wf_dict (example_phase e)" by (simp add: example_phase_def wf_dict_def)
  moreover have "\<forall>(k, v) \<in> set (example_phase e). field_ok k v \<and> hash_ok v" by (simp add: example_phase_def sd)
  moreover have "\<forall>f \<in> set (required ?P). present (example_phase e) f" using en by (simp add: example_phase_def RECORD_SPECS_def present_def)
  moreover have "is_ok (kind_checks ''phase_segment'' ?P (norm_payload (example_phase e)))" by (simp add: kind_checks_def)
  moreover have "\<forall>k \<in> fst ` set (example_phase e). k \<notin> derived_fields ?P" by (simp add: example_phase_def derived_fields_def RECORD_SPECS_def)
  ultimately obtain p where p: "validate_record ''phase_segment'' p = Inr p" "build_record ''phase_segment'' (example_phase e) = Inr p"
    by (rule built_and_valid [OF sp(3)])
  show thesis by (rule that [OF g(1) s(1) p(1) ge g(2) s(2) p(2) en])
qed


end
