(* ===== verification/Spec2Isabelle.thy ===== *)
theory Spec2Isabelle
  imports C1_Bars C2E_Replay C2E_AG2 C2E_Persistence C2V_Computability C2V_Transitions OC_Consumers
begin

text \<open>
  Verification of the replay core of the OVC repository (\<^verbatim>\<open>src/src/ovc\<close>, Python).

  The program turns sealed market bars into facts, episodes and contexts, each layer referring to the one
  below by identifiers that are hashes of canonical text. Each is fail-closed: an input outside its
  contract raises. The active chain is OPT-A (sealed bars, files) to OPT-B.C1 (decimal facts of one bar) to
  OPT-B.C2 vNext (structural records over many bars, of which computability, population accounting and
  transitions are modelled) to OPT-B.C2E v0.2 (the event-sourced engine of structural episodes), with
  OccurrenceContext beside it (what was true around one occurrence, for consumers that declare what they read).

  \<^bold>\<open>How the code is written in HOL.\<close> A function that may raise returns \<open>exn + 'a\<close>; every \<^verbatim>\<open>raise\<close>, early
  return and missing key is a branch. A method that changes its object is an action, a function from the
  old state to a result and the new state, and keeps what it wrote before it raised. Dictionaries are
  association lists in insertion order, untyped values are \<open>pyval\<close>, objects with a fixed set of fields
  are records. Loops are structural recursions, folds or functions with a termination proof; no
  definition needs fuel. The definitions compute, and the examples evaluate them.

  \<^bold>\<open>The theories, bottom up.\<close>
  \<^item> Python: \<open>Py_Prelude\<close> (exceptions, folds that raise, actions and triples, texts, dictionaries, sorting,
    the locale \<open>keyed_rows\<close>), \<open>Py_Decimal\<close> (decimal arithmetic at a precision), \<open>Py_Value\<close> (values,
    \<^verbatim>\<open>==\<close>, \<^verbatim>\<open>str\<close>, membership), \<open>Py_Time\<close> (ISO times), \<open>Py_Sha256\<close> (SHA-256 on 32-bit words),
    \<open>Py_Json\<close> (\<^verbatim>\<open>json.dumps\<close>), \<open>Py_Float\<close> (the quotient of two counts and its \<^verbatim>\<open>repr\<close>), \<open>Py_Walk\<close>
    (walks that refuse fields).
  \<^item> \<open>C1_Bars\<close>: \<^verbatim>\<open>opt_b/c1\<close>. Admission of a bar, the eighteen formulas, the prior bar, the result, its
    validation and its text.
  \<^item> \<open>C2V_Computability\<close>: \<^verbatim>\<open>opt_b/c2_vnext/computability.py\<close>. Status of a component from its declared
    dependencies, eligibility of a consumer, populations and overlaps.
  \<^item> \<open>C2V_Transitions\<close>: \<^verbatim>\<open>opt_b/c2_vnext/transitions.py\<close>. Classification of the change between two records,
    and the six raw detectors (crossing, touch, container, distance, reference, structure).
  \<^item> \<open>C2E_Serialization\<close>, \<open>C2E_Models\<close>: \<^verbatim>\<open>serialization.py\<close> and \<^verbatim>\<open>models.py\<close> of \<^verbatim>\<open>opt_b/c2e_v2\<close>. Canonical
    bytes, identifiers, the ten record kinds, builder and validator. Locale \<open>identity_text\<close>: the
    contract of an identifier scheme, interpreted on \<open>canonical_bytes\<close>.
  \<^item> \<open>C2E_Boundary_Pack\<close>, \<open>C2E_Resolution\<close>: \<^verbatim>\<open>boundary_pack.py\<close>, \<^verbatim>\<open>dependency.py\<close>, \<^verbatim>\<open>candidate.py\<close>,
    \<^verbatim>\<open>resolver.py\<close>. Which candidates are evaluable and which take effect. Their tables (compatibility rows,
    dependency rows) are interpretations of \<open>keyed_rows\<close>.
  \<^item> \<open>C2E_Stream\<close>, \<open>C2E_Lifecycle\<close>, \<open>C2E_Engine\<close>: \<^verbatim>\<open>stream.py\<close>, \<^verbatim>\<open>topology.py\<close>, \<^verbatim>\<open>lifecycle.py\<close>,
    \<^verbatim>\<open>projection.py\<close>. The engine is the record \<open>engine\<close> of a stream, a topology and three dictionaries
    (\<^verbatim>\<open>EpisodeEngine.__init__\<close>); each public method is an action (\<open>birth\<close>, \<open>continue_episode\<close>,
    \<open>censor\<close>, \<open>terminate\<close>, \<open>link_episodes\<close>, ...). Locale \<open>append_only\<close>: what a client of the stream relies on.
  \<^item> \<open>C2E_Persistence\<close>: \<^verbatim>\<open>persistence.py\<close>, \<^verbatim>\<open>checkpoint.py\<close>, \<^verbatim>\<open>downstream.py\<close>, \<^verbatim>\<open>remap.py\<close>,
    \<^verbatim>\<open>assurance_metrics.py\<close>. Manifests, partitions, restart, hand-off, rates.
  \<^item> \<open>C2E_Rules\<close>, \<open>C2E_Handoff\<close>: \<^verbatim>\<open>firewall.py\<close>, \<^verbatim>\<open>source_binding.py\<close>, \<^verbatim>\<open>stable_signatures.py\<close>, both
    \<^verbatim>\<open>empirical_boundary_rules\<close> modules, \<^verbatim>\<open>handoff.py\<close>, \<^verbatim>\<open>handoff_v0_3.py\<close>. Admission of an observation
    as an input frame, and the boundary predicates of a frame.
  \<^item> \<open>C2E_Source\<close>, \<open>C2E_Replay\<close>, \<open>C2E_AG2\<close>: \<^verbatim>\<open>source_replay.py\<close>, \<^verbatim>\<open>source_replay_runtime.py\<close>,
    \<^verbatim>\<open>ag2_comparator.py\<close>. The replay that ties it together (project a materialisation, build the frames,
    judge, resolve, drive the engine) and the comparison of its output with a table of runs.
  \<^item> \<open>OC_Context\<close>, \<open>OC_Consumers\<close>: \<^verbatim>\<open>context/occurrence_context\<close>. The context of an occurrence, its
    identity, chronology, supersession and replay; consumers, auxiliary references and episode contexts.
    The fields a consumer declares are a further interpretation of \<open>keyed_rows\<close>.

  \<^bold>\<open>What is shown.\<close>
  \<^item> Engine: whatever sequence of calls is made, returning or raising, the invariant holds, nothing written
    changes, and projecting the stream gives back the state the engine keeps (event sourcing as a
    refinement). Adding an edge keeps the topology acyclic; the search decides reachability and ends.
  \<^item> Resolver: what takes effect is pairwise lawful and in order of priority, a conflict is real, and the
    order of arrival does not matter. A candidate is evaluable exactly when its dependencies allow it.
  \<^item> Identity: canonical bytes determine the canonical form; identifiers stand for identity fields, up to a
    collision that the statement names. Built records validate; partitions, checkpoints and hand-offs
    do not depend on layout and detect divergence.
  \<^item> Admission: a bar, a frame or a payload that gets in satisfies the contract (firewall, source binding,
    causality, references), and proper inputs always produce a result.
  \<^item> Replay: the counters reconcile with the stream; the base module, which the runtime module replaces,
    never returns.
  \<^item> C2 vNext: status, eligibility, denominators and overlaps are what their inputs say; a transition is
    classified by exactly what changed, and a crossing is reported exactly when the path changes sides.
  \<^item> Contexts: never backdated, dependent on content only, always built for proper requests; a projection
    holds exactly what was declared; an episode context is causal.

  \<^bold>\<open>Bounds.\<close> Decimal arithmetic is at 34 digits where the code opens a local context and at 28 otherwise, and
  the limits of the exponent, about a million, are not modelled. Times are instants in the years 1 to 9999
  at a microsecond; leaving that range raises, as in Python. SHA-256 is defined, and no
  property assumes that it has no collisions. Python integers are unbounded and modelled as \<open>int\<close>.
  Floats are texts, since the code only refuses or prints them, except the quotient of two
  counts. The count 4072 of the June replay is a constant of the code.

  \<^bold>\<open>Not modelled.\<close> Reading and writing files, and the command lines around the functions: \<^verbatim>\<open>cli.py\<close> and
  \<^verbatim>\<open>legacy.py\<close> of C2E, the loaders of \<^verbatim>\<open>source_replay.py\<close>, all of OPT-A, the evidence store, the scripts and
  tools. The C2 vNext builders of levels, containers, relations and horizons. Packages that the source
  itself declares superseded, inactive or shadow (\<^verbatim>\<open>c2\<close>, \<^verbatim>\<open>c2p_v0_2\<close>, \<^verbatim>\<open>esl\<close>, \<^verbatim>\<open>market_grammar\<close>, \<^verbatim>\<open>sfc\<close>,
  \<^verbatim>\<open>srfd\<close>, \<^verbatim>\<open>shared_systems\<close>). Research operations and orchestration, programme genesis, development
  governance, the atlas and the consoles, which organise work around the chain. The text of built-in
  errors and the reason code beside the message of an \<^verbatim>\<open>OccurrenceContextError\<close> are not modelled.
\<close>

end
